(* ===== verification/JIT_Prelude.thy ===== *)
theory JIT_Prelude
  imports Main "HOL-Library.Sublist" "HOL-Library.Word"
begin

text \<open>
  Shared vocabulary of the development: byte strings, the pieces of the C and C++ standard
  library that the program calls (truncating copies, substring search, line splitting, decimal
  printing and reading), machine-integer conversions, and the lemmas every component uses.
  A \<open>string\<close> is a byte string (UTF-8); a \<open>wstr\<close> is a UTF-16 string, as \<open>wchar_t\<close> on Windows.
\<close>

section \<open>Collections of facts\<close>

named_theorems jit_defs \<open>small definitions that proofs unfold together\<close>
named_theorems jit_bounds \<open>buffer and width bounds\<close>
named_theorems jit_frame \<open>fields that an operation leaves alone\<close>

section \<open>Characters\<close>

abbreviation nl :: char where "nl \<equiv> CHR 0x0A"
abbreviation cr :: char where "cr \<equiv> CHR 0x0D"
abbreviation tab :: char where "tab \<equiv> CHR 0x09"
abbreviation spc :: char where "spc \<equiv> CHR 0x20"
abbreviation quo :: char where "quo \<equiv> CHR 0x22"
abbreviation bsl :: char where "bsl \<equiv> CHR 0x5C"
abbreviation nul :: char where "nul \<equiv> CHR 0x00"

type_synonym wchar = "16 word"
type_synonym wstr = "wchar list"

definition code :: "char \<Rightarrow> nat" where
  "code c = of_char c"

definition is_digit :: "char \<Rightarrow> bool" where
  "is_digit c \<longleftrightarrow> 48 \<le> code c \<and> code c \<le> 57"

definition is_space :: "char \<Rightarrow> bool" where
  "is_space c \<longleftrightarrow> code c = 32 \<or> (9 \<le> code c \<and> code c \<le> 13)"

definition lower :: "char \<Rightarrow> char" where
  "lower c = (if 65 \<le> code c \<and> code c \<le> 90 then char_of (code c + 32) else c)"

text \<open>\<open>_stricmp\<close> in the C locale: equality up to the case of ASCII letters.\<close>

definition stricmp_eq :: "string \<Rightarrow> string \<Rightarrow> bool" where
  "stricmp_eq a b \<longleftrightarrow> map lower a = map lower b"

lemma stricmp_eq_refl [simp]: "stricmp_eq a a"
  by (simp add: stricmp_eq_def)

lemma stricmp_eq_sym: "stricmp_eq a b \<longleftrightarrow> stricmp_eq b a"
  by (auto simp: stricmp_eq_def)

lemma code_less [simp, jit_bounds]: "code c < 256"
  by (simp add: code_def)

lemma code_eq_iff [simp]: "code a = code b \<longleftrightarrow> a = b"
  by (simp add: code_def)

section \<open>C strings and bounded buffers\<close>

text \<open>The bytes a \<open>char*\<close> denotes: everything before the first NUL.\<close>

definition c_str :: "string \<Rightarrow> string" where
  "c_str s = takeWhile (\<lambda>c. c \<noteq> nul) s"

text \<open>\<open>snprintf(buf, n, "%s", s)\<close> and \<open>strncpy_s(.., _TRUNCATE)\<close>: at most \<open>n - 1\<close> bytes are kept.\<close>

definition buf_copy :: "nat \<Rightarrow> string \<Rightarrow> string" where
  "buf_copy n s = take (n - 1) (c_str s)"

definition nul_free :: "string \<Rightarrow> bool" where
  "nul_free s \<longleftrightarrow> nul \<notin> set s"

lemma c_str_nul_free [simp]: "nul_free s \<Longrightarrow> c_str s = s"
  by (auto simp: c_str_def nul_free_def takeWhile_eq_all_conv)

lemma nul_free_c_str [simp]: "nul_free (c_str s)"
  by (auto simp: c_str_def nul_free_def dest: set_takeWhileD)

lemma nul_free_append [simp]: "nul_free (a @ b) \<longleftrightarrow> nul_free a \<and> nul_free b"
  by (auto simp: nul_free_def)

lemma nul_free_Nil [simp]: "nul_free []"
  by (simp add: nul_free_def)

lemma nul_free_Cons [simp]: "nul_free (c # s) \<longleftrightarrow> c \<noteq> nul \<and> nul_free s"
  by (auto simp: nul_free_def)

lemma nul_free_take [simp]: "nul_free s \<Longrightarrow> nul_free (take n s)"
  by (auto simp: nul_free_def dest: in_set_takeD)

lemma buf_copy_nul_free [simp]: "nul_free (buf_copy n s)"
  by (simp add: buf_copy_def)

lemma buf_copy_length [jit_bounds]: "0 < n \<Longrightarrow> length (buf_copy n s) < n"
  by (simp add: buf_copy_def min_def) linarith

lemma buf_copy_id [simp]: "nul_free s \<Longrightarrow> length s < n \<Longrightarrow> buf_copy n s = s"
  by (simp add: buf_copy_def)

lemma buf_copy_Nil [simp]: "buf_copy n [] = []"
  by (simp add: buf_copy_def c_str_def)

section \<open>Searching\<close>

text \<open>\<open>strstr\<close>, \<open>strchr\<close>, \<open>std::string::find\<close>: the index of the first occurrence.\<close>

fun str_find :: "string \<Rightarrow> string \<Rightarrow> nat option" where
  "str_find pat [] = (if pat = [] then Some 0 else None)"
| "str_find pat (c # cs) =
     (if prefix pat (c # cs) then Some 0 else map_option Suc (str_find pat cs))"

lemma str_find_Some_bound:
  "str_find pat s = Some i \<Longrightarrow> i + length pat \<le> length s"
  by (induction pat s arbitrary: i rule: str_find.induct)
     (auto split: if_splits dest: prefix_length_le)

lemma str_find_Some_prefix:
  "str_find pat s = Some i \<Longrightarrow> prefix pat (drop i s)"
  by (induction pat s arbitrary: i rule: str_find.induct) (auto split: if_splits)

lemma str_find_None_iff: "str_find pat s = None \<longleftrightarrow> \<not> sublist pat s"
  by (induction pat s rule: str_find.induct) (auto simp: sublist_Cons_right)

lemma str_find_prefix: "prefix pat s \<Longrightarrow> str_find pat s = Some 0"
  by (cases s) auto

lemma str_find_here [simp]: "str_find pat (pat @ s) = Some 0"
  by (rule str_find_prefix) simp

text \<open>A pattern that starts with a character absent from the text before it.\<close>

lemma str_find_skip:
  assumes "p \<notin> set xs"
  shows "str_find (p # pat) (xs @ s) = map_option (\<lambda>i. length xs + i) (str_find (p # pat) s)"
proof -
  have id: "(+) (0::nat) = id" by auto
  show ?thesis using assms
    by (induction xs) (auto simp: option.map_comp comp_def id option.map_id intro!: option.map_cong)
qed

section \<open>Lines and separators\<close>

fun split_on :: "char \<Rightarrow> string \<Rightarrow> string list" where
  "split_on d [] = [[]]"
| "split_on d (c # cs) =
     (if c = d then [] # split_on d cs
      else (case split_on d cs of [] \<Rightarrow> [[c]] | p # ps \<Rightarrow> (c # p) # ps))"

text \<open>The strings a \<open>while (std::getline(f, line, d))\<close> loop sees.\<close>

definition getlines :: "char \<Rightarrow> string \<Rightarrow> string list" where
  "getlines d s = (let ps = split_on d s in if last ps = [] then butlast ps else ps)"

lemma split_on_neq_Nil [simp]: "split_on d s \<noteq> []"
  by (cases s) (auto split: list.splits)

lemma split_on_no_sep: "d \<notin> set s \<Longrightarrow> split_on d s = [s]"
  by (induction s) auto

lemma split_on_sep_free: "p \<in> set (split_on d s) \<Longrightarrow> d \<notin> set p"
  by (induction s arbitrary: p) (auto split: if_splits list.splits)

lemma split_on_append:
  "d \<notin> set a \<Longrightarrow> split_on d (a @ d # s) = a # split_on d s"
  by (induction a) auto

lemma getlines_Nil [simp]: "getlines d [] = []"
  by (simp add: getlines_def)

lemma getlines_line:
  "d \<notin> set a \<Longrightarrow> getlines d (a @ d # s) = a # getlines d s"
  by (simp add: getlines_def split_on_append Let_def)

lemma getlines_concat:
  assumes "\<And>l. l \<in> set ls \<Longrightarrow> d \<notin> set l"
  shows "getlines d (concat (map (\<lambda>l. l @ [d]) ls)) = ls"
  using assms by (induction ls) (auto simp: getlines_line)

section \<open>Machine integers\<close>

text \<open>
  \<open>int\<close> and \<open>long\<close> are 32 bits on Windows, \<open>long long\<close>, \<open>time_t\<close> and \<open>sqlite3_int64\<close> are 64.
  Narrowing casts keep the low bits; \<open>strtol\<close> and \<open>atoi\<close> saturate.
\<close>

definition to_i32 :: "int \<Rightarrow> int" where
  "to_i32 x = (x + 2 ^ 31) mod 2 ^ 32 - 2 ^ 31"

definition to_i64 :: "int \<Rightarrow> int" where
  "to_i64 x = (x + 2 ^ 63) mod 2 ^ 64 - 2 ^ 63"

definition in_i32 :: "int \<Rightarrow> bool" where
  "in_i32 x \<longleftrightarrow> - (2 ^ 31) \<le> x \<and> x < 2 ^ 31"

definition clamp_i32 :: "int \<Rightarrow> int" where
  "clamp_i32 x = max (- (2 ^ 31)) (min (2 ^ 31 - 1) x)"

lemma to_i32_id [simp]: "in_i32 x \<Longrightarrow> to_i32 x = x"
  by (simp add: to_i32_def in_i32_def)

lemma to_i32_range [jit_bounds]: "in_i32 (to_i32 x)"
proof -
  have "0 \<le> (x + 2 ^ 31) mod 2 ^ 32" "(x + 2 ^ 31) mod 2 ^ 32 < (2 ^ 32 :: int)"
    by simp_all
  then show ?thesis
    unfolding to_i32_def in_i32_def by simp
qed

lemma clamp_i32_id [simp]: "in_i32 x \<Longrightarrow> clamp_i32 x = x"
  by (simp add: clamp_i32_def in_i32_def)

lemma clamp_i32_range [jit_bounds]: "in_i32 (clamp_i32 x)"
  by (simp add: clamp_i32_def in_i32_def)

lemma to_i32_word: "to_i32 x = sint (word_of_int x :: 32 word)"
  by (simp add: to_i32_def sint_sbintrunc' signed_take_bit_eq_take_bit_shift take_bit_eq_mod)

section \<open>Decimal numbers\<close>

definition digit :: "nat \<Rightarrow> char" where
  "digit n = char_of (48 + n)"

fun show_nat :: "nat \<Rightarrow> string" where
  "show_nat n = (if n < 10 then [digit n] else show_nat (n div 10) @ [digit (n mod 10)])"

declare show_nat.simps [simp del]

definition show_int :: "int \<Rightarrow> string" where
  "show_int i = (if i < 0 then CHR ''-'' # show_nat (nat (- i)) else show_nat (nat i))"

fun digits_val :: "nat \<Rightarrow> string \<Rightarrow> nat" where
  "digits_val acc [] = acc"
| "digits_val acc (c # cs) =
     (if is_digit c then digits_val (10 * acc + (code c - 48)) cs else acc)"

text \<open>The value \<open>strtol(s, nullptr, 10)\<close> reads, before saturation.\<close>

definition read_dec :: "string \<Rightarrow> int" where
  "read_dec s =
     (case dropWhile is_space s of
        [] \<Rightarrow> 0
      | c # cs \<Rightarrow>
          if c = CHR ''-'' then - int (digits_val 0 cs)
          else if c = CHR ''+'' then int (digits_val 0 cs)
          else int (digits_val 0 (c # cs)))"

definition strtol10 :: "string \<Rightarrow> int" where
  "strtol10 s = clamp_i32 (read_dec s)"

definition c_atoi :: "string \<Rightarrow> int" where
  "c_atoi s = strtol10 (c_str s)"

lemma strtol10_range [jit_bounds]: "in_i32 (strtol10 s)"
  by (simp add: strtol10_def jit_bounds)

lemma code_digit [simp]: "n < 10 \<Longrightarrow> code (digit n) = 48 + n"
  by (simp add: code_def digit_def)

lemma is_digit_digit [simp]: "n < 10 \<Longrightarrow> is_digit (digit n)"
  by (simp add: is_digit_def)

lemma show_nat_neq_Nil [simp]: "show_nat n \<noteq> []"
  by (subst show_nat.simps) simp

lemma show_nat_digits: "c \<in> set (show_nat n) \<Longrightarrow> is_digit c"
  by (induction n rule: show_nat.induct) (subst (asm) show_nat.simps, auto split: if_splits)

lemma show_int_chars: "c \<in> set (show_int i) \<Longrightarrow> is_digit c \<or> c = CHR ''-''"
  by (auto simp: show_int_def split: if_splits dest: show_nat_digits)

lemma show_int_neq_Nil [simp]: "show_int i \<noteq> []"
  by (simp add: show_int_def)

lemma digits_val_append:
  "(\<And>c. c \<in> set xs \<Longrightarrow> is_digit c) \<Longrightarrow>
   digits_val acc (xs @ ys) = digits_val (digits_val acc xs) ys"
  by (induction xs arbitrary: acc) auto

lemma digits_val_show_nat [simp]: "digits_val 0 (show_nat n) = n"
proof (induction n rule: show_nat.induct)
  case (1 n)
  show ?case
  proof (cases "n < 10")
    case True
    then show ?thesis by (simp add: show_nat.simps [of n])
  next
    case False
    with 1 have "digits_val 0 (show_nat (n div 10)) = n div 10" by simp
    with False show ?thesis
      by (simp add: show_nat.simps [of n] digits_val_append show_nat_digits)
  qed
qed

definition num_end :: "string \<Rightarrow> bool" where
  "num_end s \<longleftrightarrow> (case s of [] \<Rightarrow> True | c # _ \<Rightarrow> \<not> is_digit c)"

lemma digits_val_num_end: "num_end s \<Longrightarrow> digits_val acc s = acc"
  by (cases s) (auto simp: num_end_def)

lemma is_digit_not_space: "is_digit c \<Longrightarrow> \<not> is_space c"
  by (auto simp: is_digit_def is_space_def)

lemma is_digit_not_sign: "is_digit c \<Longrightarrow> c \<noteq> CHR ''-'' \<and> c \<noteq> CHR ''+''"
  by (auto simp: is_digit_def code_def)

lemma read_dec_show_int [simp]:
  assumes "num_end s"
  shows "read_dec (show_int i @ s) = i"
proof (cases "i < 0")
  case True
  then show ?thesis
    using assms
    by (simp add: read_dec_def show_int_def is_space_def code_def digits_val_append
        show_nat_digits digits_val_num_end)
next
  case False
  obtain c cs where sh: "show_nat (nat i) = c # cs"
    by (cases "show_nat (nat i)") auto
  then have "is_digit c" using show_nat_digits [of c "nat i"] by simp
  moreover have "digits_val 0 ((c # cs) @ s) = nat i"
    unfolding sh [symmetric] using assms
    by (simp only: digits_val_append show_nat_digits digits_val_show_nat digits_val_num_end)
  ultimately show ?thesis
    using False sh
    by (simp add: read_dec_def show_int_def is_digit_not_space is_digit_not_sign)
qed

lemma num_end_Nil [simp]: "num_end []"
  by (simp add: num_end_def)

lemma num_end_Cons [simp]: "num_end (c # s) \<longleftrightarrow> \<not> is_digit c"
  by (simp add: num_end_def)

lemma show_int_nul_free [simp]: "nul_free (show_int i)"
  using show_int_chars [of nul i] by (auto simp: nul_free_def is_digit_def code_def)

lemma show_int_not_in:
  assumes "\<not> is_digit c" and "c \<noteq> CHR ''-''"
  shows "c \<notin> set (show_int i)"
  using assms show_int_chars by blast

lemma c_atoi_show_int: "in_i32 i \<Longrightarrow> c_atoi (show_int i) = i"
  using read_dec_show_int [of "[]" i] by (simp add: c_atoi_def strtol10_def)

text \<open>\<open>%0wd\<close>: a number padded with zeros on the left.\<close>

definition pad0 :: "nat \<Rightarrow> int \<Rightarrow> string" where
  "pad0 w i = (let s = show_int i in replicate (w - length s) (CHR ''0'') @ s)"

section \<open>Lists\<close>

lemma filter_upt_split:
  "l \<le> m \<Longrightarrow> m \<le> h \<Longrightarrow> filter P [l..<h] = filter P [l..<m] @ filter P [m..<h]"
  by (metis filter_append upt_add_eq_append le_iff_add)

lemma prefix_drop_iff: "prefix p (drop i s) \<longleftrightarrow> (\<exists>r. drop i s = p @ r)"
  by (auto simp: prefix_def)

lemma sorted_wrt_filter_take:
  "sorted_wrt R xs \<Longrightarrow> sorted_wrt R (take n xs)"
  by (rule sorted_wrt_take)

lemma prefix_before_sep: "prefix p (a @ c # s) \<Longrightarrow> c \<notin> set p \<Longrightarrow> prefix p a"
proof (induction p arbitrary: a)
  case (Cons x p)
  show ?case
  proof (cases a)
    case (Cons y b)
    then show ?thesis using Cons.IH [of b] Cons.prems by simp
  qed (use Cons.prems in simp)
qed simp

end
