(* ===== verification/Str_Util.thy ===== *)
theory Str_Util
  imports JIT_Prelude
begin

text \<open>
  \<open>includes/common/strutil.h\<close>: JSON escaping, the host part of a URL, and the UTF-8/UTF-16
  conversions. The conversions themselves are two Windows calls, a parameter (\<open>codec\<close>) here;
  the empty-string shortcut around them is the header's own.
\<close>

section \<open>UTF-8 and UTF-16\<close>

record codec =
  mb_to_wc :: "string \<Rightarrow> wstr"
  wc_to_mb :: "wstr \<Rightarrow> string"
  wc_to_mb_buf :: "nat \<Rightarrow> wstr \<Rightarrow> string"

text \<open>\<open>wc_to_mb_buf n w\<close> is what a zeroed \<open>n\<close>-byte buffer holds after \<open>WideCharToMultiByte\<close> was
  told to fill it; when the text does not fit the call fails and Windows leaves the rest open.\<close>

definition utf8ToWide :: "codec \<Rightarrow> string \<Rightarrow> wstr" where
  "utf8ToWide cv s = (if s = [] then [] else mb_to_wc cv s)"

definition wideToUtf8 :: "codec \<Rightarrow> wstr \<Rightarrow> string" where
  "wideToUtf8 cv w = (if w = [] then [] else wc_to_mb cv w)"

text \<open>The two calls restricted to ASCII text, used to evaluate concrete examples.\<close>

definition ascii_codec :: codec where
  "ascii_codec = \<lparr>mb_to_wc = map (\<lambda>c. of_nat (code c)), wc_to_mb = map (\<lambda>u. char_of (unat u)),
     wc_to_mb_buf = (\<lambda>n w. if length w < n then map (\<lambda>u. char_of (unat u)) w else [])\<rparr>"

lemma ascii_codec_inverse: "wideToUtf8 ascii_codec (utf8ToWide ascii_codec s) = s"
proof -
  have "char_of (unat (of_nat (code c) :: wchar)) = c" for c
  proof -
    have "code c < 2 ^ 16" by (rule order.strict_trans [OF code_less]) simp
    then have "unat (of_nat (code c) :: wchar) = code c" by (simp add: unat_of_nat take_bit_nat_eq_self)
    then show ?thesis by (simp add: code_def)
  qed
  then show ?thesis
    by (simp add: wideToUtf8_def utf8ToWide_def ascii_codec_def comp_def map_idI)
qed

section \<open>Escaping for JSON\<close>

definition hexd :: "nat \<Rightarrow> char" where
  "hexd n = (if n < 10 then char_of (48 + n) else char_of (87 + n))"

definition hex4 :: "nat \<Rightarrow> string" where
  "hex4 n = [hexd (n div 4096 mod 16), hexd (n div 256 mod 16), hexd (n div 16 mod 16), hexd (n mod 16)]"

text \<open>The \<open>switch\<close> both escapers share.\<close>

definition esc_char :: "char \<Rightarrow> string" where
  "esc_char c =
     (if c = quo then [bsl, quo]
      else if c = bsl then [bsl, bsl]
      else if c = nl then [bsl, CHR ''n'']
      else if c = cr then [bsl, CHR ''r'']
      else if c = tab then [bsl, CHR ''t'']
      else if code c < 32 then [bsl, CHR ''u''] @ hex4 (code c)
      else [c])"

fun jsonEscape :: "string \<Rightarrow> string" where
  "jsonEscape [] = []"
| "jsonEscape (c # s) = esc_char c @ jsonEscape s"

lemma esc_char_length [jit_bounds]: "1 \<le> length (esc_char c) \<and> length (esc_char c) \<le> 6"
  by (simp add: esc_char_def hex4_def)

lemma jsonEscape_append [simp]: "jsonEscape (a @ b) = jsonEscape a @ jsonEscape b"
  by (induction a) auto

lemma jsonEscape_length: "length s \<le> length (jsonEscape s) \<and> length (jsonEscape s) \<le> 6 * length s"
proof (induction s)
  case (Cons c s)
  then show ?case using esc_char_length [of c] by simp
qed simp

definition plain_char :: "char \<Rightarrow> bool" where
  "plain_char c \<longleftrightarrow> 32 \<le> code c \<and> c \<noteq> quo \<and> c \<noteq> bsl"

text \<open>Text that a line of a text file can hold: no control character.\<close>

definition printable :: "string \<Rightarrow> bool" where
  "printable s \<longleftrightarrow> (\<forall>c \<in> set s. 32 \<le> code c)"

lemma plain_char_simps [simp]:
  "\<not> plain_char quo" "\<not> plain_char bsl" "\<not> plain_char nl" "\<not> plain_char cr" "\<not> plain_char tab"
  by (simp_all add: plain_char_def code_def)

lemma esc_char_plain [simp]: "plain_char c \<Longrightarrow> esc_char c = [c]"
  by (auto simp: esc_char_def plain_char_def code_def)

lemma jsonEscape_plain: "list_all plain_char s \<Longrightarrow> jsonEscape s = s"
  by (induction s) auto

lemma printable_Cons [simp]: "printable (c # s) \<longleftrightarrow> 32 \<le> code c \<and> printable s"
  by (auto simp: printable_def)

lemma printable_Nil [simp]: "printable []"
  by (simp add: printable_def)

lemma printable_esc_char:
  "32 \<le> code c \<Longrightarrow> esc_char c = (if c = quo then [bsl, quo] else if c = bsl then [bsl, bsl] else [c])"
  by (auto simp: esc_char_def code_def)

lemma hexd_code: "n < 16 \<Longrightarrow> code (hexd n) = (if n < 10 then 48 + n else 87 + n)"
  by (simp add: hexd_def code_def)

lemma hexd_plain: "n < 16 \<Longrightarrow> plain_char (hexd n)"
proof -
  assume n: "n < 16"
  have q: "code quo = 34" "code bsl = 92" by (simp_all add: code_def)
  have "code (hexd n) \<noteq> code quo" "code (hexd n) \<noteq> code bsl"
    using n unfolding q by (auto simp: hexd_code)
  then have "hexd n \<noteq> quo" "hexd n \<noteq> bsl" by metis+
  then show ?thesis using n by (auto simp: plain_char_def hexd_code)
qed

lemma hex4_plain: "list_all plain_char (hex4 n)"
  by (simp add: hex4_def hexd_plain)

text \<open>Every byte of an escaped text is printable: no raw control character reaches the JSON.\<close>

lemma jsonEscape_printable: "printable (jsonEscape s)"
proof (induction s)
  case (Cons c s)
  have "printable (esc_char c)"
    using hex4_plain [of "code c"]
    by (auto simp: esc_char_def printable_def plain_char_def list_all_iff code_def)
  with Cons show ?case by (auto simp: printable_def)
qed simp

text \<open>
  Reading the escaped text the way a JSON reader does: a backslash takes the next byte with it.
  \<open>esc_ok\<close> says that a text has no quote outside such a pair and no dangling backslash.
\<close>

fun esc_ok :: "string \<Rightarrow> bool" where
  "esc_ok [] = True"
| "esc_ok (c # s) =
     (if c = quo then False
      else if c = bsl then (case s of [] \<Rightarrow> False | d # s' \<Rightarrow> esc_ok s')
      else esc_ok s)"

lemma esc_ok_plain: "list_all plain_char a \<Longrightarrow> esc_ok (a @ s) = esc_ok s"
  by (induction a) (auto simp: plain_char_def)

lemma esc_ok_esc_char: "esc_ok (esc_char c @ s) = esc_ok s"
proof -
  consider "plain_char c" | "c = quo" | "c = bsl" | "c = nl" | "c = cr" | "c = tab"
    | "\<not> plain_char c" "c \<noteq> quo" "c \<noteq> bsl" "c \<noteq> nl" "c \<noteq> cr" "c \<noteq> tab"
    by blast
  then show ?thesis
  proof cases
    case 1
    then show ?thesis by (auto simp: plain_char_def)
  next
    case 7
    then have "esc_char c = [bsl, CHR ''u''] @ hex4 (code c)"
      by (auto simp: esc_char_def plain_char_def)
    then show ?thesis using esc_ok_plain [OF hex4_plain, of "code c" s] by simp
  qed (simp_all add: esc_char_def)
qed

lemma esc_ok_jsonEscape [simp]: "esc_ok (jsonEscape s)"
  by (induction s) (auto simp: esc_ok_esc_char)

section \<open>Host of a URL\<close>

definition hostFromUrl :: "string \<Rightarrow> string" where
  "hostFromUrl url =
     (let u = (case str_find ''://'' url of None \<Rightarrow> url | Some i \<Rightarrow> drop (i + 3) url)
      in case str_find ''/'' u of None \<Rightarrow> u | Some j \<Rightarrow> take j u)"

lemma str_find_char: "str_find [c] s = (if c \<in> set s then Some (length (takeWhile (\<lambda>x. x \<noteq> c) s)) else None)"
  by (induction s) auto

lemma take_length_takeWhile: "take (length (takeWhile P s)) s = takeWhile P s"
  by (metis takeWhile_eq_take)

lemma takeWhile_sep [simp]: "c \<notin> set a \<Longrightarrow> takeWhile (\<lambda>x. x \<noteq> c) (a @ c # s) = a"
  by (induction a) auto

lemma takeWhile_no_sep [simp]: "c \<notin> set a \<Longrightarrow> takeWhile (\<lambda>x. x \<noteq> c) a = a"
  by (auto simp: takeWhile_eq_all_conv)

lemma hostFromUrl_no_slash: "CHR ''/'' \<notin> set (hostFromUrl url)"
  by (auto simp: hostFromUrl_def Let_def str_find_char take_length_takeWhile
      dest: set_takeWhileD split: option.splits)

lemma hostFromUrl_https:
  assumes "CHR ''/'' \<notin> set host"
  shows "hostFromUrl (''https://'' @ host) = host"
    and "hostFromUrl (''https://'' @ host @ CHR ''/'' # path) = host"
  using assms
  by (simp_all add: hostFromUrl_def Let_def str_find_char)

end
