(* ===== verification/Json_Util.thy ===== *)
theory Json_Util
  imports Str_Util
begin

text \<open>
  \<open>src/agent/shared/jsonutil.cpp\<close>: the bounded C escaper, the text-scanning extractors for one
  field of a flat object, and the iterator over a JSON array of objects. Pointers are passed as
  the C strings they denote; an extractor that returns 0 leaves its output alone, which is
  \<open>None\<close> here.
\<close>

section \<open>The bounded escaper\<close>

fun json_escape_loop :: "nat \<Rightarrow> nat \<Rightarrow> string \<Rightarrow> string" where
  "json_escape_loop n j [] = []"
| "json_escape_loop n j (c # cs) =
     (if c = nul then []
      else if n \<le> j + 7 then []
      else esc_char c @ json_escape_loop n (j + length (esc_char c)) cs)"

text \<open>\<open>None\<close>: nothing is written (no room for the terminator). A NULL input writes the empty string.\<close>

definition json_escape :: "string option \<Rightarrow> nat \<Rightarrow> string option" where
  "json_escape input output_size =
     (if output_size = 0 then None
      else case input of None \<Rightarrow> Some [] | Some s \<Rightarrow> Some (json_escape_loop output_size 0 s))"

lemma json_escape_loop_bound:
  "j < n \<Longrightarrow> j + length (json_escape_loop n j s) < n"
proof (induction n j s rule: json_escape_loop.induct)
  case (2 n j c cs)
  show ?case
  proof (cases "c = nul \<or> n \<le> j + 7")
    case True
    with 2(2) show ?thesis by auto
  next
    case False
    then have "j + length (esc_char c) < n" using esc_char_length [of c] by linarith
    with 2(1) False show ?thesis by auto
  qed
qed simp

lemma json_escape_loop_prefix:
  "\<exists>k. json_escape_loop n j s = jsonEscape (take k (c_str s))"
proof (induction n j s rule: json_escape_loop.induct)
  case (2 n j c cs)
  show ?case
  proof (cases "c = nul \<or> n \<le> j + 7")
    case True
    then show ?thesis by (intro exI [of _ 0]) auto
  next
    case False
    with 2 obtain k where "json_escape_loop n (j + length (esc_char c)) cs = jsonEscape (take k (c_str cs))"
      by auto
    with False show ?thesis by (intro exI [of _ "Suc k"]) (auto simp: c_str_def)
  qed
qed auto

lemma json_escape_loop_full:
  "j + 6 * length s + 7 \<le> n \<Longrightarrow> json_escape_loop n j s = jsonEscape (c_str s)"
proof (induction n j s rule: json_escape_loop.induct)
  case (2 n j c cs)
  then show ?case
    using esc_char_length [of c] by (auto simp: c_str_def)
qed (simp add: c_str_def)

section \<open>Finding a field\<close>

definition json_ws :: "char \<Rightarrow> bool" where
  "json_ws c \<longleftrightarrow> c = spc \<or> c = tab \<or> c = nl \<or> c = cr"

definition key_pat :: "string \<Rightarrow> string" where
  "key_pat key = quo # key @ [quo]"

definition find_value_pos :: "string \<Rightarrow> string \<Rightarrow> string option" where
  "find_value_pos json key =
     (case str_find (key_pat key) json of
        None \<Rightarrow> None
      | Some i \<Rightarrow>
          (let after = drop (i + length (key_pat key)) json
           in case str_find '':'' after of
                None \<Rightarrow> None
              | Some j \<Rightarrow> Some (dropWhile json_ws (drop (j + 1) after))))"

fun unescape_upto :: "nat \<Rightarrow> string \<Rightarrow> string" where
  "unescape_upto 0 s = []"
| "unescape_upto (Suc n) [] = []"
| "unescape_upto (Suc n) (c # s) =
     (if c = quo then []
      else if c = bsl then (case s of [] \<Rightarrow> [bsl] | d # s' \<Rightarrow> d # unescape_upto n s')
      else c # unescape_upto n s)"

definition json_extract_string :: "string \<Rightarrow> string \<Rightarrow> int \<Rightarrow> string option" where
  "json_extract_string json key out_size =
     (case find_value_pos json key of
        None \<Rightarrow> None
      | Some pos \<Rightarrow>
          (case pos of
             [] \<Rightarrow> None
           | c # rest \<Rightarrow>
               if c \<noteq> quo \<or> out_size \<le> 0 then None
               else Some (unescape_upto (nat (out_size - 1)) rest)))"

definition json_extract_bool :: "string \<Rightarrow> string \<Rightarrow> bool option" where
  "json_extract_bool json key =
     (case find_value_pos json key of
        None \<Rightarrow> None
      | Some pos \<Rightarrow>
          if prefix ''true'' pos then Some True
          else if prefix ''false'' pos then Some False
          else None)"

text \<open>The value read, and whether it was \<open>null\<close>.\<close>

definition json_extract_long :: "string \<Rightarrow> string \<Rightarrow> (int \<times> bool) option" where
  "json_extract_long json key =
     (case find_value_pos json key of
        None \<Rightarrow> None
      | Some pos \<Rightarrow>
          if prefix ''null'' pos then Some (0, True) else Some (strtol10 pos, False))"

section \<open>Iterating over an array of objects\<close>

definition array_skip :: "char \<Rightarrow> bool" where
  "array_skip c \<longleftrightarrow> json_ws c \<or> c = CHR ''['' \<or> c = CHR '',''"

text \<open>The scan from an opening brace: what it consumes and what is left.\<close>

fun scan_obj :: "int \<Rightarrow> bool \<Rightarrow> string \<Rightarrow> string \<times> string" where
  "scan_obj depth in_string [] = ([], [])"
| "scan_obj depth True (c # s) =
     (if c = bsl \<and> s \<noteq> []
      then apfst (\<lambda>a. c # hd s # a) (scan_obj depth True (tl s))
      else apfst (\<lambda>a. c # a) (scan_obj depth (c \<noteq> quo) s))"
| "scan_obj depth False (c # s) =
     (if c = quo then apfst (\<lambda>a. c # a) (scan_obj depth True s)
      else if c = CHR ''{'' then apfst (\<lambda>a. c # a) (scan_obj (depth + 1) False s)
      else if c = CHR ''}''
        then (if depth - 1 = 0 then ([c], s) else apfst (\<lambda>a. c # a) (scan_obj (depth - 1) False s))
      else apfst (\<lambda>a. c # a) (scan_obj depth False s))"

text \<open>The object (cut to the caller's buffer), if there is one, and the new cursor.\<close>

definition json_array_next :: "string \<Rightarrow> nat \<Rightarrow> string option \<times> string" where
  "json_array_next cursor obj_out_size =
     (if obj_out_size = 0 then (None, cursor)
      else
        (let p = dropWhile array_skip cursor
         in if p = [] \<or> hd p \<noteq> CHR ''{'' then (None, p)
            else
              (let (obj, rest) = scan_obj 0 False p
               in (Some (take (obj_out_size - 1) obj), rest))))"

text \<open>The caller's loop: \<open>while (count < max_out && json_array_next(&cursor, obj, size))\<close>.\<close>

fun json_array_objs :: "nat \<Rightarrow> nat \<Rightarrow> string \<Rightarrow> string list" where
  "json_array_objs sz 0 cursor = []"
| "json_array_objs sz (Suc n) cursor =
     (case json_array_next cursor sz of
        (None, _) \<Rightarrow> []
      | (Some obj, cursor') \<Rightarrow> obj # json_array_objs sz n cursor')"

subsection \<open>Every byte is accounted for\<close>

lemma scan_obj_split: "scan_obj d b s = (a, r) \<Longrightarrow> s = a @ r"
proof (induction d b s arbitrary: a r rule: scan_obj.induct)
  case (2 d c s)
  then show ?case by (cases s) (fastforce simp: apfst_def map_prod_def split: if_splits prod.splits)+
next
  case (3 d c s)
  then show ?case by (fastforce simp: apfst_def map_prod_def split: if_splits prod.splits)
qed simp

lemma scan_obj_nonempty: "s \<noteq> [] \<Longrightarrow> fst (scan_obj d b s) \<noteq> []"
  by (cases "(d, b, s)" rule: scan_obj.cases) (auto split: if_splits)

lemma json_array_next_progress:
  assumes "json_array_next cursor n = (Some obj, cursor')"
  shows "length cursor' < length cursor"
proof -
  let ?p = "dropWhile array_skip cursor"
  from assms obtain o' where p: "?p \<noteq> []" and sc: "scan_obj 0 False ?p = (o', cursor')"
    by (auto simp: json_array_next_def Let_def split: if_splits prod.splits)
  have "o' \<noteq> []" using scan_obj_nonempty [OF p, of 0 False] sc by simp
  moreover have "length ?p \<le> length cursor" by (rule length_dropWhile_le)
  ultimately show ?thesis using scan_obj_split [OF sc] by (cases o') auto
qed

lemma json_array_next_bound [jit_bounds]:
  "json_array_next cursor n = (Some obj, cursor') \<Longrightarrow> length obj < n"
  by (auto simp: json_array_next_def Let_def split: if_splits prod.splits)

lemma json_array_objs_length [jit_bounds]: "length (json_array_objs sz n cursor) \<le> n"
  by (induction sz n cursor rule: json_array_objs.induct) (auto split: prod.splits option.splits)

lemma json_array_objs_bound [jit_bounds]:
  "obj \<in> set (json_array_objs sz n cursor) \<Longrightarrow> length obj < sz"
  by (induction sz n cursor arbitrary: obj rule: json_array_objs.induct)
     (auto split: prod.splits option.splits dest: json_array_next_bound [OF sym])

lemma unescape_upto_length [jit_bounds]: "length (unescape_upto n s) \<le> n"
  by (induction n s rule: unescape_upto.induct) (auto split: list.splits)

lemma json_extract_string_bound [jit_bounds]:
  "json_extract_string json key n = Some v \<Longrightarrow> int (length v) < n"
  using unescape_upto_length [of "nat (n - 1)"]
  by (auto simp: json_extract_string_def split: option.splits list.splits if_splits)
     (metis int_nat_eq le_nat_iff linorder_not_less nat_int not_less_iff_gr_or_eq of_nat_0_le_iff zle_diff1_eq)

section \<open>Reading back what the escaper wrote\<close>

lemma unescape_jsonEscape:
  "printable s \<Longrightarrow> unescape_upto n (jsonEscape s @ quo # r) = take n s"
proof (induction s arbitrary: n)
  case Nil
  show ?case by (cases n) auto
next
  case (Cons c s)
  then show ?case by (cases n) (auto simp: printable_esc_char)
qed

text \<open>
  Text that the object scanner passes over without leaving the object: any concatenation of
  punctuation, numbers, literals and escaped strings.
\<close>

definition transparent :: "string \<Rightarrow> bool" where
  "transparent t \<longleftrightarrow> (\<forall>d r. scan_obj d False (t @ r) = apfst (\<lambda>a. t @ a) (scan_obj d False r))"

lemma transparent_Nil [simp]: "transparent []"
  by (simp add: transparent_def apfst_def map_prod_def split: prod.splits)

lemma transparent_append: "transparent a \<Longrightarrow> transparent b \<Longrightarrow> transparent (a @ b)"
  by (auto simp: transparent_def apfst_def map_prod_def split: prod.splits)

lemma transparent_Cons:
  "c \<notin> {quo, CHR ''{'', CHR ''}''} \<Longrightarrow> transparent t \<Longrightarrow> transparent (c # t)"
  by (auto simp: transparent_def apfst_def map_prod_def split: prod.splits)

lemma transparent_bare: "(\<And>c. c \<in> set t \<Longrightarrow> c \<notin> {quo, CHR ''{'', CHR ''}''}) \<Longrightarrow> transparent t"
  by (induction t) (auto intro: transparent_Cons)

lemma scan_obj_esc_ok:
  "esc_ok t \<Longrightarrow> scan_obj d True (t @ quo # r) = apfst (\<lambda>a. t @ quo # a) (scan_obj d False r)"
  by (induction t rule: esc_ok.induct)
     (auto simp: apfst_def map_prod_def split: prod.splits list.splits if_splits)

lemma transparent_quoted: "esc_ok t \<Longrightarrow> transparent (quo # t @ [quo])"
  by (auto simp: transparent_def scan_obj_esc_ok apfst_def map_prod_def split: prod.splits)

lemma transparent_str: "transparent (quo # jsonEscape s @ [quo])"
  by (rule transparent_quoted) simp

lemma transparent_show_int: "transparent (show_int i)"
proof (rule transparent_bare)
  fix c assume "c \<in> set (show_int i)"
  then show "c \<notin> {quo, CHR ''{'', CHR ''}''}"
    using show_int_chars [of c i] by (auto simp: is_digit_def code_def)
qed

definition obj_text :: "string \<Rightarrow> string" where
  "obj_text body = CHR ''{'' # body @ ''}''"

lemma scan_obj_text:
  assumes "transparent body"
  shows "scan_obj 0 False (obj_text body @ r) = (obj_text body, r)"
  using assms by (simp add: transparent_def obj_text_def)

lemma json_array_next_obj:
  assumes "transparent body" and "length (obj_text body) < n" and "\<forall>c \<in> set pre. array_skip c"
  shows "json_array_next (pre @ obj_text body @ r) n = (Some (obj_text body), r)"
proof -
  have "dropWhile array_skip (pre @ obj_text body @ r) = obj_text body @ r"
    using assms(3) by (simp add: dropWhile_append2 obj_text_def array_skip_def json_ws_def)
  then show ?thesis
    using assms(1,2) scan_obj_text [OF assms(1), of r]
    by (simp add: json_array_next_def Let_def) (simp add: obj_text_def)
qed

text \<open>A comma-separated array of objects comes back object by object.\<close>

fun join :: "string \<Rightarrow> string list \<Rightarrow> string" where
  "join sep [] = []"
| "join sep [x] = x"
| "join sep (x # y # ys) = x @ sep @ join sep (y # ys)"

lemma join_Cons: "join sep (x # xs) = (if xs = [] then x else x @ sep @ join sep xs)"
  by (cases xs) auto

lemma json_array_next_end: "json_array_next (CHR '']'' # r) n = (None, CHR '']'' # r)"
  by (simp add: json_array_next_def array_skip_def json_ws_def)

definition array_end :: "string \<Rightarrow> bool" where
  "array_end s = (let p = dropWhile array_skip s in p = [] \<or> hd p \<noteq> CHR ''{'')"

lemma array_end_simps [simp]: "array_end []" "array_end (CHR '']'' # s)"
  "array_end (nl # s) = array_end s"
  by (simp_all add: array_end_def array_skip_def json_ws_def)

lemma array_end_pre: "\<forall>c \<in> set pre. array_skip c \<Longrightarrow> array_end (pre @ s) = array_end s"
  by (simp add: array_end_def dropWhile_append2)

lemma json_array_objs_end: "array_end s \<Longrightarrow> json_array_objs sz n s = []"
  by (cases n) (auto simp: array_end_def json_array_next_def Let_def split: prod.splits)

lemma json_array_objs_join:
  assumes "\<And>b. b \<in> set bodies \<Longrightarrow> transparent b \<and> length (obj_text b) < sz"
    and "\<forall>c \<in> set pre. array_skip c"
    and "\<forall>c \<in> set sep. array_skip c"
    and "array_end post"
  shows "json_array_objs sz n (pre @ join sep (map obj_text bodies) @ post) =
         take n (map obj_text bodies)"
  using assms(1,2)
proof (induction bodies arbitrary: n pre)
  case Nil
  then show ?case by (simp add: json_array_objs_end array_end_pre assms(4))
next
  case (Cons b bs)
  have b: "transparent b" "length (obj_text b) < sz" using Cons.prems(1) by auto
  show ?case
  proof (cases n)
    case (Suc m)
    show ?thesis
    proof (cases "bs = []")
      case True
      with Suc json_array_next_obj [OF b Cons.prems(2), of post]
      show ?thesis by (simp add: json_array_objs_end assms(4))
    next
      case False
      have "json_array_objs sz m (sep @ join sep (map obj_text bs) @ post) =
            take m (map obj_text bs)"
        using Cons.IH [of sep m] Cons.prems(1) assms(3) by simp
      with False Suc
        json_array_next_obj [OF b Cons.prems(2), of "sep @ join sep (map obj_text bs) @ post"]
      show ?thesis by (simp add: join_Cons)
    qed
  qed simp
qed

section \<open>Locating a field in a rendered object\<close>

subsection \<open>The first occurrence of a quoted key\<close>

text \<open>The pieces of a text between its quotes; a quoted key is found where such a piece equals it.\<close>

definition segs :: "string \<Rightarrow> string set" where
  "segs s = set (split_on quo s)"

lemma split_on_app: "split_on d (a @ d # b) = split_on d a @ split_on d b"
  by (induction a) (auto split: list.splits)

lemma segs_quo [simp]: "segs (a @ quo # b) = segs a \<union> segs b"
  by (simp add: segs_def split_on_app)

lemma segs_quo_Cons [simp]: "segs (quo # b) = insert [] (segs b)"
  using segs_quo [of "[]" b] by (simp add: segs_def)

lemma segs_bare [simp]: "quo \<notin> set a \<Longrightarrow> segs a = {a}"
  by (simp add: segs_def split_on_no_sep)

lemma str_find_skip_quoted:
  assumes "quo \<notin> set t" and "t \<noteq> key" and "quo \<notin> set key"
  shows "str_find (key_pat key) (quo # t @ quo # r) =
         map_option (\<lambda>i. Suc (length t) + i) (str_find (key_pat key) (quo # r))"
proof -
  have "\<not> prefix (key_pat key) (quo # t @ quo # r)"
  proof
    assume "prefix (key_pat key) (quo # t @ quo # r)"
    then obtain z where "key @ quo # z = t @ quo # r"
      by (auto simp: key_pat_def prefix_def)
    then have "takeWhile (\<lambda>c. c \<noteq> quo) (key @ quo # z) = takeWhile (\<lambda>c. c \<noteq> quo) (t @ quo # r)"
      by simp
    with assms show False by simp
  qed
  then show ?thesis
    using str_find_skip [of quo t "key @ [quo]" "quo # r"] assms(1)
    by (simp add: key_pat_def option.map_comp comp_def)
qed

lemma quote_split: "quo \<in> set a \<Longrightarrow> \<exists>t b. a = t @ quo # b \<and> quo \<notin> set t"
  using split_list_first [of quo a] by blast

lemma str_find_key_after_quote:
  assumes "key \<notin> segs pre" and "quo \<notin> set key"
  shows "str_find (key_pat key) (quo # pre @ quo # key @ quo # r) = Some (Suc (length pre))"
  using assms(1)
proof (induction "length pre" arbitrary: pre rule: less_induct)
  case less
  have here: "str_find (key_pat key) (quo # key @ quo # r) = Some 0"
    using str_find_here [of "key_pat key" r] by (simp add: key_pat_def)
  show ?case
  proof (cases "quo \<in> set pre")
    case False
    with less.prems have "pre \<noteq> key" by auto
    with False show ?thesis
      using str_find_skip_quoted [of pre key "key @ quo # r"] assms(2) here by simp
  next
    case True
    then obtain t b where pre: "pre = t @ quo # b" and t: "quo \<notin> set t"
      using quote_split by blast
    with less.prems have "t \<noteq> key" "key \<notin> segs b" by auto
    then have "str_find (key_pat key) (quo # b @ quo # key @ quo # r) = Some (Suc (length b))"
      using less.hyps [of b] pre by simp
    with t \<open>t \<noteq> key\<close> pre show ?thesis
      using str_find_skip_quoted [of t key "b @ quo # key @ quo # r"] assms(2) by simp
  qed
qed

lemma str_find_key:
  assumes "key \<notin> segs pre" and "quo \<notin> set key"
  shows "str_find (key_pat key) (pre @ quo # key @ quo # r) = Some (length pre)"
proof (cases "quo \<in> set pre")
  case False
  then show ?thesis
    using str_find_skip [of quo pre "key @ [quo]" "quo # key @ quo # r"]
      str_find_here [of "key_pat key" r]
    by (simp add: key_pat_def)
next
  case True
  then obtain t b where pre: "pre = t @ quo # b" and t: "quo \<notin> set t"
    using quote_split by blast
  with assms have "key \<notin> segs b" by auto
  from str_find_key_after_quote [OF this assms(2), of r] pre t show ?thesis
    using str_find_skip [of quo t "key @ [quo]" "quo # b @ quo # key @ quo # r"]
    by (simp add: key_pat_def)
qed

subsection \<open>Flat JSON objects\<close>

text \<open>The objects the program's servers send: one level of fields, compact separators.\<close>

datatype jval = JStr string | JInt int | JBool bool | JNull

fun render_val :: "jval \<Rightarrow> string" where
  "render_val (JStr s) = quo # jsonEscape s @ [quo]"
| "render_val (JInt i) = show_int i"
| "render_val (JBool b) = (if b then ''true'' else ''false'')"
| "render_val JNull = ''null''"

definition render_field :: "string \<times> jval \<Rightarrow> string" where
  "render_field kv = quo # fst kv @ quo # CHR '':'' # render_val (snd kv)"

definition render_obj :: "(string \<times> jval) list \<Rightarrow> string" where
  "render_obj fs = obj_text (join '','' (map render_field fs))"

text \<open>Keys are identifiers; a field may hide \<open>key\<close> only through a quoted piece equal to it.\<close>

definition key_ok :: "string \<Rightarrow> bool" where
  "key_ok k \<longleftrightarrow> k \<noteq> [] \<and> list_all (\<lambda>c. plain_char c \<and> c \<notin> {CHR '':'', CHR '','', CHR ''{''}) k"

definition hides :: "string \<Rightarrow> string \<times> jval \<Rightarrow> bool" where
  "hides key kv \<longleftrightarrow>
     fst kv = key \<or> (case snd kv of JStr s \<Rightarrow> key \<in> segs (jsonEscape s) | _ \<Rightarrow> False)"

lemma key_ok_chars:
  assumes "key_ok k"
  shows "quo \<notin> set k" "CHR '':'' \<notin> set k" "CHR '','' \<notin> set k" "CHR ''{'' \<notin> set k" "k \<noteq> []"
proof -
  have *: "\<forall>c \<in> set k. plain_char c \<and> c \<notin> {CHR '':'', CHR '','', CHR ''{''}" and "k \<noteq> []"
    using assms unfolding key_ok_def list_all_iff by blast+
  have q: "\<not> plain_char quo" by simp
  show "quo \<notin> set k" using * q by blast
  show "CHR '':'' \<notin> set k" "CHR '','' \<notin> set k" "CHR ''{'' \<notin> set k" using * by blast+
  show "k \<noteq> []" by fact
qed

lemma key_ok_neq:
  assumes "key_ok k"
  shows "k \<noteq> CHR '':'' # r" "k \<noteq> CHR '','' # r" "k \<noteq> CHR ''{'' # r"
  using key_ok_chars [OF assms] by (metis list.set_intros(1))+

lemma render_val_bare:
  assumes "\<And>s. v \<noteq> JStr s"
  shows "quo \<notin> set (render_val v)"
proof (cases v)
  case (JInt i)
  have "\<not> is_digit quo" by (simp add: is_digit_def code_def)
  then show ?thesis using JInt show_int_not_in [of quo i] by simp
qed (use assms in auto)

lemma segs_field:
  assumes "key_ok k" and "key_ok key" and "\<not> hides key (k, v)"
  shows "key \<notin> segs (k @ quo # CHR '':'' # render_val v @ '','')"
proof -
  have k: "key \<notin> segs k"
    using assms(3) segs_bare [OF key_ok_chars(1) [OF assms(1)]] by (auto simp: hides_def)
  have "key \<notin> segs (CHR '':'' # render_val v @ '','')"
  proof (cases "\<exists>s. v = JStr s")
    case True
    then obtain s where v: "v = JStr s" by blast
    have "segs ('':'' @ quo # (jsonEscape s @ quo # '','')) = {'':''} \<union> (segs (jsonEscape s) \<union> {'',''})"
      unfolding segs_quo by simp
    moreover have "key \<notin> segs (jsonEscape s)" using assms(3) v by (simp add: hides_def)
    ultimately show ?thesis using v key_ok_neq [OF assms(2)] by simp
  next
    case False
    then have "segs (CHR '':'' # render_val v @ '','') = {CHR '':'' # render_val v @ '',''}"
      by (intro segs_bare) (use render_val_bare [of v] in auto)
    then show ?thesis using key_ok_neq [OF assms(2)] by simp
  qed
  with k show ?thesis by (simp only: segs_quo Un_iff simp_thms)
qed

definition fields_before :: "(string \<times> jval) list \<Rightarrow> string" where
  "fields_before fs = concat (map (\<lambda>kv. render_field kv @ '','') fs)"

lemma join_app:
  "ys \<noteq> [] \<Longrightarrow> join sep (xs @ ys) = concat (map (\<lambda>x. x @ sep) xs) @ join sep ys"
  by (induction xs) (auto simp: join_Cons)

lemma segs_fields_before:
  assumes "\<And>kv. kv \<in> set fs \<Longrightarrow> key_ok (fst kv) \<and> \<not> hides key kv" and "key_ok key"
    and "quo \<notin> set a" and "a \<noteq> key"
  shows "key \<notin> segs (a @ fields_before fs)"
  using assms(1)
proof (induction fs rule: rev_induct)
  case Nil
  then show ?case using assms(3,4) by (simp add: fields_before_def)
next
  case (snoc kv fs)
  obtain k v where kv: "kv = (k, v)" by (cases kv)
  have "a @ fields_before (fs @ [kv]) =
        (a @ fields_before fs) @ quo # (k @ quo # CHR '':'' # render_val v @ '','')"
    by (simp add: fields_before_def render_field_def kv)
  then have "segs (a @ fields_before (fs @ [kv])) =
        segs (a @ fields_before fs) \<union> segs (k @ quo # CHR '':'' # render_val v @ '','')"
    by (metis segs_quo)
  moreover have "key_ok k" "\<not> hides key (k, v)" using snoc.prems [of kv] kv by auto
  then have "key \<notin> segs (k @ quo # CHR '':'' # render_val v @ '','')"
    using segs_field assms(2) by blast
  moreover have "key \<notin> segs (a @ fields_before fs)" using snoc by auto
  ultimately show ?case by blast
qed

lemma str_find_colon [simp]: "str_find '':'' (CHR '':'' # r) = Some 0"
  by simp

text \<open>What follows a value in the rendered object.\<close>

definition fields_after :: "(string \<times> jval) list \<Rightarrow> string" where
  "fields_after fs = (if fs = [] then ''}'' else CHR '','' # join '','' (map render_field fs) @ ''}'')"

lemma render_obj_at:
  "render_obj (xs @ (key, v) # ys) =
   (CHR ''{'' # fields_before xs) @ quo # key @ quo # CHR '':'' # render_val v @ fields_after ys"
  by (simp add: render_obj_def obj_text_def join_app join_Cons fields_before_def fields_after_def
      render_field_def comp_def)

lemma render_val_no_ws: "\<exists>c r. render_val v = c # r \<and> \<not> json_ws c"
proof (cases v)
  case (JInt i)
  obtain c r where "show_int i = c # r" by (cases "show_int i") auto
  moreover from this have "is_digit c \<or> c = CHR ''-''" using show_int_chars [of c i] by simp
  ultimately show ?thesis using JInt by (auto simp: json_ws_def is_digit_def code_def)
qed (auto simp: json_ws_def)

lemma find_value_pos_field:
  assumes "\<And>kv. kv \<in> set xs \<Longrightarrow> key_ok (fst kv) \<and> \<not> hides key kv" and "key_ok key"
  shows "find_value_pos (render_obj (xs @ (key, v) # ys)) key = Some (render_val v @ fields_after ys)"
proof -
  have "''{'' \<noteq> key" using key_ok_chars [OF assms(2)] by auto
  with segs_fields_before [of xs key "''{''"] assms
  have k: "key \<notin> segs (CHR ''{'' # fields_before xs)" by simp
  from str_find_key [OF k key_ok_chars(1) [OF assms(2)], of "CHR '':'' # render_val v @ fields_after ys"]
  have f: "str_find (key_pat key) (render_obj (xs @ (key, v) # ys)) =
           Some (Suc (length (fields_before xs)))"
    unfolding render_obj_at by simp
  have d: "drop (Suc (length (fields_before xs)) + length (key_pat key))
             (render_obj (xs @ (key, v) # ys)) = CHR '':'' # render_val v @ fields_after ys"
    unfolding render_obj_at by (simp add: key_pat_def)
  show ?thesis
    using f d render_val_no_ws [of v] by (auto simp: find_value_pos_def Let_def)
qed

lemma num_end_fields_after [simp]: "num_end (fields_after ys)"
  by (simp add: fields_after_def is_digit_def code_def)

text \<open>The value each extractor reads for the rendered value \<open>v\<close>.\<close>

lemma json_extract_string_field:
  assumes "\<And>kv. kv \<in> set xs \<Longrightarrow> key_ok (fst kv) \<and> \<not> hides key kv" and "key_ok key"
    and "printable s" and "0 < n"
  shows "json_extract_string (render_obj (xs @ (key, JStr s) # ys)) key n = Some (take (nat (n - 1)) s)"
  using find_value_pos_field [OF assms(1,2), where v = "JStr s" and ys = ys] unescape_jsonEscape [OF assms(3)] assms(4)
  by (simp add: json_extract_string_def)

lemma json_extract_long_field:
  assumes "\<And>kv. kv \<in> set xs \<Longrightarrow> key_ok (fst kv) \<and> \<not> hides key kv" and "key_ok key"
    and "in_i32 i"
  shows "json_extract_long (render_obj (xs @ (key, JInt i) # ys)) key = Some (i, False)"
proof -
  have "\<not> prefix ''null'' (show_int i @ fields_after ys)"
  proof
    assume "prefix ''null'' (show_int i @ fields_after ys)"
    then have "CHR ''n'' \<in> set (show_int i)" by (cases "show_int i") auto
    then show False using show_int_not_in [of "CHR ''n''" i] by (simp add: is_digit_def code_def)
  qed
  then show ?thesis
    using find_value_pos_field [OF assms(1,2), where v = "JInt i" and ys = ys] assms(3)
    by (simp add: json_extract_long_def strtol10_def)
qed

lemma json_extract_long_null:
  assumes "\<And>kv. kv \<in> set xs \<Longrightarrow> key_ok (fst kv) \<and> \<not> hides key kv" and "key_ok key"
  shows "json_extract_long (render_obj (xs @ (key, JNull) # ys)) key = Some (0, True)"
  using find_value_pos_field [OF assms, where v = JNull and ys = ys] by (simp add: json_extract_long_def)

lemma json_extract_bool_field:
  assumes "\<And>kv. kv \<in> set xs \<Longrightarrow> key_ok (fst kv) \<and> \<not> hides key kv" and "key_ok key"
  shows "json_extract_bool (render_obj (xs @ (key, JBool b) # ys)) key = Some b"
  using find_value_pos_field [OF assms, where v = "JBool b" and ys = ys] by (simp add: json_extract_bool_def)

section \<open>Properties\<close>

text \<open>C3: The bounded escaper never overruns its buffer and never cuts an escape sequence in two: its
  output is shorter than the buffer and is the full escape of a prefix of the input; with six bytes
  of room per input byte (plus seven) nothing is lost.\<close>

theorem json_escape_safe:
  assumes "0 < n"
  shows "\<exists>out. json_escape (Some s) n = Some out \<and> length out < n \<and>
           (\<exists>k. out = jsonEscape (take k (c_str s))) \<and>
           (6 * length s + 7 \<le> n \<longrightarrow> out = jsonEscape (c_str s))"
  using assms json_escape_loop_bound [of 0 n s] json_escape_loop_prefix [of n 0 s]
    json_escape_loop_full [of 0 s n]
  by (auto simp: json_escape_def)

lemma json_escape_safe_witness:
  "\<exists>out. json_escape (Some [quo, nl, CHR ''a'']) 10 = Some out \<and> length out < 10 \<and>
     (\<exists>k. out = jsonEscape (take k (c_str [quo, nl, CHR ''a'']))) \<and>
     (6 * length [quo, nl, CHR ''a''] + 7 \<le> 10 \<longrightarrow> out = jsonEscape (c_str [quo, nl, CHR ''a'']))"
  by (rule json_escape_safe) simp

text \<open>Reading a field back: from an object whose other fields do not hide the key, the extractors
  return exactly the value that was rendered: the text (cut to the buffer), the number with its
  null flag, the boolean.\<close>

theorem json_field_roundtrip:
  assumes "\<forall>kv \<in> set xs. key_ok (fst kv) \<and> \<not> hides key kv" and "key_ok key"
  shows "(\<forall>s n. printable s \<longrightarrow> 0 < n \<longrightarrow>
            json_extract_string (render_obj (xs @ (key, JStr s) # ys)) key n = Some (take (nat (n - 1)) s)) \<and>
         (\<forall>i. in_i32 i \<longrightarrow>
            json_extract_long (render_obj (xs @ (key, JInt i) # ys)) key = Some (i, False)) \<and>
         json_extract_long (render_obj (xs @ (key, JNull) # ys)) key = Some (0, True) \<and>
         (\<forall>b. json_extract_bool (render_obj (xs @ (key, JBool b) # ys)) key = Some b)"
  using assms json_extract_string_field json_extract_long_field json_extract_long_null
    json_extract_bool_field
  by simp

lemma json_field_roundtrip_witness:
  "json_extract_string
     (render_obj ([(''blocked'', JBool True)] @ (''name'', JStr ''a\"b'') # [(''n'', JInt 7)])) ''name'' 10
   = Some ''a\"b''"
proof -
  have h: "\<forall>kv \<in> set [(''blocked'', JBool True)]. key_ok (fst kv) \<and> \<not> hides ''name'' kv" "key_ok ''name''"
    by (simp_all add: key_ok_def hides_def plain_char_def code_def)
  have "printable ''a\"b''" by (simp add: code_def)
  with json_field_roundtrip [OF h, of "[(''n'', JInt 7)]"] show ?thesis by simp
qed

section \<open>Arrays of flat objects\<close>

lemma transparent_val: "transparent (render_val v)"
  using transparent_str transparent_show_int
  by (cases v) (auto intro!: transparent_bare)

lemma transparent_field: "key_ok (fst kv) \<Longrightarrow> transparent (render_field kv)"
proof -
  assume "key_ok (fst kv)"
  then have "jsonEscape (fst kv) = fst kv" by (simp add: key_ok_def list_all_iff jsonEscape_plain)
  then have "transparent (quo # fst kv @ [quo])" using transparent_str [of "fst kv"] by simp
  moreover have "transparent (CHR '':'' # render_val (snd kv))"
    by (rule transparent_Cons) (simp_all add: transparent_val)
  ultimately show ?thesis using transparent_append by (fastforce simp: render_field_def)
qed

lemma transparent_join:
  assumes "\<And>x. x \<in> set xs \<Longrightarrow> transparent x" and "transparent sep"
  shows "transparent (join sep xs)"
  using assms(1) by (induction xs) (auto simp: join_Cons intro!: transparent_append assms(2))

definition flat_obj :: "(string \<times> jval) list \<Rightarrow> bool" where
  "flat_obj fs \<longleftrightarrow> (\<forall>kv \<in> set fs. key_ok (fst kv))"

lemma transparent_flat: "flat_obj fs \<Longrightarrow> transparent (join '','' (map render_field fs))"
proof (rule transparent_join)
  show "transparent '',''" by (rule transparent_bare) simp
qed (auto simp: flat_obj_def intro: transparent_field)

definition render_array :: "(string \<times> jval) list list \<Rightarrow> string" where
  "render_array os = ''['' @ join '','' (map render_obj os) @ '']''"

lemma json_array_objs_render:
  assumes "\<And>o'. o' \<in> set os \<Longrightarrow> flat_obj o' \<and> length (render_obj o') < sz"
  shows "json_array_objs sz n (render_array os) = take n (map render_obj os)"
proof -
  have e: "map render_obj os = map obj_text (map (\<lambda>fs. join '','' (map render_field fs)) os)"
    by (simp add: render_obj_def)
  show ?thesis
    unfolding render_array_def e
    by (rule json_array_objs_join)
       (use assms in \<open>auto simp: transparent_flat render_obj_def array_skip_def\<close>)
qed


text \<open>C4: Iterating over an array of flat objects yields exactly the objects, in order, up to the
  caller's maximum, provided each fits the caller's buffer.\<close>

theorem json_array_roundtrip:
  assumes "\<forall>fs \<in> set os. flat_obj fs \<and> length (render_obj fs) < sz"
  shows "json_array_objs sz n (render_array os) = take n (map render_obj os)"
  using assms by (intro json_array_objs_render) blast

lemma json_array_roundtrip_witness:
  "json_array_objs 64 8 (render_array [[(''a'', JStr ''}{'')], [(''b'', JInt 3)]]) =
   [render_obj [(''a'', JStr ''}{'')], render_obj [(''b'', JInt 3)]]"
proof -
  have "\<forall>fs \<in> set [[(''a'', JStr ''}{'')], [(''b'', JInt 3)]]. flat_obj fs \<and> length (render_obj fs) < 64"
    by (simp add: flat_obj_def key_ok_def plain_char_def code_def render_obj_def obj_text_def
        render_field_def esc_char_def show_int_def show_nat.simps)
  from json_array_roundtrip [OF this, of 8] show ?thesis by simp
qed

text \<open>The extractors do not decode escapes other than the quote and the backslash: a line break that
  the escaper wrote comes back as the letter n, and a value equal to a key's name hides the field.\<close>

theorem json_extract_limits:
  "json_extract_string (render_obj [(''title'', JStr [nl])]) ''title'' 100 = Some ''n'' \<and>
   json_extract_bool (render_obj [(''process_name'', JStr ''blocked''), (''seconds_left'', JInt 5),
     (''blocked'', JBool True)]) ''blocked'' = None"
  by code_simp

end
