(* ===== verification/Http_Client.thy ===== *)
theory Http_Client
  imports Str_Util
begin

text \<open>
  \<open>src/common/httpclient.cpp\<close>: one HTTPS request over a kept-alive connection. The WinHTTP calls are
  the fields of a record \<open>net\<close>, each a step on an abstract world \<open>'w\<close> (the peer, the network, the
  clock); the connection cache of the calling thread is \<open>hc_conn\<close>. Host, path and headers are kept as
  the UTF-8 text they are built from; their conversion to UTF-16 for WinHTTP is not modelled.
\<close>

record HttpReq =
  rq_host :: string
  rq_method :: string
  rq_path :: string
  rq_headers :: string
  rq_body :: string

record HttpResult =
  hr_status :: nat
  hr_body :: string

text \<open>\<open>net_exchange\<close>: \<open>None\<close> when sending or receiving fails, else the status (0 when the header
  cannot be read) and the pieces that successive \<open>WinHttpReadData\<close> calls can deliver.\<close>

record 'w net =
  net_open :: "'w \<Rightarrow> bool \<times> 'w"
  net_connect :: "string \<Rightarrow> 'w \<Rightarrow> bool \<times> 'w"
  net_open_request :: "HttpReq \<Rightarrow> 'w \<Rightarrow> bool \<times> 'w"
  net_exchange :: "HttpReq \<Rightarrow> 'w \<Rightarrow> (nat \<times> string list) option \<times> 'w"

record 'w http_state =
  hc_conn :: "string option"
  hc_world :: 'w

definition conn_reset :: "'w http_state \<Rightarrow> 'w http_state" where
  "conn_reset st = st\<lparr>hc_conn := None\<rparr>"

definition conn_ensure :: "'w net \<Rightarrow> string \<Rightarrow> 'w http_state \<Rightarrow> bool \<times> 'w http_state" where
  "conn_ensure net wantedHost st =
     (if hc_conn st = Some wantedHost then (True, st)
      else
        (let st0 = conn_reset st; (opened, w1) = net_open net (hc_world st0)
         in if \<not> opened then (False, st0\<lparr>hc_world := w1\<rparr>)
            else
              (let (connected, w2) = net_connect net wantedHost w1
               in if \<not> connected then (False, st0\<lparr>hc_world := w2\<rparr>)
                  else (True, st0\<lparr>hc_conn := Some wantedHost, hc_world := w2\<rparr>))))"

text \<open>The read loop: a piece is cut to the room that is left, and nothing is read once there is none.\<close>

fun read_body :: "nat \<Rightarrow> string \<Rightarrow> string list \<Rightarrow> string" where
  "read_body maxBody acc [] = acc"
| "read_body maxBody acc (c # cs) =
     (if c = [] then acc
      else if maxBody \<le> length acc then acc
      else read_body maxBody (acc @ take (maxBody - length acc) c) cs)"

definition requestOnce ::
  "'w net \<Rightarrow> HttpReq \<Rightarrow> nat \<Rightarrow> 'w http_state \<Rightarrow> HttpResult option \<times> 'w http_state" where
  "requestOnce net rq maxBody st =
     (let (ready, st1) = conn_ensure net (rq_host rq) st
      in if \<not> ready then (None, st1)
         else
           (let (opened, w2) = net_open_request net rq (hc_world st1); st2 = st1\<lparr>hc_world := w2\<rparr>
            in if \<not> opened then (None, conn_reset st2)
               else
                 (let (reply, w3) = net_exchange net rq w2; st3 = st2\<lparr>hc_world := w3\<rparr>
                  in case reply of
                       None \<Rightarrow> (None, conn_reset st3)
                     | Some (code', pieces) \<Rightarrow>
                         if code' = 0 then (None, st3)
                         else (Some \<lparr>hr_status = code', hr_body = read_body maxBody [] pieces\<rparr>, st3))))"

definition default_max_body :: nat where
  "default_max_body = 4 * 1048576"

text \<open>The loop of at most two attempts, unrolled.\<close>

definition httpsRequest ::
  "'w net \<Rightarrow> HttpReq \<Rightarrow> bool \<Rightarrow> nat \<Rightarrow> 'w http_state \<Rightarrow> HttpResult option \<times> 'w http_state" where
  "httpsRequest net rq idempotent maxBody st =
     (let (res, st1) = requestOnce net rq maxBody st
      in if res \<noteq> None \<or> \<not> idempotent then (res, st1) else requestOnce net rq maxBody st1)"

section \<open>Facts\<close>

lemma read_body_bound [jit_bounds]: "length acc \<le> m \<Longrightarrow> length (read_body m acc cs) \<le> m"
  by (induction m acc cs rule: read_body.induct) auto

lemma read_body_prefix: "prefix (read_body m acc cs) (acc @ concat cs)"
proof (induction m acc cs rule: read_body.induct)
  case (2 m acc c cs)
  show ?case
  proof (cases "c = [] \<or> m \<le> length acc")
    case False
    show ?thesis
    proof (cases "length c \<le> m - length acc")
      case True
      with 2 False show ?thesis by simp
    next
      case long: False
      then have "read_body m (acc @ take (m - length acc) c) cs = acc @ take (m - length acc) c"
        using False by (cases cs) auto
      then show ?thesis using False by (simp add: take_is_prefix prefix_prefix)
    qed
  qed auto
qed simp

lemma read_body_all:
  "[] \<notin> set cs \<Longrightarrow> length acc + length (concat cs) \<le> m \<Longrightarrow> read_body m acc cs = acc @ concat cs"
proof (induction m acc cs rule: read_body.induct)
  case (2 m acc c cs)
  then have "c \<noteq> []" by auto
  then have "0 < length c" by simp
  moreover have "length acc + length c \<le> m" using 2(3) by simp
  ultimately have "\<not> m \<le> length acc" by linarith
  with 2 \<open>c \<noteq> []\<close> show ?case by simp
qed simp

text \<open>A network that also keeps the list of requests it was asked to exchange.\<close>

definition counted :: "'w net \<Rightarrow> ('w \<times> HttpReq list) net" where
  "counted net =
     \<lparr>net_open = (\<lambda>(w, l). let (b, w') = net_open net w in (b, (w', l))),
      net_connect = (\<lambda>h (w, l). let (b, w') = net_connect net h w in (b, (w', l))),
      net_open_request = (\<lambda>r (w, l). let (b, w') = net_open_request net r w in (b, (w', l))),
      net_exchange = (\<lambda>r (w, l). let (x, w') = net_exchange net r w in (x, (w', l @ [r])))\<rparr>"

lemma conn_ensure_counted:
  "conn_ensure (counted net) h st = (b, st') \<Longrightarrow> snd (hc_world st') = snd (hc_world st)"
  by (auto simp: conn_ensure_def conn_reset_def counted_def Let_def split: prod.splits if_splits)

lemma conn_ensure_host:
  "conn_ensure net h st = (True, st') \<Longrightarrow> hc_conn st' = Some h"
  by (auto simp: conn_ensure_def conn_reset_def Let_def split: prod.splits if_splits)

lemma requestOnce_counted:
  assumes "requestOnce (counted net) rq m st = (res, st')"
  shows "snd (hc_world st') = snd (hc_world st) \<and> res = None \<or>
         snd (hc_world st') = snd (hc_world st) @ [rq]"
proof -
  obtain b st1 where e: "conn_ensure (counted net) (rq_host rq) st = (b, st1)"
    by (cases "conn_ensure (counted net) (rq_host rq) st")
  have l: "snd (hc_world st1) = snd (hc_world st)" by (rule conn_ensure_counted [OF e])
  obtain o1 w2 where o1: "net_open_request net rq (fst (hc_world st1)) = (o1, w2)"
    by (cases "net_open_request net rq (fst (hc_world st1))")
  obtain rep w3 where x: "net_exchange net rq w2 = (rep, w3)" by (cases "net_exchange net rq w2")
  show ?thesis
    using assms e l o1 x
    by (cases "hc_world st1")
       (auto simp: requestOnce_def counted_def conn_reset_def Let_def split: prod.splits if_splits option.splits)
qed

lemma requestOnce_ok:
  assumes "requestOnce net rq m st = (Some r, st')"
  shows "length (hr_body r) \<le> m \<and> hr_status r \<noteq> 0 \<and> hc_conn st' = Some (rq_host rq)"
proof -
  obtain b st1 where e: "conn_ensure net (rq_host rq) st = (b, st1)"
    by (cases "conn_ensure net (rq_host rq) st")
  show ?thesis
    using assms e conn_ensure_host [of net "rq_host rq" st st1] read_body_bound [of "[]" m]
    by (cases b) (auto simp: requestOnce_def Let_def split: prod.splits if_splits option.splits)
qed

text \<open>A request that is not idempotent is sent at most once, an idempotent one at most twice, and
  every send is of the given request; a result has a non-zero status, a body within the bound, and
  leaves the connection open to the request's host.\<close>

theorem httpsRequest_contract:
  "\<exists>k. k \<le> (if idempotent then 2 else 1) \<and>
     snd (hc_world (snd (httpsRequest (counted net) rq idempotent m st))) =
       snd (hc_world st) @ replicate k rq \<and>
     (\<forall>r. fst (httpsRequest (counted net) rq idempotent m st) = Some r \<longrightarrow>
        0 < k \<and> hr_status r \<noteq> 0 \<and> length (hr_body r) \<le> m \<and>
        hc_conn (snd (httpsRequest (counted net) rq idempotent m st)) = Some (rq_host rq))"
proof -
  obtain r1 st1 where q1: "requestOnce (counted net) rq m st = (r1, st1)"
    by (cases "requestOnce (counted net) rq m st")
  obtain r2 st2 where q2: "requestOnce (counted net) rq m st1 = (r2, st2)"
    by (cases "requestOnce (counted net) rq m st1")
  have c1: "\<exists>k \<le> 1. snd (hc_world st1) = snd (hc_world st) @ replicate k rq \<and> (r1 \<noteq> None \<longrightarrow> k = 1)"
    using requestOnce_counted [OF q1] by (metis One_nat_def append_Nil2 le_numeral_extra(4)
      replicate_0 replicate_Suc zero_le)
  have c2: "\<exists>k \<le> 1. snd (hc_world st2) = snd (hc_world st1) @ replicate k rq \<and> (r2 \<noteq> None \<longrightarrow> k = 1)"
    using requestOnce_counted [OF q2] by (metis One_nat_def append_Nil2 le_numeral_extra(4)
      replicate_0 replicate_Suc zero_le)
  show ?thesis
  proof (cases "r1 \<noteq> None \<or> \<not> idempotent")
    case True
    then have h: "httpsRequest (counted net) rq idempotent m st = (r1, st1)"
      by (auto simp: httpsRequest_def q1)
    obtain k where k: "k \<le> 1" "snd (hc_world st1) = snd (hc_world st) @ replicate k rq"
      "r1 \<noteq> None \<longrightarrow> k = 1" using c1 by blast
    show ?thesis unfolding h
      by (rule exI [of _ k]) (use k requestOnce_ok [of "counted net" rq m st _ st1] q1 in auto)
  next
    case False
    then have h: "httpsRequest (counted net) rq idempotent m st = (r2, st2)"
      by (auto simp: httpsRequest_def q1 q2)
    obtain k1 where k1: "k1 \<le> 1" "snd (hc_world st1) = snd (hc_world st) @ replicate k1 rq"
      using c1 by blast
    obtain k2 where k2: "k2 \<le> 1" "snd (hc_world st2) = snd (hc_world st1) @ replicate k2 rq"
      "r2 \<noteq> None \<longrightarrow> k2 = 1" using c2 by blast
    have "snd (hc_world st2) = snd (hc_world st) @ replicate (k1 + k2) rq"
      using k1 k2 by (simp add: replicate_add)
    with k1 k2 show ?thesis unfolding h
      by (intro exI [of _ "k1 + k2"])
         (use False requestOnce_ok [of "counted net" rq m st1 _ st2] q2 in auto)
  qed
qed

text \<open>A peer that answers every request from a fixed table, for evaluated examples.\<close>

definition fixed_net :: "(HttpReq \<Rightarrow> (nat \<times> string) option) \<Rightarrow> unit net" where
  "fixed_net f =
     \<lparr>net_open = (\<lambda>w. (True, w)), net_connect = (\<lambda>h w. (True, w)),
      net_open_request = (\<lambda>r w. (True, w)),
      net_exchange = (\<lambda>r w. (map_option (\<lambda>(s, b). (s, [b])) (f r), w))\<rparr>"

lemma httpsRequest_contract_witness:
  "\<exists>k. k \<le> (if True then 2 else 1) \<and>
     snd (hc_world (snd (httpsRequest (counted (fixed_net (\<lambda>_. None)))
        \<lparr>rq_host = ''h'', rq_method = ''GET'', rq_path = ''/'', rq_headers = [], rq_body = []\<rparr> True 10
        \<lparr>hc_conn = None, hc_world = ((), [])\<rparr>))) =
     replicate k \<lparr>rq_host = ''h'', rq_method = ''GET'', rq_path = ''/'', rq_headers = [], rq_body = []\<rparr>"
  using httpsRequest_contract [of True "fixed_net (\<lambda>_. None)"
      "\<lparr>rq_host = ''h'', rq_method = ''GET'', rq_path = ''/'', rq_headers = [], rq_body = []\<rparr>" 10
      "\<lparr>hc_conn = None, hc_world = ((), [])\<rparr>"]
  by auto

end
