(* ===== verification/File_Store.thy ===== *)
theory File_Store
  imports JIT_Prelude
begin

text \<open>
  \<open>includes/common/paths.h\<close> on a file system that maps paths to contents. The outcomes of the
  Windows calls are the fields of \<open>io_env\<close>. \<open>write_step\<close> is the same routine one system call at a
  time, so that a crash between two calls can be stated.
\<close>

type_synonym fs = "string \<rightharpoonup> string"

record io_env =
  io_open :: bool      \<comment> \<open>the temporary file can be opened for writing\<close>
  io_write :: bool     \<comment> \<open>write and flush leave the stream good\<close>
  io_written :: nat    \<comment> \<open>bytes that reached the disk when they do not\<close>
  io_move :: bool      \<comment> \<open>\<open>MoveFileExW\<close> succeeds\<close>
  io_delete :: bool    \<comment> \<open>\<open>DeleteFileW\<close> succeeds\<close>

definition io_good :: io_env where
  "io_good = \<lparr>io_open = True, io_write = True, io_written = 0, io_move = True, io_delete = True\<rparr>"

definition configFile :: "string option \<Rightarrow> string \<Rightarrow> string option" where
  "configFile config_dir name = map_option (\<lambda>d. d @ bsl # name) config_dir"

definition tmp_path :: "string \<Rightarrow> string" where
  "tmp_path target = target @ ''.tmp''"

definition delete_tmp :: "io_env \<Rightarrow> string \<Rightarrow> fs \<Rightarrow> fs" where
  "delete_tmp io tmp fs = (if io_delete io then fs(tmp := None) else fs)"

definition writeFileAtomic :: "io_env \<Rightarrow> string option \<Rightarrow> string \<Rightarrow> fs \<Rightarrow> bool \<times> fs" where
  "writeFileAtomic io target bytes fs =
     (case target of
        None \<Rightarrow> (False, fs)
      | Some t \<Rightarrow>
          let tmp = tmp_path t in
          if \<not> io_open io then (False, fs)
          else if \<not> io_write io
            then (False, delete_tmp io tmp (fs(tmp \<mapsto> take (io_written io) bytes)))
          else if \<not> io_move io then (False, delete_tmp io tmp (fs(tmp \<mapsto> bytes)))
          else (True, (fs(t \<mapsto> bytes))(tmp := None)))"

lemma tmp_path_neq [simp]: "tmp_path t \<noteq> t" "t \<noteq> tmp_path t"
  by (simp_all add: tmp_path_def)

lemma writeFileAtomic_ok [simp]:
  "writeFileAtomic io_good (Some t) bytes fs = (True, (fs(t \<mapsto> bytes))(tmp_path t := None))"
  by (simp add: writeFileAtomic_def io_good_def Let_def)

text \<open>What the caller can rely on, in the form a client uses.\<close>

lemma writeFileAtomic_result:
  assumes "writeFileAtomic io (Some t) bytes fs = (ok, fs')"
  shows "fs' t = (if ok then Some bytes else fs t)"
    and "p \<noteq> t \<Longrightarrow> p \<noteq> tmp_path t \<Longrightarrow> fs' p = fs p"
    and "ok \<Longrightarrow> fs' (tmp_path t) = None"
  using assms
  by (auto simp: writeFileAtomic_def delete_tmp_def Let_def split: if_splits)

lemma writeFileAtomic_adds:
  assumes "writeFileAtomic io (Some t) bytes fs = (ok, fs')" and "q \<in> ran fs'" and "q \<notin> ran fs"
  shows "\<exists>k. q = take k bytes"
proof -
  obtain k where "q = take k bytes \<or> q = bytes"
    using assms by (fastforce simp: writeFileAtomic_def delete_tmp_def Let_def ran_def split: if_splits)
  then show ?thesis by (metis take_all order_refl)
qed

lemma writeFileAtomic_None [simp]: "writeFileAtomic io None bytes fs = (False, fs)"
  by (simp add: writeFileAtomic_def)

section \<open>One system call at a time\<close>

datatype write_phase = WStart | WOpen nat | WFlushed | WFailed | WDone

text \<open>\<open>WOpen k\<close>: \<open>k\<close> bytes of the text are on disk in the temporary file.\<close>

inductive write_step ::
  "string \<Rightarrow> string \<Rightarrow> write_phase \<times> fs \<Rightarrow> write_phase \<times> fs \<Rightarrow> bool"
  for t bytes where
  open_ok: "write_step t bytes (WStart, fs) (WOpen 0, fs(tmp_path t \<mapsto> []))"
| open_fail: "write_step t bytes (WStart, fs) (WDone, fs)"
| write_some: "k < length bytes \<Longrightarrow>
    write_step t bytes (WOpen k, fs) (WOpen (Suc k), fs(tmp_path t \<mapsto> take (Suc k) bytes))"
| write_fail: "write_step t bytes (WOpen k, fs) (WFailed, fs)"
| flush: "write_step t bytes (WOpen (length bytes), fs) (WFlushed, fs)"
| move_ok: "write_step t bytes (WFlushed, fs) (WDone, (fs(t := fs (tmp_path t)))(tmp_path t := None))"
| move_fail: "write_step t bytes (WFlushed, fs) (WFailed, fs)"
| cleanup: "write_step t bytes (WFailed, fs) (WDone, fs(tmp_path t := None))"
| cleanup_fail: "write_step t bytes (WFailed, fs) (WDone, fs)"

inductive_cases write_stepE [elim]: "write_step t bytes (ph, fs) (ph', fs')"

definition write_inv :: "string \<Rightarrow> string \<Rightarrow> fs \<Rightarrow> write_phase \<times> fs \<Rightarrow> bool" where
  "write_inv t bytes fs0 pf \<longleftrightarrow>
     (case pf of (ph, fs) \<Rightarrow>
        (\<forall>p. p \<noteq> t \<longrightarrow> p \<noteq> tmp_path t \<longrightarrow> fs p = fs0 p) \<and>
        (fs t = fs0 t \<or> ph = WDone \<and> fs t = Some bytes) \<and>
        (\<forall>k. ph = WOpen k \<longrightarrow> fs (tmp_path t) = Some (take k bytes)) \<and>
        (ph = WFlushed \<longrightarrow> fs (tmp_path t) = Some bytes))"

lemma write_inv_step:
  "write_step t bytes pf pf' \<Longrightarrow> write_inv t bytes fs0 pf \<Longrightarrow> write_inv t bytes fs0 pf'"
  by (induction rule: write_step.induct) (auto simp: write_inv_def)

lemma write_inv_reachable:
  assumes "(write_step t bytes)\<^sup>*\<^sup>* (WStart, fs0) pf"
  shows "write_inv t bytes fs0 pf"
  using assms by induction (auto simp: write_inv_def intro: write_inv_step)

text \<open>C5: A crash never leaves a half-written file: at every point of the sequence of system calls,
  whatever fails, the target holds either its old contents or the complete new ones, and no other
  file but the temporary one is touched.\<close>

theorem atomic_write_crash_safe:
  assumes "(write_step t bytes)\<^sup>*\<^sup>* (WStart, fs0) (ph, fs)"
  shows "(fs t = fs0 t \<or> fs t = Some bytes) \<and> (\<forall>p. p \<noteq> t \<longrightarrow> p \<noteq> tmp_path t \<longrightarrow> fs p = fs0 p)"
  using write_inv_reachable [OF assms] by (auto simp: write_inv_def)

lemma atomic_write_crash_safe_witness:
  "((\<lambda>p. if p = ''a'' then Some ''old'' else None)(tmp_path ''a'' \<mapsto> [])) ''a'' = Some ''old''"
proof -
  have "(write_step ''a'' ''new'')\<^sup>*\<^sup>* (WStart, \<lambda>p. if p = ''a'' then Some ''old'' else None)
     (WOpen 0, (\<lambda>p. if p = ''a'' then Some ''old'' else None)(tmp_path ''a'' \<mapsto> []))"
    by (rule r_into_rtranclp) (rule open_ok)
  from atomic_write_crash_safe [OF this] show ?thesis by simp
qed

text \<open>The routine is one run of the step relation.\<close>

lemma write_open_run:
  assumes "k \<le> length bytes"
  shows "(write_step t bytes)\<^sup>*\<^sup>* (WStart, fs) (WOpen k, fs(tmp_path t \<mapsto> take k bytes))"
  using assms
proof (induction k)
  case 0
  show ?case unfolding take_0 by (rule r_into_rtranclp) (rule open_ok)
next
  case (Suc k)
  then have "write_step t bytes (WOpen k, fs(tmp_path t \<mapsto> take k bytes))
      (WOpen (Suc k), (fs(tmp_path t \<mapsto> take k bytes))(tmp_path t \<mapsto> take (Suc k) bytes))"
    by (intro write_some) simp
  then have "write_step t bytes (WOpen k, fs(tmp_path t \<mapsto> take k bytes))
      (WOpen (Suc k), fs(tmp_path t \<mapsto> take (Suc k) bytes))"
    by (simp only: fun_upd_upd)
  with Suc.IH Suc.prems show ?case by (meson Suc_leD rtranclp.rtrancl_into_rtrancl)
qed

text \<open>The function \<open>writeFileAtomic\<close> refines the step relation: whatever the outcomes of the
  system calls, its result is reached by a complete run, and it reports success exactly when the
  target holds the new bytes through the final move.\<close>

theorem writeFileAtomic_refines_steps:
  "(write_step t bytes)\<^sup>*\<^sup>* (WStart, fs) (WDone, snd (writeFileAtomic io (Some t) bytes fs))"
proof -
  let ?n = "min (io_written io) (length bytes)"
  have tk: "take (io_written io) bytes = take ?n bytes" by (simp add: min_def)
  have fail: "(write_step t bytes)\<^sup>*\<^sup>* (WStart, fs) (WDone, delete_tmp io (tmp_path t) g)"
    if "(write_step t bytes)\<^sup>*\<^sup>* (WStart, fs) (WFailed, g)" for g
    using that cleanup [of t bytes g] cleanup_fail [of t bytes g]
    by (auto simp: delete_tmp_def intro: rtranclp.rtrancl_into_rtrancl)
  have full: "(write_step t bytes)\<^sup>*\<^sup>* (WStart, fs) (WFlushed, fs(tmp_path t \<mapsto> bytes))"
    using write_open_run [of "length bytes" bytes t fs] flush [of t bytes "fs(tmp_path t \<mapsto> bytes)"]
    by (auto intro: rtranclp.rtrancl_into_rtrancl)
  consider "\<not> io_open io" | "io_open io" "\<not> io_write io" | "io_open io" "io_write io" "\<not> io_move io"
    | "io_open io" "io_write io" "io_move io" by blast
  then show ?thesis
  proof cases
    case 1
    then show ?thesis using open_fail [of t bytes fs] by (auto simp: writeFileAtomic_def Let_def)
  next
    case 2
    have "(write_step t bytes)\<^sup>*\<^sup>* (WStart, fs) (WFailed, fs(tmp_path t \<mapsto> take ?n bytes))"
      using write_open_run [of ?n bytes t fs] write_fail by (auto intro: rtranclp.rtrancl_into_rtrancl)
    from fail [OF this] 2 tk show ?thesis by (simp add: writeFileAtomic_def Let_def)
  next
    case 3
    have "(write_step t bytes)\<^sup>*\<^sup>* (WStart, fs) (WFailed, fs(tmp_path t \<mapsto> bytes))"
      using full move_fail by (auto intro: rtranclp.rtrancl_into_rtrancl)
    from fail [OF this] 3 show ?thesis by (simp add: writeFileAtomic_def Let_def)
  next
    case 4
    have "((fs(tmp_path t \<mapsto> bytes))(t := (fs(tmp_path t \<mapsto> bytes)) (tmp_path t)))(tmp_path t := None) =
          (fs(t \<mapsto> bytes))(tmp_path t := None)" by auto
    with full move_ok [of t bytes "fs(tmp_path t \<mapsto> bytes)"] 4 show ?thesis
      by (auto simp: writeFileAtomic_def Let_def intro: rtranclp.rtrancl_into_rtrancl)
  qed
qed

section \<open>The contract of a stored file\<close>

text \<open>
  What the components that keep one text file need: a renderer whose text the parser reads back
  for every well-formed value.
\<close>

locale line_store =
  fixes wf :: "'a \<Rightarrow> bool" and render :: "'a \<Rightarrow> string" and parse :: "string \<Rightarrow> 'b"
    and repr :: "'a \<Rightarrow> 'b"
  assumes parse_render: "wf x \<Longrightarrow> parse (render x) = repr x"
begin

lemma stored_then_loaded:
  assumes "wf x" and "writeFileAtomic io (Some t) (render x) fs = (True, fs')"
  shows "map_option parse (fs' t) = Some (repr x)"
  using writeFileAtomic_result(1) [OF assms(2)] parse_render [OF assms(1)] by simp

lemma failed_store_keeps:
  assumes "writeFileAtomic io (Some t) (render x) fs = (False, fs')"
  shows "fs' t = fs t"
  using writeFileAtomic_result(1) [OF assms] by simp

text \<open>After a crash the file parses to the old or to the new value.\<close>

lemma crash_reads_old_or_new:
  assumes "wf x" and "wf y" and "fs0 t = Some (render y)"
    and "(write_step t (render x))\<^sup>*\<^sup>* (WStart, fs0) (ph, fs)"
  shows "map_option parse (fs t) \<in> {Some (repr x), Some (repr y)}"
  using write_inv_reachable [OF assms(4)] assms(1-3) parse_render by (auto simp: write_inv_def)

end

end
