(* ===== verification/Settings_Store.thy ===== *)
theory Settings_Store
  imports Str_Util File_Store
begin

text \<open>
  \<open>src/agent/shared/settings.cpp\<close>: the settings record, the \<open>settings.ini\<close> text it is rendered to
  and parsed from, the in-memory copy \<open>g_settings\<close>, process exclusion and the Supabase fallback.
  Every function that locks \<open>settingsMutex\<close> is one step on \<open>settings_state\<close>.
\<close>

section \<open>Data\<close>

record AppSettings =
  sync_interval_sec :: int
  backup_interval_sec :: int
  summary_interval_sec :: int
  min_duration_sec :: int
  autostart_enabled :: int
  app_role :: int
  language :: int
  retry_backoff_base_sec :: int
  retry_backoff_max_sec :: int
  remote_view_enabled :: int
  remote_view_port :: int
  remote_view_token :: string
  excluded_processes :: string
  supabase_url :: string
  supabase_key :: string

definition APP_ROLE_CHILD :: int where "APP_ROLE_CHILD = 0"
definition APP_ROLE_PARENT :: int where "APP_ROLE_PARENT = 1"
definition APP_LANG_EN :: int where "APP_LANG_EN = 0"
definition APP_LANG_VI :: int where "APP_LANG_VI = 1"
definition MAX_EXCLUDED_LEN :: nat where "MAX_EXCLUDED_LEN = 1024"
definition MAX_URL_LEN :: nat where "MAX_URL_LEN = 256"
definition MAX_KEY_LEN :: nat where "MAX_KEY_LEN = 512"
definition SUPABASE_URL :: string where "SUPABASE_URL = ''https://crdvfasjtrfrasqehwkc.supabase.co''"
definition SUPABASE_ANON_KEY :: string where
  "SUPABASE_ANON_KEY = ''sb_publishable_2BDazw0ggLN0GC9Zyu2hOQ_XrcqaR7v''"

lemmas settings_consts = APP_ROLE_CHILD_def APP_ROLE_PARENT_def APP_LANG_EN_def APP_LANG_VI_def
  MAX_EXCLUDED_LEN_def MAX_URL_LEN_def MAX_KEY_LEN_def

definition setDefaults :: AppSettings where
  "setDefaults =
     \<lparr>sync_interval_sec = 30, backup_interval_sec = 3600, summary_interval_sec = 300,
      min_duration_sec = 2, autostart_enabled = 0, app_role = APP_ROLE_CHILD,
      language = APP_LANG_EN, retry_backoff_base_sec = 10, retry_backoff_max_sec = 1800,
      remote_view_enabled = 0, remote_view_port = 8787, remote_view_token = [],
      excluded_processes = [], supabase_url = [], supabase_key = []\<rparr>"

section \<open>The ini text\<close>

definition trimNewline :: "string \<Rightarrow> string" where
  "trimNewline s = rev (dropWhile (\<lambda>c. c = cr \<or> c = nl) (rev s))"

definition trimLeadingSpace :: "string \<Rightarrow> string" where
  "trimLeadingSpace s = dropWhile (\<lambda>c. c = spc) s"

type_synonym ini = "string \<rightharpoonup> string"

definition ini_line :: "string \<Rightarrow> ini \<Rightarrow> ini" where
  "ini_line line0 m =
     (let line = trimNewline line0
      in if line = [] \<or> hd line = CHR '';'' \<or> hd line = CHR ''#'' then m
         else (case str_find ''='' line of
                 None \<Rightarrow> m
               | Some eq \<Rightarrow> m(take eq line \<mapsto> drop (eq + 1) line)))"

definition parseIniText :: "string \<Rightarrow> ini" where
  "parseIniText text = fold ini_line (getlines nl text) Map.empty"

definition parseIniFile :: "string \<Rightarrow> fs \<Rightarrow> ini" where
  "parseIniFile path fs = (case fs path of None \<Rightarrow> Map.empty | Some text \<Rightarrow> parseIniText text)"

definition getInt :: "ini \<Rightarrow> string \<Rightarrow> int \<Rightarrow> int" where
  "getInt ini key fallback = (case ini key of Some v \<Rightarrow> c_atoi v | None \<Rightarrow> fallback)"

definition getStr :: "ini \<Rightarrow> string \<Rightarrow> nat \<Rightarrow> string \<Rightarrow> string" where
  "getStr ini key bufSize buf = (case ini key of Some v \<Rightarrow> buf_copy bufSize v | None \<Rightarrow> buf)"

definition applyIniValues :: "AppSettings \<Rightarrow> ini \<Rightarrow> AppSettings" where
  "applyIniValues s ini =
     \<lparr>sync_interval_sec = getInt ini ''sync_interval_sec'' (sync_interval_sec s),
      backup_interval_sec = getInt ini ''backup_interval_sec'' (backup_interval_sec s),
      summary_interval_sec = getInt ini ''summary_interval_sec'' (summary_interval_sec s),
      min_duration_sec = getInt ini ''min_duration_sec'' (min_duration_sec s),
      autostart_enabled = getInt ini ''autostart_enabled'' (autostart_enabled s),
      app_role = getInt ini ''app_role'' (app_role s),
      language = getInt ini ''language'' (language s),
      retry_backoff_base_sec = getInt ini ''retry_backoff_base_sec'' (retry_backoff_base_sec s),
      retry_backoff_max_sec = getInt ini ''retry_backoff_max_sec'' (retry_backoff_max_sec s),
      remote_view_enabled = getInt ini ''remote_view_enabled'' (remote_view_enabled s),
      remote_view_port = getInt ini ''remote_view_port'' (remote_view_port s),
      remote_view_token = getStr ini ''remote_view_token'' 64 (remote_view_token s),
      excluded_processes = getStr ini ''excluded_processes'' MAX_EXCLUDED_LEN (excluded_processes s),
      supabase_url = getStr ini ''supabase_url'' MAX_URL_LEN (supabase_url s),
      supabase_key = getStr ini ''supabase_key'' MAX_KEY_LEN (supabase_key s)\<rparr>"

text \<open>The lines \<open>settings_save\<close> streams, in its order.\<close>

definition ini_fields :: "AppSettings \<Rightarrow> (string \<times> string) list" where
  "ini_fields s =
     [(''sync_interval_sec'', show_int (sync_interval_sec s)),
      (''backup_interval_sec'', show_int (backup_interval_sec s)),
      (''summary_interval_sec'', show_int (summary_interval_sec s)),
      (''min_duration_sec'', show_int (min_duration_sec s)),
      (''autostart_enabled'', show_int (autostart_enabled s)),
      (''app_role'', show_int (app_role s)),
      (''language'', show_int (language s)),
      (''excluded_processes'', excluded_processes s),
      (''supabase_url'', supabase_url s),
      (''supabase_key'', supabase_key s),
      (''retry_backoff_base_sec'', show_int (retry_backoff_base_sec s)),
      (''retry_backoff_max_sec'', show_int (retry_backoff_max_sec s)),
      (''remote_view_enabled'', show_int (remote_view_enabled s)),
      (''remote_view_port'', show_int (remote_view_port s)),
      (''remote_view_token'', remote_view_token s)]"

definition ini_header :: string where
  "ini_header = ''; JustInTime Agent - file cau hinh''"

definition render_settings :: "AppSettings \<Rightarrow> string" where
  "render_settings s =
     concat (map (\<lambda>l. l @ [nl]) (ini_header # map (\<lambda>(k, v). k @ CHR ''='' # v) (ini_fields s)))"

section \<open>State and operations\<close>

record settings_state =
  g_settings :: AppSettings
  st_fs :: fs
  run_key :: "string option"  \<comment> \<open>registry value \<open>JustInTimeAgent\<close> under \<open>...\Run\<close>\<close>

text \<open>What the operating system supplies: the configuration directory, the random bytes (or the
  tick count and process id when the provider fails), the registry and the path of the program.\<close>

record settings_env =
  config_dir :: "string option"
  se_io :: io_env
  crypt_bytes :: "nat list option"
  tick_count :: nat
  process_id :: nat
  reg_opens :: bool
  exe_path :: "string option"

definition getSettingsPath :: "settings_env \<Rightarrow> string option" where
  "getSettingsPath env = configFile (config_dir env) ''settings.ini''"

definition hex2 :: "nat \<Rightarrow> string" where
  "hex2 b = [hexd (b div 16 mod 16), hexd (b mod 16)]"

definition hex8 :: "nat \<Rightarrow> string" where
  "hex8 n = hex4 (n div 65536) @ hex4 (n mod 65536)"

definition generateRemoteViewToken :: "settings_env \<Rightarrow> string" where
  "generateRemoteViewToken env =
     (case crypt_bytes env of
        Some bs \<Rightarrow> concat (map hex2 (take 16 bs))
      | None \<Rightarrow> hex8 (tick_count env) @ hex8 (process_id env))"

definition settings_save :: "settings_env \<Rightarrow> AppSettings \<Rightarrow> fs \<Rightarrow> bool \<times> fs" where
  "settings_save env s fs = writeFileAtomic (se_io env) (getSettingsPath env) (render_settings s) fs"

definition settings_load :: "settings_env \<Rightarrow> settings_state \<Rightarrow> AppSettings \<times> settings_state" where
  "settings_load env st =
     (case getSettingsPath env of
        None \<Rightarrow> (setDefaults, st\<lparr>g_settings := setDefaults\<rparr>)
      | Some path \<Rightarrow>
          let (out1, fs1) =
                (if st_fs st path \<noteq> None
                 then (applyIniValues setDefaults (parseIniFile path (st_fs st)), st_fs st)
                 else (setDefaults, snd (settings_save env setDefaults (st_fs st))));
              (out2, fs2) =
                (if remote_view_token out1 = []
                 then (let o' = out1\<lparr>remote_view_token := buf_copy 64 (generateRemoteViewToken env)\<rparr>
                       in (o', snd (settings_save env o' fs1)))
                 else (out1, fs1))
          in (out2, st\<lparr>g_settings := out2, st_fs := fs2\<rparr>))"

definition settings_get :: "settings_state \<Rightarrow> AppSettings" where
  "settings_get st = g_settings st"

definition settings_apply_autostart :: "settings_env \<Rightarrow> int \<Rightarrow> settings_state \<Rightarrow> bool \<times> settings_state" where
  "settings_apply_autostart env enabled st =
     (if \<not> reg_opens env then (False, st)
      else if enabled \<noteq> 0
        then (case exe_path env of
                None \<Rightarrow> (False, st)
              | Some exe \<Rightarrow> (True, st\<lparr>run_key := Some exe\<rparr>))
      else (True, st\<lparr>run_key := None\<rparr>))"

definition settings_update :: "settings_env \<Rightarrow> AppSettings \<Rightarrow> settings_state \<Rightarrow> bool \<times> settings_state" where
  "settings_update env s st =
     (let st1 = st\<lparr>g_settings := s\<rparr>;
          st2 = snd (settings_apply_autostart env (autostart_enabled s) st1);
          (ok, fs') = settings_save env s (st_fs st2)
      in (ok, st2\<lparr>st_fs := fs'\<rparr>))"

definition excluded_by :: "AppSettings \<Rightarrow> string \<Rightarrow> bool" where
  "excluded_by s processUtf8 =
     (if excluded_processes s = [] then False
      else (\<exists>token \<in> set (getlines (CHR '','') (excluded_processes s)).
              stricmp_eq (c_str (trimLeadingSpace token)) (c_str processUtf8)))"

definition settings_is_process_excluded ::
  "codec \<Rightarrow> wstr option \<Rightarrow> settings_state \<Rightarrow> bool" where
  "settings_is_process_excluded cv process_name st =
     (case process_name of
        None \<Rightarrow> False
      | Some p \<Rightarrow> excluded_by (settings_get st) (wc_to_mb_buf cv 512 p))"

definition settings_get_supabase_config :: "AppSettings \<Rightarrow> nat \<Rightarrow> nat \<Rightarrow> string \<times> string" where
  "settings_get_supabase_config s url_out_size key_out_size =
     (buf_copy url_out_size (if supabase_url s \<noteq> [] then supabase_url s else SUPABASE_URL),
      buf_copy key_out_size (if supabase_key s \<noteq> [] then supabase_key s else SUPABASE_ANON_KEY))"

section \<open>Well-formed settings\<close>

definition ini_value :: "nat \<Rightarrow> string \<Rightarrow> bool" where
  "ini_value n v \<longleftrightarrow> length v < n \<and> nul_free v \<and> nl \<notin> set v \<and> (v \<noteq> [] \<longrightarrow> last v \<noteq> cr)"

definition settings_ok :: "AppSettings \<Rightarrow> bool" where
  "settings_ok s \<longleftrightarrow>
     in_i32 (sync_interval_sec s) \<and> in_i32 (backup_interval_sec s) \<and>
     in_i32 (summary_interval_sec s) \<and> in_i32 (min_duration_sec s) \<and>
     in_i32 (autostart_enabled s) \<and> in_i32 (app_role s) \<and> in_i32 (language s) \<and>
     in_i32 (retry_backoff_base_sec s) \<and> in_i32 (retry_backoff_max_sec s) \<and>
     in_i32 (remote_view_enabled s) \<and> in_i32 (remote_view_port s) \<and>
     ini_value 64 (remote_view_token s) \<and> ini_value MAX_EXCLUDED_LEN (excluded_processes s) \<and>
     ini_value MAX_URL_LEN (supabase_url s) \<and> ini_value MAX_KEY_LEN (supabase_key s)"

text \<open>The buffers every settings record fits, however it was read.\<close>

definition settings_fit :: "AppSettings \<Rightarrow> bool" where
  "settings_fit s \<longleftrightarrow>
     length (remote_view_token s) < 64 \<and> length (excluded_processes s) < MAX_EXCLUDED_LEN \<and>
     length (supabase_url s) < MAX_URL_LEN \<and> length (supabase_key s) < MAX_KEY_LEN"

section \<open>Reading back what was written\<close>

lemma trimNewline_id: "s = [] \<or> (last s \<noteq> cr \<and> last s \<noteq> nl) \<Longrightarrow> trimNewline s = s"
  by (cases s rule: rev_cases) (auto simp: trimNewline_def)

lemma str_find_eq: "CHR ''='' \<notin> set k \<Longrightarrow> str_find ''='' (k @ CHR ''='' # v) = Some (length k)"
  by (simp add: str_find_char)

definition ini_key :: "string \<Rightarrow> bool" where
  "ini_key k \<longleftrightarrow> k \<noteq> [] \<and> hd k \<noteq> CHR '';'' \<and> hd k \<noteq> CHR ''#'' \<and> CHR ''='' \<notin> set k \<and> nl \<notin> set k"

lemma ini_line_field:
  assumes "ini_key k" and "nl \<notin> set v" and "v \<noteq> [] \<longrightarrow> last v \<noteq> cr"
  shows "ini_line (k @ CHR ''='' # v) m = m(k \<mapsto> v)"
proof -
  have "trimNewline (k @ CHR ''='' # v) = k @ CHR ''='' # v"
    using assms(2,3) by (intro trimNewline_id) (cases "v = []"; auto dest: last_in_set)
  then show ?thesis
    using assms(1) by (simp add: ini_line_def Let_def str_find_eq ini_key_def)
qed

lemma ini_line_header: "ini_line ini_header m = m"
  by (simp add: ini_line_def ini_header_def trimNewline_def)

lemma fold_ini_lines:
  assumes "\<And>k v. (k, v) \<in> set kvs \<Longrightarrow> ini_key k \<and> nl \<notin> set v \<and> (v \<noteq> [] \<longrightarrow> last v \<noteq> cr)"
  shows "fold ini_line (map (\<lambda>(k, v). k @ CHR ''='' # v) kvs) m = m ++ map_of (rev kvs)"
  using assms
proof (induction kvs arbitrary: m)
  case (Cons kv kvs)
  obtain k v where kv: "kv = (k, v)" by (cases kv)
  have "ini_line (k @ CHR ''='' # v) m = m(k \<mapsto> v)" using Cons.prems kv by (intro ini_line_field) auto
  moreover have "fold ini_line (map (\<lambda>(k, v). k @ CHR ''='' # v) kvs) (m(k \<mapsto> v)) =
      m(k \<mapsto> v) ++ map_of (rev kvs)"
    by (rule Cons.IH) (use Cons.prems in auto)
  ultimately show ?case using kv by simp
qed simp

lemma ini_value_int: "nl \<notin> set (show_int i)" "last (show_int i) \<noteq> cr"
proof -
  show "nl \<notin> set (show_int i)" by (rule show_int_not_in) (simp_all add: is_digit_def code_def)
  have "cr \<notin> set (show_int i)" by (rule show_int_not_in) (simp_all add: is_digit_def code_def)
  then show "last (show_int i) \<noteq> cr" using last_in_set [of "show_int i"] by (metis show_int_neq_Nil)
qed

definition ini_text_ok :: "string \<Rightarrow> bool" where
  "ini_text_ok v \<longleftrightarrow> nl \<notin> set v \<and> (v \<noteq> [] \<longrightarrow> last v \<noteq> cr)"

lemma ini_text_ok_int [simp]: "ini_text_ok (show_int i)"
  by (simp add: ini_text_ok_def ini_value_int)

lemma ini_value_text_ok [simp]: "ini_value n v \<Longrightarrow> ini_text_ok v"
  by (simp add: ini_text_ok_def ini_value_def)

lemma ini_fields_keys: "list_all ini_key (map fst (ini_fields s))"
  by (simp add: ini_fields_def ini_key_def)

lemma ini_fields_texts:
  assumes "settings_ok s"
  shows "list_all ini_text_ok (map snd (ini_fields s))"
proof -
  have "ini_text_ok (remote_view_token s)" "ini_text_ok (excluded_processes s)"
    "ini_text_ok (supabase_url s)" "ini_text_ok (supabase_key s)"
    using assms unfolding settings_ok_def by (blast intro: ini_value_text_ok)+
  then show ?thesis by (simp add: ini_fields_def)
qed

lemma ini_fields_ok:
  assumes "settings_ok s" and "(k, v) \<in> set (ini_fields s)"
  shows "ini_key k \<and> nl \<notin> set v \<and> (v \<noteq> [] \<longrightarrow> last v \<noteq> cr)"
  using ini_fields_keys [of s] ini_fields_texts [OF assms(1)] assms(2)
  by (force simp: list_all_iff ini_text_ok_def)

lemma parse_render_settings:
  assumes "settings_ok s"
  shows "parseIniText (render_settings s) = map_of (rev (ini_fields s))"
proof -
  have "getlines nl (render_settings s) = ini_header # map (\<lambda>(k, v). k @ CHR ''='' # v) (ini_fields s)"
    unfolding render_settings_def
    by (rule getlines_concat) (use ini_fields_ok [OF assms] in \<open>auto simp: ini_header_def ini_key_def\<close>)
  moreover have "fold ini_line (map (\<lambda>(k, v). k @ CHR ''='' # v) (ini_fields s)) Map.empty =
      map_of (rev (ini_fields s))"
    using fold_ini_lines [of "ini_fields s" Map.empty] ini_fields_ok [OF assms] by simp
  ultimately show ?thesis by (simp add: parseIniText_def ini_line_header)
qed

lemma apply_rendered:
  assumes "settings_ok s"
  shows "applyIniValues d (map_of (rev (ini_fields s))) = s"
  using assms
  by (intro AppSettings.equality)
     (simp_all add: applyIniValues_def ini_fields_def getInt_def getStr_def settings_ok_def
       ini_value_def c_atoi_show_int)

interpretation settings_file: line_store settings_ok render_settings
  "\<lambda>text. applyIniValues setDefaults (parseIniText text)" "\<lambda>s. s"
  by unfold_locales (simp add: parse_render_settings apply_rendered)

lemma applyIniValues_fit: "settings_fit s \<Longrightarrow> settings_fit (applyIniValues s ini)"
  by (auto simp: settings_fit_def applyIniValues_def getStr_def settings_consts buf_copy_length
      split: option.splits)

lemma setDefaults_ok [simp]: "settings_ok setDefaults" "settings_fit setDefaults"
  by (simp_all add: settings_ok_def settings_fit_def setDefaults_def in_i32_def ini_value_def settings_consts)

lemma hex_token_nonempty:
  "crypt_bytes env = None \<or> (\<exists>b bs. crypt_bytes env = Some (b # bs)) \<Longrightarrow>
   buf_copy 64 (generateRemoteViewToken env) \<noteq> []"
proof -
  assume h: "crypt_bytes env = None \<or> (\<exists>b bs. crypt_bytes env = Some (b # bs))"
  have hx: "hexd (n mod 16) \<noteq> nul" for n
    using hexd_plain [of "n mod 16"] by (auto simp: plain_char_def code_def)
  show ?thesis
    using h hx by (auto simp: generateRemoteViewToken_def buf_copy_def c_str_def hex2_def hex8_def hex4_def
        mod_mult2_eq [symmetric])
qed

section \<open>Properties\<close>

text \<open>C6: What \<open>settings_save\<close> wrote, the next \<open>settings_load\<close> reads: for well-formed settings with a
  token, loading after a successful save gives the same record back, makes it the in-memory copy and
  writes nothing.\<close>

theorem settings_roundtrip:
  assumes "settings_ok s" and "remote_view_token s \<noteq> []"
    and "settings_save env s (st_fs st) = (True, fs')"
  shows "settings_load env (st\<lparr>st_fs := fs'\<rparr>) = (s, st\<lparr>g_settings := s, st_fs := fs'\<rparr>)"
proof -
  obtain path where p: "getSettingsPath env = Some path"
    using assms(3) by (cases "getSettingsPath env") (auto simp: settings_save_def)
  have w: "writeFileAtomic (se_io env) (Some path) (render_settings s) (st_fs st) = (True, fs')"
    using assms(3) p by (simp add: settings_save_def)
  have f: "fs' path = Some (render_settings s)"
    using writeFileAtomic_result(1) [OF w] by simp
  have "applyIniValues setDefaults (parseIniFile path fs') = s"
    using settings_file.parse_render [OF assms(1)] f by (simp add: parseIniFile_def)
  then show ?thesis using assms(2) p f by (simp add: settings_load_def Let_def)
qed

definition example_env :: settings_env where
  "example_env = \<lparr>config_dir = Some ''C'', se_io = io_good, crypt_bytes = Some [255, 0],
     tick_count = 1, process_id = 2, reg_opens = False, exe_path = None\<rparr>"

definition example_state :: settings_state where
  "example_state = \<lparr>g_settings = setDefaults, st_fs = Map.empty, run_key = None\<rparr>"

definition example_settings :: AppSettings where
  "example_settings = setDefaults\<lparr>remote_view_token := ''ab'', excluded_processes := ''a.exe, b.exe''\<rparr>"

lemma settings_roundtrip_witness:
  "fst (settings_load example_env
     (example_state\<lparr>st_fs := snd (settings_save example_env example_settings (st_fs example_state))\<rparr>))
   = example_settings"
proof -
  have "settings_ok example_settings"
    by (simp add: example_settings_def settings_ok_def setDefaults_def in_i32_def ini_value_def
        settings_consts)
  moreover have "settings_save example_env example_settings (st_fs example_state) =
      (True, snd (settings_save example_env example_settings (st_fs example_state)))"
    by (simp add: example_env_def settings_save_def getSettingsPath_def configFile_def)
  moreover have "remote_view_token example_settings \<noteq> []" by (simp add: example_settings_def)
  ultimately show ?thesis using settings_roundtrip [of example_settings example_env example_state] by simp
qed



end
