(* ===== verification/Auth_Session.thy ===== *)
theory Auth_Session
  imports Json_Util Http_Client Settings_Store
begin

text \<open>
  \<open>src/agent/shared/auth.cpp\<close>: the login session, its encrypted file and the calls to Supabase Auth.
  The record \<open>agent\<close> is the state the agent's threads share: settings, session, files, the
  connection of the calling thread and the outside world. DPAPI is a pair of parameters of \<open>env\<close>.
\<close>

section \<open>State\<close>

record AuthSession =
  as_logged_in :: bool
  as_user_id :: string
  as_email :: string
  as_access_token :: string
  as_refresh_token :: string

definition MAX_TOKEN_LEN :: nat where "MAX_TOKEN_LEN = 4096"
definition MAX_EMAIL_LEN :: nat where "MAX_EMAIL_LEN = 256"

definition no_session :: AuthSession where
  "no_session = \<lparr>as_logged_in = False, as_user_id = [], as_email = [], as_access_token = [],
     as_refresh_token = []\<rparr>"

record 'w agent =
  ag_settings :: AppSettings
  ag_session :: AuthSession
  ag_fs :: fs
  ag_conn :: "string option"
  ag_world :: 'w

record 'w env =
  en_net :: "'w net"
  en_dir :: "string option"
  en_io :: io_env
  en_protect :: "string \<Rightarrow> string option"
  en_unprotect :: "string \<Rightarrow> string option"

definition ERR_AUTH_NETWORK :: string where "ERR_AUTH_NETWORK = ''E1001''"
definition ERR_AUTH_SERVER_REJECT :: string where "ERR_AUTH_SERVER_REJECT = ''E1003''"

section \<open>Helpers of auth.cpp\<close>

text \<open>Unlike \<open>hostFromUrl\<close>, this one leaves the path in place.\<close>

definition extractHost :: "string \<Rightarrow> string" where
  "extractHost url = (case str_find ''://'' url of Some pos \<Rightarrow> drop (pos + 3) url | None \<Rightarrow> url)"

definition auth_jsonEscape :: "string \<Rightarrow> string" where
  "auth_jsonEscape s =
     (case json_escape (Some s) (length s * 6 + 16) of None \<Rightarrow> [] | Some out \<Rightarrow> c_str out)"

definition crlf :: string where
  "crlf = [cr, nl]"

definition auth_request :: "string \<Rightarrow> string \<Rightarrow> string \<Rightarrow> string \<Rightarrow> HttpReq" where
  "auth_request baseUrl apikey path jsonBody =
     \<lparr>rq_host = extractHost baseUrl, rq_method = ''POST'', rq_path = path,
      rq_headers = ''Content-Type: application/json'' @ crlf @ ''apikey: '' @ apikey @ crlf,
      rq_body = jsonBody\<rparr>"

text \<open>One POST on a connection of its own: the response text and the status.\<close>

definition doAuthPost ::
  "'w env \<Rightarrow> string \<Rightarrow> string \<Rightarrow> string \<Rightarrow> string \<Rightarrow> nat \<Rightarrow> 'w agent \<Rightarrow>
   (string \<times> nat) option \<times> 'w agent" where
  "doAuthPost env baseUrl apikey path jsonBody responseOutSize ag =
     (let net = en_net env; rq = auth_request baseUrl apikey path jsonBody;
          (opened, w1) = net_open net (ag_world ag)
      in if \<not> opened then (None, ag\<lparr>ag_world := w1\<rparr>)
         else
           (let (connected, w2) = net_connect net (rq_host rq) w1
            in if \<not> connected then (None, ag\<lparr>ag_world := w2\<rparr>)
               else
                 (let (ready, w3) = net_open_request net rq w2
                  in if \<not> ready then (None, ag\<lparr>ag_world := w3\<rparr>)
                     else
                       (let (reply, w4) = net_exchange net rq w3
                        in (map_option (\<lambda>(st, pieces). (c_str (read_body (responseOutSize - 1) [] pieces), st)) reply,
                            ag\<lparr>ag_world := w4\<rparr>)))))"

definition sessionFilePath :: "'w env \<Rightarrow> string option" where
  "sessionFilePath env = configFile (en_dir env) ''session.dat''"

definition session_text :: "AuthSession \<Rightarrow> string" where
  "session_text s =
     as_user_id s @ nl # as_email s @ nl # as_access_token s @ nl # as_refresh_token s @ [nl]"

definition saveSessionToDisk :: "'w env \<Rightarrow> AuthSession \<Rightarrow> fs \<Rightarrow> bool \<times> fs" where
  "saveSessionToDisk env s fs =
     (case en_protect env (session_text s) of
        None \<Rightarrow> (False, fs)
      | Some enc \<Rightarrow> writeFileAtomic (en_io env) (sessionFilePath env) enc fs)"

text \<open>\<open>strtok\<close> with a newline: the non-empty pieces.\<close>

definition strtok_nl :: "string \<Rightarrow> string list" where
  "strtok_nl s = filter (\<lambda>p. p \<noteq> []) (split_on nl s)"

definition parse_session :: "string \<Rightarrow> AuthSession option" where
  "parse_session plain =
     (case strtok_nl (c_str (take 8191 plain)) of
        l1 # l2 # l3 # l4 # _ \<Rightarrow>
          Some \<lparr>as_logged_in = True, as_user_id = buf_copy 64 l1, as_email = buf_copy MAX_EMAIL_LEN l2,
                as_access_token = buf_copy MAX_TOKEN_LEN l3, as_refresh_token = buf_copy 512 l4\<rparr>
      | _ \<Rightarrow> None)"

definition loadSessionFromDisk :: "'w env \<Rightarrow> fs \<Rightarrow> AuthSession option" where
  "loadSessionFromDisk env fs =
     (case Option.bind (sessionFilePath env) fs of
        None \<Rightarrow> None
      | Some enc \<Rightarrow>
          if enc = [] then None
          else (case en_unprotect env enc of None \<Rightarrow> None | Some plain \<Rightarrow> parse_session plain))"

definition extract_or_empty :: "string \<Rightarrow> string \<Rightarrow> nat \<Rightarrow> string" where
  "extract_or_empty response key n =
     (case json_extract_string response key (int n) of Some v \<Rightarrow> v | None \<Rightarrow> [])"

section \<open>Login and registration\<close>

definition auth_err :: "string \<Rightarrow> string \<Rightarrow> string" where
  "auth_err c msg = ''['' @ c @ ''] '' @ msg"

definition server_message :: "string \<Rightarrow> nat \<Rightarrow> string" where
  "server_message response st =
     (case json_extract_string response ''error_description'' 512 of
        Some m \<Rightarrow> m
      | None \<Rightarrow>
          (case json_extract_string response ''msg'' 512 of
             Some m \<Rightarrow> m
           | None \<Rightarrow>
               (case json_extract_string response ''message'' 512 of
                  Some m \<Rightarrow> m
                | None \<Rightarrow> ''Unknown error (HTTP '' @ show_nat st @ '')'')))"

definition credentials_body :: "string \<Rightarrow> string \<Rightarrow> string" where
  "credentials_body email password =
     ''{\"email\":\"'' @ auth_jsonEscape email @ ''\",\"password\":\"'' @ auth_jsonEscape password @ ''\"}''"

definition session_of_response :: "string \<Rightarrow> AuthSession option" where
  "session_of_response response =
     (case json_extract_string response ''access_token'' (int MAX_TOKEN_LEN) of
        None \<Rightarrow> None
      | Some tok \<Rightarrow>
          Some \<lparr>as_logged_in = True,
                as_user_id = extract_or_empty response ''id'' 64,
                as_email = extract_or_empty response ''email'' MAX_EMAIL_LEN,
                as_access_token = tok,
                as_refresh_token = extract_or_empty response ''refresh_token'' 512\<rparr>)"

text \<open>The result is the return value and what was written to \<open>errOut\<close> (\<open>None\<close>: untouched).\<close>

definition doAuthFlow ::
  "'w env \<Rightarrow> string \<Rightarrow> string \<Rightarrow> string \<Rightarrow> nat \<Rightarrow> 'w agent \<Rightarrow> (bool \<times> string option) \<times> 'w agent" where
  "doAuthFlow env endpointPath email password errOutSize ag =
     (let (url, key) = settings_get_supabase_config (ag_settings ag) MAX_URL_LEN MAX_KEY_LEN;
          (reply, ag1) = doAuthPost env url key endpointPath (credentials_body email password) 4096 ag
      in case reply of
           None \<Rightarrow>
             ((False, Some (buf_copy errOutSize (auth_err ERR_AUTH_NETWORK ''Could not connect to Supabase''))), ag1)
         | Some (response, st) \<Rightarrow>
             if st < 200 \<or> 300 \<le> st
             then ((False, Some (buf_copy errOutSize
                     (auth_err ERR_AUTH_SERVER_REJECT (server_message response st)))), ag1)
             else
               (case session_of_response response of
                  Some s \<Rightarrow>
                    ((True, None),
                     ag1\<lparr>ag_session := s, ag_fs := snd (saveSessionToDisk env s (ag_fs ag1))\<rparr>)
                | None \<Rightarrow>
                    ((True, Some (buf_copy errOutSize
                        ''Success, but you need to confirm your email before logging in.'')), ag1)))"

definition auth_register where
  "auth_register env email password n ag = doAuthFlow env ''/auth/v1/signup'' email password n ag"

definition auth_login where
  "auth_login env email password n ag =
     doAuthFlow env ''/auth/v1/token?grant_type=password'' email password n ag"

definition auth_logout :: "'w env \<Rightarrow> 'w agent \<Rightarrow> 'w agent" where
  "auth_logout env ag =
     ag\<lparr>ag_session := no_session,
        ag_fs := (case sessionFilePath env of
                    None \<Rightarrow> ag_fs ag
                  | Some p \<Rightarrow> if io_delete (en_io env) then (ag_fs ag)(p := None) else ag_fs ag)\<rparr>"

section \<open>Refreshing\<close>

text \<open>What the locked section after the reply does: fields the reply leaves out keep their value.\<close>

definition merge_session :: "AuthSession \<Rightarrow> AuthSession \<Rightarrow> AuthSession" where
  "merge_session old s =
     s\<lparr>as_user_id := (if as_user_id s = [] then as_user_id old else as_user_id s),
       as_email := (if as_email s = [] then as_email old else as_email s),
       as_refresh_token := (if as_refresh_token s = [] then as_refresh_token old else as_refresh_token s),
       as_logged_in := True\<rparr>"

definition refresh_body :: "string \<Rightarrow> string" where
  "refresh_body tok = ''{\"refresh_token\":\"'' @ auth_jsonEscape tok @ ''\"}''"

text \<open>The request, sent outside the lock, and what follows it: two atomic steps of the code.\<close>

definition refresh_post :: "'w env \<Rightarrow> string \<Rightarrow> 'w agent \<Rightarrow> (string \<times> nat) option \<times> 'w agent" where
  "refresh_post env refreshToken ag =
     (let (url, key) = settings_get_supabase_config (ag_settings ag) MAX_URL_LEN MAX_KEY_LEN
      in doAuthPost env url key ''/auth/v1/token?grant_type=refresh_token'' (refresh_body refreshToken) 4096 ag)"

definition refresh_finish :: "'w env \<Rightarrow> (string \<times> nat) option \<Rightarrow> 'w agent \<Rightarrow> bool \<times> 'w agent" where
  "refresh_finish env reply ag =
     (case reply of
        None \<Rightarrow> (False, ag)
      | Some (response, st) \<Rightarrow>
          if st < 200 \<or> 300 \<le> st then (False, auth_logout env ag)
          else
            (case session_of_response response of
               None \<Rightarrow> (False, ag)
             | Some s0 \<Rightarrow>
                 (let s = merge_session (ag_session ag) s0
                  in (True, ag\<lparr>ag_session := s, ag_fs := snd (saveSessionToDisk env s (ag_fs ag))\<rparr>))))"

definition auth_refresh_session :: "'w env \<Rightarrow> 'w agent \<Rightarrow> bool \<times> 'w agent" where
  "auth_refresh_session env ag =
     (let refreshToken = as_refresh_token (ag_session ag)
      in if refreshToken = [] then (False, ag)
         else (let (reply, ag1) = refresh_post env refreshToken ag in refresh_finish env reply ag1))"

definition auth_load_session :: "'w env \<Rightarrow> 'w agent \<Rightarrow> bool \<times> 'w agent" where
  "auth_load_session env ag =
     (case loadSessionFromDisk env (ag_fs ag) of
        None \<Rightarrow> (False, ag)
      | Some s \<Rightarrow> (True, ag\<lparr>ag_session := s\<rparr>))"

definition auth_get_session :: "'w agent \<Rightarrow> AuthSession" where
  "auth_get_session ag = ag_session ag"

definition auth_is_logged_in :: "'w agent \<Rightarrow> bool" where
  "auth_is_logged_in ag = as_logged_in (ag_session ag)"

section \<open>Facts\<close>

lemma jsonEscape_nul_free [simp]: "nul_free (jsonEscape s)"
  using jsonEscape_printable [of s] by (auto simp: printable_def nul_free_def code_def)

text \<open>The wrapper's buffer is always large enough, so it loses nothing.\<close>

lemma auth_jsonEscape_eq: "auth_jsonEscape s = jsonEscape (c_str s)"
  using json_escape_loop_full [of 0 s "length s * 6 + 16"]
  by (simp add: auth_jsonEscape_def json_escape_def)

definition field_ok :: "nat \<Rightarrow> string \<Rightarrow> bool" where
  "field_ok n v \<longleftrightarrow> length v < n \<and> nul_free v \<and> nl \<notin> set v"

definition session_ok :: "AuthSession \<Rightarrow> bool" where
  "session_ok s \<longleftrightarrow> as_logged_in s \<and> field_ok 64 (as_user_id s) \<and> field_ok MAX_EMAIL_LEN (as_email s) \<and>
     field_ok MAX_TOKEN_LEN (as_access_token s) \<and> field_ok 512 (as_refresh_token s)"

definition session_full :: "AuthSession \<Rightarrow> bool" where
  "session_full s \<longleftrightarrow> as_user_id s \<noteq> [] \<and> as_email s \<noteq> [] \<and> as_access_token s \<noteq> [] \<and>
     as_refresh_token s \<noteq> []"

lemma strtok_line: "nl \<notin> set a \<Longrightarrow> strtok_nl (a @ nl # s) = (if a = [] then strtok_nl s else a # strtok_nl s)"
  by (simp add: strtok_nl_def split_on_append)

lemma strtok_Nil [simp]: "strtok_nl [] = []"
  by (simp add: strtok_nl_def)

lemma strtok_end: "nl \<notin> set a \<Longrightarrow> strtok_nl (a @ [nl]) = (if a = [] then [] else [a])"
  using strtok_line [of a "[]"] by (simp add: strtok_nl_def)

lemma session_text_fits: "session_ok s \<Longrightarrow> length (session_text s) < 8191"
  by (simp add: session_ok_def field_ok_def session_text_def MAX_TOKEN_LEN_def MAX_EMAIL_LEN_def)

lemma session_text_nul_free: "session_ok s \<Longrightarrow> nul_free (session_text s)"
  by (simp add: session_ok_def field_ok_def session_text_def)

lemma strtok_session:
  assumes "session_ok s"
  shows "strtok_nl (session_text s) =
    filter (\<lambda>p. p \<noteq> []) [as_user_id s, as_email s, as_access_token s, as_refresh_token s]"
  using assms by (simp add: session_text_def strtok_line strtok_end session_ok_def field_ok_def)

lemma parse_session_text:
  assumes "session_ok s"
  shows "parse_session (session_text s) = (if session_full s then Some s else None)"
proof -
  have "c_str (take 8191 (session_text s)) = session_text s"
    using session_text_fits [OF assms] session_text_nul_free [OF assms] by simp
  then have p: "parse_session (session_text s) =
     (case filter (\<lambda>p. p \<noteq> []) [as_user_id s, as_email s, as_access_token s, as_refresh_token s] of
        l1 # l2 # l3 # l4 # _ \<Rightarrow>
          Some \<lparr>as_logged_in = True, as_user_id = buf_copy 64 l1, as_email = buf_copy MAX_EMAIL_LEN l2,
                as_access_token = buf_copy MAX_TOKEN_LEN l3, as_refresh_token = buf_copy 512 l4\<rparr>
      | _ \<Rightarrow> None)"
    unfolding parse_session_def strtok_session [OF assms, symmetric] by simp
  show ?thesis
  proof (cases "session_full s")
    case True
    then show ?thesis using assms unfolding p
      by (simp add: session_full_def session_ok_def field_ok_def)
  next
    case False
    then show ?thesis unfolding p session_full_def by auto
  qed
qed

text \<open>The documented behaviour of DPAPI that a stored session relies on.\<close>

definition dpapi_ok :: "'w env \<Rightarrow> bool" where
  "dpapi_ok env \<longleftrightarrow> (\<forall>x enc. en_protect env x = Some enc \<longrightarrow> enc \<noteq> [] \<and> en_unprotect env enc = Some x)"

text \<open>The decrypted text is one stored value.\<close>

interpretation session_file: line_store "\<lambda>s. session_ok s \<and> session_full s" session_text parse_session Some
  by unfold_locales (simp add: parse_session_text)

text \<open>A saved session is read back exactly, if no field of it is empty; with an empty field (a reply
  without the user's id or e-mail) \<open>strtok\<close> loses a line and the session cannot be loaded at all.\<close>

theorem session_reload:
  assumes "dpapi_ok env" and "session_ok s" and "saveSessionToDisk env s fs = (True, fs')"
  shows "loadSessionFromDisk env fs' = (if session_full s then Some s else None)"
proof -
  obtain enc where e: "en_protect env (session_text s) = Some enc"
    using assms(3) by (cases "en_protect env (session_text s)") (auto simp: saveSessionToDisk_def)
  then have w: "writeFileAtomic (en_io env) (sessionFilePath env) enc fs = (True, fs')"
    using assms(3) by (simp add: saveSessionToDisk_def)
  then obtain p where p: "sessionFilePath env = Some p" by (cases "sessionFilePath env") auto
  have "fs' p = Some enc" using writeFileAtomic_result(1) [OF w [unfolded p]] by simp
  with e assms(1) p parse_session_text [OF assms(2)] show ?thesis
    by (simp add: loadSessionFromDisk_def dpapi_ok_def)
qed

definition plain_env :: "unit net \<Rightarrow> unit env" where
  "plain_env net = \<lparr>en_net = net, en_dir = Some ''C'', en_io = io_good,
     en_protect = (\<lambda>x. Some (CHR ''#'' # x)), en_unprotect = (\<lambda>x. Some (tl x))\<rparr>"

lemma dpapi_ok_plain [simp]: "dpapi_ok (plain_env net)"
  by (simp add: dpapi_ok_def plain_env_def)

lemma session_reload_witness:
  "loadSessionFromDisk (plain_env (fixed_net (\<lambda>_. None)))
     (snd (saveSessionToDisk (plain_env (fixed_net (\<lambda>_. None)))
        \<lparr>as_logged_in = True, as_user_id = ''u'', as_email = [], as_access_token = ''t'',
         as_refresh_token = ''r''\<rparr> Map.empty)) = None"
proof -
  let ?s = "\<lparr>as_logged_in = True, as_user_id = ''u'', as_email = [], as_access_token = ''t'',
         as_refresh_token = ''r''\<rparr>"
  let ?e = "plain_env (fixed_net (\<lambda>_. None))"
  have "session_ok ?s" by (simp add: session_ok_def field_ok_def MAX_EMAIL_LEN_def MAX_TOKEN_LEN_def)
  moreover have "saveSessionToDisk ?e ?s Map.empty = (True, snd (saveSessionToDisk ?e ?s Map.empty))"
    by (simp add: saveSessionToDisk_def plain_env_def sessionFilePath_def configFile_def)
  ultimately show ?thesis
    using session_reload [of ?e ?s Map.empty] by (simp add: session_full_def)
qed

section \<open>Contracts of login and refresh\<close>

lemma doAuthPost_frame [jit_frame]:
  assumes "doAuthPost env u k p b n ag = (r, ag')"
  shows "ag_session ag' = ag_session ag" "ag_fs ag' = ag_fs ag" "ag_settings ag' = ag_settings ag"
    "ag_conn ag' = ag_conn ag"
  using assms by (auto simp: doAuthPost_def Let_def split: prod.splits if_splits)

lemma refresh_post_frame [jit_frame]:
  assumes "refresh_post env tok ag = (r, ag')"
  shows "ag_session ag' = ag_session ag" "ag_fs ag' = ag_fs ag" "ag_settings ag' = ag_settings ag"
    "ag_conn ag' = ag_conn ag"
  using assms doAuthPost_frame by (auto simp: refresh_post_def split: prod.splits)

lemma session_of_response_logged [simp]:
  "session_of_response resp = Some s \<Longrightarrow> as_logged_in s"
  by (auto simp: session_of_response_def split: option.splits)

lemma json_extract_string_len:
  "json_extract_string r k (int n) = Some v \<Longrightarrow> length v < n"
  using json_extract_string_bound [of r k "int n" v] by simp

lemma extract_or_empty_len: "0 < n \<Longrightarrow> length (extract_or_empty r k n) < n"
  using json_extract_string_len [of r k n] by (simp add: extract_or_empty_def split: option.splits)

lemma session_of_response_fits:
  assumes "session_of_response resp = Some s"
  shows "length (as_user_id s) < 64 \<and> length (as_email s) < MAX_EMAIL_LEN \<and>
         length (as_access_token s) < MAX_TOKEN_LEN \<and> length (as_refresh_token s) < 512"
proof -
  obtain tok where t: "json_extract_string resp ''access_token'' (int MAX_TOKEN_LEN) = Some tok"
    and s: "s = \<lparr>as_logged_in = True, as_user_id = extract_or_empty resp ''id'' 64,
                as_email = extract_or_empty resp ''email'' MAX_EMAIL_LEN, as_access_token = tok,
                as_refresh_token = extract_or_empty resp ''refresh_token'' 512\<rparr>"
    using assms by (auto simp: session_of_response_def split: option.splits)
  show ?thesis
    using json_extract_string_len [OF t] by (simp add: s extract_or_empty_len MAX_EMAIL_LEN_def)
qed

text \<open>A login or registration that fails changes neither the session nor any file and always leaves
  a reason; one that succeeds either installs a logged-in session that fits its buffers, or (no token
  in the reply) changes nothing and says that the e-mail must be confirmed.\<close>

theorem auth_flow_contract:
  assumes "doAuthFlow env path email password n ag = ((ok, err), ag')"
  shows "(\<not> ok \<longrightarrow> err \<noteq> None \<and> ag_session ag' = ag_session ag \<and> ag_fs ag' = ag_fs ag) \<and>
         (ok \<and> err = None \<longrightarrow> as_logged_in (ag_session ag') \<and>
            length (as_access_token (ag_session ag')) < MAX_TOKEN_LEN) \<and>
         (ok \<and> err \<noteq> None \<longrightarrow> ag_session ag' = ag_session ag \<and> ag_fs ag' = ag_fs ag)"
proof -
  obtain url key where c: "settings_get_supabase_config (ag_settings ag) MAX_URL_LEN MAX_KEY_LEN = (url, key)"
    by (cases "settings_get_supabase_config (ag_settings ag) MAX_URL_LEN MAX_KEY_LEN")
  obtain rep ag1 where r: "doAuthPost env url key path (credentials_body email password) 4096 ag = (rep, ag1)"
    by (cases "doAuthPost env url key path (credentials_body email password) 4096 ag")
  show ?thesis
    using assms c r doAuthPost_frame [OF r]
    by (auto simp: doAuthFlow_def Let_def session_of_response_fits
        split: option.splits if_splits prod.splits)
qed

definition token_reply :: string where
  "token_reply = render_obj [(''access_token'', JStr ''abc''), (''refresh_token'', JStr ''r2'')]"

definition example_agent :: "unit agent" where
  "example_agent = \<lparr>ag_settings = setDefaults,
     ag_session = \<lparr>as_logged_in = True, as_user_id = ''u'', as_email = ''e'', as_access_token = ''old'',
       as_refresh_token = ''r1''\<rparr>, ag_fs = Map.empty, ag_conn = None, ag_world = ()\<rparr>"

lemma auth_flow_contract_witness:
  "ag_session (snd (auth_login (plain_env (fixed_net (\<lambda>_. None))) ''e'' ''p'' 64 example_agent)) =
   ag_session example_agent"
proof -
  let ?r = "auth_login (plain_env (fixed_net (\<lambda>_. None))) ''e'' ''p'' 64 example_agent"
  have "\<not> fst (fst ?r)"
    by (simp add: auth_login_def doAuthFlow_def doAuthPost_def plain_env_def fixed_net_def Let_def
        split: prod.splits)
  moreover have "doAuthFlow (plain_env (fixed_net (\<lambda>_. None))) ''/auth/v1/token?grant_type=password''
      ''e'' ''p'' 64 example_agent = ((fst (fst ?r), snd (fst ?r)), snd ?r)"
    by (simp add: auth_login_def)
  ultimately show ?thesis using auth_flow_contract by fastforce
qed

text \<open>Refreshing: without a refresh token nothing is sent; a failed connection and an unusable reply
  keep the session; a refused refresh token logs out; on success the agent is logged in with the new
  token, and every field the reply leaves out keeps its old value.\<close>

theorem auth_refresh_contract:
  assumes "auth_refresh_session env ag = (ok, ag')"
  shows "(as_refresh_token (ag_session ag) = [] \<longrightarrow> \<not> ok \<and> ag' = ag) \<and>
         (\<not> ok \<longrightarrow> ag_session ag' = ag_session ag \<or> ag_session ag' = no_session) \<and>
         (ok \<longrightarrow> as_logged_in (ag_session ag') \<and>
            (\<exists>s. ag_session ag' = merge_session (ag_session ag) s \<and>
               as_access_token (ag_session ag') = as_access_token s \<and>
               as_refresh_token (ag_session ag') \<noteq> []))"
proof (cases "as_refresh_token (ag_session ag) = []")
  case True
  then show ?thesis using assms by (simp add: auth_refresh_session_def)
next
  case False
  obtain rep ag1 where r: "refresh_post env (as_refresh_token (ag_session ag)) ag = (rep, ag1)"
    by (cases "refresh_post env (as_refresh_token (ag_session ag)) ag")
  have f: "refresh_finish env rep ag1 = (ok, ag')"
    using assms False r by (simp add: auth_refresh_session_def)
  note fr = refresh_post_frame [OF r]
  show ?thesis
  proof (cases rep)
    case None
    then show ?thesis using f False fr by (simp add: refresh_finish_def)
  next
    case (Some rs)
    obtain resp st where rs: "rs = (resp, st)" by (cases rs)
    show ?thesis
    proof (cases "st < 200 \<or> 300 \<le> st")
      case True
      then have "ok = False" "ag_session ag' = no_session"
        using f Some rs by (auto simp: refresh_finish_def auth_logout_def)
      then show ?thesis using False by simp
    next
      case good: False
      show ?thesis
      proof (cases "session_of_response resp")
        case None
        then show ?thesis using f False fr good Some rs by (simp add: refresh_finish_def)
      next
        case s: (Some s)
        then have "ok" and sess: "ag_session ag' = merge_session (ag_session ag) s"
          using f fr good Some rs by (auto simp: refresh_finish_def Let_def)
        moreover have "as_logged_in (ag_session ag')"
          "as_access_token (ag_session ag') = as_access_token s"
          "as_refresh_token (ag_session ag') \<noteq> []"
          using False unfolding sess by (simp_all add: merge_session_def)
        ultimately show ?thesis using False by blast
      qed
    qed
  qed
qed

lemma auth_refresh_contract_witness:
  "as_logged_in (ag_session (snd (auth_refresh_session
      (plain_env (fixed_net (\<lambda>_. Some (200, token_reply)))) example_agent)))"
proof -
  let ?r = "auth_refresh_session (plain_env (fixed_net (\<lambda>_. Some (200, token_reply)))) example_agent"
  have "fst ?r" by code_simp
  then show ?thesis
    using auth_refresh_contract
      [of "plain_env (fixed_net (\<lambda>_. Some (200, token_reply)))" example_agent "fst ?r" "snd ?r"]
    by (metis prod.collapse)
qed

text \<open>A refresh that is in flight undoes a logout: the reply is handled outside the lock, so if the
  user logs out while the request is on its way, the session is installed and written to disk again.\<close>

theorem refresh_undoes_logout:
  assumes "session_of_response resp = Some s" and "200 \<le> st" and "st < 300"
  shows "as_logged_in (ag_session (snd (refresh_finish env (Some (resp, st)) (auth_logout env ag)))) \<and>
         as_access_token (ag_session (snd (refresh_finish env (Some (resp, st)) (auth_logout env ag)))) =
           as_access_token s"
  using assms by (simp add: refresh_finish_def merge_session_def Let_def)

lemma refresh_undoes_logout_witness:
  "as_logged_in (ag_session (snd (refresh_finish (plain_env (fixed_net (\<lambda>_. None)))
     (Some (token_reply, 200)) (auth_logout (plain_env (fixed_net (\<lambda>_. None))) example_agent))))"
proof -
  have "session_of_response token_reply =
      Some \<lparr>as_logged_in = True, as_user_id = [], as_email = [], as_access_token = ''abc'',
            as_refresh_token = ''r2''\<rparr>"
    by code_simp
  from refresh_undoes_logout [OF this, of 200 "plain_env (fixed_net (\<lambda>_. None))" example_agent]
  show ?thesis by simp
qed

text \<open>The two ways of reading the host out of the configured URL disagree on a trailing slash: for
  the same setting the data requests go to the host, the login requests to the host with the slash.\<close>

theorem auth_host_keeps_slash:
  assumes "CHR ''/'' \<notin> set host" and "CHR '':'' \<notin> set host"
  shows "extractHost (''https://'' @ host @ ''/'') = host @ ''/'' \<and>
         hostFromUrl (''https://'' @ host @ ''/'') = host"
  using hostFromUrl_https(2) [OF assms(1), of "[]"] by (simp add: extractHost_def)

lemma auth_host_keeps_slash_witness:
  "extractHost ''https://abc.supabase.co/'' = ''abc.supabase.co/'' \<and>
   hostFromUrl ''https://abc.supabase.co/'' = ''abc.supabase.co''"
  using auth_host_keeps_slash [of "''abc.supabase.co''"] by simp

end
