(* ===== verification/Rest_Client.thy ===== *)
theory Rest_Client
  imports Auth_Session
begin

text \<open>
  \<open>src/agent/shared/restclient.cpp\<close>: authenticated requests that refresh an expired token and try
  once more. The two turns of the attempt loop are written out.
\<close>

definition with_http ::
  "('w http_state \<Rightarrow> 'a \<times> 'w http_state) \<Rightarrow> 'w agent \<Rightarrow> 'a \<times> 'w agent" where
  "with_http f ag =
     (let (r, h) = f \<lparr>hc_conn = ag_conn ag, hc_world = ag_world ag\<rparr>
      in (r, ag\<lparr>ag_conn := hc_conn h, ag_world := hc_world h\<rparr>))"

definition restclient_refresh_if_stale :: "'w env \<Rightarrow> string \<Rightarrow> 'w agent \<Rightarrow> bool \<times> 'w agent" where
  "restclient_refresh_if_stale env used_token ag =
     (let current = auth_get_session ag
      in if \<not> as_logged_in current then (False, ag)
         else if used_token \<noteq> [] \<and> as_access_token current \<noteq> used_token then (True, ag)
         else auth_refresh_session env ag)"

definition bearer_headers :: "string \<Rightarrow> string \<Rightarrow> string \<Rightarrow> string" where
  "bearer_headers apikey token extra =
     ''Content-Type: application/json'' @ crlf @ ''apikey: '' @ apikey @ crlf @
     ''Authorization: Bearer '' @ token @ crlf @ extra"

definition rest_request :: "'w agent \<Rightarrow> string \<Rightarrow> string \<Rightarrow> string \<Rightarrow> string \<Rightarrow> HttpReq" where
  "rest_request ag meth path body extra =
     (let (url, key) = settings_get_supabase_config (ag_settings ag) MAX_URL_LEN MAX_KEY_LEN
      in \<lparr>rq_host = hostFromUrl url, rq_method = meth, rq_path = path,
          rq_headers = bearer_headers key (as_access_token (auth_get_session ag)) extra, rq_body = body\<rparr>)"

definition rest_attempt ::
  "'w env \<Rightarrow> string \<Rightarrow> string \<Rightarrow> string \<Rightarrow> string \<Rightarrow> 'w agent \<Rightarrow> HttpResult option \<times> 'w agent" where
  "rest_attempt env meth path body extra ag =
     with_http (httpsRequest (en_net env) (rest_request ag meth path body extra) (meth = ''GET'')
       default_max_body) ag"

definition restclient_call ::
  "'w env \<Rightarrow> string \<Rightarrow> string \<Rightarrow> string option \<Rightarrow> string option \<Rightarrow> nat \<Rightarrow> 'w agent \<Rightarrow>
   (string \<times> nat) option \<times> 'w agent" where
  "restclient_call env meth path body extra_headers response_out_size ag =
     (if response_out_size = 0 then (None, ag)
      else
        (let bodyStr = (case body of None \<Rightarrow> [] | Some b \<Rightarrow> b);
             extra = (case extra_headers of None \<Rightarrow> [] | Some e \<Rightarrow> e);
             out = (\<lambda>r. (take (response_out_size - 1) (hr_body r), hr_status r));
             token = as_access_token (auth_get_session ag);
             logged_in = as_logged_in (auth_get_session ag);
             (res1, ag1) = rest_attempt env meth path bodyStr extra ag
         in case res1 of
              None \<Rightarrow> (None, ag1)
            | Some r1 \<Rightarrow>
                if hr_status r1 = 401 \<and> logged_in
                then
                  (let (fresh, ag2) = restclient_refresh_if_stale env token ag1
                   in if \<not> fresh then (Some (out r1), ag2)
                      else
                        (let (res2, ag3) = rest_attempt env meth path bodyStr extra ag2
                         in (map_option out res2, ag3)))
                else (Some (out r1), ag1)))"

section \<open>Facts\<close>

lemma with_http_frame [jit_frame]:
  assumes "with_http f ag = (r, ag')"
  shows "ag_session ag' = ag_session ag" "ag_fs ag' = ag_fs ag" "ag_settings ag' = ag_settings ag"
  using assms by (auto simp: with_http_def split: prod.splits)

lemma rest_attempt_frame [jit_frame]:
  assumes "rest_attempt env m p b e ag = (r, ag')"
  shows "ag_session ag' = ag_session ag" "ag_fs ag' = ag_fs ag" "ag_settings ag' = ag_settings ag"
  using assms with_http_frame by (auto simp: rest_attempt_def)

lemma auth_logout_settings [simp]: "ag_settings (auth_logout env ag) = ag_settings ag"
  by (simp add: auth_logout_def)

lemma refresh_finish_settings:
  "refresh_finish env rep ag = (b, ag') \<Longrightarrow> ag_settings ag' = ag_settings ag"
  by (auto simp: refresh_finish_def Let_def split: option.splits if_splits prod.splits)

lemma auth_refresh_settings:
  "auth_refresh_session env ag = (b, ag') \<Longrightarrow> ag_settings ag' = ag_settings ag"
  by (auto simp: auth_refresh_session_def Let_def split: if_splits prod.splits
      dest!: refresh_finish_settings refresh_post_frame(3))

lemma refresh_if_stale_settings:
  "restclient_refresh_if_stale env t ag = (b, ag') \<Longrightarrow> ag_settings ag' = ag_settings ag"
  by (auto simp: restclient_refresh_if_stale_def Let_def split: if_splits dest!: auth_refresh_settings)

text \<open>A thread whose token was replaced while it waited does not refresh again (the refresh token
  rotates, so a second use would log the user out), and nobody refreshes when logged out: in both
  cases the state, the network included, is untouched.\<close>

theorem refresh_if_stale_no_double_refresh:
  "(\<not> auth_is_logged_in ag \<longrightarrow> restclient_refresh_if_stale env used_token ag = (False, ag)) \<and>
   (auth_is_logged_in ag \<and> used_token \<noteq> [] \<and> as_access_token (ag_session ag) \<noteq> used_token \<longrightarrow>
      restclient_refresh_if_stale env used_token ag = (True, ag))"
  by (simp add: restclient_refresh_if_stale_def auth_get_session_def auth_is_logged_in_def Let_def)

lemma refresh_if_stale_no_double_refresh_witness:
  "restclient_refresh_if_stale (plain_env (fixed_net (\<lambda>_. None))) ''stale'' example_agent =
   (True, example_agent)"
proof -
  have "auth_is_logged_in example_agent" "as_access_token (ag_session example_agent) \<noteq> ''stale''"
    by (simp_all add: example_agent_def auth_is_logged_in_def)
  with refresh_if_stale_no_double_refresh [of example_agent "plain_env (fixed_net (\<lambda>_. None))" "''stale''"]
  show ?thesis by simp
qed

section \<open>Recovery from an expired token\<close>

text \<open>A server whose only valid token is \<open>fresh\<close>, which it hands out for a refresh.\<close>

definition refresh_path :: string where
  "refresh_path = ''/auth/v1/token?grant_type=refresh_token''"

definition bearer_of :: "string \<Rightarrow> HttpReq \<Rightarrow> bool" where
  "bearer_of token rq \<longleftrightarrow>
     sublist (''Authorization: Bearer '' @ token @ crlf) (rq_headers rq)"

definition token_server :: "string \<Rightarrow> string \<Rightarrow> (HttpReq \<Rightarrow> (nat \<times> string)) \<Rightarrow> unit net" where
  "token_server fresh rt reply =
     fixed_net (\<lambda>rq. if rq_path rq = refresh_path
                     then Some (200, render_obj [(''access_token'', JStr fresh), (''refresh_token'', JStr rt)])
                     else if bearer_of fresh rq then Some (reply rq) else Some (401, ''{}''))"

lemma read_body_single: "read_body m [] [b] = take m b"
  by (cases "m = 0") auto

lemma fixed_net_request:
  "fst (requestOnce (fixed_net f) rq m st) =
     (case f rq of
        None \<Rightarrow> None
      | Some (s, b) \<Rightarrow> if s = 0 then None
                      else Some \<lparr>hr_status = s, hr_body = take m b\<rparr>)"
  by (simp add: requestOnce_def conn_ensure_def fixed_net_def conn_reset_def Let_def read_body_single
      del: read_body.simps split: option.splits)

lemma fixed_net_https:
  "f rq = Some (s, b) \<Longrightarrow> s \<noteq> 0 \<Longrightarrow>
   fst (httpsRequest (fixed_net f) rq idem m st) = Some \<lparr>hr_status = s, hr_body = take m b\<rparr>"
  using fixed_net_request [of f rq m st]
  by (cases "requestOnce (fixed_net f) rq m st") (auto simp: httpsRequest_def)

lemma rest_attempt_fixed:
  assumes "en_net env = fixed_net f" and "f (rest_request ag meth path body extra) = Some (s, b)" and "s \<noteq> 0"
  shows "fst (rest_attempt env meth path body extra ag) =
         Some \<lparr>hr_status = s, hr_body = take default_max_body b\<rparr>"
proof -
  let ?q = "httpsRequest (fixed_net f) (rest_request ag meth path body extra) (meth = ''GET'')
       default_max_body \<lparr>hc_conn = ag_conn ag, hc_world = ag_world ag\<rparr>"
  have "fst ?q = Some \<lparr>hr_status = s, hr_body = take default_max_body b\<rparr>"
    using fixed_net_https [of f "rest_request ag meth path body extra"] assms(2,3) by simp
  then show ?thesis using assms(1) by (cases ?q) (simp add: rest_attempt_def with_http_def)
qed

lemma bearer_headers_bearer [simp]:
  "bearer_of token \<lparr>rq_host = h, rq_method = m, rq_path = p,
     rq_headers = bearer_headers key token extra, rq_body = b\<rparr>"
  unfolding bearer_of_def sublist_def
  by (intro exI [of _ "''Content-Type: application/json'' @ crlf @ ''apikey: '' @ key @ crlf"]
      exI [of _ extra]) (simp add: bearer_headers_def)

definition token_ok :: "string \<Rightarrow> bool" where
  "token_ok t \<longleftrightarrow> list_all plain_char t \<and> length t < 1024"

lemma plain_printable: "list_all plain_char t \<Longrightarrow> printable t"
  by (auto simp: list_all_iff plain_char_def printable_def)

lemma printable_nul_free: "printable t \<Longrightarrow> nul_free t"
  by (auto simp: printable_def nul_free_def code_def)

definition refresh_reply :: "string \<Rightarrow> string \<Rightarrow> string" where
  "refresh_reply fresh rt = render_obj [(''access_token'', JStr fresh), (''refresh_token'', JStr rt)]"

lemma refresh_reply_token:
  assumes "token_ok fresh" and "token_ok rt"
  shows "\<exists>s. session_of_response (c_str (read_body 4095 [] [refresh_reply fresh rt])) = Some s \<and>
             as_access_token s = fresh"
proof -
  have e: "jsonEscape fresh = fresh" "jsonEscape rt = rt"
    using assms by (auto simp: token_ok_def intro: jsonEscape_plain)
  have nf: "nul_free fresh" "nul_free rt"
    using assms by (auto simp: token_ok_def intro: printable_nul_free plain_printable)
  have t: "refresh_reply fresh rt = CHR ''{'' # quo # ''access_token'' @ quo # CHR '':'' # quo # fresh @
      quo # CHR '','' # quo # ''refresh_token'' @ quo # CHR '':'' # quo # rt @ quo # ''}''"
    by (simp add: refresh_reply_def render_obj_def obj_text_def render_field_def e)
  have "length (refresh_reply fresh rt) \<le> 4095"
    using assms unfolding t by (simp add: token_ok_def)
  then have rb: "read_body 4095 [] [refresh_reply fresh rt] = refresh_reply fresh rt"
    by (simp add: read_body_single del: read_body.simps)
  have "nul_free (refresh_reply fresh rt)" using nf unfolding t by simp
  then have cs: "c_str (read_body 4095 [] [refresh_reply fresh rt]) = refresh_reply fresh rt"
    unfolding rb by simp
  have "json_extract_string (refresh_reply fresh rt) ''access_token'' 4096 = Some (take 4095 fresh)"
    using json_extract_string_field [of "[]" "''access_token''" fresh 4096 "[(''refresh_token'', JStr rt)]"]
      assms plain_printable [of fresh]
    by (simp add: refresh_reply_def token_ok_def key_ok_def plain_char_def code_def)
  with assms show ?thesis
    unfolding cs by (simp add: session_of_response_def MAX_TOKEN_LEN_def token_ok_def)
qed

lemma doAuthPost_fixed:
  assumes "en_net env = fixed_net f" and "f (auth_request u k p b) = Some (s, t)"
  shows "doAuthPost env u k p b n ag = (Some (c_str (read_body (n - 1) [] [t]), s), ag)"
  using assms by (simp add: doAuthPost_def fixed_net_def Let_def)

lemma refresh_token_server:
  assumes "en_net env = token_server fresh rt reply" and "token_ok fresh" and "token_ok rt"
    and "as_refresh_token (ag_session ag) \<noteq> []"
  obtains ag' where "auth_refresh_session env ag = (True, ag')"
    "as_access_token (ag_session ag') = fresh" "as_logged_in (ag_session ag')"
    "ag_settings ag' = ag_settings ag"
proof -
  obtain s where s: "session_of_response (c_str (read_body 4095 [] [refresh_reply fresh rt])) = Some s"
    "as_access_token s = fresh" using refresh_reply_token [OF assms(2,3)] by blast
  have p: "refresh_post env tok ag =
      (Some (c_str (read_body 4095 [] [refresh_reply fresh rt]), 200), ag)" for tok
    using doAuthPost_fixed [OF assms(1) [unfolded token_server_def], of _ _ refresh_path]
    by (simp add: refresh_post_def auth_request_def refresh_path_def refresh_reply_def split: prod.splits)
  let ?m = "merge_session (ag_session ag) s"
  have "auth_refresh_session env ag =
      (True, ag\<lparr>ag_session := ?m, ag_fs := snd (saveSessionToDisk env ?m (ag_fs ag))\<rparr>)"
    using assms(4) p s(1) by (simp add: auth_refresh_session_def refresh_finish_def Let_def)
  then show ?thesis
    by (rule that) (use s in \<open>simp_all add: merge_session_def\<close>)
qed

lemma token_server_answers:
  assumes "path \<noteq> refresh_path" and "rq_path rq = path"
  shows "(if rq_path rq = refresh_path
          then Some (200::nat, render_obj [(''access_token'', JStr fresh), (''refresh_token'', JStr rt)])
          else if bearer_of fresh rq then Some (reply rq) else Some (401, ''{}'')) =
         (if bearer_of fresh rq then Some (reply rq) else Some (401, ''{}''))"
  using assms by simp

lemma rest_request_path [simp]: "rq_path (rest_request ag meth path body extra) = path"
  by (simp add: rest_request_def split: prod.splits)

lemma rest_request_bearer:
  "as_access_token (ag_session ag) = token \<Longrightarrow> bearer_of token (rest_request ag meth path body extra)"
  by (auto simp: rest_request_def auth_get_session_def split: prod.splits)

text \<open>C10: An expired access token is recovered within one call: if the server accepts only \<open>fresh\<close> and
  hands it out for the refresh token, a call made with the stale token returns the server's real
  reply, and the session now holds \<open>fresh\<close>.\<close>

theorem rest_recovers_from_expiry:
  assumes "en_net env = token_server fresh rt reply" and "token_ok fresh" and "token_ok rt"
    and "as_logged_in (ag_session ag)" and "as_refresh_token (ag_session ag) \<noteq> []"
    and "path \<noteq> refresh_path"
    and "\<not> bearer_of fresh (rest_request ag meth path b [])"
    and "\<forall>rq. fst (reply rq) \<noteq> 0" and "0 < n"
  shows "\<exists>rq ag'. bearer_of fresh rq \<and> rq_path rq = path \<and> rq_body rq = b \<and>
           restclient_call env meth path (Some b) None n ag =
             (Some (take (n - 1) (take default_max_body (snd (reply rq))), fst (reply rq)), ag') \<and>
           as_access_token (ag_session ag') = fresh"
proof -
  let ?f = "\<lambda>rq. if rq_path rq = refresh_path
       then Some (200, render_obj [(''access_token'', JStr fresh), (''refresh_token'', JStr rt)])
       else if bearer_of fresh rq then Some (reply rq) else Some (401, ''{}'')"
  have net: "en_net env = fixed_net ?f" using assms(1) by (simp add: token_server_def)
  obtain ag1 where a1: "rest_attempt env meth path b [] ag =
      (Some \<lparr>hr_status = 401, hr_body = take default_max_body ''{}''\<rparr>, ag1)"
    using rest_attempt_fixed [OF net, of ag meth path b "[]" 401 "''{}''"] assms(6,7)
    by (cases "rest_attempt env meth path b [] ag") auto
  note f1 = rest_attempt_frame [OF a1]
  obtain ag2 where a2: "auth_refresh_session env ag1 = (True, ag2)"
    "as_access_token (ag_session ag2) = fresh" "ag_settings ag2 = ag_settings ag1"
    using refresh_token_server [OF assms(1-3), of ag1] f1 assms(5) by metis
  have st: "restclient_refresh_if_stale env (as_access_token (auth_get_session ag)) ag1 = (True, ag2)"
    using a2 f1 assms(4) by (simp add: restclient_refresh_if_stale_def auth_get_session_def)
  let ?rq = "rest_request ag2 meth path b []"
  have rq: "bearer_of fresh ?rq" "rq_path ?rq = path" "rq_body ?rq = b"
    using rest_request_bearer [OF a2(2)] by (simp_all add: rest_request_def split: prod.splits)
  have "?f ?rq = Some (fst (reply ?rq), snd (reply ?rq))"
    using assms(6) rq by simp
  from rest_attempt_fixed [OF net this] assms(8)
  obtain ag3 where a3: "rest_attempt env meth path b [] ag2 =
      (Some \<lparr>hr_status = fst (reply ?rq), hr_body = take default_max_body (snd (reply ?rq))\<rparr>, ag3)"
    by (cases "rest_attempt env meth path b [] ag2") auto
  have "restclient_call env meth path (Some b) None n ag =
        (Some (take (n - 1) (take default_max_body (snd (reply ?rq))), fst (reply ?rq)), ag3)"
    using assms(4,9) a1 st a3 by (simp add: restclient_call_def Let_def auth_get_session_def)
  moreover have "as_access_token (ag_session ag3) = fresh"
    using rest_attempt_frame(1) [OF a3] a2(2) by simp
  ultimately show ?thesis using rq by blast
qed

lemma rest_recovers_from_expiry_witness:
  "\<exists>ag'. restclient_call (plain_env (token_server ''new'' ''r2'' (\<lambda>_. (200, ''[]'')))) ''GET'' ''/rest'' (Some [])
     None 100 example_agent = (Some (''[]'', 200), ag') \<and> as_access_token (ag_session ag') = ''new''"
proof -
  let ?e = "plain_env (token_server ''new'' ''r2'' (\<lambda>_. (200, ''[]'')))"
  have e: "en_net ?e = token_server ''new'' ''r2'' (\<lambda>_. (200, ''[]''))" by (simp add: plain_env_def)
  have t: "token_ok ''new''" "token_ok ''r2''" by (simp_all add: token_ok_def plain_char_def code_def)
  have nb: "\<not> bearer_of ''new'' (rest_request example_agent ''GET'' ''/rest'' [] [])" by code_simp
  have s: "as_logged_in (ag_session example_agent)" "as_refresh_token (ag_session example_agent) \<noteq> []"
    by (simp_all add: example_agent_def)
  have "default_max_body = Suc (Suc (default_max_body - 2))" by (simp add: default_max_body_def)
  then have d: "take default_max_body ''[]'' = ''[]''" by (metis length_Cons list.size(3) take_all_iff Suc_le_mono zero_le)
  from rest_recovers_from_expiry [OF e t s _ nb, of 100] show ?thesis
    by (simp add: refresh_path_def d) (metis d)
qed

end
