(* ===== verification/Batch_Send.thy ===== *)
theory Batch_Send
  imports JIT_Prelude
begin

text \<open>
  \<open>includes/agent/agent/batchsend.h\<close>: \<open>sendWithBisect\<close>, the batch sender that isolates records the
  server refuses. \<open>send lo hi\<close> is a step on the caller's state, so the same definition serves the
  real sender (which refreshes tokens and talks to the network) and the pure servers of the
  lemmas. The vector \<open>pending\<close> is a list whose head is the vector's back. The budget
  \<open>maxRequests\<close> bounds the loop, which is its termination measure.
\<close>

section \<open>The algorithm\<close>

datatype SendOutcome = Accepted | Rejected | TransportError

record BatchReport =
  accepted :: "nat list"
  rejected :: "nat list"
  aborted :: bool
  requests :: nat

type_synonym 's sender = "nat \<Rightarrow> nat \<Rightarrow> 's \<Rightarrow> SendOutcome \<times> 's"

definition empty_report :: BatchReport where
  "empty_report = \<lparr>accepted = [], rejected = [], aborted = False, requests = 0\<rparr>"

function bisect_loop ::
  "'s sender \<Rightarrow> int \<Rightarrow> (nat \<times> nat) list \<Rightarrow> BatchReport \<Rightarrow> 's \<Rightarrow> BatchReport \<times> 's" where
  "bisect_loop send maxR [] rep s = (rep, s)"
| "bisect_loop send maxR ((lo, hi) # pending) rep s =
     (if maxR \<le> int (requests rep) then (rep\<lparr>aborted := True\<rparr>, s)
      else
        (let (outcome, s') = send lo hi s;
             rep' = rep\<lparr>requests := requests rep + 1\<rparr>
         in case outcome of
              Accepted \<Rightarrow>
                bisect_loop send maxR pending (rep'\<lparr>accepted := accepted rep' @ [lo..<hi]\<rparr>) s'
            | TransportError \<Rightarrow> (rep'\<lparr>aborted := True\<rparr>, s')
            | Rejected \<Rightarrow>
                if hi - lo = 1
                then bisect_loop send maxR pending (rep'\<lparr>rejected := rejected rep' @ [lo]\<rparr>) s'
                else
                  (let mid = lo + (hi - lo) div 2
                   in bisect_loop send maxR ((lo, mid) # (mid, hi) # pending) rep' s')))"
  by pat_completeness auto

termination
  by (relation "measure (\<lambda>(send, maxR, pending, rep, s). nat (maxR - int (requests rep)))") auto

declare bisect_loop.simps [simp del]

definition sendWithBisect :: "int \<Rightarrow> int \<Rightarrow> 's sender \<Rightarrow> 's \<Rightarrow> BatchReport \<times> 's" where
  "sendWithBisect count maxRequests send s =
     bisect_loop send maxRequests (if 0 < count then [(0, nat count)] else []) empty_report s"

lemma bisect_loop_Nil [simp]: "bisect_loop send maxR [] rep s = (rep, s)"
  by (simp add: bisect_loop.simps)

lemma bisect_loop_stop:
  "maxR \<le> int (requests rep) \<Longrightarrow>
   bisect_loop send maxR (r # pending) rep s = (rep\<lparr>aborted := True\<rparr>, s)"
  by (cases r) (simp add: bisect_loop.simps)

lemma bisect_loop_step:
  assumes "int (requests rep) < maxR" and "send lo hi s = (out, s')"
  shows "bisect_loop send maxR ((lo, hi) # pending) rep s =
     (let rep' = rep\<lparr>requests := requests rep + 1\<rparr>
      in case out of
           Accepted \<Rightarrow> bisect_loop send maxR pending (rep'\<lparr>accepted := accepted rep @ [lo..<hi]\<rparr>) s'
         | TransportError \<Rightarrow> (rep'\<lparr>aborted := True\<rparr>, s')
         | Rejected \<Rightarrow>
             if hi - lo = 1 then bisect_loop send maxR pending (rep'\<lparr>rejected := rejected rep @ [lo]\<rparr>) s'
             else bisect_loop send maxR ((lo, lo + (hi - lo) div 2) # (lo + (hi - lo) div 2, hi) # pending)
                    rep' s')"
  using assms by (simp add: bisect_loop.simps(2) Let_def cong: SendOutcome.case_cong)

text \<open>Induction in the shape of the loop body: one case for each way an iteration ends.\<close>

lemma bisect_loop_induct [case_names nopend budget accept reject split transport]:
  assumes "\<And>rep s. P [] rep s"
    and "\<And>r pending rep s. maxR \<le> int (requests rep) \<Longrightarrow> P (r # pending) rep s"
    and "\<And>lo hi pending rep s s'. int (requests rep) < maxR \<Longrightarrow> send lo hi s = (Accepted, s') \<Longrightarrow>
          P pending (rep\<lparr>requests := requests rep + 1, accepted := accepted rep @ [lo..<hi]\<rparr>) s' \<Longrightarrow>
          P ((lo, hi) # pending) rep s"
    and "\<And>lo hi pending rep s s'. int (requests rep) < maxR \<Longrightarrow> send lo hi s = (Rejected, s') \<Longrightarrow>
          hi - lo = 1 \<Longrightarrow>
          P pending (rep\<lparr>requests := requests rep + 1, rejected := rejected rep @ [lo]\<rparr>) s' \<Longrightarrow>
          P ((lo, hi) # pending) rep s"
    and "\<And>lo hi pending rep s s'. int (requests rep) < maxR \<Longrightarrow> send lo hi s = (Rejected, s') \<Longrightarrow>
          hi - lo \<noteq> 1 \<Longrightarrow>
          P ((lo, lo + (hi - lo) div 2) # (lo + (hi - lo) div 2, hi) # pending)
            (rep\<lparr>requests := requests rep + 1\<rparr>) s' \<Longrightarrow>
          P ((lo, hi) # pending) rep s"
    and "\<And>lo hi pending rep s s'. int (requests rep) < maxR \<Longrightarrow> send lo hi s = (TransportError, s') \<Longrightarrow>
          P ((lo, hi) # pending) rep s"
  shows "P pending rep s"
proof (induction "nat (maxR - int (requests rep))" arbitrary: pending rep s rule: less_induct)
  case (less rep pending s)
  show ?case
  proof (cases pending)
    case Nil
    then show ?thesis using assms(1) by simp
  next
    case (Cons r rest)
    obtain lo hi where r: "r = (lo, hi)" by (cases r)
    obtain out s' where snd: "send lo hi s = (out, s')" by (cases "send lo hi s")
    show ?thesis
    proof (cases "maxR \<le> int (requests rep)")
      case True
      then show ?thesis using assms(2) Cons by simp
    next
      case False
      then have lt: "int (requests rep) < maxR" by simp
      have ih: "P ps (rep\<lparr>requests := requests rep + 1\<rparr>) x"
        "P ps (rep\<lparr>requests := requests rep + 1, accepted := a\<rparr>) x"
        "P ps (rep\<lparr>requests := requests rep + 1, rejected := a\<rparr>) x" for ps a x
        by (rule less; use lt in simp)+
      show ?thesis
      proof (cases out)
        case Accepted
        show ?thesis unfolding Cons r
          by (rule assms(3) [OF lt snd [unfolded Accepted] ih(2)])
      next
        case Rejected
        show ?thesis unfolding Cons r
          by (cases "hi - lo = 1")
             (blast intro: assms(4) [OF lt snd [unfolded Rejected] _ ih(3)]
                assms(5) [OF lt snd [unfolded Rejected] _ ih(1)])+
      next
        case TransportError
        show ?thesis unfolding Cons r
          by (rule assms(6) [OF lt snd [unfolded TransportError]])
      qed
    qed
  qed
qed

section \<open>The request budget\<close>

lemma bisect_loop_requests:
  assumes "bisect_loop send maxR pending rep s = (rep', s')" and "int (requests rep) \<le> max 0 maxR"
  shows "int (requests rep') \<le> max 0 maxR"
  using assms
proof (induction pending rep s rule: bisect_loop_induct [where send = send and maxR = maxR])
  case (budget r pending rep s)
  then show ?case by (auto simp: bisect_loop_stop)
qed (auto simp: bisect_loop_step)

section \<open>What a report accounts for\<close>

text \<open>Pending ranges always tile \<open>[k, n)\<close>; what is decided is exactly \<open>[0, k)\<close>.\<close>

fun tiles :: "nat \<Rightarrow> (nat \<times> nat) list \<Rightarrow> nat \<Rightarrow> bool" where
  "tiles k [] n = (k = n)"
| "tiles k ((lo, hi) # ps) n = (lo = k \<and> lo < hi \<and> tiles hi ps n)"

definition decided :: "BatchReport \<Rightarrow> nat \<Rightarrow> bool" where
  "decided rep k \<longleftrightarrow>
     sorted_wrt (<) (accepted rep) \<and> sorted_wrt (<) (rejected rep) \<and>
     set (accepted rep) \<inter> set (rejected rep) = {} \<and>
     set (accepted rep) \<union> set (rejected rep) = {0..<k}"

lemma tiles_le: "tiles k ps n \<Longrightarrow> k \<le> n"
  by (induction k ps n rule: tiles.induct) auto

lemma tiles_split:
  "tiles k ((lo, hi) # ps) n \<Longrightarrow> hi - lo \<noteq> 1 \<Longrightarrow>
   tiles k ((lo, lo + (hi - lo) div 2) # (lo + (hi - lo) div 2, hi) # ps) n"
  by auto

lemma decided_less: "decided rep k \<Longrightarrow> x \<in> set (accepted rep) \<or> x \<in> set (rejected rep) \<Longrightarrow> x < k"
  by (auto simp: decided_def)

lemma sorted_wrt_upt_less: "sorted_wrt (<) [k..<hi]"
  by (rule sorted_wrt_upt)

lemma decided_accept:
  assumes d: "decided rep k" and "k < hi"
  shows "decided (rep\<lparr>requests := q, accepted := accepted rep @ [k..<hi]\<rparr>) hi"
proof -
  have "sorted_wrt (<) (accepted rep @ [k..<hi])"
    using d decided_less [OF d] by (force simp: decided_def sorted_wrt_append)
  moreover have "set (accepted rep @ [k..<hi]) \<inter> set (rejected rep) = {}"
    using d decided_less [OF d] by (force simp: decided_def)
  moreover have "set (accepted rep @ [k..<hi]) \<union> set (rejected rep) = {0..<k} \<union> {k..<hi}"
    using d by (auto simp: decided_def)
  moreover have "{0..<k} \<union> {k..<hi} = {0..<hi}" using \<open>k < hi\<close> by auto
  ultimately show ?thesis using d by (simp add: decided_def)
qed

lemma decided_reject:
  assumes d: "decided rep k"
  shows "decided (rep\<lparr>requests := q, rejected := rejected rep @ [k]\<rparr>) (Suc k)"
proof -
  have "sorted_wrt (<) (rejected rep @ [k])"
    using d decided_less [OF d] by (force simp: decided_def sorted_wrt_append)
  moreover have "set (accepted rep) \<inter> set (rejected rep @ [k]) = {}"
    using d decided_less [OF d] by (force simp: decided_def)
  moreover have "set (accepted rep) \<union> set (rejected rep @ [k]) = {0..<Suc k}"
    using d by (auto simp: decided_def)
  ultimately show ?thesis using d by (simp add: decided_def)
qed

lemma bisect_loop_decided:
  assumes "bisect_loop send maxR pending rep s = (rep', s')"
    and "decided rep k" and "tiles k pending n" and "\<not> aborted rep"
  shows "\<exists>k'. k \<le> k' \<and> k' \<le> n \<and> decided rep' k' \<and> (\<not> aborted rep' \<longrightarrow> k' = n)"
  using assms
proof (induction pending rep s arbitrary: k rule: bisect_loop_induct [where send = send and maxR = maxR])
  case (nopend rep s)
  then show ?case by auto
next
  case (budget r pending rep s)
  then show ?case
    by (intro exI [of _ k]) (auto simp: bisect_loop_stop decided_def dest: tiles_le)
next
  case (accept lo hi pending rep s s1)
  then have "lo = k" "k < hi" by auto
  with accept.IH [of hi] accept decided_accept [OF accept.prems(2), of hi "requests rep + 1"]
  obtain k' where "hi \<le> k'" "k' \<le> n \<and> decided rep' k' \<and> (\<not> aborted rep' \<longrightarrow> k' = n)"
    by (auto simp: bisect_loop_step Let_def)
  with \<open>k < hi\<close> show ?case by (intro exI [of _ k']) auto
next
  case (reject lo hi pending rep s s1)
  then have "lo = k" "hi = Suc k" by auto
  with reject.IH [of "Suc k"] reject decided_reject [OF reject.prems(2), of "requests rep + 1"]
  obtain k' where "Suc k \<le> k'" "k' \<le> n \<and> decided rep' k' \<and> (\<not> aborted rep' \<longrightarrow> k' = n)"
    by (auto simp: bisect_loop_step Let_def)
  then show ?case by (intro exI [of _ k']) auto
next
  case (split lo hi pending rep s s1)
  then have "tiles k ((lo, lo + (hi - lo) div 2) # (lo + (hi - lo) div 2, hi) # pending) n"
    using tiles_split by blast
  with split show ?case by (simp add: bisect_loop_step decided_def)
next
  case (transport lo hi pending rep s s1)
  then show ?case
    by (intro exI [of _ k]) (auto simp: bisect_loop_step decided_def dest: tiles_le)
qed

section \<open>The report against the requests that were really sent\<close>

text \<open>A sender that also writes down every call and its answer.\<close>

definition logged :: "'s sender \<Rightarrow> ('s \<times> (nat \<times> nat \<times> SendOutcome) list) sender" where
  "logged send lo hi sl =
     (let (out, s') = send lo hi (fst sl) in (out, s', snd sl @ [(lo, hi, out)]))"

definition log_accepted :: "(nat \<times> nat \<times> SendOutcome) list \<Rightarrow> nat list" where
  "log_accepted log = concat (map (\<lambda>(lo, hi, out). if out = Accepted then [lo..<hi] else []) log)"

definition log_rejected :: "(nat \<times> nat \<times> SendOutcome) list \<Rightarrow> nat list" where
  "log_rejected log =
     concat (map (\<lambda>(lo, hi, out). if out = Rejected \<and> hi - lo = 1 then [lo] else []) log)"

definition report_of_log :: "BatchReport \<Rightarrow> (nat \<times> nat \<times> SendOutcome) list \<Rightarrow> bool" where
  "report_of_log rep log \<longleftrightarrow>
     accepted rep = log_accepted log \<and> rejected rep = log_rejected log \<and>
     requests rep = length log"

lemma logged_eq:
  "logged send lo hi (s, l) = (out, s', l') \<longleftrightarrow>
   send lo hi s = (out, s') \<and> l' = l @ [(lo, hi, out)]"
  by (auto simp: logged_def split: prod.splits)

lemma log_append [simp]:
  "log_accepted (a @ b) = log_accepted a @ log_accepted b"
  "log_rejected (a @ b) = log_rejected a @ log_rejected b"
  by (simp_all add: log_accepted_def log_rejected_def)

lemma log_single [simp]:
  "log_accepted [(lo, hi, out)] = (if out = Accepted then [lo..<hi] else [])"
  "log_rejected [(lo, hi, out)] = (if out = Rejected \<and> hi - lo = 1 then [lo] else [])"
  by (simp_all add: log_accepted_def log_rejected_def)

lemma bisect_loop_logged:
  assumes "report_of_log rep l"
  shows "\<exists>l'. bisect_loop (logged send) maxR pending rep (s, l) =
           (fst (bisect_loop send maxR pending rep s), snd (bisect_loop send maxR pending rep s), l') \<and>
         report_of_log (fst (bisect_loop send maxR pending rep s)) l'"
  using assms
proof (induction pending rep s arbitrary: l rule: bisect_loop_induct [where send = send and maxR = maxR])
  case (budget r pending rep s)
  then show ?case by (cases r) (simp add: bisect_loop.simps report_of_log_def)
next
  case (accept lo hi pending rep s s1)
  have "logged send lo hi (s, l) = (Accepted, s1, l @ [(lo, hi, Accepted)])"
    using accept(2) by (simp add: logged_eq)
  moreover have "report_of_log (rep\<lparr>requests := requests rep + 1, accepted := accepted rep @ [lo..<hi]\<rparr>) (l @ [(lo, hi, Accepted)])"
    using accept by (simp add: report_of_log_def)
  ultimately show ?case
    using accept.IH accept.hyps by (simp add: bisect_loop_step Let_def)
next
  case (reject lo hi pending rep s s1)
  have "logged send lo hi (s, l) = (Rejected, s1, l @ [(lo, hi, Rejected)])"
    using reject(2) by (simp add: logged_eq)
  moreover have "report_of_log (rep\<lparr>requests := requests rep + 1, rejected := rejected rep @ [lo]\<rparr>) (l @ [(lo, hi, Rejected)])"
    using reject by (simp add: report_of_log_def)
  ultimately show ?case
    using reject.IH reject.hyps by (simp add: bisect_loop_step Let_def)
next
  case (split lo hi pending rep s s1)
  have "logged send lo hi (s, l) = (Rejected, s1, l @ [(lo, hi, Rejected)])"
    using split(2) by (simp add: logged_eq)
  moreover have "report_of_log (rep\<lparr>requests := requests rep + 1\<rparr>) (l @ [(lo, hi, Rejected)])"
    using split by (simp add: report_of_log_def)
  ultimately show ?case
    using split.IH split.hyps by (simp add: bisect_loop_step Let_def)
next
  case (transport lo hi pending rep s s1)
  have "logged send lo hi (s, l) = (TransportError, s1, l @ [(lo, hi, TransportError)])"
    using transport(2) by (simp add: logged_eq)
  with transport show ?case
    by (simp add: bisect_loop_step Let_def report_of_log_def)
qed simp

section \<open>Isolating refused records\<close>

text \<open>A server that refuses exactly the requests holding a bad record.\<close>

definition poison_server :: "(nat \<Rightarrow> bool) \<Rightarrow> 's sender" where
  "poison_server bad lo hi s = (if \<exists>i \<in> set [lo..<hi]. bad i then Rejected else Accepted, s)"

function bisect_cost :: "(nat \<Rightarrow> bool) \<Rightarrow> nat \<Rightarrow> nat \<Rightarrow> nat" where
  "bisect_cost bad lo hi =
     (if hi - lo \<le> 1 \<or> \<not> (\<exists>i \<in> set [lo..<hi]. bad i) then 1
      else 1 + bisect_cost bad lo (lo + (hi - lo) div 2) + bisect_cost bad (lo + (hi - lo) div 2) hi)"
  by pat_completeness auto

termination
  by (relation "measure (\<lambda>(bad, lo, hi). hi - lo)") auto

declare bisect_cost.simps [simp del]

definition bad_count :: "(nat \<Rightarrow> bool) \<Rightarrow> nat \<Rightarrow> nat \<Rightarrow> nat" where
  "bad_count bad lo hi = length (filter bad [lo..<hi])"

lemma bad_count_split:
  "lo \<le> mid \<Longrightarrow> mid \<le> hi \<Longrightarrow> bad_count bad lo hi = bad_count bad lo mid + bad_count bad mid hi"
  by (simp add: bad_count_def filter_upt_split [of lo mid hi])

lemma bisect_cost_none: "bad_count bad lo hi = 0 \<Longrightarrow> bisect_cost bad lo hi = 1"
  by (subst bisect_cost.simps) (auto simp: bad_count_def filter_empty_conv)

lemma bisect_cost_bound:
  "hi - lo \<le> 2 ^ d \<Longrightarrow> bisect_cost bad lo hi \<le> 2 * bad_count bad lo hi * d + 1"
proof (induction d arbitrary: lo hi)
  case 0
  then show ?case by (subst bisect_cost.simps) simp
next
  case (Suc d)
  let ?mid = "lo + (hi - lo) div 2"
  show ?case
  proof (cases "hi - lo \<le> 1 \<or> bad_count bad lo hi = 0")
    case True
    then have "bisect_cost bad lo hi = 1"
    proof
      assume "hi - lo \<le> 1"
      then show ?thesis by (subst bisect_cost.simps) simp
    qed (rule bisect_cost_none)
    then show ?thesis by simp
  next
    case False
    then have ex: "\<exists>i \<in> set [lo..<hi]. bad i" by (auto simp: bad_count_def filter_empty_conv)
    have "?mid - lo \<le> 2 ^ d" "hi - ?mid \<le> 2 ^ d" using Suc.prems by simp_all
    then have ih: "bisect_cost bad lo ?mid \<le> 2 * bad_count bad lo ?mid * d + 1"
      "bisect_cost bad ?mid hi \<le> 2 * bad_count bad ?mid hi * d + 1"
      using Suc.IH by blast+
    have sp: "bad_count bad lo hi = bad_count bad lo ?mid + bad_count bad ?mid hi"
      using False by (intro bad_count_split) auto
    have "bisect_cost bad lo hi = 1 + bisect_cost bad lo ?mid + bisect_cost bad ?mid hi"
      using False ex by (subst bisect_cost.simps) simp
    also have "\<dots> \<le> 2 * bad_count bad lo hi * d + 3"
      using ih unfolding sp by (simp add: algebra_simps)
    also have "\<dots> \<le> 2 * bad_count bad lo hi * Suc d + 1"
      using False by simp
    finally show ?thesis .
  qed
qed

text \<open>A sender that refuses just those requests, whatever it does to its state within \<open>I\<close>.\<close>

definition isolating :: "(nat \<Rightarrow> bool) \<Rightarrow> nat \<Rightarrow> ('s \<Rightarrow> bool) \<Rightarrow> 's sender \<Rightarrow> bool" where
  "isolating bad n I send \<longleftrightarrow>
     (\<forall>lo hi s. I s \<longrightarrow> lo < hi \<longrightarrow> hi \<le> n \<longrightarrow>
        fst (send lo hi s) = (if \<exists>i \<in> set [lo..<hi]. bad i then Rejected else Accepted) \<and>
        I (snd (send lo hi s)))"

lemma isolating_cong:
  "(\<And>i. i < n \<Longrightarrow> bad i = bad' i) \<Longrightarrow> isolating bad n I send = isolating bad' n I send"
proof -
  assume *: "\<And>i. i < n \<Longrightarrow> bad i = bad' i"
  have "(\<exists>i \<in> set [lo..<hi]. bad i) = (\<exists>i \<in> set [lo..<hi]. bad' i)" if "hi \<le> n" for lo hi
    using * that by (intro bex_cong) auto
  then have "hi \<le> n \<longrightarrow> (if \<exists>i \<in> set [lo..<hi]. bad i then Rejected else Accepted) =
      (if \<exists>i \<in> set [lo..<hi]. bad' i then Rejected else Accepted)" for lo hi by simp
  then show ?thesis unfolding isolating_def by simp
qed

lemma isolating_poison_server: "isolating bad n (\<lambda>_. True) (poison_server bad)"
  by (simp add: isolating_def poison_server_def)

lemma isolating_step:
  assumes "isolating bad n I send" and "I s" and "lo < hi" and "hi \<le> n"
  obtains s1 where "send lo hi s = (if \<exists>i \<in> set [lo..<hi]. bad i then Rejected else Accepted, s1)" "I s1"
proof (rule that [of "snd (send lo hi s)"])
  have *: "fst (send lo hi s) = (if \<exists>i \<in> set [lo..<hi]. bad i then Rejected else Accepted) \<and>
      I (snd (send lo hi s))" using assms unfolding isolating_def by blast
  show "send lo hi s = (if \<exists>i \<in> set [lo..<hi]. bad i then Rejected else Accepted, snd (send lo hi s))"
    using * by (simp add: prod_eq_iff)
  show "I (snd (send lo hi s))" using * by blast
qed

lemma bisect_loop_isolate:
  assumes "isolating bad n I send" and "I s" and "lo < hi" and "hi \<le> n"
    and "int (requests rep + bisect_cost bad lo hi) \<le> maxR"
  shows "\<exists>s'. I s' \<and> bisect_loop send maxR ((lo, hi) # pending) rep s =
         bisect_loop send maxR pending
           (rep\<lparr>requests := requests rep + bisect_cost bad lo hi,
                accepted := accepted rep @ filter (\<lambda>i. \<not> bad i) [lo..<hi],
                rejected := rejected rep @ filter bad [lo..<hi]\<rparr>) s'"
  using assms(2-)
proof (induction "hi - lo" arbitrary: lo hi rep pending s rule: less_induct)
  case (less lo hi rep pending s)
  let ?mid = "lo + (hi - lo) div 2"
  have pos: "int (requests rep) < maxR"
    using less.prems(4) by (subst (asm) bisect_cost.simps) (simp split: if_splits)
  obtain s1 where snd: "send lo hi s = (if \<exists>i \<in> set [lo..<hi]. bad i then Rejected else Accepted, s1)"
    and I1: "I s1" by (rule isolating_step [OF assms(1) less.prems(1-3)])
  show ?case
  proof (cases "\<exists>i \<in> set [lo..<hi]. bad i")
    case False
    then have f: "filter bad [lo..<hi] = []" "filter (\<lambda>i. \<not> bad i) [lo..<hi] = [lo..<hi]"
      by (auto simp: filter_empty_conv filter_id_conv)
    have "bisect_cost bad lo hi = 1" using False by (subst bisect_cost.simps) simp
    moreover have "send lo hi s = (Accepted, s1)" using snd False by simp
    ultimately show ?thesis
      unfolding f using I1
      by (intro exI [of _ s1]) (simp add: bisect_loop_step [of rep maxR send lo hi s, OF pos] Let_def)
  next
    case ex: True
    then have rj: "send lo hi s = (Rejected, s1)" using snd by simp
    note step = bisect_loop_step [of rep maxR send lo hi s, OF pos rj, of pending]
    show ?thesis
    proof (cases "hi - lo = 1")
      case True
      then have hi: "hi = Suc lo" by simp
      with ex have "bad lo" by simp
      moreover have "bisect_cost bad lo hi = 1" using True by (subst bisect_cost.simps) simp
      moreover have "[lo..<hi] = [lo]" using hi by simp
      ultimately show ?thesis using True I1 by (intro exI [of _ s1]) (simp add: step Let_def)
    next
      case False
      with less.prems(2) have lt: "lo < ?mid" "?mid < hi" by auto
      have m: "?mid - lo < hi - lo" "hi - ?mid < hi - lo" using lt by linarith+
      have nle: "\<not> hi - lo \<le> 1" using False less.prems(2) by linarith
      have c: "bisect_cost bad lo hi = 1 + bisect_cost bad lo ?mid + bisect_cost bad ?mid hi"
        using nle ex by (subst bisect_cost.simps) simp
      have f: "filter P [lo..<hi] = filter P [lo..<?mid] @ filter P [?mid..<hi]" for P
        using lt by (intro filter_upt_split) auto
      let ?rep1 = "rep\<lparr>requests := requests rep + 1\<rparr>"
      let ?rep2 = "?rep1\<lparr>requests := requests ?rep1 + bisect_cost bad lo ?mid,
                accepted := accepted ?rep1 @ filter (\<lambda>i. \<not> bad i) [lo..<?mid],
                rejected := rejected ?rep1 @ filter bad [lo..<?mid]\<rparr>"
      have mn: "?mid \<le> n" using lt less.prems(3) by linarith
      have "bisect_loop send maxR ((lo, hi) # pending) rep s =
            bisect_loop send maxR ((lo, ?mid) # (?mid, hi) # pending) ?rep1 s1"
        using False by (simp add: step Let_def)
      moreover obtain s2 where "I s2"
        "bisect_loop send maxR ((lo, ?mid) # (?mid, hi) # pending) ?rep1 s1 =
         bisect_loop send maxR ((?mid, hi) # pending) ?rep2 s2"
        using less.hyps [OF m(1) I1 lt(1) mn, of ?rep1 "(?mid, hi) # pending"] less.prems(4) c by auto
      moreover obtain s3 where "I s3"
        "bisect_loop send maxR ((?mid, hi) # pending) ?rep2 s2 = bisect_loop send maxR pending
           (?rep2\<lparr>requests := requests ?rep2 + bisect_cost bad ?mid hi,
                accepted := accepted ?rep2 @ filter (\<lambda>i. \<not> bad i) [?mid..<hi],
                rejected := rejected ?rep2 @ filter bad [?mid..<hi]\<rparr>) s3"
        using less.hyps [OF m(2) \<open>I s2\<close> lt(2) less.prems(3), of ?rep2 pending] less.prems(4) c by auto
      ultimately show ?thesis using c f by (intro exI [of _ s3]) (simp add: add.assoc)
    qed
  qed
qed

lemma sendWithBisect_isolates:
  assumes "isolating bad (nat count) I send" and "I s" and "0 < count"
    and "int (bisect_cost bad 0 (nat count)) \<le> maxRequests"
  shows "fst (sendWithBisect count maxRequests send s) =
     \<lparr>accepted = filter (\<lambda>i. \<not> bad i) [0..<nat count], rejected = filter bad [0..<nat count],
      aborted = False, requests = bisect_cost bad 0 (nat count)\<rparr> \<and>
     I (snd (sendWithBisect count maxRequests send s))"
  using assms bisect_loop_isolate [OF assms(1,2), where lo = 0 and hi = "nat count" and rep = empty_report
      and maxR = maxRequests and pending = "[]"]
  by (auto simp: sendWithBisect_def empty_report_def)

section \<open>A refusing server never blocks the head of the queue\<close>

definition never_transport :: "'s sender \<Rightarrow> bool" where
  "never_transport send \<longleftrightarrow> (\<forall>lo hi s. fst (send lo hi s) \<noteq> TransportError)"

lemma bisect_loop_mono:
  assumes "bisect_loop send maxR pending rep s = (rep', s')"
  shows "set (accepted rep) \<subseteq> set (accepted rep') \<and> set (rejected rep) \<subseteq> set (rejected rep')"
  using assms
proof (induction pending rep s rule: bisect_loop_induct [where send = send and maxR = maxR])
  case (budget r pending rep s)
  then show ?case by (auto simp: bisect_loop_stop)
qed (auto simp: bisect_loop_step Let_def)

lemma bisect_loop_leaf:
  assumes run: "bisect_loop send maxR ((lo, hi) # pending) rep s = (rep', s')"
    and budget: "int (requests rep) < maxR" and snd: "send lo hi s = (out, s1)"
    and "lo < hi" and "out = Accepted \<or> (out = Rejected \<and> hi - lo = 1)"
  shows "lo \<in> set (accepted rep') \<union> set (rejected rep')"
  using assms(5)
proof (elim disjE conjE)
  assume "out = Accepted"
  then have "bisect_loop send maxR pending
      (rep\<lparr>requests := requests rep + 1, accepted := accepted rep @ [lo..<hi]\<rparr>) s1 = (rep', s')"
    using run by (simp add: bisect_loop_step [of rep maxR send lo hi s, OF budget snd] Let_def)
  from bisect_loop_mono [OF this] show ?thesis using \<open>lo < hi\<close> by auto
next
  assume "out = Rejected" "hi - lo = 1"
  then have "bisect_loop send maxR pending
      (rep\<lparr>requests := requests rep + 1, rejected := rejected rep @ [lo]\<rparr>) s1 = (rep', s')"
    using run by (simp add: bisect_loop_step [of rep maxR send lo hi s, OF budget snd] Let_def)
  from bisect_loop_mono [OF this] show ?thesis by auto
qed

lemma bisect_loop_head:
  assumes "bisect_loop send maxR ((lo, hi) # pending) rep s = (rep', s')"
    and "never_transport send" and "lo < hi" and "hi - lo \<le> 2 ^ d"
    and "int (requests rep) + int d < maxR"
  shows "lo \<in> set (accepted rep') \<union> set (rejected rep')"
  using assms(1,3,4,5)
proof (induction d arbitrary: hi pending rep s)
  case (0 hi pending rep s)
  obtain out s1 where snd: "send lo hi s = (out, s1)" by (cases "send lo hi s")
  have "out = Accepted \<or> out = Rejected \<and> hi - lo = 1"
    using 0 assms(2) snd by (cases out) (auto simp: never_transport_def, (metis fst_conv)+)
  then show ?case using bisect_loop_leaf [OF 0(1) _ snd] 0 by simp
next
  case (Suc d hi pending rep s)
  obtain out s1 where snd: "send lo hi s = (out, s1)" by (cases "send lo hi s")
  have st: "int (requests rep) < maxR" using Suc.prems by simp
  show ?case
  proof (cases "out = Rejected \<and> hi - lo \<noteq> 1")
    case True
    let ?mid = "lo + (hi - lo) div 2"
    have "bisect_loop send maxR ((lo, ?mid) # (?mid, hi) # pending) (rep\<lparr>requests := requests rep + 1\<rparr>) s1
          = (rep', s')"
      using Suc.prems(1) True
      by (simp add: bisect_loop_step [of rep maxR send lo hi s, OF st snd] Let_def)
    then show ?thesis
      by (rule Suc.IH) (use Suc.prems True in auto)
  next
    case False
    then have "out = Accepted \<or> out = Rejected \<and> hi - lo = 1"
      using assms(2) snd by (cases out) (auto simp: never_transport_def, (metis fst_conv)+)
    then show ?thesis using bisect_loop_leaf [OF Suc.prems(1) st snd] Suc.prems by simp
  qed
qed

section \<open>Properties\<close>

lemma empty_report_facts:
  "decided empty_report 0" "report_of_log empty_report []" "requests empty_report = 0"
  "\<not> aborted empty_report"
  by (simp_all add: empty_report_def decided_def report_of_log_def log_accepted_def log_rejected_def)

text \<open>One call never spends more than its request budget, whatever the server answers.\<close>

theorem bisect_requests_bounded:
  "int (requests (fst (sendWithBisect count maxRequests send s))) \<le> max 0 maxRequests"
  using bisect_loop_requests [of send maxRequests "if 0 < count then [(0, nat count)] else []"
      empty_report s "fst (sendWithBisect count maxRequests send s)"
      "snd (sendWithBisect count maxRequests send s)"]
  by (simp add: sendWithBisect_def empty_report_facts)

text \<open>The report splits the queue: the accepted and the rejected indices are disjoint, in
  order, and together exactly the first \<open>k\<close> records; \<open>k\<close> is the whole batch unless the report says
  \<open>aborted\<close>, so a record left out is never reported either way.\<close>

theorem bisect_report_partition:
  "\<exists>k \<le> nat count.
     decided (fst (sendWithBisect count maxRequests send s)) k \<and>
     (\<not> aborted (fst (sendWithBisect count maxRequests send s)) \<longrightarrow> k = nat count)"
  using bisect_loop_decided [of send maxRequests "if 0 < count then [(0, nat count)] else []"
      empty_report s "fst (sendWithBisect count maxRequests send s)"
      "snd (sendWithBisect count maxRequests send s)" 0 "nat count"]
  by (auto simp: sendWithBisect_def empty_report_facts)

lemma bisect_report_partition_witness:
  "\<exists>k \<le> nat 3. decided (fst (sendWithBisect 3 20 (poison_server (\<lambda>i. i = 1)) ())) k \<and>
     (\<not> aborted (fst (sendWithBisect 3 20 (poison_server (\<lambda>i. i = 1)) ())) \<longrightarrow> k = nat 3)"
  by (rule bisect_report_partition)

text \<open>C2: The report tells the truth about the requests: run with a sender that logs its calls,
  the algorithm gives the same report and state, the accepted indices are exactly those of the
  ranges the server accepted, the rejected ones exactly the records refused when sent alone.\<close>

theorem bisect_report_truthful:
  "\<exists>log. sendWithBisect count maxRequests (logged send) (s, []) =
           (fst (sendWithBisect count maxRequests send s),
            snd (sendWithBisect count maxRequests send s), log) \<and>
         report_of_log (fst (sendWithBisect count maxRequests send s)) log"
  unfolding sendWithBisect_def by (rule bisect_loop_logged) (rule empty_report_facts)

text \<open>C1: Exact isolation of poison records: if the server refuses just the requests that hold a bad
  record and the budget covers the bisection, all good records are accepted, all bad ones rejected,
  in order, and the run is not aborted.\<close>

theorem bisect_isolates_poison:
  assumes "isolating bad (nat count) I send" and "I s" and "0 < count"
    and "int (bisect_cost bad 0 (nat count)) \<le> maxRequests"
  shows "fst (sendWithBisect count maxRequests send s) =
     \<lparr>accepted = filter (\<lambda>i. \<not> bad i) [0..<nat count], rejected = filter bad [0..<nat count],
      aborted = False, requests = bisect_cost bad 0 (nat count)\<rparr>"
  using sendWithBisect_isolates [OF assms] by simp

lemma bisect_isolates_poison_witness:
  "fst (sendWithBisect 4 20 (poison_server (\<lambda>i. i = 2)) ()) =
     \<lparr>accepted = [0, 1, 3], rejected = [2], aborted = False, requests = 5\<rparr>"
proof -
  have c: "bisect_cost (\<lambda>i. i = 2) 0 4 = 5" by (simp add: bisect_cost.simps)
  have u: "[0..<4] = [0, 1, 2, 3::nat]" by (simp add: upt_rec)
  show ?thesis
    using bisect_isolates_poison [OF isolating_poison_server, where bad = "\<lambda>i. i = 2" and count = 4
        and s = "()" and maxRequests = 20] by (simp add: c u)
qed

text \<open>The cost of isolation is logarithmic: with \<open>k\<close> bad records among at most \<open>2 ^ d\<close>, at most
  \<open>2 * k * d + 1\<close> requests are needed.\<close>

theorem bisect_cost_logarithmic:
  assumes "n \<le> 2 ^ d"
  shows "bisect_cost bad 0 n \<le> 2 * length (filter bad [0..<n]) * d + 1"
  using bisect_cost_bound [of n 0 d bad] assms by (simp add: bad_count_def)

lemma bisect_cost_logarithmic_witness: "bisect_cost (\<lambda>i. i = 57) 0 100 \<le> 15"
proof -
  have "filter (\<lambda>i. i = 57) [0..<100] = [57::nat]" by (simp add: upt_rec)
  then show ?thesis using bisect_cost_logarithmic [of 100 7 "\<lambda>i. i = 57"] by simp
qed

text \<open>Progress: a server that answers at all cannot keep the queue stuck. If no request fails in
  transport and the budget exceeds the depth of the bisection, the first record is decided in this
  round, however the server's answers vary.\<close>

theorem bisect_head_decided:
  assumes "never_transport send" and "0 < count" and "nat count \<le> 2 ^ d" and "int d < maxRequests"
  shows "0 \<in> set (accepted (fst (sendWithBisect count maxRequests send s))) \<union>
             set (rejected (fst (sendWithBisect count maxRequests send s)))"
  using bisect_loop_head [of send maxRequests 0 "nat count" "[]" empty_report s
      "fst (sendWithBisect count maxRequests send s)" "snd (sendWithBisect count maxRequests send s)" d]
    assms by (simp add: sendWithBisect_def empty_report_facts)

lemma bisect_head_decided_witness:
  "0 \<in> set (accepted (fst (sendWithBisect 100 20 (poison_server (\<lambda>_. True)) ()))) \<union>
       set (rejected (fst (sendWithBisect 100 20 (poison_server (\<lambda>_. True)) ())))"
  by (rule bisect_head_decided [where d = 7]) (simp_all add: never_transport_def poison_server_def)

text \<open>What a list of pending ranges can still cost.\<close>

fun range_cost :: "(nat \<times> nat) list \<Rightarrow> nat" where
  "range_cost [] = 0"
| "range_cost ((lo, hi) # rs) = 2 * (hi - lo) - 1 + range_cost rs"

lemma range_cost_split: "h < n \<Longrightarrow> 0 < h \<Longrightarrow> Suc (2 * h - 1 + (2 * (n - h) - 1 + c)) \<le> 2 * n - 1 + c"
  for n h c :: nat
  by arith

lemma bisect_loop_ends:
  assumes "bisect_loop send maxR pending rep s = (rep', s')" and "never_transport send"
    and "\<forall>(lo, hi) \<in> set pending. lo < hi" and "int (requests rep + range_cost pending) \<le> maxR" and "\<not> aborted rep"
  shows "\<not> aborted rep' \<and> requests rep' \<le> requests rep + range_cost pending"
  using assms(1,3-)
proof (induction pending rep s rule: bisect_loop_induct [where send = send and maxR = maxR])
  case (budget r pending rep s)
  then show ?case by (cases r) auto
next
  case (accept lo hi pending rep s s1)
  then show ?case by (auto simp: bisect_loop_step Let_def)
next
  case (reject lo hi pending rep s s1)
  then show ?case by (auto simp: bisect_loop_step Let_def)
next
  case (split lo hi pending rep s s1)
  let ?h = "(hi - lo) div 2"
  have b: "0 < ?h" "?h < hi - lo" using split(3,6) by auto
  have r: "\<forall>(lo, hi) \<in> set ((lo, lo + ?h) # (lo + ?h, hi) # pending). lo < hi" using b split(6) by auto
  have c: "Suc (range_cost ((lo, lo + ?h) # (lo + ?h, hi) # pending)) \<le> range_cost ((lo, hi) # pending)"
    using range_cost_split [OF b(2,1), of "range_cost pending"] by (simp only: range_cost.simps diff_diff_left [symmetric] add_diff_cancel_left')
  show ?case using split(1,2,3,5,7,8) split(4) [OF _ r] c by (auto simp: bisect_loop_step Let_def)
next
  case (transport lo hi pending rep s s1)
  then show ?case using assms(2) by (simp add: never_transport_def) (metis fst_conv)
qed auto



end
