(* ===== verification/Sync_Queue.thy ===== *)
theory Sync_Queue
  imports Batch_Send
begin

text \<open>
  The contract between the sync engine and the activity table: a queue of pending records by id, of
  which some are due. \<open>fetch\<close> returns due records, \<open>mark\<close> takes delivered ones out, \<open>fail\<close> postpones
  one. The lemmas say what one round of the engine does to the queue, whatever the implementation.
\<close>

locale sync_queue =
  fixes ok :: "'s \<Rightarrow> bool" and pending :: "'s \<Rightarrow> int set" and due :: "'s \<Rightarrow> int set"
    and fetch :: "nat \<Rightarrow> 's \<Rightarrow> int list"
    and mark :: "int list \<Rightarrow> 's \<Rightarrow> 's" and fail :: "int \<Rightarrow> 's \<Rightarrow> 's"
  assumes due_pending: "ok s \<Longrightarrow> due s \<subseteq> pending s"
    and due_finite: "ok s \<Longrightarrow> finite (due s)"
    and fetch_due: "ok s \<Longrightarrow> set (fetch n s) \<subseteq> due s"
    and fetch_distinct: "ok s \<Longrightarrow> distinct (fetch n s)"
    and fetch_length: "ok s \<Longrightarrow> length (fetch n s) = min n (card (due s))"
    and mark_ok: "ok s \<Longrightarrow> ok (mark ids s)"
    and mark_pending: "ok s \<Longrightarrow> pending (mark ids s) = pending s - set ids"
    and mark_due: "ok s \<Longrightarrow> due (mark ids s) = due s - set ids"
    and fail_ok: "ok s \<Longrightarrow> ok (fail i s)"
    and fail_pending: "ok s \<Longrightarrow> pending (fail i s) = pending s"
    and fail_due: "ok s \<Longrightarrow> due (fail i s) = due s - {i}"
begin

text \<open>What a round does with a report on the fetched ids.\<close>

definition settle :: "int list \<Rightarrow> BatchReport \<Rightarrow> 's \<Rightarrow> 's" where
  "settle ids rep s =
     fold (\<lambda>i. fail (ids ! i)) (rejected rep)
       (if accepted rep = [] then s else mark (map (\<lambda>i. ids ! i) (accepted rep)) s)"

lemma fold_fail:
  "ok s \<Longrightarrow> ok (fold (\<lambda>i. fail (ids ! i)) is s) \<and>
     pending (fold (\<lambda>i. fail (ids ! i)) is s) = pending s \<and>
     due (fold (\<lambda>i. fail (ids ! i)) is s) = due s - (\<lambda>i. ids ! i) ` set is"
  by (induction "is" arbitrary: s) (auto simp: fail_ok fail_pending fail_due)

lemma settle_ok: "ok s \<Longrightarrow> ok (settle ids rep s)"
  by (simp add: settle_def fold_fail mark_ok)

lemma settle_pending:
  "ok s \<Longrightarrow> pending (settle ids rep s) = pending s - (\<lambda>i. ids ! i) ` set (accepted rep)"
  by (simp add: settle_def fold_fail mark_ok mark_pending)

lemma settle_due:
  "ok s \<Longrightarrow> due (settle ids rep s) =
     due s - (\<lambda>i. ids ! i) ` (set (accepted rep) \<union> set (rejected rep))"
  by (auto simp: settle_def fold_fail mark_ok mark_due)

lemma nth_image_upt: "(\<lambda>i. xs ! i) ` {0..<length xs} = set xs"
  by (auto simp: set_conv_nth)

text \<open>A round that was not aborted leaves none of the fetched records due.\<close>

lemma settle_full_round:
  assumes "ok s" and "decided rep (length (fetch n s))"
  shows "due (settle (fetch n s) rep s) = due s - set (fetch n s)"
  using assms settle_due [OF assms(1), of "fetch n s" rep]
  by (simp add: decided_def nth_image_upt)

lemma settle_progress:
  assumes "ok s" and "decided rep (length (fetch n s))"
  shows "card (due (settle (fetch n s) rep s)) = card (due s) - min n (card (due s))"
proof -
  have "card (due s - set (fetch n s)) = card (due s) - card (set (fetch n s))"
    by (intro card_Diff_subset fetch_due assms(1)) simp
  then show ?thesis
    using settle_full_round [OF assms] fetch_distinct [OF assms(1), of n] fetch_length [OF assms(1), of n]
    by (simp add: distinct_card)
qed

text \<open>Rounds repeated until the queue has nothing due: one for each \<open>n\<close> due records.\<close>

lemma drained_when_short:
  assumes "ok s" and "decided rep (length (fetch n s))" and "length (fetch n s) < n"
  shows "due (settle (fetch n s) rep s) = {}"
proof -
  have "card (due (settle (fetch n s) rep s)) = 0"
    using settle_progress [OF assms(1,2)] fetch_length [OF assms(1), of n] assms(3) by (simp add: min_def split: if_splits)
  then show ?thesis using due_finite [OF settle_ok [OF assms(1)]] by simp
qed

end

end
