(* ===== verification/Activity_Db.thy ===== *)
theory Activity_Db
  imports Json_Util File_Store Settings_Store Sync_Queue "HOL-Library.Product_Lexorder" "HOL-Library.List_Lexorder" "HOL-Library.Multiset"
begin

text \<open>
  \<open>src/agent/shared/database.cpp\<close>: the activity table, with every SQL statement of the file as an
  operation on a list of rows in row-id order. What SQLite supplies (success of prepare and step, the
  current time, local midnight) are the fields of \<open>db_env\<close>. Times are seconds; \<open>created_at\<close> is the
  UTC second that \<open>CURRENT_TIMESTAMP\<close> stands for, and \<open>db_export_json\<close> prints it with a parameter.
  Ties of \<open>ORDER BY total DESC\<close>, which SQL leaves open, keep the order of the process names.
\<close>

section \<open>Data\<close>

record ActivityRecord =
  ar_process_name :: wstr
  ar_window_title :: wstr
  ar_start_time :: int
  ar_end_time :: int
  ar_duration_seconds :: int
  ar_synced :: int

record SyncRecord =
  sr_id :: int
  sr_device_id :: string
  sr_process_name :: wstr
  sr_window_title :: wstr
  sr_duration_seconds :: int
  sr_start_time :: int
  sr_end_time :: int

record row =
  r_id :: int
  r_device_id :: string
  r_process_name :: string
  r_window_title :: string
  r_duration :: int
  r_start :: int
  r_end :: int
  r_synced :: int
  r_created :: int
  r_retry_count :: int
  r_next_retry :: int

record schema =
  sc_table :: bool
  sc_columns :: "string list"
  sc_indexes :: "string list"

record adb =
  db_open :: bool
  db_schema :: schema
  db_rows :: "row list"
  db_seq :: int       \<comment> \<open>largest id ever used (AUTOINCREMENT)\<close>
  db_changes :: int   \<comment> \<open>\<open>sqlite3_total_changes64\<close>\<close>

record db_env =
  de_opens :: bool
  de_exec :: "string \<Rightarrow> bool"
  de_prepare :: bool
  de_step :: bool
  de_now :: int
  de_day_start :: int
  de_codec :: codec
  de_device_id :: string

definition MAX_RECORDS :: nat where "MAX_RECORDS = 100"
definition DAILY_APP_SUMMARY_MAX :: int where "DAILY_APP_SUMMARY_MAX = 15"

section \<open>Opening and migrating\<close>

definition base_columns :: "string list" where
  "base_columns = [''id'', ''device_id'', ''process_name'', ''window_title'', ''duration_seconds'',
     ''start_time'', ''end_time'', ''synced'', ''created_at'']"

definition tableHasColumn :: "schema \<Rightarrow> string \<Rightarrow> bool" where
  "tableHasColumn sc col \<longleftrightarrow> sc_table sc \<and> col \<in> set (sc_columns sc)"

definition create_table :: "schema \<Rightarrow> schema" where
  "create_table sc = (if sc_table sc then sc else sc\<lparr>sc_table := True, sc_columns := base_columns\<rparr>)"

definition add_column :: "(string \<Rightarrow> bool) \<Rightarrow> string \<Rightarrow> schema \<Rightarrow> schema" where
  "add_column ok col sc =
     (if tableHasColumn sc col then sc
      else if ok col then sc\<lparr>sc_columns := sc_columns sc @ [col]\<rparr> else sc)"

definition create_index :: "(string \<Rightarrow> bool) \<Rightarrow> string \<Rightarrow> schema \<Rightarrow> schema" where
  "create_index ok idx sc =
     (if idx \<in> set (sc_indexes sc) \<or> \<not> ok idx then sc else sc\<lparr>sc_indexes := sc_indexes sc @ [idx]\<rparr>)"

definition migrate :: "(string \<Rightarrow> bool) \<Rightarrow> schema \<Rightarrow> schema" where
  "migrate ok sc =
     fold (create_index ok)
       [''idx_activity_unsynced'', ''idx_activity_proc_start'', ''idx_activity_start_proc'',
        ''idx_activity_synced_created'']
       (add_column ok ''next_retry_at'' (add_column ok ''retry_count'' sc))"

definition db_init :: "db_env \<Rightarrow> adb \<Rightarrow> bool \<times> adb" where
  "db_init env db =
     (if \<not> de_opens env then (False, db\<lparr>db_open := False\<rparr>)
      else if \<not> de_exec env ''activity_logs'' then (False, db\<lparr>db_open := True\<rparr>)
      else (True, db\<lparr>db_open := True,
                     db_schema := migrate (de_exec env) (create_table (db_schema db))\<rparr>))"

definition db_close :: "adb \<Rightarrow> adb" where
  "db_close db = db\<lparr>db_open := False\<rparr>"

definition db_change_counter :: "adb \<Rightarrow> int" where
  "db_change_counter db = (if db_open db then db_changes db else 0)"

section \<open>Writing rows\<close>

definition new_row :: "db_env \<Rightarrow> ActivityRecord \<Rightarrow> int \<Rightarrow> row" where
  "new_row env r rid =
     \<lparr>r_id = rid, r_device_id = buf_copy 128 (de_device_id env),
      r_process_name = wideToUtf8 (de_codec env) (ar_process_name r),
      r_window_title = wideToUtf8 (de_codec env) (ar_window_title r),
      r_duration = ar_duration_seconds r, r_start = ar_start_time r, r_end = ar_end_time r,
      r_synced = ar_synced r, r_created = de_now env, r_retry_count = 0, r_next_retry = 0\<rparr>"

definition db_insert_activity :: "db_env \<Rightarrow> ActivityRecord option \<Rightarrow> adb \<Rightarrow> bool \<times> adb" where
  "db_insert_activity env record db =
     (case record of
        None \<Rightarrow> (False, db)
      | Some r \<Rightarrow>
          if \<not> (db_open db \<and> de_prepare env \<and> de_step env) then (False, db)
          else (True, db\<lparr>db_rows := db_rows db @ [new_row env r (db_seq db + 1)],
                         db_seq := db_seq db + 1, db_changes := db_changes db + 1\<rparr>))"

text \<open>\<open>UPDATE ... WHERE P\<close>: the rows, and the number of rows touched.\<close>

definition update_where :: "(row \<Rightarrow> bool) \<Rightarrow> (row \<Rightarrow> row) \<Rightarrow> adb \<Rightarrow> adb" where
  "update_where P f db =
     db\<lparr>db_rows := map (\<lambda>r. if P r then f r else r) (db_rows db),
        db_changes := db_changes db + int (length (filter P (db_rows db)))\<rparr>"

definition set_synced :: "row \<Rightarrow> row" where
  "set_synced r = r\<lparr>r_synced := 1\<rparr>"

definition db_mark_synced :: "db_env \<Rightarrow> int \<Rightarrow> adb \<Rightarrow> bool \<times> adb" where
  "db_mark_synced env rid db =
     (if \<not> db_open db \<or> \<not> de_prepare env \<or> \<not> de_step env then (False, db)
      else (True, update_where (\<lambda>r. r_id r = rid) set_synced db))"

definition db_mark_record_synced :: "db_env \<Rightarrow> int \<Rightarrow> adb \<Rightarrow> bool \<times> adb" where
  "db_mark_record_synced env rid db = db_mark_synced env rid db"

definition kChunk :: nat where "kChunk = 500"

text \<open>The chunk loop: \<open>ok k\<close> tells whether the \<open>k\<close>-th UPDATE statement succeeds.\<close>

function mark_chunks :: "(nat \<Rightarrow> bool) \<Rightarrow> nat \<Rightarrow> int list \<Rightarrow> bool \<Rightarrow> adb \<Rightarrow> bool \<times> adb" where
  "mark_chunks ok k ids res db =
     (if ids = [] then (res, db)
      else
        (let chunk = take kChunk ids; rest = drop kChunk ids
         in if ok k
            then mark_chunks ok (k + 1) rest res (update_where (\<lambda>r. r_id r \<in> set chunk) set_synced db)
            else mark_chunks ok (k + 1) rest False db))"
  by pat_completeness auto

termination
  by (relation "measure (\<lambda>(ok, k, ids, res, db). length ids)") (auto simp: kChunk_def)

declare mark_chunks.simps [simp del]

definition db_mark_synced_batch :: "(nat \<Rightarrow> bool) \<Rightarrow> int list \<Rightarrow> adb \<Rightarrow> bool \<times> adb" where
  "db_mark_synced_batch ok ids db =
     (if \<not> db_open db \<or> ids = [] then (False, db) else mark_chunks ok 0 ids True db)"

text \<open>SQLite's \<open><<\<close> shifts the other way for a negative count.\<close>

definition sql_shl :: "int \<Rightarrow> int \<Rightarrow> int" where
  "sql_shl b n = (if 0 \<le> n then b * 2 ^ nat n else b div 2 ^ nat (- n))"

definition retry_delay :: "int \<Rightarrow> int \<Rightarrow> int \<Rightarrow> int" where
  "retry_delay base maxv retry_count =
     max 1 (min maxv (sql_shl base (min (retry_count + 1) 20)))"

definition fail_row :: "AppSettings \<Rightarrow> int \<Rightarrow> row \<Rightarrow> row" where
  "fail_row s now r =
     r\<lparr>r_retry_count := r_retry_count r + 1,
       r_next_retry := now + retry_delay (retry_backoff_base_sec s) (retry_backoff_max_sec s) (r_retry_count r)\<rparr>"

definition db_mark_sync_failed :: "db_env \<Rightarrow> AppSettings \<Rightarrow> int \<Rightarrow> adb \<Rightarrow> bool \<times> adb" where
  "db_mark_sync_failed env s rid db =
     (if \<not> db_open db \<or> \<not> de_prepare env \<or> \<not> de_step env then (False, db)
      else (True, update_where (\<lambda>r. r_id r = rid) (fail_row s (de_now env)) db))"

text \<open>A negative number of days makes the SQL modifier invalid, and the comparison NULL.\<close>

definition old_synced :: "int \<Rightarrow> int \<Rightarrow> row \<Rightarrow> bool" where
  "old_synced now days r \<longleftrightarrow> r_synced r = 1 \<and> 0 \<le> days \<and> r_created r < now - 86400 * days"

definition db_delete_old_records :: "db_env \<Rightarrow> int \<Rightarrow> adb \<Rightarrow> bool \<times> adb" where
  "db_delete_old_records env days db =
     (if \<not> db_open db \<or> \<not> de_prepare env \<or> \<not> de_step env then (False, db)
      else (True, db\<lparr>db_rows := filter (\<lambda>r. \<not> old_synced (de_now env) days r) (db_rows db),
                     db_changes := db_changes db +
                       int (length (filter (old_synced (de_now env) days) (db_rows db)))\<rparr>))"

section \<open>Reading rows\<close>

text \<open>The local \<open>utf8ToWide\<close>: cut to the buffer and always terminated.\<close>

definition db_utf8ToWide :: "codec \<Rightarrow> string \<Rightarrow> nat \<Rightarrow> wstr" where
  "db_utf8ToWide cv s n = take (n - 1) (utf8ToWide cv (c_str s))"

definition due :: "int \<Rightarrow> row \<Rightarrow> bool" where
  "due now r \<longleftrightarrow> r_synced r = 0 \<and> r_next_retry r \<le> now"

definition unsynced_query :: "int \<Rightarrow> nat \<Rightarrow> row list \<Rightarrow> row list" where
  "unsynced_query now n rows =
     take n (sort_key (\<lambda>r. (r_next_retry r, r_id r)) (filter (due now) rows))"

definition sync_record_of :: "codec \<Rightarrow> row \<Rightarrow> SyncRecord" where
  "sync_record_of cv r =
     \<lparr>sr_id = to_i32 (r_id r), sr_device_id = buf_copy 128 (r_device_id r),
      sr_process_name = db_utf8ToWide cv (r_process_name r) 512,
      sr_window_title = db_utf8ToWide cv (r_window_title r) 2048,
      sr_duration_seconds = to_i32 (r_duration r), sr_start_time = r_start r, sr_end_time = r_end r\<rparr>"

definition db_get_unsynced_records :: "db_env \<Rightarrow> nat \<Rightarrow> adb \<Rightarrow> SyncRecord list" where
  "db_get_unsynced_records env max_records db =
     (if \<not> db_open db \<or> \<not> de_prepare env then []
      else map (sync_record_of (de_codec env)) (unsynced_query (de_now env) max_records (db_rows db)))"

definition db_count_unsynced :: "db_env \<Rightarrow> adb \<Rightarrow> int" where
  "db_count_unsynced env db =
     (if \<not> db_open db \<or> \<not> de_prepare env \<or> \<not> de_step env then 0
      else to_i32 (int (length (filter (\<lambda>r. r_synced r = 0) (db_rows db)))))"

definition today_total :: "int \<Rightarrow> string \<Rightarrow> row list \<Rightarrow> int" where
  "today_total day_start p rows =
     sum_list (map r_duration (filter (\<lambda>r. r_process_name r = p \<and> day_start \<le> r_start r) rows))"

definition db_get_today_seconds :: "db_env \<Rightarrow> wstr option \<Rightarrow> adb \<Rightarrow> int" where
  "db_get_today_seconds env process_name db =
     (case process_name of
        None \<Rightarrow> 0
      | Some p \<Rightarrow>
          if \<not> db_open db \<or> \<not> de_prepare env \<or> \<not> de_step env then 0
          else to_i32 (today_total (de_day_start env) (wideToUtf8 (de_codec env) p) (db_rows db)))"

definition today_processes :: "int \<Rightarrow> row list \<Rightarrow> string list" where
  "today_processes day_start rows =
     remdups (map r_process_name (filter (\<lambda>r. day_start \<le> r_start r) rows))"

definition summary_query :: "int \<Rightarrow> nat \<Rightarrow> row list \<Rightarrow> (string \<times> int) list" where
  "summary_query day_start n rows =
     take n (sort_key (\<lambda>(p, t). - t)
       (map (\<lambda>p. (p, today_total day_start p rows))
          (sort_key (map code) (today_processes day_start rows))))"

definition db_get_today_app_summary :: "db_env \<Rightarrow> int \<Rightarrow> adb \<Rightarrow> (wstr \<times> int) list" where
  "db_get_today_app_summary env max_entries db =
     (if \<not> db_open db \<or> max_entries \<le> 0 \<or> \<not> de_prepare env then []
      else map (\<lambda>(p, t). (db_utf8ToWide (de_codec env) p 512, t))
             (summary_query (de_day_start env) (nat (min max_entries DAILY_APP_SUMMARY_MAX)) (db_rows db)))"

section \<open>The daily report\<close>

definition wide :: "string \<Rightarrow> wstr" where
  "wide s = map (\<lambda>c. of_nat (code c)) s"

definition wide_cstr :: "wstr \<Rightarrow> wstr" where
  "wide_cstr w = takeWhile (\<lambda>u. u \<noteq> 0) w"

definition last_title :: "int \<Rightarrow> string \<Rightarrow> row list \<Rightarrow> string" where
  "last_title day_start p rows =
     (case sort_key (\<lambda>r. - r_start r) (filter (\<lambda>r. r_process_name r = p \<and> day_start \<le> r_start r) rows) of
        [] \<Rightarrow> []
      | r # _ \<Rightarrow> r_window_title r)"

definition short_title :: "wstr \<Rightarrow> wstr" where
  "short_title t = (if 50 < length t then take 47 t @ wide ''...'' else t)"

definition pad_right :: "nat \<Rightarrow> wstr \<Rightarrow> wstr" where
  "pad_right n w = w @ replicate (n - length w) (of_nat (code spc))"

definition report_line :: "codec \<Rightarrow> string \<Rightarrow> int \<Rightarrow> string \<Rightarrow> wstr" where
  "report_line cv p secs title =
     (let pw = wide_cstr (db_utf8ToWide cv p 512);
          tw = short_title (wide_cstr (db_utf8ToWide cv title 512));
          head = pad_right 28 pw @ wide (spc # pad0 2 (to_i32 (secs div 3600)) @ '':'' @
                   pad0 2 (to_i32 (secs mod 3600 div 60)) @ '':'' @ pad0 2 (to_i32 (secs mod 60)))
      in if tw \<noteq> [] then head @ wide ''  - '' @ tw @ wide [nl] else head @ wide [nl])"

text \<open>Lines are printed while they fit; the text up to the position of the last one that did.\<close>

fun print_lines :: "nat \<Rightarrow> wstr list \<Rightarrow> wstr" where
  "print_lines room [] = []"
| "print_lines room (l # ls) = (if room \<le> length l then [] else l @ print_lines (room - length l) ls)"

definition db_build_daily_summary_text :: "db_env \<Rightarrow> nat \<Rightarrow> adb \<Rightarrow> bool \<times> wstr" where
  "db_build_daily_summary_text env out_size db =
     (if \<not> db_open db \<or> \<not> de_prepare env then (False, [])
      else
        (let entries = summary_query (de_day_start env) 15 (db_rows db);
             ls = map (\<lambda>(p, t). report_line (de_codec env) p t (last_title (de_day_start env) p (db_rows db)))
                    entries
         in if entries = [] then (False, take (out_size - 1) (wide ''(No data yet today)''))
            else (True, print_lines out_size ls)))"

lemma print_lines_bound [jit_bounds]: "0 < room \<Longrightarrow> length (print_lines room ls) < room"
  by (induction room ls rule: print_lines.induct) auto

section \<open>Backup export\<close>

definition export_row_body :: "(int \<Rightarrow> string) \<Rightarrow> row \<Rightarrow> string" where
  "export_row_body datetime r =
     ''\"id\": '' @ show_int (to_i32 (r_id r)) @
     '', \"device_id\": \"'' @ jsonEscape (c_str (r_device_id r)) @ ''\"'' @
     '', \"process_name\": \"'' @ jsonEscape (c_str (r_process_name r)) @ ''\"'' @
     '', \"window_title\": \"'' @ jsonEscape (c_str (r_window_title r)) @ ''\"'' @
     '', \"duration_seconds\": '' @ show_int (r_duration r) @
     '', \"start_time\": '' @ show_int (r_start r) @
     '', \"end_time\": '' @ show_int (r_end r) @
     '', \"synced\": '' @ show_int (to_i32 (r_synced r)) @
     '', \"created_at\": \"'' @ jsonEscape (datetime (r_created r)) @ ''\"''"

fun export_rows :: "(int \<Rightarrow> string) \<Rightarrow> bool \<Rightarrow> row list \<Rightarrow> string" where
  "export_rows datetime first [] = []"
| "export_rows datetime first (r # rs) =
     (if first then ''  {'' else '','' @ nl # ''  {'') @ export_row_body datetime r @ ''}'' @
     export_rows datetime False rs"

definition export_text :: "(int \<Rightarrow> string) \<Rightarrow> row list \<Rightarrow> string" where
  "export_text datetime rows =
     ''['' @ nl # export_rows datetime True (sort_key r_id rows) @ nl # '']'' @ [nl]"

definition db_export_json ::
  "db_env \<Rightarrow> io_env \<Rightarrow> (int \<Rightarrow> string) \<Rightarrow> string option \<Rightarrow> adb \<Rightarrow> fs \<Rightarrow> bool \<times> fs" where
  "db_export_json env io datetime filepath db fs =
     (case filepath of
        None \<Rightarrow> (False, fs)
      | Some target \<Rightarrow>
          if \<not> db_open db \<or> target = [] then (False, fs)
          else if \<not> io_open io then (False, fs)
          else if \<not> de_prepare env
            then (False, delete_tmp io (tmp_path target) (fs(tmp_path target \<mapsto> [])))
          else
            (let text = export_text datetime (db_rows db)
             in if \<not> io_write io
                then (False, delete_tmp io (tmp_path target)
                        (fs(tmp_path target \<mapsto> take (io_written io) text)))
                else if \<not> io_move io
                then (False, delete_tmp io (tmp_path target) (fs(tmp_path target \<mapsto> text)))
                else (True, (fs(target \<mapsto> text))(tmp_path target := None))))"

section \<open>Invariant of the table\<close>

definition db_inv :: "adb \<Rightarrow> bool" where
  "db_inv db \<longleftrightarrow>
     sorted_wrt (<) (map r_id (db_rows db)) \<and>
     (\<forall>r \<in> set (db_rows db). 0 < r_id r \<and> r_id r \<le> db_seq db \<and> 0 \<le> r_retry_count r) \<and> 0 \<le> db_seq db"

text \<open>One statement that writes the table; \<open>M\<close> is the set of ids it marks as synced.\<close>

inductive db_step :: "adb \<Rightarrow> int set \<Rightarrow> adb \<Rightarrow> bool" where
  insert: "db_insert_activity env record db = (ok, db') \<Longrightarrow> db_step db {} db'"
| mark: "db_mark_synced env rid db = (ok, db') \<Longrightarrow> db_step db {rid} db'"
| mark_batch: "db_mark_synced_batch oks ids db = (ok, db') \<Longrightarrow> db_step db (set ids) db'"
| fail: "db_mark_sync_failed env s rid db = (ok, db') \<Longrightarrow> db_step db {} db'"
| delete_old: "db_delete_old_records env days db = (ok, db') \<Longrightarrow> db_step db {} db'"

inductive_cases db_stepE [elim!]: "db_step db M db'"

lemma update_where_simps [simp]:
  "db_seq (update_where P f db) = db_seq db" "db_open (update_where P f db) = db_open db"
  "db_schema (update_where P f db) = db_schema db"
  by (simp_all add: update_where_def)

lemma set_synced_simps [simp]: "r_id (set_synced r) = r_id r" "r_synced (set_synced r) = 1"
  "r_retry_count (set_synced r) = r_retry_count r"
  by (simp_all add: set_synced_def)

lemma fail_row_simps [simp]: "r_id (fail_row s now r) = r_id r" "r_synced (fail_row s now r) = r_synced r"
  "r_retry_count (fail_row s now r) = r_retry_count r + 1"
  by (simp_all add: fail_row_def)

lemma update_where_inv:
  assumes "db_inv db" and "\<And>r. r_id (f r) = r_id r" and "\<And>r. r_retry_count r \<le> r_retry_count (f r)"
  shows "db_inv (update_where P f db)"
proof -
  have "map r_id (db_rows (update_where P f db)) = map r_id (db_rows db)"
    using assms(2) by (simp add: update_where_def comp_def)
  moreover have "0 < r_id r \<and> r_id r \<le> db_seq db \<and> 0 \<le> r_retry_count r"
    if "r \<in> set (db_rows (update_where P f db))" for r
    using that assms order_trans by (fastforce simp: update_where_def db_inv_def split: if_splits)
  ultimately show ?thesis using assms(1) by (simp add: db_inv_def)
qed

lemma mark_chunks_props:
  assumes "mark_chunks ok k ids res db = (res', db')"
  shows "(db_inv db \<longrightarrow> db_inv db') \<and> db_open db' = db_open db \<and>
    (\<exists>S \<subseteq> set ids. db_rows db' = map (\<lambda>r. if r_id r \<in> S then set_synced r else r) (db_rows db) \<and>
       ((\<forall>k. ok k) \<longrightarrow> S = set ids \<and> res' = res))"
  using assms
proof (induction ok k ids res db rule: mark_chunks.induct)
  case (1 ok k ids res db)
  show ?case
  proof (cases "ids = []")
    case True
    with 1(3) show ?thesis by (auto simp: mark_chunks.simps intro!: exI [of _ "{}"])
  next
    case ne: False
    let ?c = "take kChunk ids" and ?r = "drop kChunk ids"
    have u: "set ?c \<union> set ?r = set ids" by (metis append_take_drop_id set_append)
    show ?thesis
    proof (cases "ok k")
      case False
      then have "mark_chunks ok (k + 1) ?r False db = (res', db')"
        using 1(3) ne by (simp add: mark_chunks.simps [of ok k ids] Let_def)
      from 1(2) [OF ne refl refl False this] obtain S where
        "db_inv db \<longrightarrow> db_inv db'" "db_open db' = db_open db" "S \<subseteq> set ?r"
        "db_rows db' = map (\<lambda>r. if r_id r \<in> S then set_synced r else r) (db_rows db)"
        by blast
      with u False show ?thesis by (intro conjI exI [of _ S]) auto
    next
      case True
      let ?db1 = "update_where (\<lambda>r. r_id r \<in> set ?c) set_synced db"
      have "mark_chunks ok (k + 1) ?r res ?db1 = (res', db')"
        using 1(3) ne True by (simp add: mark_chunks.simps [of ok k ids] Let_def)
      from 1(1) [OF ne refl refl True this] obtain S where
        h: "db_inv ?db1 \<longrightarrow> db_inv db'" "db_open db' = db_open db" "S \<subseteq> set ?r"
        "db_rows db' = map (\<lambda>r. if r_id r \<in> S then set_synced r else r) (db_rows ?db1)"
        "(\<forall>k. ok k) \<longrightarrow> S = set ?r \<and> res' = res"
        by auto
      have "db_rows db' =
          map (\<lambda>r. if r_id r \<in> set ?c \<union> S then set_synced r else r) (db_rows db)"
        unfolding h(4) by (simp add: update_where_def set_synced_def)
      moreover have "db_inv db \<longrightarrow> db_inv ?db1" by (simp add: update_where_inv)
      ultimately show ?thesis using h u by (intro conjI exI [of _ "set ?c \<union> S"]) auto
    qed
  qed
qed

lemma db_step_inv: "db_step db M db' \<Longrightarrow> db_inv db \<Longrightarrow> db_inv db'"
proof (induction rule: db_step.induct)
  case (insert env rcd db ok db')
  then show ?case
    by (fastforce simp: db_insert_activity_def db_inv_def sorted_wrt_append new_row_def
        split: option.splits if_splits)
next
  case (mark_batch oks ids db ok db')
  then show ?case using mark_chunks_props
    by (auto simp: db_mark_synced_batch_def split: if_splits)
next
  case (delete_old env days db ok db')
  have "sorted_wrt (<) (map r_id (filter P (db_rows db)))" for P
    using delete_old(2) sorted_wrt_filter by (fastforce simp: db_inv_def sorted_wrt_map)
  with delete_old show ?case
    by (auto simp: db_delete_old_records_def db_inv_def split: if_splits)
qed (auto simp: db_mark_synced_def db_mark_sync_failed_def update_where_inv split: if_splits)


definition env0 :: db_env where
  "env0 = \<lparr>de_opens = True, de_exec = (\<lambda>_. True), de_prepare = True, de_step = True, de_now = 1000,
     de_day_start = 500, de_codec = ascii_codec, de_device_id = ''PC-00000000''\<rparr>"

definition db0 :: adb where
  "db0 = \<lparr>db_open = True, db_schema = \<lparr>sc_table = False, sc_columns = [], sc_indexes = []\<rparr>,
     db_rows = [], db_seq = 0, db_changes = 0\<rparr>"

definition rec0 :: ActivityRecord where
  "rec0 = \<lparr>ar_process_name = [97], ar_window_title = [98], ar_start_time = 600, ar_end_time = 660,
     ar_duration_seconds = 60, ar_synced = 0\<rparr>"

definition db1 :: adb where
  "db1 = snd (db_insert_activity env0 (Some rec0) db0)"

lemma db0_inv [simp]: "db_inv db0"
  by (simp add: db_inv_def db0_def)

lemma db0_step: "db_step db0 {} db1"
  by (rule db_step.insert [of env0 "Some rec0" _ "fst (db_insert_activity env0 (Some rec0) db0)"])
     (simp add: db1_def)

lemma db1_rows: "db_rows db1 = [new_row env0 rec0 1]" "db_open db1" "db_seq db1 = 1"
  by (simp_all add: db1_def db_insert_activity_def db0_def env0_def)


definition payload :: "row \<Rightarrow> int \<times> string \<times> string \<times> string \<times> int \<times> int \<times> int" where
  "payload r = (r_id r, r_device_id r, r_process_name r, r_window_title r, r_duration r, r_start r, r_end r)"

lemma payload_simps [simp]: "payload (set_synced r) = payload r" "payload (fail_row s now r) = payload r"
  by (simp_all add: payload_def set_synced_def fail_row_def)

lemma update_keeps_unsynced:
  assumes "r \<in> set (db_rows db)" and "r_synced r = 0" and "\<And>r. payload (f r) = payload r"
    and "P r \<Longrightarrow> r_synced (f r) = 0"
  shows "\<exists>r' \<in> set (db_rows (update_where P f db)). payload r' = payload r \<and> r_synced r' = 0"
  using assms by (intro bexI [of _ "if P r then f r else r"]) (auto simp: update_where_def)

lemma db_step_keeps:
  assumes "db_step db M db'" and "r \<in> set (db_rows db)" and "r_synced r = 0" and "r_id r \<notin> M"
  shows "\<exists>r' \<in> set (db_rows db'). payload r' = payload r \<and> r_synced r' = 0"
  using assms
proof (induction rule: db_step.induct)
  case (insert env rcd db ok db')
  then show ?case by (auto simp: db_insert_activity_def split: option.splits if_splits)
next
  case (mark env rid db ok db')
  then show ?case
    using update_keeps_unsynced [of r db set_synced "\<lambda>r. r_id r = rid"]
    by (auto simp: db_mark_synced_def split: if_splits)
next
  case (mark_batch oks ids db ok db')
  show ?case
  proof (cases "\<not> db_open db \<or> ids = []")
    case True
    with mark_batch show ?thesis by (auto simp: db_mark_synced_batch_def)
  next
    case False
    with mark_batch(1) have "mark_chunks oks 0 ids True db = (ok, db')"
      by (auto simp: db_mark_synced_batch_def)
    from mark_chunks_props [OF this] obtain S where "S \<subseteq> set ids"
      "db_rows db' = map (\<lambda>r. if r_id r \<in> S then set_synced r else r) (db_rows db)" by blast
    with mark_batch show ?thesis by (intro bexI [of _ r]) (auto simp: image_iff intro!: bexI [of _ r])
  qed
next
  case (fail env s rid db ok db')
  then show ?case
    using update_keeps_unsynced [of r db "fail_row s (de_now env)" "\<lambda>r. r_id r = rid"]
    by (auto simp: db_mark_sync_failed_def split: if_splits)
next
  case (delete_old env days db ok db')
  then show ?case by (auto simp: db_delete_old_records_def old_synced_def split: if_splits)
qed

text \<open>A record that has not reached the server is never lost: no statement of the program deletes it
  or changes its contents, and only a statement that names its id marks it as synced.\<close>

theorem unsynced_never_lost:
  assumes "db_step db M db'" and "r \<in> set (db_rows db)" and "r_synced r = 0" and "r_id r \<notin> M"
  shows "\<exists>r' \<in> set (db_rows db'). payload r' = payload r \<and> r_synced r' = 0"
  by (rule db_step_keeps [OF assms])

lemma unsynced_never_lost_witness:
  "\<exists>r' \<in> set (db_rows (snd (db_delete_old_records env0 0 db1))).
     payload r' = payload (new_row env0 rec0 1) \<and> r_synced r' = 0"
proof (rule unsynced_never_lost)
  show "db_step db1 {} (snd (db_delete_old_records env0 0 db1))"
    by (rule db_step.delete_old [of env0 0 _ "fst (db_delete_old_records env0 0 db1)"]) simp
  show "new_row env0 rec0 1 \<in> set (db_rows db1)"
    by (simp add: db1_def db_insert_activity_def db0_def env0_def)
qed (simp_all add: new_row_def rec0_def)

section \<open>Backoff\<close>

text \<open>The retry delay doubles with every failure from the configured base, is at least one second and
  at most the configured maximum, and never shrinks as failures accumulate.\<close>

theorem retry_delay_backoff:
  assumes "0 < base" and "0 < maxv" and "0 \<le> n"
  shows "retry_delay base maxv n = min maxv (base * 2 ^ nat (min (n + 1) 20)) \<and>
         1 \<le> retry_delay base maxv n \<and> retry_delay base maxv n \<le> maxv \<and>
         retry_delay base maxv n \<le> retry_delay base maxv (n + 1)"
proof -
  have pos: "0 < base * 2 ^ k" for k :: nat using assms(1) by simp
  have e: "retry_delay base maxv m = min maxv (base * 2 ^ nat (min (m + 1) 20))" if "0 \<le> m" for m
  proof -
    have "0 < base * 2 ^ nat (min (m + 1) 20)" by (rule pos)
    then have "1 \<le> min maxv (base * 2 ^ nat (min (m + 1) 20))" using assms(2) by linarith
    then show ?thesis using that by (simp add: retry_delay_def sql_shl_def)
  qed
  have mono: "base * 2 ^ nat (min (n + 1) 20) \<le> base * 2 ^ nat (min (n + 1 + 1) 20)"
    using assms by (intro mult_left_mono power_increasing nat_mono) auto
  have "1 \<le> min maxv (base * 2 ^ nat (min (n + 1) 20))"
    using pos [of "nat (min (n + 1) 20)"] assms(2) by linarith
  then show ?thesis using e [of n] e [of "n + 1"] mono assms(3) by (simp add: min_def)
qed

lemma retry_delay_backoff_witness: "retry_delay 10 1800 3 = 160 \<and> retry_delay 10 1800 9 = 1800"
  using retry_delay_backoff [of 10 1800 3] retry_delay_backoff [of 10 1800 9]
  by (simp add: min_def)

section \<open>The queue\<close>

lemma unsynced_query_sorted:
  "sorted (map (\<lambda>r. (r_next_retry r, r_id r)) (unsynced_query now n rows))"
  by (simp add: unsynced_query_def take_map [symmetric] sorted_wrt_take)

lemma set_unsynced_query: "set (unsynced_query now n rows) \<subseteq> {r \<in> set rows. due now r}"
  by (auto simp: unsynced_query_def dest: in_set_takeD)

text \<open>The sync queue is fetched fairly: at most the requested number of rows, all of them unsynced and
  due, in order of due time and id; and a due row that is left out is not ahead of any that is taken,
  so it cannot be starved by later ones.\<close>

theorem unsynced_query_fair:
  "length (unsynced_query now n rows) = min n (length (filter (due now) rows)) \<and>
   set (unsynced_query now n rows) \<subseteq> {r \<in> set rows. due now r} \<and>
   sorted (map (\<lambda>r. (r_next_retry r, r_id r)) (unsynced_query now n rows)) \<and>
   (\<forall>r \<in> set rows. due now r \<longrightarrow> r \<notin> set (unsynced_query now n rows) \<longrightarrow>
      (\<forall>q \<in> set (unsynced_query now n rows).
         (r_next_retry q, r_id q) \<le> (r_next_retry r, r_id r)))"
proof -
  let ?k = "\<lambda>r. (r_next_retry r, r_id r)"
  let ?s = "sort_key ?k (filter (due now) rows)"
  have split: "?s = take n ?s @ drop n ?s" by simp
  have "sorted (map ?k ?s)" by simp
  then have "sorted (map ?k (take n ?s) @ map ?k (drop n ?s))"
    unfolding map_append [symmetric] by simp
  then have le: "\<forall>q \<in> set (take n ?s). \<forall>r \<in> set (drop n ?s). ?k q \<le> ?k r"
    by (simp add: sorted_append)
  have mem: "set (take n ?s) \<union> set (drop n ?s) = {r \<in> set rows. due now r}"
    unfolding set_append [symmetric] by simp
  have "\<forall>r \<in> set rows. due now r \<longrightarrow> r \<notin> set (take n ?s) \<longrightarrow> (\<forall>q \<in> set (take n ?s). ?k q \<le> ?k r)"
    using le mem by blast
  then show ?thesis
    using unsynced_query_sorted [of now n rows] set_unsynced_query [of now n rows]
    by (simp add: unsynced_query_def min.commute)
qed

lemma unsynced_query_fair_witness:
  "unsynced_query 1000 5 (db_rows db1) = [new_row env0 rec0 1] \<and>
   length (unsynced_query 1000 5 (db_rows db1)) = 1"
proof -
  have "unsynced_query 1000 5 (db_rows db1) = [new_row env0 rec0 1]"
    by (simp add: unsynced_query_def db1_def db_insert_activity_def db0_def env0_def due_def new_row_def rec0_def)
  moreover have "due 1000 (new_row env0 rec0 1)"
    by (simp add: due_def new_row_def rec0_def)
  ultimately show ?thesis using unsynced_query_fair [of 1000 5 "db_rows db1"]
    by (simp add: db1_def db_insert_activity_def db0_def env0_def)
qed

subsection \<open>The table as a sync queue\<close>

definition queue_ok :: "adb \<Rightarrow> bool" where
  "queue_ok db \<longleftrightarrow> db_open db \<and> db_inv db \<and> db_seq db < 2 ^ 31"

definition pending_ids :: "adb \<Rightarrow> int set" where
  "pending_ids db = r_id ` {r \<in> set (db_rows db). r_synced r = 0}"

definition due_ids :: "int \<Rightarrow> adb \<Rightarrow> int set" where
  "due_ids now db = r_id ` {r \<in> set (db_rows db). due now r}"

definition env_ok :: "db_env \<Rightarrow> bool" where
  "env_ok env \<longleftrightarrow> de_prepare env \<and> de_step env"

lemma db_inv_inj: "db_inv db \<Longrightarrow> inj_on r_id (set (db_rows db))"
proof -
  assume "db_inv db"
  then have "distinct (map r_id (db_rows db))"
    unfolding db_inv_def using strict_sorted_iff by blast
  then show ?thesis by (simp add: distinct_map)
qed

lemma db_inv_distinct: "db_inv db \<Longrightarrow> distinct (db_rows db)"
  using strict_sorted_iff [of "map r_id (db_rows db)"] by (auto simp: db_inv_def distinct_map)

lemma queue_ids:
  assumes "queue_ok db" and "env_ok env"
  shows "map sr_id (db_get_unsynced_records env n db) =
         map r_id (unsynced_query (de_now env) n (db_rows db))"
proof -
  have "to_i32 (r_id r) = r_id r" if "r \<in> set (unsynced_query (de_now env) n (db_rows db))" for r
  proof (rule to_i32_id)
    have "r \<in> set (db_rows db)" using that set_unsynced_query by blast
    with assms(1) have "0 < r_id r" "r_id r \<le> db_seq db" "db_seq db < 2 ^ 31"
      by (auto simp: queue_ok_def db_inv_def)
    then show "in_i32 (r_id r)" by (simp add: in_i32_def)
  qed
  then show ?thesis
    using assms by (simp add: db_get_unsynced_records_def queue_ok_def env_ok_def sync_record_of_def)
qed

lemma due_card:
  assumes "db_inv db"
  shows "card (due_ids now db) = length (filter (due now) (db_rows db))"
proof -
  have "card (due_ids now db) = card {r \<in> set (db_rows db). due now r}"
    unfolding due_ids_def
    by (rule card_image [OF inj_on_subset [OF db_inv_inj [OF assms]]]) auto
  also have "{r \<in> set (db_rows db). due now r} = set (filter (due now) (db_rows db))" by simp
  also have "card \<dots> = length (filter (due now) (db_rows db))"
    using db_inv_distinct [OF assms] by (intro distinct_card) simp
  finally show ?thesis .
qed

lemma unsynced_distinct_ids:
  assumes "db_inv db"
  shows "distinct (map r_id (unsynced_query now n (db_rows db)))"
proof -
  have "distinct (unsynced_query now n (db_rows db))"
    using db_inv_distinct [OF assms] by (simp add: unsynced_query_def)
  moreover have "inj_on r_id (set (unsynced_query now n (db_rows db)))"
    by (rule inj_on_subset [OF db_inv_inj [OF assms]]) (use set_unsynced_query in blast)
  ultimately show ?thesis by (simp add: distinct_map)
qed

definition q_mark :: "int list \<Rightarrow> adb \<Rightarrow> adb" where
  "q_mark ids db = snd (db_mark_synced_batch (\<lambda>_. True) ids db)"

definition q_fail :: "db_env \<Rightarrow> AppSettings \<Rightarrow> int \<Rightarrow> adb \<Rightarrow> adb" where
  "q_fail env s i db = snd (db_mark_sync_failed env s i db)"

lemma mark_chunks_seq: "mark_chunks ok k ids res db = (res', db') \<Longrightarrow> db_seq db' = db_seq db"
proof (induction ok k ids res db rule: mark_chunks.induct)
  case (1 ok k ids res db)
  show ?case
  proof (cases "ids = []")
    case True
    then show ?thesis using 1(3) by (simp add: mark_chunks.simps)
  next
    case ne: False
    then show ?thesis using 1 by (cases "ok k") (auto simp: mark_chunks.simps [of ok k ids] Let_def)
  qed
qed

lemma q_mark_rows:
  assumes "db_open db"
  shows "db_rows (q_mark ids db) = map (\<lambda>r. if r_id r \<in> set ids then set_synced r else r) (db_rows db)"
    and "db_open (q_mark ids db)" and "db_inv db \<Longrightarrow> db_inv (q_mark ids db)"
    and "db_seq (q_mark ids db) = db_seq db"
proof -
  obtain r' db' where m: "mark_chunks (\<lambda>_. True) 0 ids True db = (r', db')"
    by (cases "mark_chunks (\<lambda>_. True) 0 ids True db")
  have q: "q_mark ids db = (if ids = [] then db else db')"
    using assms m by (simp add: q_mark_def db_mark_synced_batch_def)
  from mark_chunks_props [OF m] mark_chunks_seq [OF m] assms show
    "db_rows (q_mark ids db) = map (\<lambda>r. if r_id r \<in> set ids then set_synced r else r) (db_rows db)"
    "db_open (q_mark ids db)" "db_inv db \<Longrightarrow> db_inv (q_mark ids db)" "db_seq (q_mark ids db) = db_seq db"
    unfolding q by auto
qed

lemma retry_delay_pos: "1 \<le> retry_delay base maxv n"
  by (simp add: retry_delay_def)

lemma q_fail_update:
  "db_open db \<Longrightarrow> env_ok env \<Longrightarrow>
   q_fail env s i db = update_where (\<lambda>r. r_id r = i) (fail_row s (de_now env)) db"
  by (simp add: q_fail_def db_mark_sync_failed_def env_ok_def)

lemma failed_not_due: "\<not> due (de_now env) (fail_row s (de_now env) r)"
  using retry_delay_pos [of "retry_backoff_base_sec s" "retry_backoff_max_sec s" "r_retry_count r"]
  by (simp add: due_def fail_row_def)

lemma ids_of_map:
  "(\<And>r. r_id (f r) = r_id r) \<Longrightarrow>
   r_id ` {r \<in> set (map f rows). Q r} = r_id ` {r \<in> set rows. Q (f r)}"
  by (force simp: image_iff)

lemma pending_ids_map:
  "(\<And>r. r_id (f r) = r_id r) \<Longrightarrow> db_rows db' = map f (db_rows db) \<Longrightarrow>
   pending_ids db' = r_id ` {r \<in> set (db_rows db). r_synced (f r) = 0}"
  unfolding pending_ids_def using ids_of_map [of f "db_rows db" "\<lambda>r. r_synced r = 0"] by simp

lemma due_ids_map:
  "(\<And>r. r_id (f r) = r_id r) \<Longrightarrow> db_rows db' = map f (db_rows db) \<Longrightarrow>
   due_ids now db' = r_id ` {r \<in> set (db_rows db). due now (f r)}"
  unfolding due_ids_def using ids_of_map [of f "db_rows db" "due now"] by simp

lemma q_mark_pending: "db_open db \<Longrightarrow> pending_ids (q_mark ids db) = pending_ids db - set ids"
  using pending_ids_map [OF _ q_mark_rows(1) [of db ids]] by (auto simp: pending_ids_def)

lemma q_mark_due: "db_open db \<Longrightarrow> due_ids now (q_mark ids db) = due_ids now db - set ids"
  using due_ids_map [OF _ q_mark_rows(1) [of db ids]] by (auto simp: due_ids_def due_def)

lemma q_fail_pending:
  assumes "db_open db" and "env_ok env"
  shows "pending_ids (q_fail env s i db) = pending_ids db"
proof -
  have "pending_ids (q_fail env s i db) =
      r_id ` {r \<in> set (db_rows db). r_synced (if r_id r = i then fail_row s (de_now env) r else r) = 0}"
    by (rule pending_ids_map) (simp_all add: q_fail_update [OF assms] update_where_def)
  also have "\<dots> = pending_ids db" unfolding pending_ids_def by (rule arg_cong [of _ _ "(`) r_id"]) auto
  finally show ?thesis .
qed

lemma q_fail_due:
  assumes "db_open db" and "env_ok env"
  shows "due_ids (de_now env) (q_fail env s i db) = due_ids (de_now env) db - {i}"
proof -
  have "due_ids (de_now env) (q_fail env s i db) =
      r_id ` {r \<in> set (db_rows db). due (de_now env) (if r_id r = i then fail_row s (de_now env) r else r)}"
    by (rule due_ids_map) (simp_all add: q_fail_update [OF assms] update_where_def)
  also have "\<dots> = r_id ` {r \<in> set (db_rows db). r_id r \<noteq> i \<and> due (de_now env) r}"
    by (rule arg_cong [of _ _ "(`) r_id"]) (auto simp: failed_not_due split: if_splits)
  finally show ?thesis by (auto simp: due_ids_def)
qed

definition db_ready :: "db_env \<Rightarrow> adb \<Rightarrow> bool" where
  "db_ready env db \<longleftrightarrow> env_ok env \<and> queue_ok db"

interpretation db_queue: sync_queue "db_ready env" pending_ids "due_ids (de_now env)"
  "\<lambda>n db. map sr_id (db_get_unsynced_records env n db)" q_mark "q_fail env s" for env s
proof
  fix db :: adb assume rdy: "db_ready env db"
  then have ok: "queue_ok db" and en: "env_ok env" by (auto simp: db_ready_def)
  then have inv: "db_inv db" and op: "db_open db" by (auto simp: queue_ok_def)
  show "due_ids (de_now env) db \<subseteq> pending_ids db" by (auto simp: due_ids_def pending_ids_def due_def)
  show "finite (due_ids (de_now env) db)" by (simp add: due_ids_def)
  fix n
  note f = queue_ids [OF ok en, of n]
  show "set (map sr_id (db_get_unsynced_records env n db)) \<subseteq> due_ids (de_now env) db"
    unfolding f using set_unsynced_query by (fastforce simp: due_ids_def)
  show "distinct (map sr_id (db_get_unsynced_records env n db))"
    unfolding f by (rule unsynced_distinct_ids [OF inv])
  show "length (map sr_id (db_get_unsynced_records env n db)) = min n (card (due_ids (de_now env) db))"
    unfolding f due_card [OF inv] by (simp add: unsynced_query_def min.commute)
  fix ids i
  show "db_ready env (q_mark ids db)"
    using ok en q_mark_rows [OF op] by (simp add: db_ready_def queue_ok_def)
  show "pending_ids (q_mark ids db) = pending_ids db - set ids" by (rule q_mark_pending [OF op])
  show "due_ids (de_now env) (q_mark ids db) = due_ids (de_now env) db - set ids"
    by (rule q_mark_due [OF op])
  show "db_ready env (q_fail env s i db)"
    using ok en by (simp add: db_ready_def queue_ok_def q_fail_update [OF op en] update_where_inv)
  show "pending_ids (q_fail env s i db) = pending_ids db" by (rule q_fail_pending [OF op en])
  show "due_ids (de_now env) (q_fail env s i db) = due_ids (de_now env) db - {i}"
    by (rule q_fail_due [OF op en])
qed

section \<open>Reports and export\<close>

lemma summary_names:
  "set (summary_query d n rows) \<subseteq> (\<lambda>p. (p, today_total d p rows)) ` set (today_processes d rows)"
  by (auto simp: summary_query_def dest!: in_set_takeD)

text \<open>Today's summary lists at most the requested number of apps, each once, with exactly the seconds
  recorded for it since local midnight, in falling order; if there is room every app is listed.\<close>

theorem summary_query_correct:
  "length (summary_query d n rows) = min n (length (today_processes d rows)) \<and>
   distinct (map fst (summary_query d n rows)) \<and>
   (\<forall>(p, t) \<in> set (summary_query d n rows). p \<in> set (today_processes d rows) \<and> t = today_total d p rows) \<and>
   sorted (rev (map snd (summary_query d n rows))) \<and>
   (length (today_processes d rows) \<le> n \<longrightarrow>
      fst ` set (summary_query d n rows) = set (today_processes d rows))"
proof -
  let ?e = "map (\<lambda>p. (p, today_total d p rows)) (sort_key (map code) (today_processes d rows))"
  let ?s = "sort_key (\<lambda>(p, t). - t) ?e"
  have dist: "distinct (map fst ?s)"
  proof -
    have "mset (map fst ?s) = mset (map fst ?e)" by (simp only: mset_map mset_sort)
    moreover have "distinct (map fst ?e)"
      by (simp add: comp_def today_processes_def)
    ultimately show ?thesis using mset_eq_imp_distinct_iff by blast
  qed
  have "sorted (map (\<lambda>(p, t). - t) ?s)" by simp
  then have "sorted (map uminus (map snd ?s))" by (simp add: comp_def case_prod_unfold)
  then have "sorted_wrt (\<ge>) (map snd ?s)" by (simp add: sorted_wrt_map sorted_map)
  then have "sorted_wrt (\<ge>) (map snd (take n ?s))" by (simp add: sorted_wrt_take take_map [symmetric])
  then have srt: "sorted (rev (map snd (take n ?s)))" by (simp add: sorted_wrt_rev)
  have d2: "distinct (map fst (take n ?s))" using dist by (simp add: take_map [symmetric])
  show ?thesis
    using summary_names [of d n rows] srt d2
    by (auto simp: summary_query_def min.commute image_image)
qed

lemma summary_query_correct_witness:
  "summary_query 0 15 [new_row env0 rec0 1] = [(''a'', 60)] \<and>
   distinct (map fst (summary_query 0 15 [new_row env0 rec0 1]))"
proof -
  have "summary_query 0 15 [new_row env0 rec0 1] = [(''a'', 60)]" by code_simp
  then show ?thesis using summary_query_correct [of 0 15 "[new_row env0 rec0 1]"] by blast
qed

lemma transparent_export_row: "transparent (export_row_body dt r)"
proof -
  have q: "transparent (quo # jsonEscape s @ [quo])" for s by (rule transparent_str)
  have k: "transparent (quo # k @ [quo])" if "list_all plain_char k" for k
    using transparent_str [of k] jsonEscape_plain [OF that] by simp
  have c: "transparent '': ''" "transparent '', ''" by (auto intro: transparent_bare)
  have e: "export_row_body dt r =
     (quo # ''id'' @ [quo]) @ '': '' @ show_int (to_i32 (r_id r)) @ '', '' @
     (quo # ''device_id'' @ [quo]) @ '': '' @ (quo # jsonEscape (c_str (r_device_id r)) @ [quo]) @ '', '' @
     (quo # ''process_name'' @ [quo]) @ '': '' @ (quo # jsonEscape (c_str (r_process_name r)) @ [quo]) @ '', '' @
     (quo # ''window_title'' @ [quo]) @ '': '' @ (quo # jsonEscape (c_str (r_window_title r)) @ [quo]) @ '', '' @
     (quo # ''duration_seconds'' @ [quo]) @ '': '' @ show_int (r_duration r) @ '', '' @
     (quo # ''start_time'' @ [quo]) @ '': '' @ show_int (r_start r) @ '', '' @
     (quo # ''end_time'' @ [quo]) @ '': '' @ show_int (r_end r) @ '', '' @
     (quo # ''synced'' @ [quo]) @ '': '' @ show_int (to_i32 (r_synced r)) @ '', '' @
     (quo # ''created_at'' @ [quo]) @ '': '' @ (quo # jsonEscape (dt (r_created r)) @ [quo])"
    by (simp add: export_row_body_def)
  show ?thesis unfolding e
    by (intro transparent_append q k c transparent_show_int; simp add: plain_char_def code_def)
qed

lemma export_rows_join:
  "export_rows dt True rs = (if rs = [] then [] else ''  '' @
     join ('','' @ nl # ''  '') (map (\<lambda>r. obj_text (export_row_body dt r)) rs))"
proof -
  have f: "export_rows dt False rs =
      concat (map (\<lambda>r. '','' @ nl # ''  '' @ obj_text (export_row_body dt r)) rs)" for rs
    by (induction rs) (simp_all add: obj_text_def)
  have j: "join sep (x # xs) = x @ concat (map (\<lambda>y. sep @ y) xs)" for sep x xs
    by (induction xs arbitrary: x) (simp_all add: join_Cons)
  show ?thesis by (cases rs) (simp_all add: f j obj_text_def comp_def)
qed

lemma sort_key_Nil_iff [simp]: "sort_key f rows = [] \<longleftrightarrow> rows = []"
  by (metis set_sort set_empty)

text \<open>The backup is readable JSON: whatever process names, titles and ids the table holds, iterating
  over the exported text yields one object per row, in id order, with nothing lost or merged.\<close>

theorem export_reads_back:
  assumes "\<forall>r \<in> set rows. length (export_row_body dt r) + 2 < sz"
  shows "json_array_objs sz n (export_text dt rows) =
         take n (map (\<lambda>r. obj_text (export_row_body dt r)) (sort_key r_id rows))"
proof -
  let ?rs = "sort_key r_id rows"
  have t: "export_text dt rows = (''['' @ nl # (if rows = [] then [] else ''  '')) @
      join ('','' @ nl # ''  '') (map obj_text (map (export_row_body dt) ?rs)) @ (nl # '']'' @ [nl])"
    by (cases "rows = []") (simp_all add: export_text_def export_rows_join comp_def)
  show ?thesis unfolding t
    by (subst json_array_objs_join)
       (use assms in \<open>auto simp: transparent_export_row obj_text_def array_skip_def json_ws_def comp_def\<close>)
qed

lemma export_reads_back_witness:
  "length (json_array_objs 4096 10 (export_text (\<lambda>_. ''2026'') [new_row env0 rec0 2, new_row env0 rec0 1])) = 2"
proof -
  have "\<forall>r \<in> set [new_row env0 rec0 2, new_row env0 rec0 1].
      length (export_row_body (\<lambda>_. ''2026'') r) + 2 < 4096" by code_simp
  from export_reads_back [OF this, of 10] show ?thesis by simp
qed

end
