(* ===== verification/Network_Send.thy ===== *)
theory Network_Send
  imports Rest_Client Activity_Db
begin

text \<open>
  \<open>src/agent/shared/network.cpp\<close>: a batch of activity records in one request to the Edge Function
  \<open>sync-activity\<close>. The pair returned by \<open>network_send_batch\<close> is the C return value and
  \<open>*transport_error\<close>. The two turns of the attempt loop are written out.
\<close>

definition wcsnlen_view :: "nat \<Rightarrow> wstr \<Rightarrow> wstr" where
  "wcsnlen_view n w = take n (wide_cstr w)"

definition record_fields :: "codec \<Rightarrow> SyncRecord \<Rightarrow> (string \<times> jval) list" where
  "record_fields cv r =
     [(''device_id'', JStr (sr_device_id r)),
      (''process_name'', JStr (wideToUtf8 cv (wcsnlen_view 512 (sr_process_name r)))),
      (''window_title'', JStr (wideToUtf8 cv (wcsnlen_view 2048 (sr_window_title r)))),
      (''duration_seconds'', JInt (sr_duration_seconds r)),
      (''start_time'', JInt (sr_start_time r)),
      (''end_time'', JInt (sr_end_time r))]"

definition appendRecordJson :: "codec \<Rightarrow> string \<Rightarrow> SyncRecord \<Rightarrow> string" where
  "appendRecordJson cv out r =
     out @ ''{\"device_id\":\"'' @ jsonEscape (sr_device_id r) @
     ''\",\"process_name\":\"'' @ jsonEscape (wideToUtf8 cv (wcsnlen_view 512 (sr_process_name r))) @
     ''\",\"window_title\":\"'' @ jsonEscape (wideToUtf8 cv (wcsnlen_view 2048 (sr_window_title r))) @
     ''\",\"duration_seconds\":'' @ show_int (sr_duration_seconds r) @
     '',\"start_time\":'' @ show_int (sr_start_time r) @
     '',\"end_time\":'' @ show_int (sr_end_time r) @ ''}''"

fun append_records :: "codec \<Rightarrow> string \<Rightarrow> bool \<Rightarrow> SyncRecord list \<Rightarrow> string" where
  "append_records cv body first [] = body"
| "append_records cv body first (r # rs) =
     append_records cv (appendRecordJson cv (if first then body else body @ '','') r) False rs"

definition buildBody :: "codec \<Rightarrow> SyncRecord list \<Rightarrow> string" where
  "buildBody cv records =
     (if length records = 1 then appendRecordJson cv [] (hd records)
      else append_records cv ''['' True records @ '']'')"

definition isTransientStatus :: "nat \<Rightarrow> bool" where
  "isTransientStatus st \<longleftrightarrow> st = 408 \<or> st = 429 \<or> st = 502 \<or> st = 503 \<or> st = 504"

definition is_2xx :: "nat \<Rightarrow> bool" where
  "is_2xx st \<longleftrightarrow> 200 \<le> st \<and> st < 300"

definition sync_path :: string where
  "sync_path = ''/functions/v1/sync-activity''"

definition send_attempt :: "'w env \<Rightarrow> string \<Rightarrow> 'w agent \<Rightarrow> HttpResult option \<times> 'w agent" where
  "send_attempt env body ag =
     with_http (httpsRequest (en_net env) (rest_request ag ''POST'' sync_path body []) True default_max_body) ag"

definition network_send_batch ::
  "'w env \<Rightarrow> codec \<Rightarrow> SyncRecord list \<Rightarrow> 'w agent \<Rightarrow> (bool \<times> bool) \<times> 'w agent" where
  "network_send_batch env cv records ag =
     (if records = [] then ((False, False), ag)
      else if \<not> auth_is_logged_in ag then ((False, True), ag)
      else
        (let body = buildBody cv records;
             token = as_access_token (auth_get_session ag);
             (res1, ag1) = send_attempt env body ag
         in case res1 of
              None \<Rightarrow> ((False, True), ag1)
            | Some r1 \<Rightarrow>
                if is_2xx (hr_status r1) then ((True, False), ag1)
                else if hr_status r1 = 401
                then
                  (let (fresh, ag2) = restclient_refresh_if_stale env token ag1
                   in if \<not> fresh then ((False, True), ag2)
                      else
                        (let (res2, ag3) = send_attempt env body ag2
                         in case res2 of
                              None \<Rightarrow> ((False, True), ag3)
                            | Some r2 \<Rightarrow>
                                if is_2xx (hr_status r2) then ((True, False), ag3)
                                else ((False, isTransientStatus (hr_status r2)), ag3)))
                else ((False, isTransientStatus (hr_status r1)), ag1)))"

definition network_send_record :: "'w env \<Rightarrow> codec \<Rightarrow> SyncRecord option \<Rightarrow> 'w agent \<Rightarrow> bool \<times> 'w agent" where
  "network_send_record env cv rec ag =
     (case rec of
        None \<Rightarrow> (False, ag)
      | Some r \<Rightarrow> (let ((ok, te), ag') = network_send_batch env cv [r] ag in (ok, ag')))"

section \<open>The body\<close>

lemma appendRecordJson_eq: "appendRecordJson cv out r = out @ render_obj (record_fields cv r)"
  by (simp add: appendRecordJson_def render_obj_def obj_text_def record_fields_def render_field_def)

lemma append_records_eq:
  "append_records cv body first rs =
     body @ (if rs = [] then [] else (if first then [] else '','') @
       join '','' (map (\<lambda>r. render_obj (record_fields cv r)) rs))"
  by (induction cv body first rs rule: append_records.induct)
     (auto simp: appendRecordJson_eq join_Cons)

lemma buildBody_eq:
  "buildBody cv rs =
     (if length rs = 1 then render_obj (record_fields cv (hd rs))
      else render_array (map (record_fields cv) rs))"
  by (simp add: buildBody_def appendRecordJson_eq append_records_eq render_array_def comp_def)

lemma flat_record: "flat_obj (record_fields cv r)"
  by (simp add: flat_obj_def record_fields_def key_ok_def plain_char_def code_def)

text \<open>The request body carries exactly the records of the batch: a reader of the JSON array finds one
  object per record, in order, whatever text the process names and titles hold.\<close>

theorem buildBody_reads_back:
  assumes "length rs \<noteq> 1" and "\<forall>r \<in> set rs. length (render_obj (record_fields cv r)) < sz"
  shows "json_array_objs sz n (buildBody cv rs) =
         take n (map (\<lambda>r. render_obj (record_fields cv r)) rs)"
proof -
  have "json_array_objs sz n (render_array (map (record_fields cv) rs)) =
      take n (map render_obj (map (record_fields cv) rs))"
    by (rule json_array_objs_render) (use assms(2) flat_record in auto)
  then show ?thesis using assms(1) by (simp add: buildBody_eq comp_def)
qed

definition sync_rec :: "int \<Rightarrow> wstr \<Rightarrow> SyncRecord" where
  "sync_rec i w = \<lparr>sr_id = i, sr_device_id = ''PC-1'', sr_process_name = w, sr_window_title = [34, 125],
     sr_duration_seconds = 5, sr_start_time = 10, sr_end_time = 15\<rparr>"

lemma buildBody_reads_back_witness:
  "length (json_array_objs 512 10 (buildBody ascii_codec [sync_rec 1 [97], sync_rec 2 [123, 34]])) = 2"
proof -
  have "\<forall>r \<in> set [sync_rec 1 [97], sync_rec 2 [123, 34]].
      length (render_obj (record_fields ascii_codec r)) < 512" by code_simp
  from buildBody_reads_back [OF _ this, of 10] show ?thesis by simp
qed

section \<open>Outcomes\<close>

lemma send_attempt_frame [jit_frame]:
  assumes "send_attempt env body ag = (r, ag')"
  shows "ag_session ag' = ag_session ag" "ag_fs ag' = ag_fs ag" "ag_settings ag' = ag_settings ag"
  using assms with_http_frame by (auto simp: send_attempt_def)

lemma network_send_settings:
  "network_send_batch env cv rs ag = (r, ag') \<Longrightarrow> ag_settings ag' = ag_settings ag"
  by (auto simp: network_send_batch_def Let_def split: if_splits prod.splits option.splits
      dest!: send_attempt_frame(3) refresh_if_stale_settings)

text \<open>How a batch is judged: logged out, or no connection, is a transport error; a 2xx reply is
  acceptance; any other status except 401 is a rejection unless it is one of the five transient ones;
  and a batch is never reported as both accepted and failed in transport.\<close>

theorem network_send_outcome:
  assumes "rs \<noteq> []"
  shows "(\<not> auth_is_logged_in ag \<longrightarrow> network_send_batch env cv rs ag = ((False, True), ag)) \<and>
         (auth_is_logged_in ag \<and> fst (send_attempt env (buildBody cv rs) ag) = None \<longrightarrow>
            fst (network_send_batch env cv rs ag) = (False, True)) \<and>
         (\<forall>r. auth_is_logged_in ag \<and> fst (send_attempt env (buildBody cv rs) ag) = Some r \<and>
              hr_status r \<noteq> 401 \<longrightarrow>
            fst (network_send_batch env cv rs ag) =
              (is_2xx (hr_status r), \<not> is_2xx (hr_status r) \<and> isTransientStatus (hr_status r)) \<and>
            ag_session (snd (network_send_batch env cv rs ag)) = ag_session ag) \<and>
         fst (network_send_batch env cv rs ag) \<noteq> (True, True)"
proof (cases "auth_is_logged_in ag")
  case False
  then show ?thesis using assms by (simp add: network_send_batch_def)
next
  case True
  obtain res1 ag1 where a1: "send_attempt env (buildBody cv rs) ag = (res1, ag1)"
    by (cases "send_attempt env (buildBody cv rs) ag")
  show ?thesis
    using assms True a1 send_attempt_frame(1) [OF a1]
    by (auto simp: network_send_batch_def Let_def split: option.splits prod.splits if_splits)
qed

lemma send_attempt_fixed:
  assumes "en_net env = fixed_net f" and "f (rest_request ag ''POST'' sync_path body []) = Some (s, b)" and "s \<noteq> 0"
  shows "fst (send_attempt env body ag) = Some \<lparr>hr_status = s, hr_body = take default_max_body b\<rparr>"
proof -
  let ?q = "httpsRequest (fixed_net f) (rest_request ag ''POST'' sync_path body []) True
       default_max_body \<lparr>hc_conn = ag_conn ag, hc_world = ag_world ag\<rparr>"
  have "fst ?q = Some \<lparr>hr_status = s, hr_body = take default_max_body b\<rparr>"
    using fixed_net_https [of f "rest_request ag ''POST'' sync_path body []"] assms(2,3) by simp
  then show ?thesis using assms(1) by (cases ?q) (simp add: send_attempt_def with_http_def)
qed

lemma network_send_outcome_witness:
  "fst (network_send_batch (plain_env (fixed_net (\<lambda>_. Some (503, [])))) ascii_codec [sync_rec 1 [97]] example_agent)
   = (False, True)"
proof -
  let ?e = "plain_env (fixed_net (\<lambda>_. Some (503, [])))"
  have l: "auth_is_logged_in example_agent" by (simp add: auth_is_logged_in_def example_agent_def)
  have "fst (send_attempt ?e (buildBody ascii_codec [sync_rec 1 [97]]) example_agent) =
      Some \<lparr>hr_status = 503, hr_body = []\<rparr>"
    using send_attempt_fixed [of ?e "\<lambda>_. Some (503, [])"] by (simp add: plain_env_def)
  with l network_send_outcome [of "[sync_rec 1 [97]]" example_agent ?e ascii_codec] show ?thesis
    by (simp add: is_2xx_def isTransientStatus_def)
qed

text \<open>A second 401, after a refresh that worked, is judged a rejection of the data: the batch counts as
  refused, so its records are bisected and penalised although no valid token was ever presented.\<close>

theorem network_second_401_rejects:
  assumes "rs \<noteq> []" and "auth_is_logged_in ag"
    and "send_attempt env (buildBody cv rs) ag = (Some r1, ag1)" and "hr_status r1 = 401"
    and "restclient_refresh_if_stale env (as_access_token (ag_session ag)) ag1 = (True, ag2)"
    and "send_attempt env (buildBody cv rs) ag2 = (Some r2, ag3)" and "hr_status r2 = 401"
  shows "network_send_batch env cv rs ag = ((False, False), ag3)"
  using assms by (simp add: network_send_batch_def Let_def auth_get_session_def is_2xx_def isTransientStatus_def)

lemma network_second_401_rejects_witness:
  "fst (network_send_batch (plain_env (token_server ''new'' ''r2'' (\<lambda>_. (401, ''{}'')))) ascii_codec
      [sync_rec 1 [97]] example_agent) = (False, False)"
proof -
  let ?e = "plain_env (token_server ''new'' ''r2'' (\<lambda>_. (401, ''{}'')))"
  let ?b = "buildBody ascii_codec [sync_rec 1 [97]]"
  let ?f = "\<lambda>rq. if rq_path rq = refresh_path
       then Some (200, render_obj [(''access_token'', JStr ''new''), (''refresh_token'', JStr ''r2'')])
       else if bearer_of ''new'' rq then Some (401, ''{}'') else Some (401, ''{}'')"
  have net: "en_net ?e = fixed_net ?f" by (simp add: plain_env_def token_server_def)
  have any: "?f (rest_request ag ''POST'' sync_path ?b []) = Some (401, ''{}'')" for ag :: "unit agent"
    by (simp add: sync_path_def refresh_path_def)
  have at: "\<exists>ag'. send_attempt ?e ?b ag = (Some \<lparr>hr_status = 401, hr_body = take default_max_body ''{}''\<rparr>, ag')"
    for ag
    using send_attempt_fixed [OF net any, of ag] by (metis prod.collapse zero_neq_numeral)
  obtain ag1 where a1: "send_attempt ?e ?b example_agent =
      (Some \<lparr>hr_status = 401, hr_body = take default_max_body ''{}''\<rparr>, ag1)" using at by blast
  note fr = send_attempt_frame [OF a1]
  have t: "token_ok ''new''" "token_ok ''r2''" by (simp_all add: token_ok_def plain_char_def code_def)
  have rt: "as_refresh_token (ag_session ag1) \<noteq> []" using fr by (simp add: example_agent_def)
  obtain ag2 where r: "auth_refresh_session ?e ag1 = (True, ag2)"
    by (rule refresh_token_server [of ?e "''new''" "''r2''" "\<lambda>_. (401, ''{}'')" ag1])
       (use t rt in \<open>simp_all add: plain_env_def\<close>)
  have "restclient_refresh_if_stale ?e (as_access_token (ag_session example_agent)) ag1 = (True, ag2)"
    using r fr by (simp add: restclient_refresh_if_stale_def auth_get_session_def example_agent_def)
  moreover obtain ag3 where "send_attempt ?e ?b ag2 =
      (Some \<lparr>hr_status = 401, hr_body = take default_max_body ''{}''\<rparr>, ag3)" using at by blast
  ultimately show ?thesis
    using network_second_401_rejects [OF _ _ a1, of ag2 _ ag3]
    by (simp add: auth_is_logged_in_def example_agent_def)
qed

end
