(* ===== verification/Sync_Engine.thy ===== *)
theory Sync_Engine
  imports Network_Send
begin

text \<open>
  \<open>src/agent/agent/sync.cpp\<close>: the sync cycle. A round fetches up to \<open>MAX_RECORDS\<close> due records, sends
  them with \<open>sendWithBisect\<close> and settles the report in the table; a cycle has at most
  \<open>kMaxRoundsPerCycle\<close> rounds, counted down by the recursion. \<open>denv n\<close> is what the database sees (the
  clock among it) in the round with \<open>n\<close> rounds left, \<open>oks n\<close> the success of that round's UPDATE chunks.
\<close>

definition kMaxRoundsPerCycle :: nat where "kMaxRoundsPerCycle = 20"
definition kMaxRequestsPerRound :: int where "kMaxRequestsPerRound = 20"

definition sync_send :: "'w env \<Rightarrow> codec \<Rightarrow> SyncRecord list \<Rightarrow> 'w agent sender" where
  "sync_send env cv records lo hi ag =
     (let ((ok, transportError), ag') = network_send_batch env cv (take (hi - lo) (drop lo records)) ag
      in (if ok then Accepted else if transportError then TransportError else Rejected, ag'))"

definition sync_report ::
  "'w env \<Rightarrow> codec \<Rightarrow> SyncRecord list \<Rightarrow> 'w agent \<Rightarrow> BatchReport \<times> 'w agent" where
  "sync_report env cv records ag =
     sendWithBisect (int (length records)) kMaxRequestsPerRound (sync_send env cv records) ag"

definition sync_settle ::
  "db_env \<Rightarrow> (nat \<Rightarrow> bool) \<Rightarrow> AppSettings \<Rightarrow> SyncRecord list \<Rightarrow> BatchReport \<Rightarrow> adb \<Rightarrow> adb" where
  "sync_settle denv oks s records rep db =
     fold (\<lambda>idx db. snd (db_mark_sync_failed denv s (sr_id (records ! idx)) db)) (rejected rep)
       (if accepted rep \<noteq> []
        then snd (db_mark_synced_batch oks (map (\<lambda>idx. sr_id (records ! idx)) (accepted rep)) db)
        else db)"

fun sync_rounds ::
  "'w env \<Rightarrow> (nat \<Rightarrow> db_env) \<Rightarrow> (nat \<Rightarrow> nat \<Rightarrow> bool) \<Rightarrow> nat \<Rightarrow> 'w agent \<times> adb \<Rightarrow> int \<times> 'w agent \<times> adb" where
  "sync_rounds env denv oks 0 (ag, db) = (0, ag, db)"
| "sync_rounds env denv oks (Suc n) (ag, db) =
     (let records = db_get_unsynced_records (denv n) MAX_RECORDS db
      in if records = [] then (0, ag, db)
         else
           (let (rep, ag1) = sync_report env (de_codec (denv n)) records ag;
                db1 = sync_settle (denv n) (oks n) (ag_settings ag1) records rep db
            in if aborted rep then (- 1, ag1, db1)
               else if length records < MAX_RECORDS then (0, ag1, db1)
               else sync_rounds env denv oks n (ag1, db1)))"

definition sync_pending_records ::
  "'w env \<Rightarrow> (nat \<Rightarrow> db_env) \<Rightarrow> (nat \<Rightarrow> nat \<Rightarrow> bool) \<Rightarrow> 'w agent \<times> adb \<Rightarrow> int \<times> 'w agent \<times> adb" where
  "sync_pending_records env denv oks st =
     (if \<not> auth_is_logged_in (fst st) then (0, st) else sync_rounds env denv oks kMaxRoundsPerCycle st)"

section \<open>A round on the queue\<close>

text \<open>With working UPDATE statements a round settles the report as the queue contract does.\<close>

lemma sync_settle_queue:
  assumes "\<forall>idx \<in> set (accepted rep) \<union> set (rejected rep). idx < length records"
  shows "sync_settle denv (\<lambda>_. True) s records rep db =
         db_queue.settle denv s (map sr_id records) rep db"
proof -
  have a: "map (\<lambda>idx. sr_id (records ! idx)) (accepted rep) = map (\<lambda>i. map sr_id records ! i) (accepted rep)"
    using assms by simp
  have r: "fold (\<lambda>idx db. snd (db_mark_sync_failed denv s (sr_id (records ! idx)) db)) (rejected rep) x =
           fold (\<lambda>i. q_fail denv s (map sr_id records ! i)) (rejected rep) x" for x
    using assms by (intro fold_cong) (auto simp: q_fail_def fun_eq_iff)
  show ?thesis
    unfolding sync_settle_def db_queue.settle_def r a by (simp add: q_mark_def)
qed

lemma sync_report_partition:
  assumes "sync_report env cv records ag = (rep, ag')"
  shows "\<exists>k \<le> length records. decided rep k \<and> (\<not> aborted rep \<longrightarrow> k = length records)"
  using bisect_loop_decided [of "sync_send env cv records" kMaxRequestsPerRound
      "if 0 < int (length records) then [(0, nat (int (length records)))] else []" empty_report ag rep ag' 0
      "length records"] assms
  by (auto simp: sync_report_def sendWithBisect_def empty_report_facts)

lemma sync_report_indices:
  assumes "sync_report env cv records ag = (rep, ag')"
  shows "\<forall>idx \<in> set (accepted rep) \<union> set (rejected rep). idx < length records"
proof -
  obtain k where "k \<le> length records" "decided rep k" using sync_report_partition [OF assms] by blast
  then show ?thesis by (auto dest!: decided_less)
qed

text \<open>One round touches exactly what the server decided: the ids of the accepted records leave the
  pending set and nothing else does; the due set loses the accepted and the rejected ones; a round
  that was not aborted leaves none of the records it fetched due.\<close>

theorem sync_round_settles:
  assumes "db_ready denv db" and "records = db_get_unsynced_records denv MAX_RECORDS db"
    and "sync_report env cv records ag = (rep, ag')"
    and "db' = sync_settle denv (\<lambda>_. True) s records rep db"
  shows "pending_ids db' = pending_ids db - (\<lambda>i. sr_id (records ! i)) ` set (accepted rep) \<and>
         due_ids (de_now denv) db' =
           due_ids (de_now denv) db - (\<lambda>i. sr_id (records ! i)) ` (set (accepted rep) \<union> set (rejected rep)) \<and>
         (\<not> aborted rep \<longrightarrow> due_ids (de_now denv) db' = due_ids (de_now denv) db - sr_id ` set records) \<and>
         db_ready denv db'"
proof -
  note idx = sync_report_indices [OF assms(3)]
  have db': "db' = db_queue.settle denv s (map sr_id records) rep db"
    unfolding assms(4) by (rule sync_settle_queue [OF idx])
  have img: "(\<lambda>i. map sr_id records ! i) ` A = (\<lambda>i. sr_id (records ! i)) ` A"
    if "A \<subseteq> set (accepted rep) \<union> set (rejected rep)" for A
    using that idx by (intro image_cong) auto
  have full: "\<not> aborted rep \<longrightarrow> decided rep (length records)" using sync_report_partition [OF assms(3)] by auto
  show ?thesis
    using db_queue.settle_pending [OF assms(1), of s "map sr_id records" rep]
      db_queue.settle_due [OF assms(1), of s "map sr_id records" rep]
      db_queue.settle_ok [OF assms(1), of s "map sr_id records" rep]
      db_queue.settle_full_round [OF assms(1), of rep MAX_RECORDS s] full
    unfolding db' assms(2) [symmetric] by (simp add: img)
qed

section \<open>Offline\<close>

definition offline :: "'w env \<Rightarrow> bool" where
  "offline env \<longleftrightarrow> (\<forall>rq st. fst (httpsRequest (en_net env) rq True default_max_body st) = None)"

lemma offline_send:
  assumes "offline env" and "auth_is_logged_in ag" and "rs \<noteq> []"
  shows "fst (network_send_batch env cv rs ag) = (False, True)"
proof -
  have "fst (send_attempt env (buildBody cv rs) ag) = None"
    using assms(1) by (auto simp: send_attempt_def with_http_def offline_def split: prod.splits)
      (metis fst_conv)
  then show ?thesis using assms(2,3)
    by (cases "send_attempt env (buildBody cv rs) ag") (simp add: network_send_batch_def Let_def)
qed

lemma offline_report:
  assumes "offline env" and "auth_is_logged_in ag" and "records \<noteq> []"
  shows "\<exists>ag'. sync_report env cv records ag =
           (\<lparr>accepted = [], rejected = [], aborted = True, requests = 1\<rparr>, ag')"
proof -
  have "fst (network_send_batch env cv (take (length records) (drop 0 records)) ag) = (False, True)"
    using offline_send [OF assms(1,2), of records cv] assms(3) by simp
  then obtain ag' where "sync_send env cv records 0 (length records) ag = (TransportError, ag')"
    by (cases "network_send_batch env cv records ag") (auto simp: sync_send_def)
  then have "bisect_loop (sync_send env cv records) kMaxRequestsPerRound [(0, length records)] empty_report ag =
      (\<lparr>accepted = [], rejected = [], aborted = True, requests = 1\<rparr>, ag')"
    by (subst bisect_loop_step [of empty_report kMaxRequestsPerRound "sync_send env cv records" 0
          "length records" ag TransportError ag'])
       (simp_all add: empty_report_def kMaxRequestsPerRound_def Let_def)
  then show ?thesis using assms(3) by (simp add: sync_report_def sendWithBisect_def)
qed

text \<open>Offline the queue is not touched: the cycle stops at the first request and reports -1, and no
  record is penalised, marked or lost; the table is exactly what it was.\<close>

theorem sync_offline_unchanged:
  assumes "offline env" and "auth_is_logged_in ag"
    and "db_get_unsynced_records (denv (kMaxRoundsPerCycle - 1)) MAX_RECORDS db \<noteq> []"
  shows "\<exists>ag'. sync_pending_records env denv oks (ag, db) = (- 1, ag', db)"
proof -
  let ?n = "kMaxRoundsPerCycle - 1"
  have k: "kMaxRoundsPerCycle = Suc ?n" by (simp add: kMaxRoundsPerCycle_def)
  obtain ag' where "sync_report env (de_codec (denv ?n)) (db_get_unsynced_records (denv ?n) MAX_RECORDS db) ag =
      (\<lparr>accepted = [], rejected = [], aborted = True, requests = 1\<rparr>, ag')"
    using offline_report [OF assms] by blast
  then have "sync_rounds env denv oks (Suc ?n) (ag, db) = (- 1, ag', db)"
    using assms(3) by (simp add: sync_settle_def)
  then show ?thesis using assms(2) k by (simp add: sync_pending_records_def)
qed

lemma fixed_net_offline: "offline (plain_env (fixed_net (\<lambda>_. None)))"
proof -
  have o1: "fst (requestOnce (fixed_net (\<lambda>_. None)) rq m st) = None" for rq m st
    by (simp add: fixed_net_request)
  have "fst (httpsRequest (fixed_net (\<lambda>_. None)) rq True m st) = None" for rq m st
    using o1 [of rq m st] o1 [of rq m "snd (requestOnce (fixed_net (\<lambda>_. None)) rq m st)"]
    by (cases "requestOnce (fixed_net (\<lambda>_. None)) rq m st") (simp add: httpsRequest_def)
  then show ?thesis by (simp add: offline_def plain_env_def)
qed

lemma db1_ready: "db_ready env0 db1"
  using db_step_inv [OF db0_step db0_inv]
  by (simp add: db_ready_def queue_ok_def env_ok_def db1_rows env0_def)

lemma row1: "r_id (new_row env0 rec0 1) = 1" "r_synced (new_row env0 rec0 1) = 0"
  "r_next_retry (new_row env0 rec0 1) = 0"
  by (simp_all add: new_row_def rec0_def)

lemma db1_due: "due_ids 1000 db1 = {1}"
  using row1 by (auto simp: due_ids_def db1_rows due_def)

lemma db1_pending: "pending_ids db1 = {1}"
  using row1 by (auto simp: pending_ids_def db1_rows)

lemma db1_fetch: "db_get_unsynced_records env0 MAX_RECORDS db1 = [sync_record_of ascii_codec (new_row env0 rec0 1)]"
  by (simp add: db_get_unsynced_records_def unsynced_query_def db1_def db_insert_activity_def db0_def
      env0_def due_def new_row_def rec0_def MAX_RECORDS_def)

lemma sync_offline_unchanged_witness:
  "\<exists>ag'. sync_pending_records (plain_env (fixed_net (\<lambda>_. None))) (\<lambda>_. env0) (\<lambda>_ _. True)
     (example_agent, db1) = (- 1, ag', db1)"
  by (rule sync_offline_unchanged [OF fixed_net_offline])
     (simp_all add: auth_is_logged_in_def example_agent_def db1_fetch)

lemma sync_round_settles_witness:
  "pending_ids (sync_settle env0 (\<lambda>_. True) setDefaults (db_get_unsynced_records env0 MAX_RECORDS db1)
     (fst (sync_report (plain_env (fixed_net (\<lambda>_. None))) ascii_codec
        (db_get_unsynced_records env0 MAX_RECORDS db1) example_agent)) db1) = {1}"
proof -
  let ?e = "plain_env (fixed_net (\<lambda>_. None))"
  let ?r = "db_get_unsynced_records env0 MAX_RECORDS db1"
  let ?rep = "\<lparr>accepted = [], rejected = [], aborted = True, requests = 1\<rparr>"
  obtain ag' where rep: "sync_report ?e ascii_codec ?r example_agent = (?rep, ag')"
    using offline_report [OF fixed_net_offline, of example_agent ?r ascii_codec]
    by (auto simp: auth_is_logged_in_def example_agent_def db1_fetch)
  have "pending_ids (sync_settle env0 (\<lambda>_. True) setDefaults ?r ?rep db1) = pending_ids db1"
    using sync_round_settles [OF db1_ready refl rep refl, of setDefaults, THEN conjunct1] by simp
  then show ?thesis by (simp only: rep fst_conv db1_pending)
qed

section \<open>Poison records and draining\<close>

lemma image_nth_upt: "(\<lambda>i. f (xs ! i)) ` {0..<length xs} = f ` set xs"
  by (simp add: image_image [symmetric] nth_image)

lemma fetch_length_le: "length (db_get_unsynced_records denv n db) \<le> n"
  by (simp add: db_get_unsynced_records_def unsynced_query_def)

lemma report_isolates:
  assumes "isolating bad (length records) I (sync_send env cv records)" and "I ag" and "records \<noteq> []"
    and "length records \<le> MAX_RECORDS" and "length (filter bad [0..<length records]) \<le> 1"
  shows "fst (sync_report env cv records ag) =
     \<lparr>accepted = filter (\<lambda>i. \<not> bad i) [0..<length records], rejected = filter bad [0..<length records],
      aborted = False, requests = bisect_cost bad 0 (length records)\<rparr> \<and>
     I (snd (sync_report env cv records ag)) \<and> bisect_cost bad 0 (length records) \<le> 15"
proof -
  have "length records - 0 \<le> 2 ^ 7" using assms(4) by (simp add: MAX_RECORDS_def)
  then have "bisect_cost bad 0 (length records) \<le> 2 * bad_count bad 0 (length records) * 7 + 1"
    by (rule bisect_cost_bound)
  with assms(5) have c: "bisect_cost bad 0 (length records) \<le> 15" by (simp add: bad_count_def)
  then show ?thesis
    using sendWithBisect_isolates [of bad "int (length records)" I "sync_send env cv records" ag
        kMaxRequestsPerRound] assms(1-3)
    by (simp add: sync_report_def kMaxRequestsPerRound_def)
qed

text \<open>C7: One poison record never holds up the others: if the server refuses just the batches that hold it,
  a single round of at most 15 requests marks every other fetched record as synced, postpones the bad
  one alone, and is not aborted.\<close>

theorem sync_isolates_poison:
  assumes "db_ready denv db" and "records = db_get_unsynced_records denv MAX_RECORDS db" and "records \<noteq> []"
    and "isolating (\<lambda>i. sr_id (records ! i) = bad) (length records) I (sync_send env cv records)" and "I ag"
    and "sync_report env cv records ag = (rep, ag')"
    and "db' = sync_settle denv (\<lambda>_. True) s records rep db"
  shows "\<not> aborted rep \<and> requests rep \<le> 15 \<and>
         pending_ids db' = pending_ids db - (sr_id ` set records - {bad}) \<and>
         due_ids (de_now denv) db' = due_ids (de_now denv) db - sr_id ` set records"
proof -
  let ?n = "length records"
  have dist: "distinct (map sr_id records)"
    using db_queue.fetch_distinct [OF assms(1), of MAX_RECORDS] assms(2) by simp
  have "length (filter (\<lambda>i. sr_id (records ! i) = bad) [0..<?n]) \<le> 1"
  proof -
    have "map sr_id records ! i = sr_id (records ! i)" if "i < ?n" for i using that by simp
    then have "set (filter (\<lambda>i. sr_id (records ! i) = bad) [0..<?n]) \<subseteq>
        {i. i < ?n \<and> map sr_id records ! i = bad}" by auto
    moreover have "i = j" if "i < ?n" "j < ?n" "map sr_id records ! i = bad" "map sr_id records ! j = bad" for i j
      using that dist nth_eq_iff_index_eq [of "map sr_id records" i j] by simp
    ultimately have "\<exists>a. set (filter (\<lambda>i. sr_id (records ! i) = bad) [0..<?n]) \<subseteq> {a}" by blast
    then obtain a where "set (filter (\<lambda>i. sr_id (records ! i) = bad) [0..<?n]) \<subseteq> {a}" by blast
    then have "card (set (filter (\<lambda>i. sr_id (records ! i) = bad) [0..<?n])) \<le> card {a}"
      by (intro card_mono) auto
    then show ?thesis using distinct_card [of "filter (\<lambda>i. sr_id (records ! i) = bad) [0..<?n]"] by simp
  qed
  from report_isolates [OF assms(4,5,3) _ this] fetch_length_le [of denv MAX_RECORDS db] assms(2,6)
  have rep: "accepted rep = filter (\<lambda>i. sr_id (records ! i) \<noteq> bad) [0..<?n]" "\<not> aborted rep"
    "requests rep \<le> 15" by auto
  have "(\<lambda>i. sr_id (records ! i)) ` set (accepted rep) = sr_id ` set records - {bad}"
    unfolding rep(1) image_nth_upt [of sr_id records, symmetric] by auto
  with sync_round_settles [OF assms(1,2,6,7)] rep(2,3) show ?thesis by metis
qed

definition accepts :: "('w agent \<Rightarrow> bool) \<Rightarrow> 'w env \<Rightarrow> codec \<Rightarrow> bool" where
  "accepts I env cv \<longleftrightarrow>
     (\<forall>rs ag. I ag \<longrightarrow> rs \<noteq> [] \<longrightarrow>
        fst (network_send_batch env cv rs ag) = (True, False) \<and> I (snd (network_send_batch env cv rs ag)))"

lemma accepts_isolating:
  assumes "accepts I env cv"
  shows "isolating (\<lambda>_. False) (length records) I (sync_send env cv records)"
proof -
  have "fst (sync_send env cv records lo hi ag) = Accepted \<and> I (snd (sync_send env cv records lo hi ag))"
    if "I ag" "lo < hi" "hi \<le> length records" for lo hi ag
  proof -
    let ?b = "take (hi - lo) (drop lo records)"
    have "?b \<noteq> []" using that by auto
    then have "fst (network_send_batch env cv ?b ag) = (True, False) \<and> I (snd (network_send_batch env cv ?b ag))"
      using assms that(1) unfolding accepts_def by blast
    then show ?thesis
      by (cases "network_send_batch env cv ?b ag") (simp add: sync_send_def)
  qed
  then show ?thesis by (simp add: isolating_def)
qed

lemma sync_rounds_drain:
  assumes "accepts I env (de_codec denv)"
  shows "I ag \<Longrightarrow> db_ready denv db \<Longrightarrow> card (due_ids (de_now denv) db) < 100 * n \<Longrightarrow>
    \<exists>ag' db'. sync_rounds env (\<lambda>_. denv) (\<lambda>_ _. True) n (ag, db) = (0, ag', db') \<and>
      due_ids (de_now denv) db' = {} \<and> pending_ids db' = pending_ids db - due_ids (de_now denv) db"
proof (induction n arbitrary: ag db)
  case (Suc n)
  let ?rs = "db_get_unsynced_records denv MAX_RECORDS db"
  have len: "length ?rs = min MAX_RECORDS (card (due_ids (de_now denv) db))"
    using db_queue.fetch_length [OF Suc.prems(2), of MAX_RECORDS] by simp
  have fin: "finite (due_ids (de_now denv) db)" by (rule db_queue.due_finite [OF Suc.prems(2)])
  show ?case
  proof (cases "?rs = []")
    case True
    then have "card (due_ids (de_now denv) db) = 0" using len by (simp add: MAX_RECORDS_def min_def split: if_splits)
    then have "due_ids (de_now denv) db = {}" using fin by simp
    with True show ?thesis by simp
  next
    case False
    obtain rep ag1 where rep: "sync_report env (de_codec denv) ?rs ag = (rep, ag1)"
      by (cases "sync_report env (de_codec denv) ?rs ag")
    let ?db1 = "sync_settle denv (\<lambda>_. True) (ag_settings ag1) ?rs rep db"
    from report_isolates [OF accepts_isolating [OF assms, of ?rs] Suc.prems(1) False fetch_length_le] rep
    have r: "accepted rep = [0..<length ?rs]" "rejected rep = []" "\<not> aborted rep" "I ag1" by auto
    have img: "(\<lambda>i. sr_id (?rs ! i)) ` {0..<length ?rs} = sr_id ` set ?rs"
      by (rule image_nth_upt)
    from sync_round_settles [OF Suc.prems(2) refl rep refl, of "ag_settings ag1"] r
    have st: "pending_ids ?db1 = pending_ids db - sr_id ` set ?rs"
      "due_ids (de_now denv) ?db1 = due_ids (de_now denv) db - sr_id ` set ?rs" "db_ready denv ?db1"
      by (simp_all add: img)
    have sub: "sr_id ` set ?rs \<subseteq> due_ids (de_now denv) db"
      using db_queue.fetch_due [OF Suc.prems(2), of MAX_RECORDS] by simp
    have cardrs: "card (sr_id ` set ?rs) = length ?rs"
      using db_queue.fetch_distinct [OF Suc.prems(2), of MAX_RECORDS] distinct_card by fastforce
    then have c1: "card (due_ids (de_now denv) ?db1) = card (due_ids (de_now denv) db) - length ?rs"
      using st(2) sub by (simp add: card_Diff_subset)
    show ?thesis
    proof (cases "length ?rs < MAX_RECORDS")
      case True
      then have "card (due_ids (de_now denv) ?db1) = 0" using c1 len by simp
      then have d: "due_ids (de_now denv) ?db1 = {}" using st(2) fin by simp
      then have "sr_id ` set ?rs = due_ids (de_now denv) db" using st(2) sub by auto
      with True False rep r d st show ?thesis by simp
    next
      case full: False
      then have "card (due_ids (de_now denv) ?db1) < 100 * n"
        using c1 len Suc.prems(3) by (simp add: MAX_RECORDS_def min_def split: if_splits)
      from Suc.IH [OF r(4) st(3) this] obtain ag' db' where
        "sync_rounds env (\<lambda>_. denv) (\<lambda>_ _. True) n (ag1, ?db1) = (0, ag', db')"
        "due_ids (de_now denv) db' = {}"
        "pending_ids db' = pending_ids ?db1 - due_ids (de_now denv) ?db1" by blast
      moreover have "pending_ids ?db1 - due_ids (de_now denv) ?db1 = pending_ids db - due_ids (de_now denv) db"
        using st sub by auto
      ultimately show ?thesis using full False rep r by simp
    qed
  qed
qed simp

text \<open>C8: A backlog drains in one cycle: with a server that accepts every batch, up to 1999 due records are
  all delivered, the cycle returns 0, and afterwards nothing is due and exactly the due records have
  left the pending set.\<close>

theorem sync_drains_backlog:
  assumes "accepts I env (de_codec denv)" and "I ag" and "auth_is_logged_in ag" and "db_ready denv db"
    and "card (due_ids (de_now denv) db) < 2000"
  shows "\<exists>ag' db'. sync_pending_records env (\<lambda>_. denv) (\<lambda>_ _. True) (ag, db) = (0, ag', db') \<and>
    due_ids (de_now denv) db' = {} \<and> pending_ids db' = pending_ids db - due_ids (de_now denv) db"
  using sync_rounds_drain [OF assms(1,2,4), of kMaxRoundsPerCycle] assms(3,5)
  by (simp add: sync_pending_records_def kMaxRoundsPerCycle_def)

lemma fixed_net_accepts:
  "accepts auth_is_logged_in (plain_env (fixed_net (\<lambda>_. Some (200, [])))) cv"
  unfolding accepts_def
proof (intro allI impI)
  fix rs :: "SyncRecord list" and ag :: "unit agent" assume l: "auth_is_logged_in ag" and ne: "rs \<noteq> []"
  let ?e = "plain_env (fixed_net (\<lambda>_. Some (200, [])))"
  obtain ag1 where a: "send_attempt ?e (buildBody cv rs) ag = (Some \<lparr>hr_status = 200, hr_body = []\<rparr>, ag1)"
    using send_attempt_fixed [of ?e "\<lambda>_. Some (200, [])" ag "buildBody cv rs"]
    by (cases "send_attempt ?e (buildBody cv rs) ag") (auto simp: plain_env_def)
  then have "network_send_batch ?e cv rs ag = ((True, False), ag1)"
    using l ne by (simp add: network_send_batch_def is_2xx_def Let_def)
  then show "fst (network_send_batch ?e cv rs ag) = (True, False) \<and>
      auth_is_logged_in (snd (network_send_batch ?e cv rs ag))"
    using send_attempt_frame(1) [OF a] l by (simp add: auth_is_logged_in_def)
qed

lemma sync_drains_backlog_witness:
  "\<exists>ag' db'. sync_pending_records (plain_env (fixed_net (\<lambda>_. Some (200, [])))) (\<lambda>_. env0) (\<lambda>_ _. True)
     (example_agent, db1) = (0, ag', db') \<and> pending_ids db' = {}"
proof -
  have l: "auth_is_logged_in example_agent" by (simp add: auth_is_logged_in_def example_agent_def)
  have n: "de_now env0 = 1000" by (simp add: env0_def)
  from sync_drains_backlog [OF fixed_net_accepts l l db1_ready, unfolded n] show ?thesis
    by (auto simp: db1_due db1_pending)
qed

lemma sync_isolates_poison_witness:
  "requests (fst (sync_report (plain_env (fixed_net (\<lambda>_. Some (200, [])))) ascii_codec
     (db_get_unsynced_records env0 MAX_RECORDS db1) example_agent)) \<le> 15"
proof -
  let ?e = "plain_env (fixed_net (\<lambda>_. Some (200, [])))"
  let ?r = "db_get_unsynced_records env0 MAX_RECORDS db1"
  obtain rep ag' where rep: "sync_report ?e ascii_codec ?r example_agent = (rep, ag')"
    by (cases "sync_report ?e ascii_codec ?r example_agent")
  have l: "auth_is_logged_in example_agent" by (simp add: auth_is_logged_in_def example_agent_def)
  have "isolating (\<lambda>i. sr_id (?r ! i) = 7) (length ?r) auth_is_logged_in (sync_send ?e ascii_codec ?r)"
    using accepts_isolating [OF fixed_net_accepts, of ?r ascii_codec]
    by (subst isolating_cong [where bad' = "\<lambda>_. False"])
       (simp_all add: db1_fetch sync_record_of_def new_row_def to_i32_def)
  from sync_isolates_poison [OF db1_ready refl _ this l rep refl, of setDefaults] rep show ?thesis
    by (simp add: db1_fetch)
qed

end
