(* ===== verification/Delivery.thy ===== *)
theory Delivery
  imports Sync_Engine
begin

text \<open>
  The sync cycle of \<open>src/agent/agent/sync.cpp\<close> beside the agent's other threads. The cycle runs in the
  cloud thread; it holds the database lock only inside each call, so between the fetch, the requests
  and the statements that settle the report the watch thread stores new records, old ones are deleted,
  and the user logs in and out. Each section is a step here, and every state carries the records the
  server has accepted so far.
\<close>

section \<open>Steps\<close>

text \<open>Where the cloud thread stands: between rounds, with fetched records, with their report, or with
  the ids it still has to postpone.\<close>

datatype sync_pc = AtRest | Fetched "SyncRecord list" | Reported "SyncRecord list" BatchReport | Postponing "int list"

record 'w sync_run =
  sn_pc :: sync_pc
  sn_agent :: "'w agent"
  sn_db :: adb
  sn_delivered :: "SyncRecord set"

definition report_delivers :: "SyncRecord list \<Rightarrow> BatchReport \<Rightarrow> SyncRecord set" where
  "report_delivers records rep = (\<lambda>i. records ! i) ` set (accepted rep)"

inductive sync_step :: "'w env \<Rightarrow> codec \<Rightarrow> 'w sync_run \<Rightarrow> 'w sync_run \<Rightarrow> bool" for env cv where
  fetching: "sn_pc s = AtRest \<Longrightarrow> de_codec denv = cv \<Longrightarrow>
    records = db_get_unsynced_records denv MAX_RECORDS (sn_db s) \<Longrightarrow>
    sync_step env cv s (s\<lparr>sn_pc := Fetched records\<rparr>)"
| sending: "sn_pc s = Fetched records \<Longrightarrow> sync_report env cv records (sn_agent s) = (rep, ag') \<Longrightarrow>
    sync_step env cv s
      (s\<lparr>sn_pc := Reported records rep, sn_agent := ag',
         sn_delivered := sn_delivered s \<union> report_delivers records rep\<rparr>)"
| marking: "sn_pc s = Reported records rep \<Longrightarrow>
    sync_step env cv s
      (s\<lparr>sn_db := (if accepted rep \<noteq> []
                   then snd (db_mark_synced_batch oks (map (\<lambda>i. sr_id (records ! i)) (accepted rep)) (sn_db s))
                   else sn_db s),
         sn_pc := Postponing (map (\<lambda>i. sr_id (records ! i)) (rejected rep))\<rparr>)"
| postponing: "sn_pc s = Postponing (i # is) \<Longrightarrow>
    sync_step env cv s
      (s\<lparr>sn_db := snd (db_mark_sync_failed denv st i (sn_db s)), sn_pc := Postponing is\<rparr>)"
| settled: "sn_pc s = Postponing [] \<Longrightarrow> sync_step env cv s (s\<lparr>sn_pc := AtRest\<rparr>)"
| storing: "sync_step env cv s (s\<lparr>sn_db := snd (db_insert_activity denv r (sn_db s))\<rparr>)"
| pruning: "sync_step env cv s (s\<lparr>sn_db := snd (db_delete_old_records denv days (sn_db s))\<rparr>)"
| signing: "sync_step env cv s (s\<lparr>sn_agent := ag\<rparr>)"

inductive_cases sync_stepE: "sync_step env cv s s'"

abbreviation sync_steps :: "'w env \<Rightarrow> codec \<Rightarrow> 'w sync_run \<Rightarrow> 'w sync_run \<Rightarrow> bool" where
  "sync_steps env cv \<equiv> (sync_step env cv)\<^sup>*\<^sup>*"

section \<open>What a statement does to the table\<close>

lemma sync_record_of_payload: "payload r = payload r' \<Longrightarrow> sync_record_of cv r = sync_record_of cv r'"
  by (simp add: payload_def sync_record_of_def)

lemma payload_id: "payload r = payload r' \<Longrightarrow> r_id r = r_id r'"
  by (simp add: payload_def)

text \<open>A row of the new table has the contents of an old row or a fresh id.\<close>

definition only_fresh :: "adb \<Rightarrow> adb \<Rightarrow> bool" where
  "only_fresh db db' \<longleftrightarrow> db_seq db \<le> db_seq db' \<and>
     (\<forall>r' \<in> set (db_rows db'). payload r' \<in> payload ` set (db_rows db) \<or> db_seq db < r_id r')"

lemma only_fresh_refl [simp]: "only_fresh db db"
  by (simp add: only_fresh_def)

lemma only_fresh_update:
  assumes "\<And>r. payload (f r) = payload r"
  shows "only_fresh db (update_where P f db)"
proof -
  have "payload r' \<in> payload ` set (db_rows db)" if "r' \<in> set (db_rows (update_where P f db))" for r'
    using that assms by (auto simp: update_where_def)
  then show ?thesis by (simp add: only_fresh_def)
qed

lemma only_fresh_insert: "only_fresh db (snd (db_insert_activity env rcd db))"
  by (auto simp: db_insert_activity_def only_fresh_def new_row_def split: option.split)

lemma only_fresh_mark_batch: "only_fresh db (snd (db_mark_synced_batch oks ids db))"
proof (cases "\<not> db_open db \<or> ids = []")
  case False
  obtain ok db' where c: "mark_chunks oks 0 ids True db = (ok, db')" by (cases "mark_chunks oks 0 ids True db")
  obtain S where "db_rows db' = map (\<lambda>r. if r_id r \<in> S then set_synced r else r) (db_rows db)"
    using mark_chunks_props [OF c] by blast
  then have "\<forall>r' \<in> set (db_rows db'). payload r' \<in> payload ` set (db_rows db)" by auto
  then show ?thesis
    using False c mark_chunks_seq [OF c] by (simp add: db_mark_synced_batch_def only_fresh_def)
qed (simp add: db_mark_synced_batch_def)

lemma only_fresh_step: "db_step db M db' \<Longrightarrow> only_fresh db db'"
proof (induction rule: db_step.induct)
  case (insert env rcd db ok db')
  then show ?case using only_fresh_insert [of db env rcd] by simp
next
  case (mark_batch oks ids db ok db')
  then show ?case using only_fresh_mark_batch [of db oks ids] by simp
next
  case (delete_old env days db ok db')
  then show ?case by (auto simp: db_delete_old_records_def only_fresh_def split: if_splits)
qed (auto simp: db_mark_synced_def db_mark_sync_failed_def only_fresh_update split: if_splits)

section \<open>The invariant of one record\<close>

text \<open>The records in the cloud thread's hands that carry the id of \<open>r\<close> carry its contents.\<close>

definition in_hand :: "sync_pc \<Rightarrow> SyncRecord list" where
  "in_hand pc = (case pc of Fetched records \<Rightarrow> records | Reported records rep \<Rightarrow> records | _ \<Rightarrow> [])"

definition known_as :: "row \<Rightarrow> adb \<Rightarrow> bool" where
  "known_as r db \<longleftrightarrow> db_inv db \<and> r_id r \<le> db_seq db \<and>
     (\<forall>r' \<in> set (db_rows db). r_id r' = r_id r \<longrightarrow> payload r' = payload r)"

definition safe_record :: "codec \<Rightarrow> row \<Rightarrow> 'w sync_run \<Rightarrow> bool" where
  "safe_record cv r s \<longleftrightarrow>
     known_as r (sn_db s) \<and>
     (\<forall>x \<in> set (in_hand (sn_pc s)). sr_id x = r_id r \<longrightarrow> x = sync_record_of cv r) \<and>
     (\<forall>records rep. sn_pc s = Reported records rep \<longrightarrow>
        report_delivers records rep \<subseteq> sn_delivered s \<and>
        (\<forall>i \<in> set (accepted rep). i < length records)) \<and>
     (sync_record_of cv r \<in> sn_delivered s \<or>
      (\<exists>r' \<in> set (db_rows (sn_db s)). payload r' = payload r \<and> r_synced r' = 0))"

lemma statement_known:
  assumes "known_as r db" and "db_step db M db'"
  shows "known_as r db'"
proof -
  have fresh: "only_fresh db db'" by (rule only_fresh_step [OF assms(2)])
  have "payload x = payload r" if x: "x \<in> set (db_rows db')" "r_id x = r_id r" for x
  proof -
    have "payload x \<in> payload ` set (db_rows db)"
      using fresh x assms(1) by (fastforce simp: only_fresh_def known_as_def)
    then obtain x0 where "x0 \<in> set (db_rows db)" "payload x = payload x0" by blast
    with x assms(1) payload_id [of x x0] show ?thesis by (simp add: known_as_def)
  qed
  then show ?thesis
    using assms(1) fresh db_step_inv [OF assms(2)] by (auto simp: known_as_def only_fresh_def)
qed

lemma statement_safe:
  assumes "safe_record cv r s" and "db_step (sn_db s) M db'"
    and "r_id r \<in> M \<Longrightarrow> sync_record_of cv r \<in> sn_delivered s"
  shows "safe_record cv r (s\<lparr>sn_db := db'\<rparr>)"
proof -
  have "sync_record_of cv r \<in> sn_delivered s \<or> (\<exists>r' \<in> set (db_rows db'). payload r' = payload r \<and> r_synced r' = 0)"
  proof (cases "sync_record_of cv r \<in> sn_delivered s")
    case False
    then obtain r' where r': "r' \<in> set (db_rows (sn_db s))" "payload r' = payload r" "r_synced r' = 0"
      using assms(1) by (auto simp: safe_record_def)
    moreover have "r_id r' \<notin> M" using assms(3) False payload_id [OF r'(2)] by auto
    ultimately show ?thesis using db_step_keeps [OF assms(2) r'(1,3)] by auto
  qed simp
  then show ?thesis
    using assms(1) statement_known [OF _ assms(2)] by (simp add: safe_record_def)
qed

lemma same_db_safe:
  "safe_record cv r s \<Longrightarrow> in_hand pc = [] \<Longrightarrow> (\<And>records rep. pc \<noteq> Reported records rep) \<Longrightarrow>
   safe_record cv r (s\<lparr>sn_pc := pc\<rparr>)"
  by (simp add: safe_record_def)

lemma fetched_safe:
  assumes "safe_record cv r s" and "db_seq (sn_db s) < 2 ^ 31" and "de_codec denv = cv"
  shows "safe_record cv r (s\<lparr>sn_pc := Fetched (db_get_unsynced_records denv n (sn_db s))\<rparr>)"
proof -
  have "x = sync_record_of cv r"
    if x: "x \<in> set (db_get_unsynced_records denv n (sn_db s))" "sr_id x = r_id r" for x
  proof -
    obtain r0 where r0: "r0 \<in> set (db_rows (sn_db s))" "x = sync_record_of cv r0"
      using x(1) set_unsynced_query assms(3)
      by (fastforce simp: db_get_unsynced_records_def split: if_splits)
    then have "0 < r_id r0" "r_id r0 < 2 ^ 31"
      using assms(1,2) by (auto simp: safe_record_def known_as_def db_inv_def)
    then have "sr_id x = r_id r0" using r0(2) by (simp add: sync_record_of_def in_i32_def)
    then have "payload r0 = payload r" using x(2) r0(1) assms(1) by (simp add: safe_record_def known_as_def)
    from sync_record_of_payload [OF this] show ?thesis using r0(2) by simp
  qed
  then have "\<forall>x \<in> set (in_hand (Fetched (db_get_unsynced_records denv n (sn_db s)))).
      sr_id x = r_id r \<longrightarrow> x = sync_record_of cv r" by (simp only: in_hand_def sync_pc.case) blast
  with assms(1) show ?thesis unfolding safe_record_def by simp
qed

lemma sent_safe:
  assumes "safe_record cv r s" and "sn_pc s = Fetched records" and "\<forall>i \<in> set (accepted rep). i < length records"
  shows "safe_record cv r (s\<lparr>sn_pc := Reported records rep, sn_agent := ag',
    sn_delivered := sn_delivered s \<union> report_delivers records rep\<rparr>)"
  using assms by (auto simp: safe_record_def in_hand_def)

lemma marked_safe:
  assumes "safe_record cv r s" and "sn_pc s = Reported records rep"
    and "db' = (if accepted rep \<noteq> []
      then snd (db_mark_synced_batch oks (map (\<lambda>i. sr_id (records ! i)) (accepted rep)) (sn_db s)) else sn_db s)"
  shows "safe_record cv r (s\<lparr>sn_db := db'\<rparr>)"
proof (cases "accepted rep = []")
  case False
  let ?ids = "map (\<lambda>i. sr_id (records ! i)) (accepted rep)"
  have "db_step (sn_db s) (set ?ids) db'"
    using False assms(3) db_step.mark_batch [of oks ?ids "sn_db s"] by (metis prod.collapse)
  moreover have "sync_record_of cv r \<in> sn_delivered s" if id: "r_id r \<in> set ?ids"
  proof -
    obtain i where i: "i \<in> set (accepted rep)" "sr_id (records ! i) = r_id r" using id by auto
    then have "records ! i \<in> set records" "records ! i \<in> sn_delivered s"
      using assms(1,2) by (auto simp: safe_record_def report_delivers_def)
    then show ?thesis using i(2) assms(1,2) by (auto simp: safe_record_def in_hand_def)
  qed
  ultimately show ?thesis by (rule statement_safe [OF assms(1)])
qed (use assms in \<open>simp add: safe_record_def\<close>)

lemma step_seq:
  assumes "sync_step env cv s s'" shows "db_seq (sn_db s) \<le> db_seq (sn_db s')"
proof -
  have st: "db_seq db \<le> db_seq (snd (db_insert_activity denv r db))"
    "db_seq db \<le> db_seq (snd (db_mark_synced_batch oks ids db))"
    "db_seq db \<le> db_seq (snd (db_mark_sync_failed denv st i db))"
    "db_seq db \<le> db_seq (snd (db_delete_old_records denv days db))" for denv r oks ids st i days db
    by (metis only_fresh_step only_fresh_def prod.collapse db_step.intros(1,3,4,5))+
  show ?thesis using assms by cases (simp_all add: st)
qed

lemma step_safe:
  assumes "sync_step env cv s s'" and "safe_record cv r s" and "db_seq (sn_db s) < 2 ^ 31"
  shows "safe_record cv r s'"
  using assms(1)
proof cases
  case (fetching denv records)
  then show ?thesis using fetched_safe [OF assms(2,3)] by simp
next
  case (sending records rep ag')
  then show ?thesis
    using sent_safe [OF assms(2)] sync_report_indices [of env cv records "sn_agent s" rep ag'] by simp
next
  case (marking records rep oks)
  from same_db_safe [OF marked_safe [OF assms(2) marking(2) refl]] show ?thesis
    unfolding marking(1) by (simp add: in_hand_def)
next
  case (postponing i rest denv st)
  have "db_step (sn_db s) {} (snd (db_mark_sync_failed denv st i (sn_db s)))"
    by (metis db_step.fail prod.collapse)
  from same_db_safe [OF statement_safe [OF assms(2) this]] postponing show ?thesis by (simp add: in_hand_def)
next
  case settled
  then show ?thesis using same_db_safe [OF assms(2)] by (simp add: in_hand_def)
next
  case (storing denv rc)
  have "db_step (sn_db s) {} (snd (db_insert_activity denv rc (sn_db s)))"
    by (metis db_step.insert prod.collapse)
  from statement_safe [OF assms(2) this] storing show ?thesis by simp
next
  case (pruning denv days)
  have "db_step (sn_db s) {} (snd (db_delete_old_records denv days (sn_db s)))"
    by (metis db_step.delete_old prod.collapse)
  from statement_safe [OF assms(2) this] pruning show ?thesis by simp
next
  case (signing ag)
  then show ?thesis using assms(2) by (simp add: safe_record_def)
qed

lemma steps_safe:
  assumes "sync_steps env cv s s'" and "safe_record cv r s" and "db_seq (sn_db s') < 2 ^ 31"
  shows "safe_record cv r s'"
  using assms
proof (induction rule: rtranclp_induct)
  case (step t u)
  then show ?case using step_safe [of env cv t u r] step_seq [of env cv t u] by simp
qed

section \<open>The cycle is a run\<close>

lemma postpone_run:
  "sn_pc s = Postponing is \<Longrightarrow>
   sync_steps env cv s (s\<lparr>sn_db := fold (\<lambda>i db. snd (db_mark_sync_failed denv st i db)) is (sn_db s), sn_pc := AtRest\<rparr>)"
proof (induction "is" arbitrary: s)
  case Nil
  then show ?case using sync_step.settled [of s env cv] by auto
next
  case (Cons i rest)
  let ?t = "s\<lparr>sn_db := snd (db_mark_sync_failed denv st i (sn_db s)), sn_pc := Postponing rest\<rparr>"
  have "sync_step env cv s ?t" by (rule sync_step.postponing [OF Cons.prems])
  moreover have "sync_steps env cv ?t (?t\<lparr>sn_db := fold (\<lambda>i db. snd (db_mark_sync_failed denv st i db)) rest (sn_db ?t),
      sn_pc := AtRest\<rparr>)" by (rule Cons.IH) simp
  ultimately show ?case by (auto elim: converse_rtranclp_into_rtranclp)
qed

abbreviation sync_at :: "sync_pc \<Rightarrow> 'w agent \<Rightarrow> adb \<Rightarrow> SyncRecord set \<Rightarrow> 'w sync_run" where
  "sync_at pc ag db D \<equiv> \<lparr>sn_pc = pc, sn_agent = ag, sn_db = db, sn_delivered = D\<rparr>"

lemma round_run:
  assumes "de_codec denv = cv" and "records = db_get_unsynced_records denv MAX_RECORDS db"
    and "sync_report env cv records ag = (rep, ag')"
  shows "sync_steps env cv (sync_at AtRest ag db D)
    (sync_at AtRest ag' (sync_settle denv oks st records rep db) (D \<union> report_delivers records rep))"
proof -
  let ?D = "D \<union> report_delivers records rep"
  let ?p = "map (\<lambda>i. sr_id (records ! i)) (rejected rep)"
  let ?d = "if accepted rep \<noteq> []
      then snd (db_mark_synced_batch oks (map (\<lambda>i. sr_id (records ! i)) (accepted rep)) db) else db"
  have 1: "sync_step env cv (sync_at AtRest ag db D) (sync_at (Fetched records) ag db D)"
    using sync_step.fetching [of "sync_at AtRest ag db D" denv cv records env] assms(1,2) by simp
  have 2: "sync_step env cv (sync_at (Fetched records) ag db D) (sync_at (Reported records rep) ag' db ?D)"
    using sync_step.sending [of "sync_at (Fetched records) ag db D" records env cv rep ag'] assms(3) by simp
  have 3: "sync_step env cv (sync_at (Reported records rep) ag' db ?D) (sync_at (Postponing ?p) ag' ?d ?D)"
    using sync_step.marking [of "sync_at (Reported records rep) ag' db ?D" records rep env cv oks]
    by (cases "accepted rep = []") simp_all
  have settle: "fold (\<lambda>i db. snd (db_mark_sync_failed denv st i db)) ?p ?d = sync_settle denv oks st records rep db"
    by (simp add: sync_settle_def fold_map comp_def)
  have 4: "sync_steps env cv (sync_at (Postponing ?p) ag' ?d ?D)
      (sync_at AtRest ag' (sync_settle denv oks st records rep db) ?D)"
    using postpone_run [of "sync_at (Postponing ?p) ag' ?d ?D" ?p env cv denv st] unfolding settle [symmetric]
    by (simp split del: if_split)
  show ?thesis
    by (rule converse_rtranclp_into_rtranclp [OF 1 converse_rtranclp_into_rtranclp [OF 2
          converse_rtranclp_into_rtranclp [OF 3 4]]])
qed

lemma rounds_run:
  assumes "\<forall>k. de_codec (denv k) = cv"
  shows "sync_rounds env denv oks n (ag, db) = (res, ag', db') \<Longrightarrow>
    \<exists>D'. sync_steps env cv (sync_at AtRest ag db D)
      (sync_at AtRest ag' db' D')"
proof (induction n arbitrary: ag db D)
  case (Suc n)
  let ?rs = "db_get_unsynced_records (denv n) MAX_RECORDS db"
  show ?case
  proof (cases "?rs = []")
    case True
    with Suc.prems show ?thesis by auto
  next
    case False
    obtain rep ag1 where rep: "sync_report env cv ?rs ag = (rep, ag1)" by (cases "sync_report env cv ?rs ag")
    let ?db1 = "sync_settle (denv n) (oks n) (ag_settings ag1) ?rs rep db"
    let ?D1 = "D \<union> report_delivers ?rs rep"
    have one: "sync_steps env cv (sync_at AtRest ag db D)
        (sync_at AtRest ag1 ?db1 ?D1)"
      by (rule round_run) (use assms rep in simp_all)
    have "sync_rounds env denv oks (Suc n) (ag, db) =
        (if aborted rep then (- 1, ag1, ?db1)
         else if length ?rs < MAX_RECORDS then (0, ag1, ?db1) else sync_rounds env denv oks n (ag1, ?db1))"
      using False rep assms by (simp add: Let_def)
    then consider "ag' = ag1" "db' = ?db1" | "sync_rounds env denv oks n (ag1, ?db1) = (res, ag', db')"
      using Suc.prems by (auto split: if_splits)
    then show ?thesis
    proof cases
      case 1
      then show ?thesis using one by blast
    next
      case 2
      from Suc.IH [OF this, of ?D1] one show ?thesis by (metis rtranclp_trans)
    qed
  qed
qed auto

lemma sync_settle_seq: "db_seq (sync_settle denv oks st records rep db) = db_seq db"
proof -
  have f: "db_seq (fold (\<lambda>idx db. snd (db_mark_sync_failed denv st (sr_id (records ! idx)) db)) is d) = db_seq d" for "is" d
    by (induction "is" arbitrary: d) (simp_all add: db_mark_sync_failed_def)
  have "db_seq (snd (db_mark_synced_batch oks ids db)) = db_seq db" for ids
    using mark_chunks_seq [of oks 0 ids True db] by (simp add: db_mark_synced_batch_def) (metis prod.collapse)
  then show ?thesis by (simp add: sync_settle_def f)
qed

lemma sync_rounds_seq: "sync_rounds env denv oks n (ag, db) = (res, ag', db') \<Longrightarrow> db_seq db' = db_seq db"
proof (induction n arbitrary: ag db)
  case (Suc n)
  obtain rep ag1 where "sync_report env (de_codec (denv n)) (db_get_unsynced_records (denv n) MAX_RECORDS db) ag = (rep, ag1)"
    by (metis prod.collapse)
  with Suc show ?case by (auto simp: Let_def sync_settle_seq split: if_splits)
qed simp

section \<open>What counts as delivered\<close>

lemma bisect_accepted_sent:
  "i \<in> set (accepted (fst (bisect_loop send maxR pending rep s))) \<Longrightarrow>
   i \<in> set (accepted rep) \<or> (\<exists>lo hi t t'. lo \<le> i \<and> i < hi \<and> send lo hi t = (Accepted, t'))"
proof (induction pending rep s rule: bisect_loop_induct [where send = send and maxR = maxR])
  case (budget r pending rep s)
  then show ?case by (simp add: bisect_loop_stop)
next
  case (accept lo hi pending rep s s')
  have "i \<in> set (accepted rep) \<union> {lo..<hi} \<or> (\<exists>lo hi t t'. lo \<le> i \<and> i < hi \<and> send lo hi t = (Accepted, t'))"
    using accept.IH accept.prems accept.hyps by (simp add: bisect_loop_step Let_def)
  moreover have "\<exists>lo hi t t'. lo \<le> i \<and> i < hi \<and> send lo hi t = (Accepted, t')" if "i \<in> {lo..<hi}"
    using that accept.hyps(2) by (intro exI [of _ lo] exI [of _ hi] exI [of _ s] exI [of _ s']) simp
  ultimately show ?case by blast
qed (simp_all add: bisect_loop_step Let_def)

text \<open>The content of the promise: some request whose body held \<open>x\<close> was answered with success.\<close>

definition server_accepted :: "'w env \<Rightarrow> codec \<Rightarrow> SyncRecord \<Rightarrow> bool" where
  "server_accepted env cv x \<longleftrightarrow>
     (\<exists>batch ag ag' te. x \<in> set batch \<and> network_send_batch env cv batch ag = ((True, te), ag'))"

lemma report_sent:
  assumes "sync_report env cv records ag = (rep, ag')" and "i \<in> set (accepted rep)"
  shows "\<exists>lo hi t t'. lo \<le> i \<and> i < hi \<and> sync_send env cv records lo hi t = (Accepted, t')"
proof -
  let ?p = "if 0 < int (length records) then [(0, nat (int (length records)))] else []"
  have "rep = fst (bisect_loop (sync_send env cv records) kMaxRequestsPerRound ?p empty_report ag)"
    using assms(1) unfolding sync_report_def sendWithBisect_def by (metis fst_conv)
  then show ?thesis
    using bisect_accepted_sent [of i "sync_send env cv records" kMaxRequestsPerRound ?p empty_report ag] assms(2)
    by (simp add: empty_report_def)
qed

lemma report_delivers_accepted:
  assumes "sync_report env cv records ag = (rep, ag')" and "x \<in> report_delivers records rep"
  shows "server_accepted env cv x"
proof -
  obtain i where i: "i \<in> set (accepted rep)" "x = records ! i" using assms(2) by (auto simp: report_delivers_def)
  then obtain lo hi t t' where r: "lo \<le> i" "i < hi" "sync_send env cv records lo hi t = (Accepted, t')"
    using report_sent [OF assms(1)] by blast
  obtain ok te ag2 where nb: "network_send_batch env cv (take (hi - lo) (drop lo records)) t = ((ok, te), ag2)"
    by (metis prod.collapse)
  then have ok: "ok" using r(3) by (auto simp: sync_send_def split: if_splits)
  have "i < length records" using sync_report_indices [OF assms(1)] i(1) by blast
  then have "take (hi - lo) (drop lo records) ! (i - lo) = records ! i"
    "i - lo < length (take (hi - lo) (drop lo records))" using r(1,2) by auto
  then have "x \<in> set (take (hi - lo) (drop lo records))" using i(2) by (metis nth_mem)
  then show ?thesis unfolding server_accepted_def using nb [unfolded eqTrueI [OF ok]] by blast
qed

lemma step_delivered:
  assumes "sync_step env cv s s'" and "\<forall>x \<in> sn_delivered s. server_accepted env cv x"
  shows "\<forall>x \<in> sn_delivered s'. server_accepted env cv x"
  using assms(1) by cases (use assms(2) report_delivers_accepted in auto)

lemma steps_delivered:
  assumes "sync_steps env cv s s'" and "\<forall>x \<in> sn_delivered s. server_accepted env cv x"
  shows "\<forall>x \<in> sn_delivered s'. server_accepted env cv x"
  using assms by (induction rule: rtranclp_induct) (use step_delivered in blast)+

section \<open>Properties\<close>

text \<open>C16: End to end no record is lost: whatever the threads do between the sections of the sync cycle, a
  record stored and not yet synced either is still in the table, unsynced and with the same contents,
  or its contents were delivered in this run; and all that counts as delivered was in a request that
  the server answered with success.\<close>

theorem delivery_no_loss:
  assumes "sync_steps env cv (sync_at AtRest ag db {}) s'" and "db_inv db" and "db_seq (sn_db s') < 2 ^ 31"
    and "r \<in> set (db_rows db)" and "r_synced r = 0"
  shows "((\<exists>r' \<in> set (db_rows (sn_db s')). payload r' = payload r \<and> r_synced r' = 0) \<or>
          sync_record_of cv r \<in> sn_delivered s') \<and>
         (\<forall>x \<in> sn_delivered s'. server_accepted env cv x)"
proof -
  have "r' = r" if "r' \<in> set (db_rows db)" "r_id r' = r_id r" for r'
    using db_inv_inj [OF assms(2)] that assms(4) by (auto dest: inj_onD)
  then have "known_as r db" using assms(2,4) by (auto simp: known_as_def db_inv_def)
  then have "safe_record cv r (sync_at AtRest ag db {})"
    using assms(4,5) by (auto simp: safe_record_def in_hand_def)
  from steps_safe [OF assms(1) this assms(3)] steps_delivered [OF assms(1)] show ?thesis
    by (auto simp: safe_record_def)
qed

lemma delivery_no_loss_witness:
  "server_accepted (plain_env (fixed_net (\<lambda>_. Some (200, [])))) ascii_codec
     (sync_record_of ascii_codec (new_row env0 rec0 1))"
proof -
  let ?e = "plain_env (fixed_net (\<lambda>_. Some (200, [])))"
  let ?r = "db_get_unsynced_records env0 MAX_RECORDS db1"
  have l: "auth_is_logged_in example_agent" by (simp add: auth_is_logged_in_def example_agent_def)
  have d: "card (due_ids (de_now env0) db1) < 100 * 1" by (simp add: env0_def db1_due)
  have dn: "de_now env0 = 1000" "de_codec env0 = ascii_codec" by (simp_all add: env0_def)
  obtain ag' db' where run: "sync_rounds ?e (\<lambda>_. env0) (\<lambda>_ _. True) 1 (example_agent, db1) = (0, ag', db')"
    "pending_ids db' = {}"
    using sync_rounds_drain [OF fixed_net_accepts l db1_ready d] dn by (auto simp: db1_due db1_pending)
  from rounds_run [OF _ run(1), of ascii_codec "{}"] dn(2) obtain D' where
    steps: "sync_steps ?e ascii_codec (sync_at AtRest example_agent db1 {}) (sync_at AtRest ag' db' D')" by auto
  have inv: "db_inv db1" by (rule db_step_inv [OF db0_step db0_inv])
  have un: "\<not> (\<exists>r' \<in> set (db_rows db'). payload r' = payload (new_row env0 rec0 1) \<and> r_synced r' = 0)"
    using run(2) by (auto simp: pending_ids_def)
  have "db_seq db' < 2 ^ 31" using sync_rounds_seq [OF run(1)] by (simp add: db1_rows)
  with delivery_no_loss [OF steps inv, of "new_row env0 rec0 1"] un row1 show ?thesis by (auto simp: db1_rows)
qed



end
