(* ===== verification/Device_Id.thy ===== *)
theory Device_Id
  imports Settings_Store
begin

text \<open>
  The identity of a machine, kept in \<open>device.id\<close> and shared by two programs:
  \<open>src/agent/shared/device.cpp\<close> (the agent) and \<open>src/dashboard/dashconfig.cpp\<close> (the dashboard).
  The random bytes are an argument; \<open>env\<close> gives the configuration directory and the outcomes of the
  file calls.
\<close>

section \<open>The file format both programs read\<close>

definition line_at :: "nat \<Rightarrow> string \<Rightarrow> string" where
  "line_at i text = (let ls = getlines nl text in if i < length ls then ls ! i else [])"

definition valid_device_id :: "string \<Rightarrow> bool" where
  "valid_device_id s \<longleftrightarrow> prefix ''PC-'' s \<and> length s = 11"

definition hexU :: "nat \<Rightarrow> char" where
  "hexU n = (if n < 10 then char_of (48 + n) else char_of (55 + n))"

definition hex2U :: "nat \<Rightarrow> string" where
  "hex2U b = [hexU (b div 16 mod 16), hexU (b mod 16)]"

definition device_text :: "string \<Rightarrow> string \<Rightarrow> string" where
  "device_text did label = did @ nl # label @ [nl]"

section \<open>The agent\<close>

record device_state =
  g_cachedId :: string
  g_cachedLabel :: string
  g_cacheLoaded :: bool
  dv_fs :: fs

record device_env =
  dv_dir :: "string option"
  dv_io :: io_env
  dv_random :: "(nat \<times> nat \<times> nat \<times> nat) option"
  dv_tick :: nat
  dv_pid :: nat

definition deviceFilePath :: "device_env \<Rightarrow> string option" where
  "deviceFilePath env = configFile (dv_dir env) ''device.id''"

definition generateRandomId :: "device_env \<Rightarrow> string" where
  "generateRandomId env =
     (let (r0, r1, r2, r3) =
            (case dv_random env of
               Some r \<Rightarrow> r
             | None \<Rightarrow> (dv_tick env mod 256, dv_tick env div 256 mod 256,
                        dv_pid env mod 256, dv_pid env div 256 mod 256))
      in ''PC-'' @ hex2U r0 @ hex2U r1 @ hex2U r2 @ hex2U r3)"

definition writeDeviceFile :: "device_env \<Rightarrow> string \<Rightarrow> string \<Rightarrow> fs \<Rightarrow> bool \<times> fs" where
  "writeDeviceFile env did label fs =
     writeFileAtomic (dv_io env) (deviceFilePath env) (device_text did label) fs"

definition loadOrCreate :: "device_env \<Rightarrow> device_state \<Rightarrow> device_state" where
  "loadOrCreate env st =
     (if g_cacheLoaded st then st
      else
        (let (did, label) =
               (case deviceFilePath env of
                  None \<Rightarrow> ([], [])
                | Some path \<Rightarrow>
                    (case dv_fs st path of
                       None \<Rightarrow> ([], [])
                     | Some text \<Rightarrow>
                         (let line1 = trimNewline (line_at 0 text); line2 = trimNewline (line_at 1 text)
                          in (if valid_device_id line1 then line1 else [], line2))))
         in if did = []
            then (let did' = generateRandomId env
                  in st\<lparr>g_cachedId := did', g_cachedLabel := label, g_cacheLoaded := True,
                        dv_fs := snd (writeDeviceFile env did' label (dv_fs st))\<rparr>)
            else st\<lparr>g_cachedId := did, g_cachedLabel := label, g_cacheLoaded := True\<rparr>))"

definition get_device_id :: "device_env \<Rightarrow> nat \<Rightarrow> device_state \<Rightarrow> string \<times> device_state" where
  "get_device_id env sz st = (let st' = loadOrCreate env st in (buf_copy sz (g_cachedId st'), st'))"

definition last4 :: "string \<Rightarrow> string" where
  "last4 s = drop (length s - 4) s"

definition device_get_label :: "device_env \<Rightarrow> nat \<Rightarrow> device_state \<Rightarrow> string \<times> device_state" where
  "device_get_label env sz st =
     (let st' = loadOrCreate env st
      in (if g_cachedLabel st' \<noteq> [] then buf_copy sz (g_cachedLabel st')
          else buf_copy sz (''Computer '' @ last4 (g_cachedId st')), st'))"

definition device_set_label :: "device_env \<Rightarrow> string option \<Rightarrow> device_state \<Rightarrow> bool \<times> device_state" where
  "device_set_label env label st =
     (let st1 = loadOrCreate env st;
          st2 = st1\<lparr>g_cachedLabel := (case label of None \<Rightarrow> [] | Some l \<Rightarrow> l)\<rparr>;
          (ok, fs') = writeDeviceFile env (g_cachedId st2) (g_cachedLabel st2) (dv_fs st2)
      in (ok, st2\<lparr>dv_fs := fs'\<rparr>))"

section \<open>The dashboard\<close>

definition dash_trim :: "string \<Rightarrow> string" where
  "dash_trim s = rev (dropWhile (\<lambda>c. c = cr \<or> c = nl \<or> c = spc) (rev s))"

text \<open>The id and label after the call; the result is whether there is an id.\<close>

definition readDeviceFile :: "string option \<Rightarrow> fs \<Rightarrow> (string \<times> string) option" where
  "readDeviceFile path fs =
     (case path of
        None \<Rightarrow> None
      | Some p \<Rightarrow>
          (case fs p of
             None \<Rightarrow> None
           | Some text \<Rightarrow>
               (let line1 = dash_trim (line_at 0 text); line2 = dash_trim (line_at 1 text)
                in if valid_device_id line1 then Some (line1, line2) else None)))"

definition generateDeviceId :: "nat \<times> nat \<times> nat \<times> nat \<Rightarrow> string" where
  "generateDeviceId r =
     (case r of (b0, b1, b2, b3) \<Rightarrow> ''PC-'' @ hex2U b0 @ hex2U b1 @ hex2U b2 @ hex2U b3)"

definition kDefaultPort :: int where "kDefaultPort = 5000"

record dash_config =
  cfg_port :: int
  cfg_deviceId :: string
  cfg_deviceLabel :: string
  cfg_supabaseURL :: string
  cfg_supabaseKey :: string

text \<open>The digits of \<open>JUSTINTIME_PORT\<close>; the C \<open>int\<close> wraps.\<close>

fun port_loop :: "int \<Rightarrow> string \<Rightarrow> int" where
  "port_loop p [] = p"
| "port_loop p (c # cs) =
     (if \<not> is_digit c then kDefaultPort else port_loop (to_i32 (p * 10 + int (code c - 48))) cs)"

definition dash_load ::
  "device_env \<Rightarrow> string option \<Rightarrow> string option \<Rightarrow> (nat \<times> nat \<times> nat \<times> nat) \<Rightarrow> fs \<Rightarrow> dash_config \<times> fs" where
  "dash_load env port_env id_env rnd fs =
     (let port = (case port_env of
                    Some e \<Rightarrow> if e \<noteq> [] then (let p = port_loop 0 e in if 0 < p then p else kDefaultPort)
                              else kDefaultPort
                  | None \<Rightarrow> kDefaultPort);
          cfg = \<lparr>cfg_port = port, cfg_deviceId = [], cfg_deviceLabel = [],
                 cfg_supabaseURL = SUPABASE_URL, cfg_supabaseKey = SUPABASE_ANON_KEY\<rparr>
      in if (case id_env of Some e \<Rightarrow> e \<noteq> [] | None \<Rightarrow> False)
         then (cfg\<lparr>cfg_deviceId := the id_env\<rparr>, fs)
         else (case readDeviceFile (deviceFilePath env) fs of
                 Some (did, label) \<Rightarrow> (cfg\<lparr>cfg_deviceId := did, cfg_deviceLabel := label\<rparr>, fs)
               | None \<Rightarrow>
                   (let did = generateDeviceId rnd
                    in (cfg\<lparr>cfg_deviceId := did\<rparr>,
                        snd (writeFileAtomic (dv_io env) (deviceFilePath env) (did @ [nl, nl]) fs)))))"

definition displayLabel :: "device_env \<Rightarrow> dash_config \<Rightarrow> fs \<Rightarrow> string" where
  "displayLabel env cfg fs =
     (case readDeviceFile (deviceFilePath env) fs of
        Some (did, label) \<Rightarrow>
          if label \<noteq> [] then label
          else if cfg_deviceLabel cfg \<noteq> [] then cfg_deviceLabel cfg
          else ''Computer '' @ last4 (cfg_deviceId cfg)
      | None \<Rightarrow>
          if cfg_deviceLabel cfg \<noteq> [] then cfg_deviceLabel cfg
          else ''Computer '' @ last4 (cfg_deviceId cfg))"

definition setDeviceLabel :: "device_env \<Rightarrow> string \<Rightarrow> string \<Rightarrow> fs \<Rightarrow> bool \<times> fs" where
  "setDeviceLabel env did label fs =
     writeFileAtomic (dv_io env) (deviceFilePath env) (device_text did label) fs"

section \<open>Facts\<close>

lemma length_hex2U [simp]: "length (hex2U b) = 2"
  by (simp add: hex2U_def)

lemma generateRandomId_valid: "valid_device_id (generateRandomId env)"
  by (simp add: valid_device_id_def generateRandomId_def split: prod.splits)

lemma generateDeviceId_valid: "valid_device_id (generateDeviceId r)"
  by (simp add: valid_device_id_def generateDeviceId_def split: prod.splits)

lemma hexU_code: "n < 16 \<Longrightarrow> 48 \<le> code (hexU n) \<and> code (hexU n) \<le> 70"
  by (simp add: hexU_def code_def)

definition id_chars :: "string \<Rightarrow> bool" where
  "id_chars s \<longleftrightarrow> list_all (\<lambda>c. 33 \<le> code c) s"

lemma hex2U_chars: "id_chars (hex2U b)"
  using hexU_code [of "b div 16 mod 16"] hexU_code [of "b mod 16"]
  by (simp add: id_chars_def hex2U_def)

lemma id_chars_append [simp]: "id_chars (a @ b) \<longleftrightarrow> id_chars a \<and> id_chars b"
  by (simp add: id_chars_def)

lemma generateRandomId_chars: "id_chars (generateRandomId env)"
  using hex2U_chars by (simp add: generateRandomId_def split: prod.splits) (simp add: id_chars_def code_def)

lemma id_chars_facts:
  assumes "id_chars s"
  shows "nl \<notin> set s" "nul_free s" "s \<noteq> [] \<Longrightarrow> last s \<noteq> cr \<and> last s \<noteq> nl \<and> last s \<noteq> spc"
proof -
  have *: "33 \<le> code c" if "c \<in> set s" for c using assms that by (auto simp: id_chars_def list_all_iff)
  show "nl \<notin> set s" using * [of nl] by (auto simp: code_def)
  show "nul_free s" using * [of nul] by (auto simp: code_def nul_free_def)
  assume "s \<noteq> []"
  then have "33 \<le> code (last s)" by (intro *) simp
  then show "last s \<noteq> cr \<and> last s \<noteq> nl \<and> last s \<noteq> spc" by (auto simp: code_def)
qed

lemma device_text_lines:
  assumes "nl \<notin> set did" and "nl \<notin> set label"
  shows "line_at 0 (device_text did label) = did" "line_at 1 (device_text did label) = label"
  using assms getlines_line [of nl did "label @ [nl]"] getlines_line [of nl label "[]"]
  by (simp_all add: line_at_def device_text_def)

lemma trimNewline_Nil [simp]: "trimNewline [] = []" "dash_trim [] = []"
  by (simp_all add: trimNewline_def dash_trim_def)

lemma dash_trim_id: "s = [] \<or> (last s \<noteq> cr \<and> last s \<noteq> nl \<and> last s \<noteq> spc) \<Longrightarrow> dash_trim s = s"
  by (cases s rule: rev_cases) (auto simp: dash_trim_def)

definition label_ok :: "string \<Rightarrow> bool" where
  "label_ok l \<longleftrightarrow> nl \<notin> set l \<and> (l \<noteq> [] \<longrightarrow> last l \<noteq> cr)"

definition dash_label_ok :: "string \<Rightarrow> bool" where
  "dash_label_ok l \<longleftrightarrow> label_ok l \<and> (l \<noteq> [] \<longrightarrow> last l \<noteq> spc)"

definition device_ok :: "string \<Rightarrow> bool" where
  "device_ok did \<longleftrightarrow> valid_device_id did \<and> id_chars did"

lemma device_ok_nonempty: "device_ok did \<Longrightarrow> did \<noteq> []"
  by (auto simp: device_ok_def valid_device_id_def)

lemma agent_reads_text:
  assumes "device_ok did" and "label_ok label"
  shows "trimNewline (line_at 0 (device_text did label)) = did \<and>
         trimNewline (line_at 1 (device_text did label)) = label"
  using assms id_chars_facts [of did] device_text_lines [of did label] device_ok_nonempty [of did]
  by (auto simp: device_ok_def label_ok_def intro!: trimNewline_id dest: last_in_set)

lemma dash_reads_text:
  assumes "device_ok did" and "dash_label_ok label"
  shows "dash_trim (line_at 0 (device_text did label)) = did \<and>
         dash_trim (line_at 1 (device_text did label)) = label"
  using assms id_chars_facts [of did] device_text_lines [of did label] device_ok_nonempty [of did]
  by (auto simp: device_ok_def dash_label_ok_def label_ok_def intro!: dash_trim_id dest: last_in_set)

text \<open>The file is one stored value for each program's reader.\<close>

interpretation agent_device: line_store
  "\<lambda>(did, label). device_ok did \<and> label_ok label" "\<lambda>(did, label). device_text did label"
  "\<lambda>t. (trimNewline (line_at 0 t), trimNewline (line_at 1 t))" "\<lambda>x. x"
  by unfold_locales (use agent_reads_text in auto)

interpretation dash_device: line_store
  "\<lambda>(did, label). device_ok did \<and> dash_label_ok label" "\<lambda>(did, label). device_text did label"
  "\<lambda>t. (dash_trim (line_at 0 t), dash_trim (line_at 1 t))" "\<lambda>x. x"
  by unfold_locales (use dash_reads_text in auto)

lemma loadOrCreate_loaded [simp]: "g_cacheLoaded (loadOrCreate env st)"
  by (simp add: loadOrCreate_def Let_def split: prod.splits)

lemma loadOrCreate_idem [simp]: "loadOrCreate env' (loadOrCreate env st) = loadOrCreate env st"
  using loadOrCreate_loaded [of env st] by (simp add: loadOrCreate_def [of env'])

lemma loadOrCreate_valid:
  "\<not> g_cacheLoaded st \<Longrightarrow> valid_device_id (g_cachedId (loadOrCreate env st))"
  using generateRandomId_valid [of env]
  by (auto simp: loadOrCreate_def Let_def split: prod.splits option.splits if_splits)

lemma loadOrCreate_from_text:
  assumes "deviceFilePath env = Some path" and "dv_fs st path = Some (device_text did label)"
    and "device_ok did" and "label_ok label" and "\<not> g_cacheLoaded st"
  shows "loadOrCreate env st = st\<lparr>g_cachedId := did, g_cachedLabel := label, g_cacheLoaded := True\<rparr>"
  using assms agent_reads_text [OF assms(3,4)] device_ok_nonempty [OF assms(3)]
  by (simp add: loadOrCreate_def device_ok_def)

text \<open>The device id is stable: the id the first run generates and writes is the id every later run
  of the agent reads, and the one the dashboard uses, with no write of its own.\<close>

theorem device_id_stable:
  assumes "deviceFilePath env = Some path" and "dv_io env = io_good" and "dv_fs st path = None"
    and "\<not> g_cacheLoaded st" and "\<not> g_cacheLoaded st2"
    and "dv_fs st2 = dv_fs (loadOrCreate env st)"
    and "deviceFilePath env2 = Some path"
  shows "g_cachedId (loadOrCreate env2 st2) = g_cachedId (loadOrCreate env st) \<and>
         dv_fs (loadOrCreate env2 st2) = dv_fs st2 \<and>
         cfg_deviceId (fst (dash_load env2 port None rnd (dv_fs st2))) = g_cachedId (loadOrCreate env st) \<and>
         snd (dash_load env2 port None rnd (dv_fs st2)) = dv_fs st2"
proof -
  let ?did = "generateRandomId env"
  have ok: "device_ok ?did" by (simp add: device_ok_def generateRandomId_valid generateRandomId_chars)
  have l: "loadOrCreate env st = st\<lparr>g_cachedId := ?did, g_cachedLabel := [], g_cacheLoaded := True,
      dv_fs := (dv_fs st)(path \<mapsto> device_text ?did [], tmp_path path := None)\<rparr>"
    using assms(1-4) by (simp add: loadOrCreate_def writeDeviceFile_def Let_def)
  then have t: "dv_fs st2 path = Some (device_text ?did [])" using assms(6) by simp
  have a: "loadOrCreate env2 st2 = st2\<lparr>g_cachedId := ?did, g_cachedLabel := [], g_cacheLoaded := True\<rparr>"
    by (rule loadOrCreate_from_text [OF assms(7) t ok _ assms(5)]) (simp add: label_ok_def)
  have "readDeviceFile (deviceFilePath env2) (dv_fs st2) = Some (?did, [])"
    using dash_reads_text [OF ok, of "[]"] ok t assms(7)
    by (simp add: readDeviceFile_def dash_label_ok_def label_ok_def device_ok_def)
  then show ?thesis using a l by (simp add: dash_load_def Let_def)
qed

definition device_env0 :: "nat \<Rightarrow> device_env" where
  "device_env0 n = \<lparr>dv_dir = Some ''C'', dv_io = io_good, dv_random = Some (n, 1, 2, 3), dv_tick = 0, dv_pid = 0\<rparr>"

definition device_state0 :: device_state where
  "device_state0 = \<lparr>g_cachedId = [], g_cachedLabel = [], g_cacheLoaded = False, dv_fs = Map.empty\<rparr>"

lemma device_id_stable_witness:
  "g_cachedId (loadOrCreate (device_env0 9)
     (device_state0\<lparr>dv_fs := dv_fs (loadOrCreate (device_env0 171) device_state0)\<rparr>)) = ''PC-AB010203''"
proof -
  have "g_cachedId (loadOrCreate (device_env0 9)
     (device_state0\<lparr>dv_fs := dv_fs (loadOrCreate (device_env0 171) device_state0)\<rparr>)) =
     g_cachedId (loadOrCreate (device_env0 171) device_state0)"
    by (rule conjunct1 [OF device_id_stable
          [where path = "''C'' @ bsl # ''device.id''" and port = None and rnd = "(0, 0, 0, 0)"]])
       (simp_all add: device_env0_def device_state0_def deviceFilePath_def configFile_def)
  moreover have "g_cachedId (loadOrCreate (device_env0 171) device_state0) = ''PC-AB010203''"
    by code_simp
  ultimately show ?thesis by simp
qed

end
