(* ===== verification/Json_Rows.thy ===== *)
theory Json_Rows
  imports Json_Util
begin

text \<open>
  Reading rows that a server renders as flat objects: the fields in front of a key do not hide it when
  their keys are identifiers and their texts are plain and differ from it. Shared by the clients that
  parse lists (limits, parent links, machines).
\<close>

definition row_text :: "string set \<Rightarrow> string \<Rightarrow> bool" where
  "row_text keys s \<longleftrightarrow> list_all plain_char s \<and> s \<notin> keys"

definition clear_of :: "string \<Rightarrow> (string \<times> jval) list \<Rightarrow> bool" where
  "clear_of key xs \<longleftrightarrow> list_all (\<lambda>kv. key_ok (fst kv) \<and> \<not> hides key kv) xs"

lemma clear_of_simps [simp]:
  "clear_of key []"
  "clear_of key ((k, JInt i) # xs) \<longleftrightarrow> key_ok k \<and> k \<noteq> key \<and> clear_of key xs"
  "clear_of key ((k, JBool b) # xs) \<longleftrightarrow> key_ok k \<and> k \<noteq> key \<and> clear_of key xs"
  "clear_of key ((k, JNull) # xs) \<longleftrightarrow> key_ok k \<and> k \<noteq> key \<and> clear_of key xs"
  by (auto simp: clear_of_def hides_def)

lemma clear_of_if [simp]:
  "clear_of key ((k, if c then u else v) # xs) \<longleftrightarrow>
   (if c then clear_of key ((k, u) # xs) else clear_of key ((k, v) # xs))"
  by simp

lemma clear_of_str:
  assumes "row_text keys s" and "key \<in> keys"
  shows "clear_of key ((k, JStr s) # xs) \<longleftrightarrow> key_ok k \<and> k \<noteq> key \<and> clear_of key xs"
proof -
  have "quo \<notin> set s" using assms(1) by (auto simp: row_text_def list_all_iff)
  moreover have "jsonEscape s = s" using assms(1) by (simp add: row_text_def jsonEscape_plain)
  ultimately show ?thesis using assms by (auto simp: clear_of_def hides_def row_text_def)
qed

lemma clear_ofD: "clear_of key xs \<Longrightarrow> kv \<in> set xs \<Longrightarrow> key_ok (fst kv) \<and> \<not> hides key kv"
  by (auto simp: clear_of_def list_all_iff)

lemma row_text_printable: "row_text keys s \<Longrightarrow> printable s"
  by (auto simp: row_text_def list_all_iff plain_char_def printable_def)

lemma row_string:
  assumes "clear_of key xs" and "key_ok key" and "row_text keys s" and "length s < n"
  shows "json_extract_string (render_obj (xs @ (key, JStr s) # ys)) key (int n) = Some s"
  using json_extract_string_field [of xs key s "int n" ys] clear_ofD [OF assms(1)] assms(2-4)
  by (simp add: row_text_printable)

lemma row_long:
  assumes "clear_of key xs" and "key_ok key" and "in_i32 i"
  shows "json_extract_long (render_obj (xs @ (key, JInt i) # ys)) key = Some (i, False)"
  using json_extract_long_field [of xs key i ys] clear_ofD [OF assms(1)] assms(2,3) by simp

lemma row_null:
  assumes "clear_of key xs" and "key_ok key"
  shows "json_extract_long (render_obj (xs @ (key, JNull) # ys)) key = Some (0, True)"
  using json_extract_long_null [of xs key ys] clear_ofD [OF assms(1)] assms(2) by simp

lemma row_bool:
  assumes "clear_of key xs" and "key_ok key"
  shows "json_extract_bool (render_obj (xs @ (key, JBool b) # ys)) key = Some b"
  using json_extract_bool_field [of xs key b ys] clear_ofD [OF assms(1)] assms(2) by simp

lemmas row_fields = row_string row_long row_null row_bool

end
