(* ===== verification/App_Limits.thy ===== *)
theory App_Limits
  imports Rest_Client Json_Rows
begin

text \<open>
  \<open>src/agent/shared/applimits.cpp\<close>: the limits a parent sets for the apps of a child account, the
  requests that read and write them, and the cache of this machine's own limits in \<open>limits.cache\<close>.
  The globals behind \<open>g_cacheMutex\<close> are the record \<open>limits_state\<close>; the \<open>AppLimit\<close> buffers are zeroed
  before they are filled, so \<open>memcmp\<close> of two of them is equality of the records.
\<close>

section \<open>Data\<close>

record AppLimit =
  al_id :: int
  al_process_name :: string
  al_daily_limit_sec :: int
  al_blocked :: int

definition MAX_LIMITS :: nat where "MAX_LIMITS = 64"
definition MAX_LIMIT_PROCESS :: nat where "MAX_LIMIT_PROCESS = 260"

record limits_state =
  lm_cache :: "AppLimit list"
  lm_user :: string
  lm_loaded :: bool

definition limits_init :: limits_state where
  "limits_init = \<lparr>lm_cache = [], lm_user = [], lm_loaded = False\<rparr>"

section \<open>The cache file\<close>

definition limit_line :: "AppLimit \<Rightarrow> string" where
  "limit_line l =
     al_process_name l @ tab # show_int (al_daily_limit_sec l) @ tab # show_int (al_blocked l)"

definition limits_text :: "string \<times> AppLimit list \<Rightarrow> string" where
  "limits_text c =
     ''user='' @ fst c @ nl # concat (map (\<lambda>l. limit_line l @ [nl]) (snd c))"

definition cacheFile :: "'w env \<Rightarrow> string option" where
  "cacheFile env = configFile (en_dir env) ''limits.cache''"

definition saveCacheToDisk :: "'w env \<Rightarrow> limits_state \<Rightarrow> fs \<Rightarrow> fs" where
  "saveCacheToDisk env lm fs =
     snd (writeFileAtomic (en_io env) (cacheFile env) (limits_text (lm_user lm, lm_cache lm)) fs)"

definition pop_cr :: "string \<Rightarrow> string" where
  "pop_cr line = (if line \<noteq> [] \<and> last line = cr then butlast line else line)"

text \<open>The body of the \<open>getline\<close> loop, on the user id and the limits read so far.\<close>

definition limits_line :: "string \<Rightarrow> string \<times> AppLimit list \<Rightarrow> string \<times> AppLimit list" where
  "limits_line line0 c =
     (let line = pop_cr line0
      in if prefix ''user='' line then (drop 5 line, snd c)
         else
           (case str_find [tab] line of
              None \<Rightarrow> c
            | Some t1 \<Rightarrow>
                (case str_find [tab] (drop (t1 + 1) line) of
                   None \<Rightarrow> c
                 | Some d \<Rightarrow>
                     (let t2 = t1 + 1 + d
                      in if t1 = 0 \<or> MAX_LIMITS \<le> length (snd c) then c
                         else
                           (fst c, snd c @
                              [\<lparr>al_id = 0,
                                al_process_name = buf_copy MAX_LIMIT_PROCESS (take t1 line),
                                al_daily_limit_sec = c_atoi (take (t2 - t1 - 1) (drop (t1 + 1) line)),
                                al_blocked = (if c_atoi (drop (t2 + 1) line) \<noteq> 0 then 1 else 0)\<rparr>])))))"

definition parse_limits_cache :: "string \<Rightarrow> string \<times> AppLimit list" where
  "parse_limits_cache text = fold limits_line (getlines nl text) ([], [])"

definition loadCacheFromDiskLocked :: "'w env \<Rightarrow> fs \<Rightarrow> limits_state" where
  "loadCacheFromDiskLocked env fs =
     (case Option.bind (cacheFile env) fs of
        None \<Rightarrow> \<lparr>lm_cache = [], lm_user = [], lm_loaded = True\<rparr>
      | Some text \<Rightarrow>
          (let c = parse_limits_cache text in \<lparr>lm_cache = snd c, lm_user = fst c, lm_loaded = True\<rparr>))"

section \<open>Requests\<close>

definition limit_of_obj :: "string \<Rightarrow> AppLimit" where
  "limit_of_obj obj =
     \<lparr>al_id = (case json_extract_long obj ''id'' of Some (v, _) \<Rightarrow> v | None \<Rightarrow> 0),
      al_process_name = extract_or_empty obj ''process_name'' MAX_LIMIT_PROCESS,
      al_daily_limit_sec =
        (case json_extract_long obj ''daily_limit_sec'' of
           Some (v, is_null) \<Rightarrow> (if is_null then -1 else v)
         | None \<Rightarrow> -1),
      al_blocked = (case json_extract_bool obj ''blocked'' of Some True \<Rightarrow> 1 | _ \<Rightarrow> 0)\<rparr>"

definition parseLimitsResponse :: "string \<Rightarrow> nat \<Rightarrow> AppLimit list" where
  "parseLimitsResponse response max_out = map limit_of_obj (json_array_objs 2048 max_out response)"

definition http_ok :: "nat \<Rightarrow> bool" where
  "http_ok st \<longleftrightarrow> 200 \<le> st \<and> st < 300"

definition limits_path :: "string \<Rightarrow> string" where
  "limits_path child_user_id =
     ''/rest/v1/app_limits?select=*&child_user_id=eq.'' @ child_user_id @ ''&order=process_name.asc''"

definition fetchLimits ::
  "'w env \<Rightarrow> string option \<Rightarrow> nat \<Rightarrow> 'w agent \<Rightarrow> AppLimit list option \<times> 'w agent" where
  "fetchLimits env child_user_id max_out ag =
     (case child_user_id of
        None \<Rightarrow> (None, ag)
      | Some child \<Rightarrow>
          if \<not> auth_is_logged_in ag \<or> child = [] then (None, ag)
          else
            (let (res, ag1) = restclient_call env ''GET'' (limits_path child) None None 16384 ag
             in case res of
                  None \<Rightarrow> (None, ag1)
                | Some (response, st) \<Rightarrow>
                    if \<not> http_ok st then (None, ag1)
                    else (Some (parseLimitsResponse (c_str response) max_out), ag1)))"

definition applimits_list_for_child ::
  "'w env \<Rightarrow> string option \<Rightarrow> nat \<Rightarrow> 'w agent \<Rightarrow> AppLimit list \<times> 'w agent" where
  "applimits_list_for_child env child_user_id max_out ag =
     (let (res, ag1) = fetchLimits env child_user_id max_out ag
      in ((case res of None \<Rightarrow> [] | Some ls \<Rightarrow> ls), ag1))"

definition http_error :: "nat \<Rightarrow> string \<Rightarrow> string" where
  "http_error st response = ''Loi tu server (HTTP '' @ show_nat st @ ''): '' @ c_str response"

definition limit_body :: "string \<Rightarrow> string \<Rightarrow> int \<Rightarrow> int \<Rightarrow> string" where
  "limit_body child process_name daily blocked =
     [CHR ''{'', quo] @ ''child_user_id'' @ [quo, CHR '':'', quo] @ child @
     [quo, CHR '','', quo] @ ''process_name'' @ [quo, CHR '':'', quo] @ jsonEscape process_name @
     [quo, CHR '','', quo] @ ''daily_limit_sec'' @ [quo, CHR '':''] @
     (if 0 \<le> daily then show_int daily else ''null'') @
     [CHR '','', quo] @ ''blocked'' @ [quo, CHR '':''] @
     (if blocked \<noteq> 0 then ''true'' else ''false'') @ ''}''"

definition upsert_limits_path :: string where
  "upsert_limits_path = ''/rest/v1/app_limits?on_conflict=child_user_id,process_name''"

definition applimits_set ::
  "'w env \<Rightarrow> string option \<Rightarrow> string option \<Rightarrow> int \<Rightarrow> int \<Rightarrow> nat \<Rightarrow> 'w agent \<Rightarrow>
   (string + unit) \<times> 'w agent" where
  "applimits_set env child_user_id process_name daily blocked err_out_size ag =
     (if \<not> auth_is_logged_in ag then (Inl (buf_copy err_out_size ''Ban can dang nhap truoc.''), ag)
      else
        (case (child_user_id, process_name) of
           (Some child, Some (c # cs)) \<Rightarrow>
             (let (res, ag1) =
                    restclient_call env ''POST'' upsert_limits_path
                      (Some (limit_body child (c # cs) daily blocked))
                      (Some (''Prefer: resolution=merge-duplicates,return=minimal'' @ crlf)) 2048 ag
              in case res of
                   None \<Rightarrow> (Inl (buf_copy err_out_size ''Khong the ket noi toi Supabase.''), ag1)
                 | Some (response, st) \<Rightarrow>
                     if http_ok st then (Inr (), ag1)
                     else (Inl (buf_copy err_out_size (http_error st response)), ag1))
         | _ \<Rightarrow> (Inl (buf_copy err_out_size ''Thieu thong tin process/child.''), ag)))"

definition applimits_delete ::
  "'w env \<Rightarrow> int \<Rightarrow> nat \<Rightarrow> 'w agent \<Rightarrow> (string + unit) \<times> 'w agent" where
  "applimits_delete env limit_id err_out_size ag =
     (if \<not> auth_is_logged_in ag then (Inl (buf_copy err_out_size ''Ban can dang nhap truoc.''), ag)
      else
        (let (res, ag1) =
               restclient_call env ''DELETE'' (''/rest/v1/app_limits?id=eq.'' @ show_int limit_id) None
                 (Some (''Prefer: return=minimal'' @ crlf)) 2048 ag
         in case res of
              None \<Rightarrow> (Inl (buf_copy err_out_size ''Khong the ket noi toi Supabase.''), ag1)
            | Some (response, st) \<Rightarrow>
                if http_ok st then (Inr (), ag1)
                else (Inl (buf_copy err_out_size (http_error st response)), ag1)))"

section \<open>This machine's own limits\<close>

definition applimits_get_my_limits ::
  "'w env \<Rightarrow> nat \<Rightarrow> 'w agent \<Rightarrow> limits_state \<Rightarrow> AppLimit list \<times> limits_state" where
  "applimits_get_my_limits env max_out ag lm =
     (if max_out = 0 \<or> \<not> auth_is_logged_in ag then ([], lm)
      else
        (let session = auth_get_session ag;
             lm1 = (if lm_loaded lm then lm else loadCacheFromDiskLocked env (ag_fs ag))
         in if lm_user lm1 \<noteq> as_user_id session then ([], lm1)
            else (take max_out (lm_cache lm1), lm1)))"

definition applimits_refresh_my_limits ::
  "'w env \<Rightarrow> 'w agent \<Rightarrow> limits_state \<Rightarrow> bool \<times> 'w agent \<times> limits_state" where
  "applimits_refresh_my_limits env ag lm =
     (if \<not> auth_is_logged_in ag then (False, ag, lm)
      else
        (let session = auth_get_session ag;
             (res, ag1) = fetchLimits env (Some (as_user_id session)) MAX_LIMITS ag
         in case res of
              None \<Rightarrow> (False, ag1, lm)
            | Some fetched \<Rightarrow>
                (let changed = (\<not> lm_loaded lm \<or> lm_user lm \<noteq> as_user_id session \<or>
                                length (lm_cache lm) \<noteq> length fetched \<or>
                                (0 < length fetched \<and> lm_cache lm \<noteq> fetched));
                     lm1 = \<lparr>lm_cache = fetched, lm_user = as_user_id session, lm_loaded = True\<rparr>
                 in (True,
                     (if changed then ag1\<lparr>ag_fs := saveCacheToDisk env lm1 (ag_fs ag1)\<rparr> else ag1),
                     lm1))))"

section \<open>Facts\<close>

definition limit_ok :: "AppLimit \<Rightarrow> bool" where
  "limit_ok l \<longleftrightarrow>
     al_process_name l \<noteq> [] \<and> length (al_process_name l) < MAX_LIMIT_PROCESS \<and>
     printable (al_process_name l) \<and> \<not> prefix ''user='' (al_process_name l) \<and>
     in_i32 (al_daily_limit_sec l) \<and> al_blocked l \<in> {0, 1}"

definition limits_ok :: "string \<times> AppLimit list \<Rightarrow> bool" where
  "limits_ok c \<longleftrightarrow> printable (fst c) \<and> list_all limit_ok (snd c) \<and> length (snd c) \<le> MAX_LIMITS"

text \<open>What survives the file: everything but the row id.\<close>

definition forget_ids :: "string \<times> AppLimit list \<Rightarrow> string \<times> AppLimit list" where
  "forget_ids c = (fst c, map (\<lambda>l. l\<lparr>al_id := 0\<rparr>) (snd c))"

lemma printable_not_in: "printable s \<Longrightarrow> code c < 32 \<Longrightarrow> c \<notin> set s"
  by (auto simp: printable_def)

lemma pop_cr_id: "cr \<notin> set s \<Longrightarrow> pop_cr s = s"
  by (auto simp: pop_cr_def dest: last_in_set)

lemma tab_not_in_int [simp]: "tab \<notin> set (show_int i)" "cr \<notin> set (show_int i)" "nl \<notin> set (show_int i)"
  by (simp_all add: show_int_not_in is_digit_def code_def)

lemma limit_line_chars:
  assumes "limit_ok l"
  shows "cr \<notin> set (limit_line l)" "nl \<notin> set (limit_line l)" "tab \<notin> set (al_process_name l)"
proof -
  have "c \<notin> set (al_process_name l)" if "code c < 32" for c
    using assms that printable_not_in unfolding limit_ok_def by blast
  then show "cr \<notin> set (limit_line l)" "nl \<notin> set (limit_line l)" "tab \<notin> set (al_process_name l)"
    by (auto simp: limit_line_def code_def)
qed

lemma not_user_line: "limit_ok l \<Longrightarrow> \<not> prefix ''user='' (limit_line l)"
  using prefix_before_sep [of "''user=''" "al_process_name l" tab]
  by (auto simp: limit_ok_def limit_line_def simp del: prefix_code)

lemma limits_line_limit:
  assumes "limit_ok l" and "length acc < MAX_LIMITS"
  shows "limits_line (limit_line l) (u, acc) = (u, acc @ [l\<lparr>al_id := 0\<rparr>])"
proof -
  note ch = limit_line_chars [OF assms(1)]
  have p: "pop_cr (limit_line l) = limit_line l" by (rule pop_cr_id [OF ch(1)])
  have t1: "str_find [tab] (limit_line l) = Some (length (al_process_name l))"
    using ch(3) by (simp add: limit_line_def str_find_char)
  have t2: "str_find [tab] (drop (length (al_process_name l) + 1) (limit_line l)) =
      Some (length (show_int (al_daily_limit_sec l)))"
    by (simp add: limit_line_def str_find_char)
  have nf: "nul_free (al_process_name l)"
    using assms(1) by (simp add: limit_ok_def printable_nul_free)
  have b: "(if c_atoi (show_int (al_blocked l)) \<noteq> 0 then 1 else 0) = al_blocked l"
    using assms(1) by (auto simp: limit_ok_def c_atoi_show_int in_i32_def)
  have d: "c_atoi (show_int (al_daily_limit_sec l)) = al_daily_limit_sec l"
    using assms(1) by (simp add: limit_ok_def c_atoi_show_int)
  have k: "take (length (al_process_name l)) (limit_line l) = al_process_name l"
    "take (length (show_int (al_daily_limit_sec l))) (drop (Suc (length (al_process_name l))) (limit_line l)) =
       show_int (al_daily_limit_sec l)"
    "drop (Suc (Suc (length (al_process_name l) + length (show_int (al_daily_limit_sec l))))) (limit_line l) =
       show_int (al_blocked l)"
    by (simp_all add: limit_line_def)
  have c: "buf_copy MAX_LIMIT_PROCESS (al_process_name l) = al_process_name l"
    using assms(1) nf by (simp add: limit_ok_def)
  have ne: "al_process_name l \<noteq> []" using assms(1) by (simp add: limit_ok_def)
  show ?thesis
    using not_user_line [OF assms(1)] assms(2) t1 t2 b d ne
    by (simp add: limits_line_def Let_def p k c)
qed

lemma fold_limit_lines:
  assumes "list_all limit_ok ls" and "length acc + length ls \<le> MAX_LIMITS"
  shows "fold limits_line (map limit_line ls) (u, acc) = (u, acc @ map (\<lambda>l. l\<lparr>al_id := 0\<rparr>) ls)"
  using assms by (induction ls arbitrary: acc) (simp_all add: limits_line_limit)

lemma limits_user_line: "printable u \<Longrightarrow> limits_line (''user='' @ u) c = (u, snd c)"
proof -
  assume "printable u"
  then have "pop_cr (''user='' @ u) = ''user='' @ u"
    using printable_not_in [of u cr] by (intro pop_cr_id) (auto simp: code_def)
  then show ?thesis by (simp add: limits_line_def)
qed

lemma parse_limits_text: "limits_ok c \<Longrightarrow> parse_limits_cache (limits_text c) = forget_ids c"
proof -
  assume ok: "limits_ok c"
  obtain u ls where c: "c = (u, ls)" by (cases c)
  have u: "printable u" and ls: "list_all limit_ok ls" "length ls \<le> MAX_LIMITS"
    using ok c by (auto simp: limits_ok_def)
  have "limits_text c = concat (map (\<lambda>l. l @ [nl]) ((''user='' @ u) # map limit_line ls))"
    by (simp add: limits_text_def c comp_def)
  moreover have "nl \<notin> set x" if "x \<in> set ((''user='' @ u) # map limit_line ls)" for x
    using that ls(1) printable_not_in [OF u, of nl] limit_line_chars(2)
    by (auto simp: list_all_iff code_def)
  ultimately have "getlines nl (limits_text c) = (''user='' @ u) # map limit_line ls"
    using getlines_concat by metis
  then show ?thesis
    using fold_limit_lines [of ls "[]" u] ls limits_user_line [OF u]
    by (simp add: parse_limits_cache_def forget_ids_def c)
qed

interpretation limits_file: line_store limits_ok limits_text parse_limits_cache forget_ids
  by unfold_locales (rule parse_limits_text)

lemma restclient_offline:
  assumes "en_net env = fixed_net (\<lambda>_. None)"
  shows "fst (restclient_call env m p b e n ag) = None"
proof -
  have none: "fst (requestOnce (fixed_net (\<lambda>_. None)) rq k st) = None" for rq k st
    by (simp add: fixed_net_request)
  have "fst (httpsRequest (fixed_net (\<lambda>_. None)) rq i k st) = None" for rq i k st
  proof -
    obtain st1 where "requestOnce (fixed_net (\<lambda>_. None)) rq k st = (None, st1)"
      using none by (metis prod.collapse)
    then show ?thesis using none by (simp add: httpsRequest_def)
  qed
  then have "fst (rest_attempt env m p bs ex ag) = None" for bs ex
    by (simp add: rest_attempt_def with_http_def assms case_prod_beta Let_def)
  then obtain ag1 where "rest_attempt env m p (case b of None \<Rightarrow> [] | Some c \<Rightarrow> c)
      (case e of None \<Rightarrow> [] | Some c \<Rightarrow> c) ag = (None, ag1)"
    by (metis prod.collapse)
  then show ?thesis by (simp add: restclient_call_def Let_def)
qed

lemma fetch_offline:
  assumes "en_net env = fixed_net (\<lambda>_. None)"
  obtains ag1 where "fetchLimits env c n ag = (None, ag1)"
proof (cases c)
  case (Some child)
  obtain ag1 where "restclient_call env ''GET'' (limits_path child) None None 16384 ag = (None, ag1)"
    using restclient_offline [OF assms] by (metis prod.collapse)
  then show ?thesis using Some that by (cases "\<not> auth_is_logged_in ag \<or> child = []") (auto simp: fetchLimits_def)
qed (use that in \<open>simp add: fetchLimits_def\<close>)

lemma refresh_offline:
  assumes "en_net env = fixed_net (\<lambda>_. None)"
  shows "\<not> fst (applimits_refresh_my_limits env ag lm)"
proof -
  obtain ag1 where "fetchLimits env (Some (as_user_id (auth_get_session ag))) MAX_LIMITS ag = (None, ag1)"
    by (rule fetch_offline [OF assms])
  then show ?thesis by (simp add: applimits_refresh_my_limits_def)
qed

section \<open>Properties\<close>

text \<open>A refresh either fails and leaves the limits in force alone, or installs exactly the list the
  server sent, bound to the account that asked; the file is rewritten exactly when the state in memory
  changed, and from then on the limits are applied to that account and to no other.\<close>

theorem limits_refresh_contract:
  assumes "applimits_refresh_my_limits env ag lm = (ok, ag', lm')"
  shows "(\<not> ok \<longrightarrow> lm' = lm) \<and>
    (ok \<longrightarrow>
       (let me = as_user_id (ag_session ag); (res, ag1) = fetchLimits env (Some me) MAX_LIMITS ag
        in res = Some (lm_cache lm') \<and>
           ag' = (if lm' = lm then ag1 else ag1\<lparr>ag_fs := saveCacheToDisk env lm' (ag_fs ag1)\<rparr>) \<and>
           (\<forall>ag2 n. 0 < n \<longrightarrow> auth_is_logged_in ag2 \<longrightarrow>
              applimits_get_my_limits env n ag2 lm' =
                (if as_user_id (ag_session ag2) = me then take n (lm_cache lm') else [], lm'))))"
proof (cases "auth_is_logged_in ag")
  case False
  then show ?thesis using assms by (simp add: applimits_refresh_my_limits_def)
next
  case True
  obtain res ag1 where f: "fetchLimits env (Some (as_user_id (ag_session ag))) MAX_LIMITS ag = (res, ag1)"
    by (cases "fetchLimits env (Some (as_user_id (ag_session ag))) MAX_LIMITS ag")
  show ?thesis
  proof (cases res)
    case None
    then show ?thesis
      using assms f True by (simp add: applimits_refresh_my_limits_def auth_get_session_def)
  next
    case (Some ls)
    let ?lm = "\<lparr>lm_cache = ls, lm_user = as_user_id (ag_session ag), lm_loaded = True\<rparr>"
    let ?changed = "\<not> lm_loaded lm \<or> lm_user lm \<noteq> as_user_id (ag_session ag) \<or>
        length (lm_cache lm) \<noteq> length ls \<or> (0 < length ls \<and> lm_cache lm \<noteq> ls)"
    have c: "?changed \<longleftrightarrow> ?lm \<noteq> lm" by (cases lm) auto
    have r: "ok" "lm' = ?lm"
      "ag' = (if ?changed then ag1\<lparr>ag_fs := saveCacheToDisk env ?lm (ag_fs ag1)\<rparr> else ag1)"
      using assms f True Some
      by (simp_all add: applimits_refresh_my_limits_def auth_get_session_def Let_def)
    have a: "ag' = (if lm' = lm then ag1 else ag1\<lparr>ag_fs := saveCacheToDisk env lm' (ag_fs ag1)\<rparr>)"
      unfolding r(3) r(2) c by simp
    have g: "applimits_get_my_limits env n ag2 lm' =
        (if as_user_id (ag_session ag2) = as_user_id (ag_session ag) then take n ls else [], lm')"
      if "0 < n" "auth_is_logged_in ag2" for n and ag2 :: "'a agent"
      using that r(2) by (simp add: applimits_get_my_limits_def auth_get_session_def Let_def)
    show ?thesis using a g f Some r(1,2) by simp
  qed
qed

definition limits_lm :: limits_state where
  "limits_lm = \<lparr>lm_cache = [\<lparr>al_id = 7, al_process_name = ''game.exe'', al_daily_limit_sec = 3600,
     al_blocked = 0\<rparr>], lm_user = ''u'', lm_loaded = True\<rparr>"

lemma limits_refresh_contract_witness:
  "snd (snd (applimits_refresh_my_limits (plain_env (fixed_net (\<lambda>_. None))) example_agent limits_lm)) = limits_lm"
proof -
  let ?r = "applimits_refresh_my_limits (plain_env (fixed_net (\<lambda>_. None))) example_agent limits_lm"
  have "\<not> fst ?r"
    by (rule refresh_offline) (simp add: plain_env_def)
  moreover obtain ok ag' lm' where r: "?r = (ok, ag', lm')" by (cases ?r)
  ultimately show ?thesis using limits_refresh_contract [OF r] by simp
qed

text \<open>C14: Limits outlive the process and the network: after a successful write of the cache, a new
  process with no connection applies the same limits (row ids aside) to the account they belong to,
  and none of them to another account.\<close>

theorem limits_survive_restart:
  assumes "limits_ok (lm_user lm, lm_cache lm)"
    and "writeFileAtomic (en_io env) (cacheFile env) (limits_text (lm_user lm, lm_cache lm)) fs = (True, fs')"
    and "ag_fs ag = fs'" and "auth_is_logged_in ag" and "0 < n"
  shows "fst (applimits_get_my_limits env n ag limits_init) =
         (if as_user_id (ag_session ag) = lm_user lm
          then take n (map (\<lambda>l. l\<lparr>al_id := 0\<rparr>) (lm_cache lm)) else [])"
proof -
  obtain path where p: "cacheFile env = Some path" using assms(2) by (cases "cacheFile env") auto
  have "map_option parse_limits_cache (fs' path) = Some (forget_ids (lm_user lm, lm_cache lm))"
    using limits_file.stored_then_loaded [OF assms(1)] assms(2) p by metis
  then obtain tx where "fs' path = Some tx" "parse_limits_cache tx = forget_ids (lm_user lm, lm_cache lm)"
    by auto
  then show ?thesis
    using p assms(3-5)
    by (auto simp: applimits_get_my_limits_def loadCacheFromDiskLocked_def limits_init_def
        forget_ids_def auth_get_session_def Let_def)
qed

lemma limits_survive_restart_witness:
  "let env = plain_env (fixed_net (\<lambda>_. None)); fs = saveCacheToDisk env limits_lm Map.empty in
   fst (applimits_get_my_limits env 64 (example_agent\<lparr>ag_fs := fs\<rparr>) limits_init) =
   [\<lparr>al_id = 0, al_process_name = ''game.exe'', al_daily_limit_sec = 3600, al_blocked = 0\<rparr>]"
proof -
  let ?e = "plain_env (fixed_net (\<lambda>_. None))"
  let ?fs = "saveCacheToDisk ?e limits_lm Map.empty"
  have ok: "limits_ok (lm_user limits_lm, lm_cache limits_lm)"
    by (simp add: limits_ok_def limits_lm_def limit_ok_def MAX_LIMIT_PROCESS_def MAX_LIMITS_def code_def in_i32_def)
  have w: "writeFileAtomic (en_io ?e) (cacheFile ?e) (limits_text (lm_user limits_lm, lm_cache limits_lm))
      Map.empty = (True, ?fs)"
    by (simp add: saveCacheToDisk_def plain_env_def cacheFile_def configFile_def)
  have l: "auth_is_logged_in (example_agent\<lparr>ag_fs := ?fs\<rparr>)"
    by (simp add: auth_is_logged_in_def example_agent_def)
  from limits_survive_restart [OF ok w _ l, of 64] show ?thesis
    by (simp add: limits_lm_def example_agent_def Let_def)
qed

subsection \<open>Reading the server's list\<close>

text \<open>A row as the server renders it: a negative limit is SQL NULL.\<close>

definition limit_row :: "string \<Rightarrow> AppLimit \<Rightarrow> (string \<times> jval) list" where
  "limit_row child l =
     [(''id'', JInt (al_id l)), (''child_user_id'', JStr child),
      (''process_name'', JStr (al_process_name l)),
      (''daily_limit_sec'', if al_daily_limit_sec l < 0 then JNull else JInt (al_daily_limit_sec l)),
      (''blocked'', JBool (al_blocked l \<noteq> 0))]"

definition limit_keys :: "string set" where
  "limit_keys = {''process_name'', ''daily_limit_sec'', ''blocked''}"

definition limit_row_ok :: "string \<Rightarrow> AppLimit \<Rightarrow> bool" where
  "limit_row_ok child l \<longleftrightarrow>
     row_text limit_keys child \<and> row_text limit_keys (al_process_name l) \<and>
     length (al_process_name l) < MAX_LIMIT_PROCESS \<and>
     in_i32 (al_id l) \<and> in_i32 (al_daily_limit_sec l) \<and> -1 \<le> al_daily_limit_sec l \<and>
     al_blocked l \<in> {0, 1} \<and> length (render_obj (limit_row child l)) < 2048"

lemma limit_keys_ok:
  "key_ok ''id''" "key_ok ''child_user_id''" "key_ok ''process_name''" "key_ok ''daily_limit_sec''"
  "key_ok ''blocked''"
  by (simp_all add: key_ok_def plain_char_def code_def)

lemma limit_row_fields:
  assumes "limit_row_ok child l"
  shows "json_extract_long (render_obj (limit_row child l)) ''id'' = Some (al_id l, False)"
    and "json_extract_string (render_obj (limit_row child l)) ''process_name'' (int MAX_LIMIT_PROCESS) =
           Some (al_process_name l)"
    and "json_extract_long (render_obj (limit_row child l)) ''daily_limit_sec'' =
           Some (if al_daily_limit_sec l < 0 then (0, True) else (al_daily_limit_sec l, False))"
    and "json_extract_bool (render_obj (limit_row child l)) ''blocked'' = Some (al_blocked l \<noteq> 0)"
proof -
  let ?i = "(''id'', JInt (al_id l))"
  let ?c = "(''child_user_id'', JStr child)"
  let ?p = "(''process_name'', JStr (al_process_name l))"
  let ?d = "(''daily_limit_sec'', if al_daily_limit_sec l < 0 then JNull else JInt (al_daily_limit_sec l))"
  let ?b = "(''blocked'', JBool (al_blocked l \<noteq> 0))"
  have tc: "row_text limit_keys child" and tp: "row_text limit_keys (al_process_name l)"
    and len: "length (al_process_name l) < MAX_LIMIT_PROCESS" and ints: "in_i32 (al_id l)" "in_i32 (al_daily_limit_sec l)"
    using assms by (simp_all add: limit_row_ok_def)
  have mem: "''process_name'' \<in> limit_keys" "''daily_limit_sec'' \<in> limit_keys" "''blocked'' \<in> limit_keys"
    by (simp_all add: limit_keys_def)
  note str = clear_of_str [OF tc mem(1)] clear_of_str [OF tc mem(2)] clear_of_str [OF tc mem(3)]
    clear_of_str [OF tp mem(2)] clear_of_str [OF tp mem(3)]
  have c1: "clear_of ''process_name'' [?i, ?c]" by (simp add: str limit_keys_ok)
  have c2: "clear_of ''daily_limit_sec'' [?i, ?c, ?p]" by (simp add: str limit_keys_ok)
  have c3: "clear_of ''blocked'' [?i, ?c, ?p, ?d]" by (simp add: str limit_keys_ok)
  show "json_extract_long (render_obj (limit_row child l)) ''id'' = Some (al_id l, False)"
    using row_long [of "''id''" "[]" "al_id l" "[?c, ?p, ?d, ?b]"] limit_keys_ok ints by (simp add: limit_row_def)
  show "json_extract_string (render_obj (limit_row child l)) ''process_name'' (int MAX_LIMIT_PROCESS) =
      Some (al_process_name l)"
    using row_string [OF c1 limit_keys_ok(3) tp len, of "[?d, ?b]"] by (simp add: limit_row_def)
  show "json_extract_long (render_obj (limit_row child l)) ''daily_limit_sec'' =
      Some (if al_daily_limit_sec l < 0 then (0, True) else (al_daily_limit_sec l, False))"
    using row_long [OF c2 limit_keys_ok(4) ints(2), of "[?b]"] row_null [OF c2 limit_keys_ok(4), of "[?b]"]
    by (simp add: limit_row_def)
  show "json_extract_bool (render_obj (limit_row child l)) ''blocked'' = Some (al_blocked l \<noteq> 0)"
    using row_bool [OF c3 limit_keys_ok(5), of _ "[]"] by (simp add: limit_row_def)
qed

lemma limit_of_row:
  assumes "limit_row_ok child l"
  shows "limit_of_obj (render_obj (limit_row child l)) = l"
proof -
  have "al_blocked l = 0 \<or> al_blocked l = 1" "-1 \<le> al_daily_limit_sec l"
    using assms by (auto simp: limit_row_ok_def)
  then show ?thesis
    by (intro AppLimit.equality)
       (auto simp: limit_of_obj_def limit_row_fields [OF assms] extract_or_empty_def)
qed

lemma limits_list_read:
  assumes "\<forall>l \<in> set ls. limit_row_ok child l"
  shows "parseLimitsResponse (render_array (map (limit_row child) ls)) max_out = take max_out ls"
proof -
  have "json_array_objs 2048 max_out (render_array (map (limit_row child) ls)) =
      take max_out (map render_obj (map (limit_row child) ls))"
    by (rule json_array_objs_render)
       (use assms limit_keys_ok in \<open>auto simp: flat_obj_def limit_row_def limit_row_ok_def\<close>)
  then have "parseLimitsResponse (render_array (map (limit_row child) ls)) max_out =
      take max_out (map (\<lambda>l. limit_of_obj (render_obj (limit_row child l))) ls)"
    by (simp add: parseLimitsResponse_def take_map comp_def)
  also have "map (\<lambda>l. limit_of_obj (render_obj (limit_row child l))) ls = ls"
    using assms by (intro map_idI) (simp add: limit_of_row)
  finally show ?thesis .
qed

text \<open>The limits a parent stored are the limits the child applies: the server's array of rows comes
  back as exactly the listed limits, in order, with NULL read as \<open>no time limit\<close>.\<close>

theorem limits_list_roundtrip:
  assumes "\<forall>l \<in> set ls. limit_row_ok child l"
  shows "parseLimitsResponse (render_array (map (limit_row child) ls)) max_out = take max_out ls"
  by (rule limits_list_read [OF assms])

lemma limits_list_roundtrip_witness:
  "parseLimitsResponse (render_array (map (limit_row ''u'') (lm_cache limits_lm))) 64 = lm_cache limits_lm"
proof -
  have "\<forall>l \<in> set (lm_cache limits_lm). limit_row_ok ''u'' l"
    by (simp add: limits_lm_def limit_row_ok_def row_text_def limit_keys_def MAX_LIMIT_PROCESS_def in_i32_def
        limit_row_def render_obj_def obj_text_def render_field_def esc_char_def show_int_def show_nat.simps
        plain_char_def code_def)
  from limits_list_roundtrip [OF this, of 64] show ?thesis by (simp add: limits_lm_def)
qed

end
