(* ===== verification/Activity_Track.thy ===== *)
theory Activity_Track
  imports Activity_Db App_Limits
begin

text \<open>
  \<open>src/agent/core/activity.cpp\<close>: the tracker that turns foreground-window changes into activity
  records and enforces the app limits. Each section that holds \<open>currentMutex()\<close> is one function on
  \<open>track_state\<close> (\<open>finish_begin\<close>, \<open>finish_end\<close>, \<open>close_end\<close>, \<open>monitor_decide\<close>, \<open>monitor_restart\<close>); the
  functions here run them one after the other, as one thread does. Their interleaving by two threads
  is the subject of \<open>Activity_Race\<close>. The times that \<open>time(NULL)\<close> returns are arguments.
\<close>

section \<open>State\<close>

record ActiveWindow =
  aw_process_name :: wstr
  aw_window_title :: wstr

record track_state =
  g_last_window :: ActiveWindow
  g_current_record :: ActivityRecord
  g_finish_in_progress :: bool
  g_suspended :: bool

record ActivityLimitEvent =
  ev_process_name :: wstr
  ev_reason :: int

definition LIMIT_REASON_BLOCKED :: int where "LIMIT_REASON_BLOCKED = 1"
definition LIMIT_REASON_TIME_UP :: int where "LIMIT_REASON_TIME_UP = 2"
definition MAX_PATH :: nat where "MAX_PATH = 260"

definition no_window :: ActiveWindow where
  "no_window = \<lparr>aw_process_name = [], aw_window_title = []\<rparr>"

definition no_record :: ActivityRecord where
  "no_record = \<lparr>ar_process_name = [], ar_window_title = [], ar_start_time = 0, ar_end_time = 0,
     ar_duration_seconds = 0, ar_synced = 0\<rparr>"

definition track_init :: track_state where
  "track_init = \<lparr>g_last_window = no_window, g_current_record = no_record, g_finish_in_progress = False,
     g_suspended = False\<rparr>"

section \<open>The foreground window\<close>

text \<open>What Windows says of the foreground window: its title and, where the process can be opened and
  queried, the path of its image; whether it can also be opened for termination.\<close>

record foreground =
  fg_title :: wstr
  fg_image :: "wstr option"
  fg_terminate :: bool

definition getProcessBaseName :: "wstr option \<Rightarrow> wstr option" where
  "getProcessBaseName img =
     (case img of
        None \<Rightarrow> None
      | Some full \<Rightarrow>
          (let out = take (MAX_PATH - 1) (rev (takeWhile (\<lambda>c. c \<noteq> 0x5C) (rev full)))
           in if out = [] then None else Some out))"

definition getActiveWindowInfo :: "foreground option \<Rightarrow> ActiveWindow option" where
  "getActiveWindowInfo fg =
     (case fg of
        None \<Rightarrow> None
      | Some w \<Rightarrow>
          map_option (\<lambda>name. \<lparr>aw_process_name = name, aw_window_title = take 511 (fg_title w)\<rparr>)
            (getProcessBaseName (fg_image w)))"

section \<open>Critical sections\<close>

definition startNewRecordLocked :: "int \<Rightarrow> ActiveWindow \<Rightarrow> track_state \<Rightarrow> track_state" where
  "startNewRecordLocked now w tr =
     tr\<lparr>g_current_record := \<lparr>ar_process_name = aw_process_name w, ar_window_title = aw_window_title w,
         ar_start_time = now, ar_end_time = 0, ar_duration_seconds = 0, ar_synced = 0\<rparr>\<rparr>"

definition finish_begin :: "int \<Rightarrow> track_state \<Rightarrow> ActivityRecord option \<times> track_state" where
  "finish_begin now tr =
     (if g_finish_in_progress tr \<or> ar_start_time (g_current_record tr) = 0 then (None, tr)
      else
        (let r = (g_current_record tr)
               \<lparr>ar_end_time := now,
                ar_duration_seconds :=
                  (if ar_start_time (g_current_record tr) < now
                   then to_i32 (now - ar_start_time (g_current_record tr)) else 0)\<rparr>
         in (Some r, tr\<lparr>g_finish_in_progress := True, g_current_record := r\<rparr>)))"

definition finish_save :: "db_env \<Rightarrow> settings_state \<Rightarrow> ActivityRecord \<Rightarrow> adb \<Rightarrow> adb" where
  "finish_save denv st r db =
     (if settings_is_process_excluded (de_codec denv) (Some (ar_process_name r)) st then db
      else if ar_duration_seconds r < min_duration_sec (settings_get st) then db
      else snd (db_insert_activity denv (Some r) db))"

definition finish_end :: "track_state \<Rightarrow> track_state" where
  "finish_end tr = tr\<lparr>g_finish_in_progress := False\<rparr>"

definition finishCurrentRecord ::
  "db_env \<Rightarrow> settings_state \<Rightarrow> int \<Rightarrow> track_state \<times> adb \<Rightarrow> track_state \<times> adb" where
  "finishCurrentRecord denv st now s =
     (case finish_begin now (fst s) of
        (None, _) \<Rightarrow> s
      | (Some r, tr1) \<Rightarrow> (finish_end tr1, finish_save denv st r (snd s)))"

definition has_open_record :: "track_state \<Rightarrow> bool" where
  "has_open_record tr \<longleftrightarrow> aw_process_name (g_last_window tr) \<noteq> []"

definition close_end :: "track_state \<Rightarrow> track_state" where
  "close_end tr = tr\<lparr>g_last_window := no_window, g_current_record := no_record\<rparr>"

definition closeCurrentSession ::
  "db_env \<Rightarrow> settings_state \<Rightarrow> int \<Rightarrow> track_state \<times> adb \<Rightarrow> track_state \<times> adb" where
  "closeCurrentSession denv st now s =
     (if \<not> has_open_record (fst s) then s
      else apfst close_end (finishCurrentRecord denv st now s))"

datatype decision = Ignore | Started | Unchanged | Changed

text \<open>The first locked section of \<open>monitor_activity\<close>.\<close>

definition monitor_decide :: "int \<Rightarrow> ActiveWindow \<Rightarrow> track_state \<Rightarrow> decision \<times> track_state" where
  "monitor_decide now cur tr =
     (if g_suspended tr then (Ignore, tr)
      else if \<not> has_open_record tr
        then (Started, startNewRecordLocked now cur (tr\<lparr>g_last_window := cur\<rparr>))
      else if aw_process_name cur \<noteq> aw_process_name (g_last_window tr) \<or>
              aw_window_title cur \<noteq> aw_window_title (g_last_window tr)
        then (Changed, tr)
      else (Unchanged, tr))"

definition monitor_restart :: "int \<Rightarrow> ActiveWindow \<Rightarrow> track_state \<Rightarrow> track_state" where
  "monitor_restart now cur tr =
     (if g_suspended tr then tr
      else (startNewRecordLocked now cur tr)\<lparr>g_last_window := cur\<rparr>)"

section \<open>Operations\<close>

text \<open>\<open>wcscpy_s\<close>: a text that does not fit ends the process (\<open>None\<close>).\<close>

definition wcscpy_s :: "nat \<Rightarrow> wstr \<Rightarrow> wstr option" where
  "wcscpy_s n w = (if length w < n then Some w else None)"

definition activity_get_current :: "nat \<Rightarrow> nat \<Rightarrow> track_state \<Rightarrow> (wstr \<times> wstr \<times> int) option" where
  "activity_get_current process_size title_size tr =
     (case (wcscpy_s process_size (ar_process_name (g_current_record tr)),
            wcscpy_s title_size (ar_window_title (g_current_record tr))) of
        (Some p, Some w) \<Rightarrow> Some (p, w, ar_start_time (g_current_record tr))
      | _ \<Rightarrow> None)"

text \<open>\<open>t\<close> is the time at which the old record ends, \<open>t'\<close> the one at which a new record starts.\<close>

definition monitor_activity ::
  "db_env \<Rightarrow> settings_state \<Rightarrow> int \<Rightarrow> int \<Rightarrow> foreground option \<Rightarrow> track_state \<times> adb \<Rightarrow> track_state \<times> adb" where
  "monitor_activity denv st t t' fg s =
     (if g_suspended (fst s) then s
      else
        (case getActiveWindowInfo fg of
           None \<Rightarrow> s
         | Some cur \<Rightarrow>
             (case monitor_decide t' cur (fst s) of
                (Changed, tr1) \<Rightarrow> apfst (monitor_restart t' cur) (finishCurrentRecord denv st t (tr1, snd s))
              | (_, tr1) \<Rightarrow> (tr1, snd s))))"

definition activity_suspend ::
  "db_env \<Rightarrow> settings_state \<Rightarrow> int \<Rightarrow> track_state \<times> adb \<Rightarrow> track_state \<times> adb" where
  "activity_suspend denv st now s =
     closeCurrentSession denv st now (apfst (\<lambda>tr. tr\<lparr>g_suspended := True\<rparr>) s)"

definition activity_resume :: "track_state \<times> adb \<Rightarrow> track_state \<times> adb" where
  "activity_resume s = apfst (\<lambda>tr. tr\<lparr>g_suspended := False\<rparr>) s"

section \<open>Limits\<close>

text \<open>\<open>_wcsicmp\<close> in the C locale.\<close>

definition wlower :: "wchar \<Rightarrow> wchar" where
  "wlower c = (if 65 \<le> c \<and> c \<le> 90 then c + 32 else c)"

definition wcsicmp_eq :: "wstr \<Rightarrow> wstr \<Rightarrow> bool" where
  "wcsicmp_eq a b \<longleftrightarrow> map wlower a = map wlower b"

text \<open>The name of the process that is terminated, if one is.\<close>

definition killIfForeground :: "foreground option \<Rightarrow> wstr \<Rightarrow> wstr option" where
  "killIfForeground fg processName =
     (case fg of
        None \<Rightarrow> None
      | Some w \<Rightarrow>
          if \<not> fg_terminate w then None
          else
            (case getProcessBaseName (fg_image w) of
               None \<Rightarrow> None
             | Some name \<Rightarrow> if wcsicmp_eq name processName then Some name else None))"

definition used_today :: "db_env \<Rightarrow> wstr \<Rightarrow> int \<Rightarrow> adb \<Rightarrow> int" where
  "used_today denv currentProcess currentStartTime db =
     (let used = db_get_today_seconds denv (Some currentProcess) db;
          openSessionStart = max currentStartTime (de_day_start denv)
      in if 0 < currentStartTime \<and> openSessionStart < de_now denv
         then to_i32 (used + to_i32 (de_now denv - openSessionStart)) else used)"

definition limit_verdict :: "db_env \<Rightarrow> wstr \<Rightarrow> int \<Rightarrow> adb \<Rightarrow> AppLimit \<Rightarrow> int option" where
  "limit_verdict denv currentProcess currentStartTime db l =
     (if al_blocked l \<noteq> 0 then Some LIMIT_REASON_BLOCKED
      else if 0 \<le> al_daily_limit_sec l \<and>
              al_daily_limit_sec l \<le> used_today denv currentProcess currentStartTime db
        then Some LIMIT_REASON_TIME_UP
      else None)"

definition limit_matches :: "codec \<Rightarrow> wstr \<Rightarrow> AppLimit \<Rightarrow> bool" where
  "limit_matches cv p l \<longleftrightarrow> stricmp_eq (al_process_name l) (c_str (wc_to_mb_buf cv 512 p))"

text \<open>The events reported, the process terminated, the limits cache, and the tracker.\<close>

definition activity_check_limits ::
  "'w env \<Rightarrow> db_env \<Rightarrow> settings_state \<Rightarrow> foreground option \<Rightarrow> nat \<Rightarrow> 'w agent \<Rightarrow> limits_state \<Rightarrow>
   track_state \<times> adb \<Rightarrow>
   ActivityLimitEvent list \<times> wstr option \<times> limits_state \<times> track_state \<times> adb" where
  "activity_check_limits env denv st fg max_events ag lm s =
     (if app_role (settings_get st) \<noteq> APP_ROLE_CHILD \<or> \<not> auth_is_logged_in ag then ([], None, lm, s)
      else
        (let (limits, lm') = applimits_get_my_limits env MAX_LIMITS ag lm;
             currentProcess = ar_process_name (g_current_record (fst s));
             currentStartTime = ar_start_time (g_current_record (fst s))
         in if limits = [] \<or> currentProcess = [] then ([], None, lm', s)
            else
              (case find (limit_matches (de_codec denv) currentProcess) limits of
                 None \<Rightarrow> ([], None, lm', s)
               | Some l \<Rightarrow>
                   (case limit_verdict denv currentProcess currentStartTime (snd s) l of
                      None \<Rightarrow> ([], None, lm', s)
                    | Some reason \<Rightarrow>
                        (let s' = closeCurrentSession denv st (de_now denv) s;
                             killed = killIfForeground fg currentProcess
                         in ((if killed \<noteq> None \<and> 0 < max_events
                              then [\<lparr>ev_process_name = currentProcess, ev_reason = reason\<rparr>] else []),
                             killed, lm', s'))))))"

section \<open>Runs of one thread\<close>

text \<open>
  One call after another under a clock that does not go back. The flag says whether the step is
  \<open>activity_resume\<close>; \<open>closing\<close> is what \<open>activity_check_limits\<close> does to the tracker.
\<close>

inductive track_step :: "bool \<Rightarrow> int \<times> track_state \<times> adb \<Rightarrow> int \<times> track_state \<times> adb \<Rightarrow> bool" where
  monitoring: "now \<le> t \<Longrightarrow> t \<le> t' \<Longrightarrow> track_step False (now, s) (t', monitor_activity denv st t t' fg s)"
| suspending: "now \<le> t \<Longrightarrow> track_step False (now, s) (t, activity_suspend denv st t s)"
| closing: "now \<le> t \<Longrightarrow> track_step False (now, s) (t, closeCurrentSession denv st t s)"
| resuming: "now \<le> t \<Longrightarrow> track_step True (now, s) (t, activity_resume s)"

inductive_cases track_step_resumeE: "track_step True p p'"

abbreviation track_run :: "int \<times> track_state \<times> adb \<Rightarrow> int \<times> track_state \<times> adb \<Rightarrow> bool" where
  "track_run \<equiv> (\<lambda>p p'. \<exists>b. track_step b p p')\<^sup>*\<^sup>*"

text \<open>Rows written since \<open>t0\<close>, behind the rows \<open>pre\<close>: disjoint, in order, with exact durations.\<close>

definition row_ok :: "int \<Rightarrow> int \<Rightarrow> row \<Rightarrow> bool" where
  "row_ok t0 now r \<longleftrightarrow> t0 \<le> r_start r \<and> r_start r \<le> r_end r \<and> r_end r \<le> now \<and>
     r_duration r = to_i32 (r_end r - r_start r)"

definition open_since :: "track_state \<Rightarrow> int" where
  "open_since tr = ar_start_time (g_current_record tr)"

definition track_inv :: "row list \<Rightarrow> int \<Rightarrow> int \<times> track_state \<times> adb \<Rightarrow> bool" where
  "track_inv pre t0 p \<longleftrightarrow>
     (case p of (now, tr, db) \<Rightarrow>
        0 < t0 \<and> t0 \<le> now \<and> \<not> g_finish_in_progress tr \<and>
        (has_open_record tr \<longleftrightarrow> open_since tr \<noteq> 0) \<and>
        (open_since tr \<noteq> 0 \<longrightarrow> t0 \<le> open_since tr \<and> open_since tr \<le> now) \<and>
        (g_suspended tr \<longrightarrow> open_since tr = 0) \<and>
        (\<exists>new. db_rows db = pre @ new \<and> list_all (row_ok t0 now) new \<and>
           (open_since tr \<noteq> 0 \<longrightarrow> list_all (row_ok t0 (open_since tr)) new) \<and>
           sorted_wrt (\<lambda>a b. r_end a \<le> r_start b) new))"

lemma row_ok_mono: "now \<le> now' \<Longrightarrow> list_all (row_ok t0 now) rs \<Longrightarrow> list_all (row_ok t0 now') rs"
  by (auto simp: list_all_iff row_ok_def)

lemma base_name_nonempty: "getActiveWindowInfo fg = Some w \<Longrightarrow> aw_process_name w \<noteq> []"
  by (auto simp: getActiveWindowInfo_def getProcessBaseName_def Let_def split: option.splits if_splits)

lemma finish_save_rows:
  "db_rows (finish_save denv st r db) = db_rows db \<or>
   (\<exists>rid. db_rows (finish_save denv st r db) = db_rows db @ [new_row denv r rid])"
  by (auto simp: finish_save_def db_insert_activity_def)

text \<open>Finishing the open record: the tracker forgets it, the table gains at most its row.\<close>

definition idle_inv :: "row list \<Rightarrow> int \<Rightarrow> int \<times> adb \<Rightarrow> bool" where
  "idle_inv pre t0 p \<longleftrightarrow>
     (case p of (now, db) \<Rightarrow> 0 < t0 \<and> t0 \<le> now \<and>
        (\<exists>new. db_rows db = pre @ new \<and> list_all (row_ok t0 now) new \<and>
           sorted_wrt (\<lambda>a b. r_end a \<le> r_start b) new))"

lemma finish_rows:
  assumes inv: "track_inv pre t0 (now, tr, db)" and t: "now \<le> t"
  shows "idle_inv pre t0 (t, snd (finishCurrentRecord denv st t (tr, db)))"
proof -
  obtain new where n: "db_rows db = pre @ new" "list_all (row_ok t0 now) new"
    "open_since tr \<noteq> 0 \<longrightarrow> list_all (row_ok t0 (open_since tr)) new"
    "sorted_wrt (\<lambda>a b. r_end a \<le> r_start b) new"
    using inv by (auto simp: track_inv_def)
  have t0: "0 < t0" "t0 \<le> t" "\<not> g_finish_in_progress tr" using inv t by (auto simp: track_inv_def)
  show ?thesis
  proof (cases "open_since tr = 0")
    case True
    then have "finishCurrentRecord denv st t (tr, db) = (tr, db)"
      by (simp add: finishCurrentRecord_def finish_begin_def open_since_def)
    then show ?thesis using n t0 row_ok_mono [OF t] by (auto simp: idle_inv_def)
  next
    case False
    have os: "t0 \<le> open_since tr" "open_since tr \<le> t" using inv t False by (auto simp: track_inv_def)
    obtain r tr1 where b: "finish_begin t tr = (Some r, tr1)"
      "ar_start_time r = open_since tr" "ar_end_time r = t"
      "ar_duration_seconds r = to_i32 (t - open_since tr)"
      using False t0(3) os(2) by (auto simp: finish_begin_def open_since_def Let_def to_i32_def)
    have ok: "row_ok t0 t (new_row denv r rid)" for rid
      using b os by (simp add: row_ok_def new_row_def)
    have old: "list_all (row_ok t0 t) new" by (rule row_ok_mono [OF t n(2)])
    have st: "\<forall>x \<in> set new. r_end x \<le> r_start (new_row denv r rid)" for rid
      using n(3) False b by (auto simp: list_all_iff row_ok_def new_row_def)
    have "snd (finishCurrentRecord denv st t (tr, db)) = finish_save denv st r db"
      using b by (simp add: finishCurrentRecord_def)
    moreover have "idle_inv pre t0 (t, finish_save denv st r db)"
      using finish_save_rows [of denv st r db] n old t0 ok st
      by (auto simp: idle_inv_def sorted_wrt_append)
    ultimately show ?thesis by simp
  qed
qed

lemma finish_tracker:
  assumes "\<not> g_finish_in_progress tr"
  shows "g_last_window (fst (finishCurrentRecord denv st t (tr, db))) = g_last_window tr"
    "g_suspended (fst (finishCurrentRecord denv st t (tr, db))) = g_suspended tr"
    "\<not> g_finish_in_progress (fst (finishCurrentRecord denv st t (tr, db)))"
  using assms by (auto simp: finishCurrentRecord_def finish_begin_def finish_end_def Let_def)

lemma idle_track_inv:
  assumes "idle_inv pre t0 (now, db)" and "\<not> g_finish_in_progress tr" and "open_since tr = 0" and "\<not> has_open_record tr"
  shows "track_inv pre t0 (now, tr, db)"
  using assms by (auto simp: idle_inv_def track_inv_def)

lemma start_track_inv:
  assumes "idle_inv pre t0 (now, db)" and "now \<le> t'" and "\<not> g_finish_in_progress tr" and "\<not> g_suspended tr"
    and "aw_process_name cur \<noteq> []"
  shows "track_inv pre t0 (t', (startNewRecordLocked t' cur tr)\<lparr>g_last_window := cur\<rparr>, db)"
proof -
  obtain new where n: "db_rows db = pre @ new" "list_all (row_ok t0 now) new"
    "sorted_wrt (\<lambda>a b. r_end a \<le> r_start b) new" "0 < t0" "t0 \<le> now"
    using assms(1) by (auto simp: idle_inv_def)
  have "list_all (row_ok t0 t') new" by (rule row_ok_mono [OF assms(2) n(2)])
  with n assms show ?thesis
    by (auto simp: track_inv_def startNewRecordLocked_def open_since_def has_open_record_def)
qed

lemma track_inv_idle: "track_inv pre t0 (now, tr, db) \<Longrightarrow> now \<le> t \<Longrightarrow> idle_inv pre t0 (t, db)"
  by (auto simp: track_inv_def idle_inv_def intro: row_ok_mono)

lemma track_inv_later: "track_inv pre t0 (now, tr, db) \<Longrightarrow> now \<le> t \<Longrightarrow> track_inv pre t0 (t, tr, db)"
  by (auto simp: track_inv_def intro: row_ok_mono)

lemma close_track_inv:
  assumes "track_inv pre t0 (now, s)" and "now \<le> t"
  shows "track_inv pre t0 (t, closeCurrentSession denv st t s)"
proof (cases "has_open_record (fst s)")
  case False
  then show ?thesis using track_inv_later assms by (cases s) (simp add: closeCurrentSession_def)
next
  case True
  obtain tr db where s: "s = (tr, db)" by (cases s)
  have nf: "\<not> g_finish_in_progress tr" using assms s by (simp add: track_inv_def)
  let ?f = "finishCurrentRecord denv st t (tr, db)"
  have "closeCurrentSession denv st t s = (close_end (fst ?f), snd ?f)"
    using True s by (cases ?f) (simp add: closeCurrentSession_def)
  moreover have "track_inv pre t0 (t, close_end (fst ?f), snd ?f)"
  proof (rule idle_track_inv)
    show "idle_inv pre t0 (t, snd ?f)" by (rule finish_rows) (use assms s in auto)
  qed (use finish_tracker(3) [OF nf] in
        \<open>simp_all add: close_end_def open_since_def has_open_record_def no_window_def no_record_def\<close>)
  ultimately show ?thesis by simp
qed

text \<open>Closing does not look at the suspension flag, and leaves no open record.\<close>

lemma close_flag:
  "closeCurrentSession denv st t (apfst (\<lambda>tr. tr\<lparr>g_suspended := b\<rparr>) s) =
   apfst (\<lambda>tr. tr\<lparr>g_suspended := b\<rparr>) (closeCurrentSession denv st t s)"
  by (cases s)
     (auto simp: closeCurrentSession_def has_open_record_def finishCurrentRecord_def finish_begin_def
       finish_end_def close_end_def Let_def)

lemma close_no_open:
  assumes "track_inv pre t0 (now, s)"
  shows "open_since (fst (closeCurrentSession denv st t s)) = 0"
    "\<not> has_open_record (fst (closeCurrentSession denv st t s))"
proof -
  have e: "\<not> has_open_record (fst s) \<longrightarrow> open_since (fst s) = 0"
    using assms by (cases s) (auto simp: track_inv_def)
  show "open_since (fst (closeCurrentSession denv st t s)) = 0"
    "\<not> has_open_record (fst (closeCurrentSession denv st t s))"
    using e by (auto simp: closeCurrentSession_def close_end_def open_since_def has_open_record_def
        no_window_def no_record_def)
qed

lemma track_inv_flag:
  assumes "track_inv pre t0 (now, s)" and "b \<longrightarrow> open_since (fst s) = 0"
  shows "track_inv pre t0 (now, apfst (\<lambda>tr. tr\<lparr>g_suspended := b\<rparr>) s)"
  using assms by (cases s) (auto simp: track_inv_def open_since_def has_open_record_def)

lemma suspend_track_inv:
  assumes "track_inv pre t0 (now, s)" and "now \<le> t"
  shows "track_inv pre t0 (t, activity_suspend denv st t s)"
  unfolding activity_suspend_def close_flag
  by (rule track_inv_flag [OF close_track_inv [OF assms]]) (simp add: close_no_open(1) [OF assms(1)])

lemma resume_track_inv:
  assumes "track_inv pre t0 (now, s)" and "now \<le> t"
  shows "track_inv pre t0 (t, activity_resume s)"
proof -
  have "track_inv pre t0 (t, s)" using track_inv_later assms by (cases s) simp
  then show ?thesis unfolding activity_resume_def by (rule track_inv_flag) simp
qed

lemma monitor_track_inv:
  assumes inv: "track_inv pre t0 (now, s)" and t: "now \<le> t" "t \<le> t'"
  shows "track_inv pre t0 (t', monitor_activity denv st t t' fg s)"
proof -
  obtain tr db where s: "s = (tr, db)" by (cases s)
  have tt: "now \<le> t'" using t by simp
  have keep: "track_inv pre t0 (t', tr, db)" using track_inv_later inv s tt by simp
  have nf: "\<not> g_finish_in_progress tr" using inv s by (simp add: track_inv_def)
  show ?thesis
  proof (cases "g_suspended tr \<or> getActiveWindowInfo fg = None")
    case True
    then show ?thesis using keep s by (auto simp: monitor_activity_def)
  next
    case False
    then obtain cur where c: "getActiveWindowInfo fg = Some cur" "\<not> g_suspended tr" by auto
    note ne = base_name_nonempty [OF c(1)]
    show ?thesis
    proof (cases "monitor_decide t' cur tr")
      case (Pair d tr1)
      show ?thesis
      proof (cases d)
        case Ignore
        with Pair c keep s show ?thesis by (auto simp: monitor_activity_def monitor_decide_def split: if_splits)
      next
        case Unchanged
        with Pair c keep s show ?thesis by (auto simp: monitor_activity_def monitor_decide_def split: if_splits)
      next
        case Started
        then have "tr1 = (startNewRecordLocked t' cur tr)\<lparr>g_last_window := cur\<rparr>"
          using Pair by (auto simp: monitor_decide_def startNewRecordLocked_def split: if_splits)
        then show ?thesis
          using start_track_inv [OF track_inv_idle [OF inv [unfolded s] tt] _ nf c(2) ne, of t'] Pair Started c s
          by (simp add: monitor_activity_def)
      next
        case Changed
        then have "tr1 = tr" using Pair by (auto simp: monitor_decide_def split: if_splits)
        let ?f = "finishCurrentRecord denv st t (tr, db)"
        have m: "monitor_activity denv st t t' fg s =
            ((startNewRecordLocked t' cur (fst ?f))\<lparr>g_last_window := cur\<rparr>, snd ?f)"
          using Pair Changed c s \<open>tr1 = tr\<close> finish_tracker(2) [OF nf, of denv st t db]
          by (cases ?f) (simp add: monitor_activity_def monitor_restart_def)
        show ?thesis
          unfolding m
          by (rule start_track_inv)
             (use finish_rows [OF inv [unfolded s] t(1), of denv st] finish_tracker [OF nf] t c ne in auto)
      qed
    qed
  qed
qed

lemma track_step_inv: "track_step b p p' \<Longrightarrow> track_inv pre t0 p \<Longrightarrow> track_inv pre t0 p'"
  by (induction rule: track_step.induct)
     (auto intro: monitor_track_inv suspend_track_inv close_track_inv resume_track_inv)

lemma track_run_inv: "track_run p p' \<Longrightarrow> track_inv pre t0 p \<Longrightarrow> track_inv pre t0 p'"
  by (induction rule: rtranclp_induct) (auto dest: track_step_inv)

text \<open>While the machine is locked the tracker and the table stand still.\<close>

lemma locked_still:
  assumes "track_step False (now, s) (now', s')" and "g_suspended (fst s)" and "\<not> has_open_record (fst s)"
  shows "s' = s \<and> now \<le> now'"
  using assms(1)
proof cases
  case (monitoring t denv st fg)
  then show ?thesis using assms(2) by (simp add: monitor_activity_def)
next
  case (suspending denv st)
  have "apfst (\<lambda>tr. tr\<lparr>g_suspended := True\<rparr>) s = s" using assms(2) by (cases s) simp
  then show ?thesis using suspending assms(3) by (simp add: activity_suspend_def closeCurrentSession_def)
next
  case (closing denv st)
  then show ?thesis using assms(3) by (simp add: closeCurrentSession_def)
qed simp

lemma locked_run:
  assumes "(track_step False)\<^sup>*\<^sup>* (now, s) p'" and "g_suspended (fst s)" and "\<not> has_open_record (fst s)"
  shows "snd p' = s \<and> now \<le> fst p'"
  using assms(1)
proof induction
  case (step p p')
  obtain n' where "p = (n', s)" "now \<le> n'" using step.IH by (cases p) auto
  then show ?case
    using step.hyps(2) locked_still [of n' s "fst p'" "snd p'"] assms(2,3) by (cases p') auto
qed simp

section \<open>Properties\<close>

lemma disjoint_sum:
  assumes "list_all (row_ok t0 now) rs" and "sorted_wrt (\<lambda>a b. r_end a \<le> r_start b) rs" and "t0 \<le> now"
  shows "sum_list (map (\<lambda>r. r_end r - r_start r) rs) \<le> now - t0"
  using assms
proof (induction rs arbitrary: t0)
  case (Cons r rs)
  have r: "t0 \<le> r_start r" "r_start r \<le> r_end r" "r_end r \<le> now" using Cons.prems by (auto simp: row_ok_def)
  have "list_all (row_ok (r_end r) now) rs" using Cons.prems by (auto simp: list_all_iff row_ok_def)
  from Cons.IH [OF this] Cons.prems r show ?case by simp
qed simp


definition fg_a :: "foreground option" where
  "fg_a = Some \<lparr>fg_title = [116], fg_image = Some [67, 0x5C, 97], fg_terminate = True\<rparr>"

definition demo_open :: "track_state \<times> adb" where
  "demo_open = monitor_activity env0 example_state 100 100 fg_a (track_init, db0)"

definition demo_locked :: "track_state \<times> adb" where
  "demo_locked = activity_suspend env0 example_state 160 demo_open"

lemma demo_open_run: "track_run (100, track_init, db0) (100, demo_open)"
  unfolding demo_open_def by (rule r_into_rtranclp) (blast intro: monitoring order.refl)

lemma demo_open_eq:
  "demo_open = (\<lparr>g_last_window = \<lparr>aw_process_name = [97], aw_window_title = [116]\<rparr>,
     g_current_record = \<lparr>ar_process_name = [97], ar_window_title = [116], ar_start_time = 100, ar_end_time = 0,
       ar_duration_seconds = 0, ar_synced = 0\<rparr>, g_finish_in_progress = False, g_suspended = False\<rparr>, db0)"
  by (simp add: demo_open_def monitor_activity_def track_init_def fg_a_def getActiveWindowInfo_def
      getProcessBaseName_def MAX_PATH_def monitor_decide_def has_open_record_def no_window_def
      startNewRecordLocked_def Let_def)

lemma demo_locked_rows:
  "map (\<lambda>r. (r_start r, r_end r, r_duration r)) (db_rows (snd demo_locked)) = [(100, 160, 60)]"
  by (simp add: demo_locked_def demo_open_eq activity_suspend_def closeCurrentSession_def has_open_record_def
      finishCurrentRecord_def finish_begin_def finish_save_def settings_is_process_excluded_def excluded_by_def
      settings_get_def example_state_def setDefaults_def db_insert_activity_def db0_def env0_def new_row_def
      to_i32_def Let_def)


text \<open>The time between a lock and the next resume is never counted: after \<open>activity_suspend\<close> at
  \<open>t1\<close> nothing is recorded until \<open>activity_resume\<close>, however often the monitor runs, and every row of the
  table written by the run then ended by \<open>t1\<close> or starts at or after the resume.\<close>

theorem locked_time_not_recorded:
  assumes "track_run (t0, track_init, db) (now, s)" and "0 < t0" and "now \<le> t1"
    and "(track_step False)\<^sup>*\<^sup>* (t1, activity_suspend denv st t1 s) (t', s')"
    and "track_step True (t', s') (t2, s2)" and "track_run (t2, s2) (t3, tr3, db3)"
  shows "snd s' = snd (activity_suspend denv st t1 s) \<and>
         (\<exists>new. db_rows db3 = db_rows db @ new \<and> (\<forall>r \<in> set new. r_end r \<le> t1 \<or> t2 \<le> r_start r))"
proof -
  let ?s1 = "activity_suspend denv st t1 s"
  have "track_inv (db_rows db) t0 (t0, track_init, db)"
    using assms(2) by (simp add: track_inv_def track_init_def open_since_def has_open_record_def
        no_window_def no_record_def)
  from track_run_inv [OF assms(1) this]
  have i1: "track_inv (db_rows db) t0 (t1, ?s1)" by (rule suspend_track_inv [OF _ assms(3)])
  note cl = close_no_open [OF track_run_inv [OF assms(1) \<open>track_inv (db_rows db) t0 (t0, track_init, db)\<close>], of denv st t1]
  have o1: "g_suspended (fst ?s1)" "\<not> has_open_record (fst ?s1)"
    using cl(2) unfolding activity_suspend_def close_flag by (simp_all add: has_open_record_def)
  have s': "s' = ?s1" "t1 \<le> t'" using locked_run [OF assms(4) o1] by auto
  have r: "t' \<le> t2" "s2 = activity_resume s'" using assms(5) by (auto elim: track_step_resumeE)
  obtain new1 where n1: "db_rows (snd ?s1) = db_rows db @ new1" "list_all (row_ok t0 t1) new1"
    "open_since (fst ?s1) = 0" "\<not> g_finish_in_progress (fst ?s1)" "0 < t0" "t0 \<le> t1"
    using i1 o1 by (cases ?s1) (auto simp: track_inv_def)
  obtain tr1 db1 where e: "?s1 = (tr1, db1)" by (cases ?s1)
  have s2: "s2 = (tr1\<lparr>g_suspended := False\<rparr>, db1)" using r s' e by (simp add: activity_resume_def)
  have "0 < t2" using n1 s' r by simp
  then have "track_inv (db_rows (snd ?s1)) t2 (t2, s2)"
    using n1(3,4) o1 unfolding s2 e by (simp add: track_inv_def open_since_def has_open_record_def)
  from track_run_inv [OF assms(6) this]
  obtain new2 where n2: "db_rows db3 = db_rows (snd ?s1) @ new2" "list_all (row_ok t2 t3) new2"
    by (auto simp: track_inv_def)
  have "\<forall>r \<in> set (new1 @ new2). r_end r \<le> t1 \<or> t2 \<le> r_start r"
    using n1(2) n2(2) by (auto simp: list_all_iff row_ok_def)
  with n1(1) n2(1) s'(1) show ?thesis by auto
qed

lemma locked_time_not_recorded_witness:
  "let s' = snd (170::int, activity_suspend env0 example_state 160 demo_open);
       p = (200, monitor_activity env0 example_state 200 200 fg_a (activity_resume s'))
   in \<exists>new. db_rows (snd (snd p)) = new \<and> length new = 1 \<and> (\<forall>r \<in> set new. r_end r \<le> 160 \<or> 200 \<le> r_start r)"
proof -
  let ?s1 = "activity_suspend env0 example_state 160 demo_open"
  let ?m = "monitor_activity env0 example_state 200 200 fg_a (activity_resume ?s1)"
  have i: "track_inv (db_rows db0) 100 (100, track_init, db0)"
    by (simp add: track_inv_def track_init_def open_since_def has_open_record_def no_window_def no_record_def)
  have st: "(track_step False)\<^sup>*\<^sup>* (160, ?s1) (170, activity_suspend env0 example_state 170 ?s1)"
    by (rule r_into_rtranclp) (rule suspending, simp)
  have su: "activity_suspend env0 example_state 170 ?s1 = ?s1"
    using close_no_open(2) [OF track_run_inv [OF demo_open_run i], of env0 example_state 160]
    unfolding activity_suspend_def close_flag
    by (cases "closeCurrentSession env0 example_state 160 demo_open")
       (simp add: closeCurrentSession_def has_open_record_def)
  have rs: "track_step True (170, ?s1) (200, activity_resume ?s1)" by (rule resuming) simp
  have mo: "track_run (200, activity_resume ?s1) (200, fst ?m, snd ?m)"
    by (rule r_into_rtranclp) (auto intro!: exI [of _ False] monitoring)
  have len: "length (db_rows (snd ?m)) = 1"
  proof -
    have "length (db_rows (snd demo_locked)) = 1"
      using arg_cong [OF demo_locked_rows, of length] by simp
    moreover have "db_rows (snd ?m) = db_rows (snd demo_locked)"
      using close_no_open(2) [OF track_run_inv [OF demo_open_run i], of env0 example_state 160]
      unfolding demo_locked_def activity_suspend_def close_flag activity_resume_def
      by (cases "closeCurrentSession env0 example_state 160 demo_open")
         (auto simp: monitor_activity_def monitor_decide_def has_open_record_def fg_a_def getActiveWindowInfo_def
           getProcessBaseName_def MAX_PATH_def Let_def)
    ultimately show ?thesis by simp
  qed
  from locked_time_not_recorded [OF demo_open_run _ _ st [unfolded su] rs mo] len show ?thesis
    by (simp add: db0_def)
qed


definition block_a :: limits_state where
  "block_a = \<lparr>lm_cache = [\<lparr>al_id = 0, al_process_name = ''A'', al_daily_limit_sec = -1, al_blocked = 1\<rparr>],
     lm_user = ''u'', lm_loaded = True\<rparr>"


text \<open>A session that began before midnight counts towards today's limit only while it stays open:
  when the window title changes, the time since midnight is dropped, because the stored row starts on
  the day before, and the time used falls back to that of the sessions recorded today.\<close>

theorem midnight_session_uncounted:
  assumes "getActiveWindowInfo fg = Some cur" and "has_open_record tr" and "\<not> g_suspended tr"
    and "aw_window_title cur \<noteq> aw_window_title (g_last_window tr)"
    and "aw_process_name cur = ar_process_name (g_current_record tr)"
    and "\<not> g_finish_in_progress tr"
    and "0 < open_since tr" and "open_since tr < de_day_start denv" and "de_day_start denv < de_now denv"
  shows "used_today denv (aw_process_name cur) (open_since tr) db =
           to_i32 (db_get_today_seconds denv (Some (aw_process_name cur)) db +
                   to_i32 (de_now denv - de_day_start denv)) \<and>
         (let s' = monitor_activity denv st (de_now denv) (de_now denv) fg (tr, db)
          in ar_process_name (g_current_record (fst s')) = aw_process_name cur \<and>
             used_today denv (aw_process_name cur) (open_since (fst s')) (snd s') =
               db_get_today_seconds denv (Some (aw_process_name cur)) db)"
proof -
  let ?now = "de_now denv"
  let ?f = "finishCurrentRecord denv st ?now (tr, db)"
  have m: "monitor_activity denv st ?now ?now fg (tr, db) =
      ((startNewRecordLocked ?now cur (fst ?f))\<lparr>g_last_window := cur\<rparr>, snd ?f)"
    using assms(1-4) finish_tracker(2) [OF assms(6), of denv st ?now db]
    by (cases ?f) (simp add: monitor_activity_def monitor_decide_def monitor_restart_def)
  obtain r tr1 where b: "finish_begin ?now tr = (Some r, tr1)" "ar_start_time r = open_since tr"
    using assms(6,7) by (auto simp: finish_begin_def open_since_def Let_def)
  have "today_total (de_day_start denv) q (db_rows (finish_save denv st r db)) =
      today_total (de_day_start denv) q (db_rows db)" for q
    using finish_save_rows [of denv st r db] assms(8) b
    by (auto simp: today_total_def new_row_def)
  moreover have "db_open (finish_save denv st r db) = db_open db"
    by (simp add: finish_save_def db_insert_activity_def)
  ultimately have "db_get_today_seconds denv (Some q) (snd ?f) = db_get_today_seconds denv (Some q) db" for q
    using b by (simp add: finishCurrentRecord_def db_get_today_seconds_def)
  then show ?thesis
    using assms(7-9) unfolding m
    by (simp add: used_today_def startNewRecordLocked_def open_since_def)
qed

definition late_env :: db_env where
  "late_env = env0\<lparr>de_now := 4000, de_day_start := 400\<rparr>"

definition fg_a2 :: "foreground option" where
  "fg_a2 = Some \<lparr>fg_title = [117], fg_image = Some [97], fg_terminate = True\<rparr>"

lemma midnight_session_uncounted_witness:
  "used_today late_env [97] (open_since (fst demo_open)) (snd demo_open) = 3600 \<and>
   (let s' = monitor_activity late_env example_state 4000 4000 fg_a2 demo_open
    in used_today late_env [97] (open_since (fst s')) (snd s') = 0)"
proof -
  have fg: "getActiveWindowInfo fg_a2 = Some \<lparr>aw_process_name = [97], aw_window_title = [117]\<rparr>"
    by (simp add: fg_a2_def getActiveWindowInfo_def getProcessBaseName_def MAX_PATH_def Let_def)
  have e: "fst demo_open = \<lparr>g_last_window = \<lparr>aw_process_name = [97], aw_window_title = [116]\<rparr>,
     g_current_record = \<lparr>ar_process_name = [97], ar_window_title = [116], ar_start_time = 100, ar_end_time = 0,
       ar_duration_seconds = 0, ar_synced = 0\<rparr>, g_finish_in_progress = False, g_suspended = False\<rparr>"
    "snd demo_open = db0" by (simp_all add: demo_open_eq)
  have z: "db_get_today_seconds late_env (Some [97]) db0 = 0"
    by (simp add: db_get_today_seconds_def db0_def today_total_def late_env_def env0_def ascii_codec_def
        wideToUtf8_def to_i32_def)
  show ?thesis
    using midnight_session_uncounted [OF fg, of "fst demo_open" late_env db0 example_state] z
    by (simp add: e demo_open_eq has_open_record_def open_since_def late_env_def env0_def to_i32_def Let_def)
qed

end
