(* ===== verification/Backup_Snap.thy ===== *)
theory Backup_Snap
  imports Activity_Db
begin

text \<open>
  \<open>src/agent/shared/backup.cpp\<close>: the periodic JSON export of the whole table into the folder
  \<open>backups\<close>, of which the newest fourteen files are kept. The directory listing and the outcome of a
  removal are parameters; file names are compared byte by byte.
\<close>

section \<open>State and environment\<close>

definition BACKUP_DIR :: string where "BACKUP_DIR = ''backups''"
definition BACKUP_KEEP_COUNT :: nat where "BACKUP_KEEP_COUNT = 14"

text \<open>The fields of \<open>struct tm\<close> after \<open>localtime_s\<close>, with the two offsets added.\<close>

record local_time =
  lt_year :: int
  lt_month :: int
  lt_day :: int
  lt_hour :: int
  lt_min :: int
  lt_sec :: int

record backup_env =
  bk_db :: db_env
  bk_io :: io_env
  bk_datetime :: "int \<Rightarrow> string"
  bk_dir :: "string option"
  bk_local :: local_time
  bk_list :: "string \<Rightarrow> fs \<Rightarrow> string list"   \<comment> \<open>names in a directory\<close>
  bk_remove :: "string \<Rightarrow> bool"

text \<open>\<open>g_lastBackupChanges\<close> and the disk.\<close>

record backup_state =
  bs_last :: int
  bs_fs :: fs

section \<open>Operations\<close>

definition getBackupDir :: "backup_env \<Rightarrow> string option" where
  "getBackupDir env = configFile (bk_dir env) BACKUP_DIR"

definition in_dir :: "string \<Rightarrow> string \<Rightarrow> string" where
  "in_dir dir name = dir @ bsl # name"

definition backup_name :: "local_time \<Rightarrow> string" where
  "backup_name t =
     ''backup_'' @ pad0 4 (lt_year t) @ pad0 2 (lt_month t) @ pad0 2 (lt_day t) @ ''_'' @
     pad0 2 (lt_hour t) @ pad0 2 (lt_min t) @ pad0 2 (lt_sec t) @ ''.json''"

definition is_backup :: "string \<Rightarrow> bool" where
  "is_backup name \<longleftrightarrow> prefix ''backup_'' name \<and> suffix ''.json'' name"

definition sorted_backups :: "string list \<Rightarrow> string list" where
  "sorted_backups names = sort_key (map code) (filter is_backup names)"

definition remove_file :: "backup_env \<Rightarrow> string \<Rightarrow> string \<Rightarrow> fs \<Rightarrow> fs" where
  "remove_file env dir name fs = (if bk_remove env name then fs(in_dir dir name := None) else fs)"

definition cleanupOldBackups :: "backup_env \<Rightarrow> string \<Rightarrow> fs \<Rightarrow> fs" where
  "cleanupOldBackups env dir fs =
     (let files = sorted_backups (bk_list env dir fs)
      in fold (remove_file env dir) (take (length files - BACKUP_KEEP_COUNT) files) fs)"

definition backup_create_snapshot :: "backup_env \<Rightarrow> adb \<Rightarrow> backup_state \<Rightarrow> bool \<times> backup_state" where
  "backup_create_snapshot env db st =
     (let changes = db_change_counter db
      in if 0 \<le> bs_last st \<and> changes = bs_last st then (True, st)
         else
           (case getBackupDir env of
              None \<Rightarrow> (False, st)
            | Some dir \<Rightarrow>
                (let (ok, fs1) = db_export_json (bk_db env) (bk_io env) (bk_datetime env)
                       (Some (in_dir dir (backup_name (bk_local env)))) db (bs_fs st)
                 in if ok
                    then (True, \<lparr>bs_last = changes, bs_fs = cleanupOldBackups env dir fs1\<rparr>)
                    else (False, st\<lparr>bs_fs := fs1\<rparr>))))"

section \<open>Facts\<close>

lemma in_dir_inj [simp]: "in_dir dir a = in_dir dir b \<longleftrightarrow> a = b"
  by (simp add: in_dir_def)

lemma is_backup_name [simp]: "is_backup (backup_name t)"
proof -
  have p: "prefix ''backup_'' (''backup_'' @ xs)" for xs :: string by (rule prefixI) simp
  have s: "suffix ''.json'' (xs @ ''.json'')" for xs :: string by (rule suffixI) simp
  have "backup_name t = ''backup_'' @ (pad0 4 (lt_year t) @ pad0 2 (lt_month t) @ pad0 2 (lt_day t) @ ''_'' @
     pad0 2 (lt_hour t) @ pad0 2 (lt_min t) @ pad0 2 (lt_sec t) @ ''.json'')" (is "_ = _ @ ?r")
    by (simp only: backup_name_def)
  moreover have "backup_name t = (''backup_'' @ pad0 4 (lt_year t) @ pad0 2 (lt_month t) @ pad0 2 (lt_day t) @ ''_'' @
     pad0 2 (lt_hour t) @ pad0 2 (lt_min t) @ pad0 2 (lt_sec t)) @ ''.json''" (is "_ = ?l @ _")
    by (simp only: backup_name_def append_assoc)
  ultimately show ?thesis unfolding is_backup_def using p s by metis
qed

lemma tmp_not_backup: "\<not> is_backup (n @ ''.tmp'')"
  by (auto simp: is_backup_def suffix_def dest!: arg_cong [where f = rev])

lemma tmp_in_dir: "tmp_path (in_dir dir n) = in_dir dir (n @ ''.tmp'')"
  by (simp add: tmp_path_def in_dir_def)

lemma map_code_inj: "inj_on (map code) A"
  by (rule inj_onI) (simp add: inj_map_eq_map inj_def)

lemma sorted_backups_unique:
  assumes "distinct names" and "distinct xs" and "sorted (map (map code) xs)"
    and "set xs = {n \<in> set names. is_backup n}"
  shows "sorted_backups names = xs"
proof -
  have "mset (filter is_backup names) = mset xs"
    using assms(1,2,4) by (subst set_eq_iff_mset_eq_distinct [symmetric]) auto
  then show ?thesis
    unfolding sorted_backups_def by (rule sort_key_inj_key_eq [OF _ map_code_inj assms(3)])
qed

lemma sorted_backups_props:
  assumes "distinct names"
  shows "distinct (sorted_backups names)" "sorted (map (map code) (sorted_backups names))"
    "set (sorted_backups names) = {n \<in> set names. is_backup n}"
  using assms by (auto simp: sorted_backups_def)

lemma remove_files:
  assumes "\<And>n. n \<in> set ns \<Longrightarrow> bk_remove env n"
  shows "fold (remove_file env dir) ns fs p = (if p \<in> in_dir dir ` set ns then None else fs p)"
  using assms by (induction ns arbitrary: fs) (auto simp: remove_file_def)

lemma export_json_ok:
  assumes "db_export_json env io dt (Some t) db fs = (True, fs')"
  shows "fs' = (fs(t \<mapsto> export_text dt (db_rows db)))(tmp_path t := None)"
  using assms by (auto simp: db_export_json_def Let_def split: if_splits)

lemma export_json_fail:
  assumes "db_export_json env io dt (Some t) db fs = (False, fs')" and "p \<noteq> tmp_path t"
  shows "fs' p = fs p"
  using assms by (auto simp: db_export_json_def delete_tmp_def Let_def split: if_splits)

text \<open>The listing of a directory: its file names, each once.\<close>

definition names_in :: "string \<Rightarrow> fs \<Rightarrow> string set" where
  "names_in dir fs = {n. fs (in_dir dir n) \<noteq> None}"

definition listing_ok :: "backup_env \<Rightarrow> bool" where
  "listing_ok env \<longleftrightarrow>
     (\<forall>dir fs. finite (names_in dir fs) \<longrightarrow>
        distinct (bk_list env dir fs) \<and> set (bk_list env dir fs) = names_in dir fs)"

lemma cleanup_after_export:
  assumes "listing_ok env" and "\<forall>n. bk_remove env n" and "is_backup new" and "finite (names_in dir fs)"
    and "old = sorted_backups (bk_list env dir fs)" and "\<forall>n \<in> set old. map code n < map code new"
    and "fs1 = (fs(in_dir dir new \<mapsto> txt))(tmp_path (in_dir dir new) := None)"
  shows "cleanupOldBackups env dir fs1 p =
         (if p \<in> in_dir dir ` set (take (length old - 13) old) then None else fs1 p)"
proof -
  have f1: "names_in dir fs1 \<subseteq> insert new (names_in dir fs)"
    unfolding assms(7) by (auto simp: names_in_def split: if_splits)
  then have "finite (names_in dir fs1)" using assms(4) by (meson finite_insert finite_subset)
  with assms(1,4) have l: "distinct (bk_list env dir fs)" "set (bk_list env dir fs) = names_in dir fs"
    "distinct (bk_list env dir fs1)" "set (bk_list env dir fs1) = names_in dir fs1"
    by (auto simp: listing_ok_def)
  note o1 = sorted_backups_props [OF l(1), folded assms(5)]
  have n1: "{n \<in> names_in dir fs1. is_backup n} = insert new (set old)"
    unfolding assms(7) using o1(3) assms(3) l(2) tmp_not_backup [of new]
    by (auto simp: tmp_in_dir names_in_def)
  have fresh: "new \<notin> set old" using assms(6) by blast
  have new_old: "sorted_backups (bk_list env dir fs1) = old @ [new]"
  proof (rule sorted_backups_unique [OF l(3)])
    show "sorted (map (map code) (old @ [new]))"
      using o1(2) assms(6) by (auto simp: sorted_append less_imp_le)
    show "set (old @ [new]) = {n \<in> set (bk_list env dir fs1). is_backup n}"
      unfolding l(4) n1 by simp
  qed (use o1(1) fresh in simp)
  have gone: "take (length (old @ [new]) - BACKUP_KEEP_COUNT) (old @ [new]) = take (length old - 13) old"
    by (simp add: BACKUP_KEEP_COUNT_def)
  show ?thesis
    unfolding cleanupOldBackups_def new_old Let_def gone
    by (rule remove_files) (use assms(2) in blast)
qed

lemma update_where_changes:
  "db_changes db \<le> db_changes (update_where P f db) \<and>
   (db_changes (update_where P f db) = db_changes db \<longrightarrow> db_rows (update_where P f db) = db_rows db)"
  by (auto simp: update_where_def filter_empty_conv intro: map_idI)

lemma mark_chunks_changes:
  "mark_chunks ok k ids res db = (res', db') \<Longrightarrow>
   db_changes db \<le> db_changes db' \<and> (db_changes db' = db_changes db \<longrightarrow> db_rows db' = db_rows db)"
proof (induction ok k ids res db rule: mark_chunks.induct)
  case (1 ok k ids res db)
  show ?case
  proof (cases "ids = []")
    case True
    with 1(3) show ?thesis by (simp add: mark_chunks.simps)
  next
    case ne: False
    let ?db1 = "update_where (\<lambda>r. r_id r \<in> set (take kChunk ids)) set_synced db"
    show ?thesis
    proof (cases "ok k")
      case False
      then have "mark_chunks ok (k + 1) (drop kChunk ids) False db = (res', db')"
        using 1(3) ne by (simp add: mark_chunks.simps [of ok k ids] Let_def)
      from 1(2) [OF ne refl refl False this] show ?thesis .
    next
      case True
      then have "mark_chunks ok (k + 1) (drop kChunk ids) res ?db1 = (res', db')"
        using 1(3) ne by (simp add: mark_chunks.simps [of ok k ids] Let_def)
      from 1(1) [OF ne refl refl True this]
        update_where_changes [of db "\<lambda>r. r_id r \<in> set (take kChunk ids)" set_synced]
      show ?thesis by auto
    qed
  qed
qed

text \<open>Every statement that changes a row moves the change counter.\<close>

lemma db_step_changes:
  "db_step db M db' \<Longrightarrow>
   db_changes db \<le> db_changes db' \<and> (db_changes db' = db_changes db \<longrightarrow> db_rows db' = db_rows db)"
proof (induction rule: db_step.induct)
  case (insert env rcd db ok db')
  then show ?case by (auto simp: db_insert_activity_def split: option.splits if_splits)
next
  case (mark env rid db ok db')
  then show ?case using update_where_changes [of db] by (auto simp: db_mark_synced_def split: if_splits)
next
  case (mark_batch oks ids db ok db')
  then show ?case using mark_chunks_changes by (auto simp: db_mark_synced_batch_def split: if_splits)
next
  case (fail env s rid db ok db')
  then show ?case using update_where_changes [of db] by (auto simp: db_mark_sync_failed_def split: if_splits)
next
  case (delete_old env days db ok db')
  then show ?case by (auto simp: db_delete_old_records_def filter_empty_conv filter_id_conv split: if_splits)
qed

section \<open>Properties\<close>

text \<open>C15: A snapshot that succeeds holds the whole table and costs only the oldest backups: if its name
  is the newest, exactly the thirteen newest of the earlier backups stay beside it, unchanged, and no
  file that is not a backup is touched; a snapshot that fails leaves every backup as it was.\<close>

theorem backup_keeps_newest:
  assumes "listing_ok env" and "\<forall>n. bk_remove env n" and "getBackupDir env = Some dir"
    and "\<not> (0 \<le> bs_last st \<and> db_change_counter db = bs_last st)"
    and "backup_create_snapshot env db st = (ok, st')"
    and "new = backup_name (bk_local env)" and "old = sorted_backups (bk_list env dir (bs_fs st))"
    and "\<forall>n \<in> set old. map code n < map code new" and "finite (names_in dir (bs_fs st))"
  shows "if ok
         then bs_fs st' (in_dir dir new) = Some (export_text (bk_datetime env) (db_rows db)) \<and>
              (\<forall>n. is_backup n \<longrightarrow> n \<noteq> new \<longrightarrow>
                 bs_fs st' (in_dir dir n) =
                   (if n \<in> set (drop (length old - 13) old) then bs_fs st (in_dir dir n) else None)) \<and>
              (\<forall>p. p \<noteq> tmp_path (in_dir dir new) \<longrightarrow> p \<notin> in_dir dir ` {n. is_backup n} \<longrightarrow>
                 bs_fs st' p = bs_fs st p)
         else \<forall>p. p \<noteq> tmp_path (in_dir dir new) \<longrightarrow> bs_fs st' p = bs_fs st p"
proof -
  let ?t = "in_dir dir new" and ?fs = "bs_fs st"
  obtain b fs1 where ex: "db_export_json (bk_db env) (bk_io env) (bk_datetime env) (Some ?t) db ?fs = (b, fs1)"
    by (cases "db_export_json (bk_db env) (bk_io env) (bk_datetime env) (Some ?t) db ?fs")
  show ?thesis
  proof (cases b)
    case False
    then have "\<not> ok" "bs_fs st' = fs1"
      using assms(3-6) ex by (auto simp: backup_create_snapshot_def Let_def)
    with False ex show ?thesis using export_json_fail by auto
  next
    case True
    then have ok: "ok" and st': "bs_fs st' = cleanupOldBackups env dir fs1"
      using assms(3-6) ex by (auto simp: backup_create_snapshot_def Let_def)
    let ?txt = "export_text (bk_datetime env) (db_rows db)"
    have fs1: "fs1 = (?fs(?t \<mapsto> ?txt))(tmp_path ?t := None)"
      by (rule export_json_ok) (use ex True in simp)
    have nb: "is_backup new" by (simp add: assms(6))
    have l: "distinct (bk_list env dir ?fs)" "set (bk_list env dir ?fs) = names_in dir ?fs"
      using assms(1,9) by (auto simp: listing_ok_def)
    note o1 = sorted_backups_props [OF l(1), folded assms(7)]
    let ?gone = "take (length old - 13) old" and ?kept = "drop (length old - 13) old"
    have fin: "bs_fs st' p = (if p \<in> in_dir dir ` set ?gone then None else fs1 p)" for p
      unfolding st' by (rule cleanup_after_export [OF assms(1,2) nb assms(9,7,8) fs1])
    have split: "set old = set ?gone \<union> set ?kept" "set ?gone \<inter> set ?kept = {}"
      using o1(1) by (metis append_take_drop_id set_append, metis append_take_drop_id distinct_append)
    have fresh: "new \<notin> set old" using assms(8) by blast
    have new_in: "bs_fs st' ?t = Some ?txt"
      using fin [of ?t] fresh split(1) fs1 by (auto simp: image_iff)
    have olds: "bs_fs st' (in_dir dir n) = (if n \<in> set ?kept then ?fs (in_dir dir n) else None)"
      if "is_backup n" "n \<noteq> new" for n
    proof -
      have f1: "fs1 (in_dir dir n) = ?fs (in_dir dir n)"
        using that tmp_not_backup [of new] unfolding fs1 by (auto simp: tmp_in_dir)
      have none: "n \<notin> set old \<Longrightarrow> ?fs (in_dir dir n) = None"
        using o1(3) l(2) that(1) by (auto simp: names_in_def)
      show ?thesis using fin [of "in_dir dir n"] f1 none split by (auto simp: image_iff)
    qed
    have others: "bs_fs st' p = ?fs p"
      if "p \<noteq> tmp_path ?t" "p \<notin> in_dir dir ` {n. is_backup n}" for p
    proof -
      have "p \<notin> in_dir dir ` set ?gone" using that(2) o1(3) split(1) by auto
      moreover have "p \<noteq> ?t" using that(2) nb by auto
      ultimately show ?thesis using fin [of p] that(1) unfolding fs1 by simp
    qed
    show ?thesis using ok new_in olds others by auto
  qed
qed

definition full_listing :: "string \<Rightarrow> fs \<Rightarrow> string list" where
  "full_listing dir fs = map (map char_of) (sorted_list_of_set (map code ` names_in dir fs))"

lemma full_listing_ok:
  assumes "finite (names_in dir fs)"
  shows "distinct (full_listing dir fs)" "set (full_listing dir fs) = names_in dir fs"
proof -
  have i: "map char_of (map code n) = n" for n :: string by (simp add: code_def comp_def)
  then have "inj_on (map char_of :: nat list \<Rightarrow> string) (map code ` names_in dir fs)"
    by (intro inj_on_inverseI [where g = "map code"]) (auto simp: code_def)
  show "set (full_listing dir fs) = names_in dir fs"
    using assms i by (simp add: full_listing_def image_image comp_def code_def)
  show "distinct (full_listing dir fs)"
    using assms \<open>inj_on _ _\<close> by (simp add: full_listing_def distinct_map)
qed

definition demo_backup :: backup_env where
  "demo_backup = \<lparr>bk_db = env0, bk_io = io_good, bk_datetime = (\<lambda>_. []), bk_dir = Some ''C'',
     bk_local = \<lparr>lt_year = 2026, lt_month = 7, lt_day = 5, lt_hour = 9, lt_min = 30, lt_sec = 0\<rparr>,
     bk_list = full_listing, bk_remove = (\<lambda>_. True)\<rparr>"

definition demo_dir :: string where
  "demo_dir = ''C'' @ bsl # ''backups''"

lemma backup_keeps_newest_witness:
  "bs_fs (snd (backup_create_snapshot demo_backup db1
      \<lparr>bs_last = -1, bs_fs = [in_dir demo_dir ''backup_20250101_000000.json'' \<mapsto> ''x'']\<rparr>))
     (in_dir demo_dir ''backup_20250101_000000.json'') = Some ''x''"
proof -
  let ?o = "''backup_20250101_000000.json''"
  let ?fs = "[in_dir demo_dir ?o \<mapsto> ''x'']" and ?n = "backup_name (bk_local demo_backup)"
  let ?st = "\<lparr>bs_last = -1, bs_fs = ?fs\<rparr>"
  have ni: "names_in demo_dir ?fs = {?o}" by (auto simp: names_in_def split: if_splits)
  have dir: "getBackupDir demo_backup = Some demo_dir"
    by (simp add: getBackupDir_def configFile_def demo_backup_def BACKUP_DIR_def demo_dir_def)
  have lo: "listing_ok demo_backup" by (simp add: listing_ok_def demo_backup_def full_listing_ok)
  have rm: "\<forall>n. bk_remove demo_backup n" by (simp add: demo_backup_def)
  have bl: "bk_list demo_backup = full_listing" by (simp add: demo_backup_def)
  have bo: "is_backup ?o" by code_simp
  have o1: "sorted_backups (bk_list demo_backup demo_dir ?fs) = [?o]"
    unfolding bl by (rule sorted_backups_unique) (use full_listing_ok [of demo_dir ?fs] ni bo in auto)
  have bn: "?n = backup_name \<lparr>lt_year = 2026, lt_month = 7, lt_day = 5, lt_hour = 9, lt_min = 30, lt_sec = 0\<rparr>"
    by (simp add: demo_backup_def)
  have lt: "map code ?o < map code ?n" unfolding bn by code_simp
  then have ne: "?o \<noteq> ?n" by (metis order_less_irrefl)
  obtain ok st' where r: "backup_create_snapshot demo_backup db1 ?st = (ok, st')"
    by (cases "backup_create_snapshot demo_backup db1 ?st")
  have nt: "in_dir demo_dir ?o \<noteq> tmp_path (in_dir demo_dir ?n)"
    using tmp_not_backup [of ?n] bo by (auto simp: tmp_in_dir)
  have pre: "\<not> (0 \<le> bs_last ?st \<and> db_change_counter db1 = bs_last ?st)"
    "[?o] = sorted_backups (bk_list demo_backup demo_dir (bs_fs ?st))"
    "\<forall>n \<in> set [?o]. map code n < map code ?n" "finite (names_in demo_dir (bs_fs ?st))"
    using o1 lt ni by (simp_all del: map_eq_conv list.map)
  note k = backup_keeps_newest [OF lo rm dir pre(1) r refl pre(2-4)]
  have "bs_fs st' (in_dir demo_dir ?o) = Some ''x''"
  proof (cases ok)
    case True
    then have "\<forall>n. is_backup n \<longrightarrow> n \<noteq> ?n \<longrightarrow> bs_fs st' (in_dir demo_dir n) =
        (if n \<in> set (drop (length [?o] - 13) [?o]) then bs_fs ?st (in_dir demo_dir n) else None)"
      using k [unfolded if_P [OF True]] by (elim conjE)
    with bo ne show ?thesis by simp
  next
    case False
    then have "bs_fs st' (in_dir demo_dir ?o) = bs_fs ?st (in_dir demo_dir ?o)"
      using k [unfolded if_not_P [OF False]] nt by blast
    then show ?thesis by simp
  qed
  then show ?thesis using r by simp
qed

text \<open>Skipping a backup when the change counter stands where it stood at the last one loses nothing:
  any sequence of table-writing statements that leaves the counter where it was left the rows as they
  were, and the skipped call changes nothing.\<close>

theorem backup_skip_safe:
  assumes "(\<lambda>d d'. \<exists>M. db_step d M d')\<^sup>*\<^sup>* db db'" and "db_open db" and "db_open db'"
    and "db_change_counter db' = db_change_counter db"
  shows "db_rows db' = db_rows db \<and>
         (bs_last st = db_change_counter db \<longrightarrow> 0 \<le> bs_last st \<longrightarrow>
            backup_create_snapshot env db' st = (True, st))"
proof -
  have "db_changes db \<le> db_changes db' \<and> (db_changes db' = db_changes db \<longrightarrow> db_rows db' = db_rows db)"
    using assms(1)
  proof induction
    case (step d d')
    from step.hyps(2) obtain M where "db_step d M d'" by (rule exE)
    from db_step_changes [OF this] step.IH show ?case by auto
  qed simp
  then show ?thesis
    using assms(2-4) by (auto simp: db_change_counter_def backup_create_snapshot_def)
qed

lemma backup_skip_safe_witness:
  "db_rows (snd (db_mark_synced env0 99 db1)) = db_rows db1"
proof -
  let ?d = "snd (db_mark_synced env0 99 db1)"
  have "(\<lambda>d d'. \<exists>M. db_step d M d')\<^sup>*\<^sup>* db1 ?d"
    by (rule r_into_rtranclp, rule exI, rule db_step.mark [of env0 99 _ "fst (db_mark_synced env0 99 db1)"]) simp
  moreover have "db_open ?d" "db_change_counter ?d = db_change_counter db1"
    by (simp_all add: db_mark_synced_def db_change_counter_def update_where_def db1_rows new_row_def)
  ultimately show ?thesis using backup_skip_safe [of db1 ?d] db1_rows(2) by simp
qed

end
