(* ===== verification/Machines_Hb.thy ===== *)
theory Machines_Hb
  imports App_Limits Device_Id
begin

text \<open>
  \<open>src/agent/shared/machines.cpp\<close>: the heartbeat that keeps this machine's \<open>last_seen\<close> fresh, and the
  list of the account's machines. The device file and the agent's files are one disk. The percentages, doubles that hold whole numbers, are integers here.
\<close>

record MachineHeartbeat =
  mh_device_id :: string
  mh_hostname :: string
  mh_cpu_percent :: int
  mh_ram_percent :: int
  mh_disk_percent :: int
  mh_last_seen :: string

definition heartbeat_body :: "string \<Rightarrow> string \<Rightarrow> string" where
  "heartbeat_body did label =
     buf_copy 512
       ([CHR ''{'', quo] @ ''device_id'' @ [quo, CHR '':'', quo] @ jsonEscape did @
        [quo, CHR '','', quo] @ ''hostname'' @ [quo, CHR '':'', quo] @ jsonEscape label @
        [quo, CHR '','', quo] @ ''cpu_percent'' @ [quo] @ '':0,'' @
        [quo] @ ''ram_percent'' @ [quo] @ '':0,'' @
        [quo] @ ''disk_percent'' @ [quo] @ '':0,'' @
        [quo] @ ''last_seen'' @ [quo, CHR '':'', quo] @ ''now()'' @ [quo, CHR ''}''])"

definition heartbeat_path :: string where
  "heartbeat_path = ''/rest/v1/device_heartbeats?on_conflict=user_id,device_id''"

definition machines_push_heartbeat ::
  "'w env \<Rightarrow> device_env \<Rightarrow> 'w agent \<Rightarrow> device_state \<Rightarrow> bool \<times> 'w agent \<times> device_state" where
  "machines_push_heartbeat env denv ag dv =
     (if \<not> auth_is_logged_in ag then (False, ag, dv)
      else
        (let (did, dv1) = get_device_id denv 32 (dv\<lparr>dv_fs := ag_fs ag\<rparr>);
             (label, dv2) = device_get_label denv 128 dv1;
             (res, ag1) = restclient_call env ''POST'' heartbeat_path (Some (heartbeat_body did label))
               (Some (''Prefer: resolution=merge-duplicates,return=minimal'' @ crlf)) 512
               (ag\<lparr>ag_fs := dv_fs dv2\<rparr>)
         in ((case res of None \<Rightarrow> False | Some (_, st) \<Rightarrow> http_ok st), ag1, dv2\<lparr>dv_fs := ag_fs ag1\<rparr>)))"

definition long_or_zero :: "string \<Rightarrow> string \<Rightarrow> int" where
  "long_or_zero obj key = (case json_extract_long obj key of Some (v, _) \<Rightarrow> v | None \<Rightarrow> 0)"

definition machine_of_obj :: "string \<Rightarrow> MachineHeartbeat" where
  "machine_of_obj obj =
     \<lparr>mh_device_id = extract_or_empty obj ''device_id'' 64, mh_hostname = extract_or_empty obj ''hostname'' 256,
      mh_cpu_percent = long_or_zero obj ''cpu_percent'', mh_ram_percent = long_or_zero obj ''ram_percent'',
      mh_disk_percent = long_or_zero obj ''disk_percent'', mh_last_seen = extract_or_empty obj ''last_seen'' 64\<rparr>"

definition machines_list :: "'w env \<Rightarrow> nat \<Rightarrow> 'w agent \<Rightarrow> MachineHeartbeat list \<times> 'w agent" where
  "machines_list env max_entries ag =
     (if max_entries = 0 \<or> \<not> auth_is_logged_in ag then ([], ag)
      else
        (let (res, ag1) = restclient_call env ''GET'' ''/rest/v1/device_heartbeats?select=*&order=last_seen.desc''
               None None 8192 ag
         in case res of
              None \<Rightarrow> ([], ag1)
            | Some (response, st) \<Rightarrow>
                if \<not> http_ok st then ([], ag1)
                else (map machine_of_obj (json_array_objs 1024 max_entries (c_str response)), ag1)))"

section \<open>Facts\<close>

definition heartbeat_fields :: "string \<Rightarrow> string \<Rightarrow> (string \<times> jval) list" where
  "heartbeat_fields did label =
     [(''device_id'', JStr did), (''hostname'', JStr label), (''cpu_percent'', JInt 0), (''ram_percent'', JInt 0),
      (''disk_percent'', JInt 0), (''last_seen'', JStr ''now()'')]"

lemma show_int_zero: "show_int 0 = ''0''"
  by code_simp

lemma heartbeat_body_eq:
  "heartbeat_body did label = buf_copy 512 (render_obj (heartbeat_fields did label))"
  by (simp add: heartbeat_body_def heartbeat_fields_def render_obj_def obj_text_def render_field_def
      show_int_zero esc_char_def code_def)

lemma esc_char_printable: "32 \<le> code c \<Longrightarrow> length (esc_char c) \<le> 2"
  by (simp add: printable_esc_char)

lemma jsonEscape_printable_length: "printable s \<Longrightarrow> length (jsonEscape s) \<le> 2 * length s"
proof (induction s)
  case (Cons c s)
  then show ?case using esc_char_printable [of c] by simp
qed simp

text \<open>The heartbeat's 512-byte buffer is large enough for every device id and every label without
  control characters: the body that is sent is the complete JSON object with the two names.\<close>

theorem heartbeat_body_complete:
  assumes "printable did" and "length did < 32" and "printable label" and "length label < 128"
  shows "heartbeat_body did label = render_obj (heartbeat_fields did label)"
proof -
  have "length (jsonEscape did) \<le> 62" "length (jsonEscape label) \<le> 254"
    using jsonEscape_printable_length [OF assms(1)] jsonEscape_printable_length [OF assms(3)] assms(2,4) by simp_all
  then have "length (render_obj (heartbeat_fields did label)) < 512"
    by (simp add: heartbeat_fields_def render_obj_def obj_text_def render_field_def show_int_zero
        esc_char_def code_def)
  moreover have "nul_free (render_obj (heartbeat_fields did label))"
    by (simp add: heartbeat_fields_def render_obj_def obj_text_def render_field_def show_int_zero
        esc_char_def code_def)
  ultimately show ?thesis by (simp add: heartbeat_body_eq)
qed

lemma heartbeat_body_complete_witness:
  "heartbeat_body ''PC-0011AABB'' ''Computer AABB'' = render_obj (heartbeat_fields ''PC-0011AABB'' ''Computer AABB'')"
  by (rule heartbeat_body_complete) (simp_all add: code_def)

end
