(* ===== verification/Agent_Loop.thy ===== *)
theory Agent_Loop
  imports Sync_Engine Activity_Track Backup_Snap Machines_Hb
begin

text \<open>
  \<open>src/agent/agent/main.cpp\<close>: what ties the components of the agent together. The watch loop tracks
  windows and enforces limits, the cloud loop syncs, sends heartbeats, refreshes limits and makes
  backups on its own timers, the hidden window turns Windows' lock and power messages into suspend and
  resume, and the exit sequence runs after both loops have ended. One iteration of a loop is one
  function; the clock readings and what Windows answers in it are its arguments. Starting up and the tray
  icon have theories of their own.
\<close>

section \<open>State\<close>

record 'w app =
  ap_agent :: "'w agent"
  ap_db :: adb
  ap_track :: track_state
  ap_limits :: limits_state
  ap_device :: device_state
  ap_last_backup :: int   \<comment> \<open>\<open>g_lastBackupChanges\<close>\<close>
  ap_run_key :: "string option"

definition settings_of :: "'w app \<Rightarrow> settings_state" where
  "settings_of a = \<lparr>g_settings = ag_settings (ap_agent a), st_fs = ag_fs (ap_agent a), run_key = ap_run_key a\<rparr>"

text \<open>An operation of the tracker runs on the tracker's part of the state.\<close>

definition on_tracker :: "(track_state \<times> adb \<Rightarrow> track_state \<times> adb) \<Rightarrow> 'w app \<Rightarrow> 'w app" where
  "on_tracker f a = (let (tr, db) = f (ap_track a, ap_db a) in a\<lparr>ap_track := tr, ap_db := db\<rparr>)"

section \<open>Lock and power messages\<close>

definition WM_WTSSESSION_CHANGE :: nat where "WM_WTSSESSION_CHANGE = 0x2B1"
definition WM_POWERBROADCAST :: nat where "WM_POWERBROADCAST = 0x218"
definition WTS_SESSION_LOCK :: nat where "WTS_SESSION_LOCK = 7"
definition WTS_SESSION_UNLOCK :: nat where "WTS_SESSION_UNLOCK = 8"
definition PBT_APMSUSPEND :: nat where "PBT_APMSUSPEND = 4"
definition PBT_APMRESUMESUSPEND :: nat where "PBT_APMRESUMESUSPEND = 7"
definition PBT_APMRESUMEAUTOMATIC :: nat where "PBT_APMRESUMEAUTOMATIC = 18"

lemmas message_codes = WM_WTSSESSION_CHANGE_def WM_POWERBROADCAST_def WTS_SESSION_LOCK_def
  WTS_SESSION_UNLOCK_def PBT_APMSUSPEND_def PBT_APMRESUMESUSPEND_def PBT_APMRESUMEAUTOMATIC_def

text \<open>The reply is \<open>None\<close> where \<open>DefWindowProcW\<close> answers.\<close>

definition PowerEventWndProc :: "db_env \<Rightarrow> int \<Rightarrow> nat \<Rightarrow> nat \<Rightarrow> 'w app \<Rightarrow> int option \<times> 'w app" where
  "PowerEventWndProc denv now msg wParam a =
     (if msg = WM_WTSSESSION_CHANGE
      then (Some 0,
            if wParam = WTS_SESSION_LOCK then on_tracker (activity_suspend denv (settings_of a) now) a
            else if wParam = WTS_SESSION_UNLOCK then on_tracker activity_resume a
            else a)
      else if msg = WM_POWERBROADCAST
      then (Some 1,
            if wParam = PBT_APMSUSPEND then on_tracker (activity_suspend denv (settings_of a) now) a
            else if wParam = PBT_APMRESUMEAUTOMATIC \<or> wParam = PBT_APMRESUMESUSPEND
              then on_tracker activity_resume a
            else a)
      else (None, a))"

section \<open>The watch loop\<close>

record watch_in =
  wi_paused :: bool
  wi_denv :: db_env
  wi_end :: int             \<comment> \<open>clock when the old record ends\<close>
  wi_start :: int           \<comment> \<open>clock when the new record starts\<close>
  wi_fg :: "foreground option"
  wi_now :: int             \<comment> \<open>clock after tracking\<close>
  wi_check_denv :: db_env
  wi_check_fg :: "foreground option"

text \<open>One iteration on \<open>lastLimitCheck\<close> and the application: the events for the tray icon, the process
  that was terminated, and the new state. Limits are checked every 20 seconds.\<close>

definition check_tick ::
  "'w env \<Rightarrow> watch_in \<Rightarrow> int \<times> 'w app \<Rightarrow> (ActivityLimitEvent list \<times> wstr option) \<times> int \<times> 'w app" where
  "check_tick env w st =
     (let (lastLimitCheck, a) = st
      in if 20 \<le> wi_now w - lastLimitCheck
         then
           (let (events, killed, lm, tr, db) =
                  activity_check_limits env (wi_check_denv w) (settings_of a) (wi_check_fg w) 8 (ap_agent a)
                    (ap_limits a) (ap_track a, ap_db a)
            in ((events, killed), wi_now w, a\<lparr>ap_limits := lm, ap_track := tr, ap_db := db\<rparr>))
         else (([], None), lastLimitCheck, a))"

definition track_tick :: "watch_in \<Rightarrow> 'w app \<Rightarrow> 'w app" where
  "track_tick w a =
     (if \<not> wi_paused w
      then on_tracker (monitor_activity (wi_denv w) (settings_of a) (wi_end w) (wi_start w) (wi_fg w)) a
      else a)"

definition watch_tick ::
  "'w env \<Rightarrow> watch_in \<Rightarrow> int \<times> 'w app \<Rightarrow> (ActivityLimitEvent list \<times> wstr option) \<times> int \<times> 'w app" where
  "watch_tick env w st = check_tick env w (fst st, track_tick w (snd st))"

section \<open>The cloud loop\<close>

definition RETENTION_DAYS :: int where "RETENTION_DAYS = 30"

record cloud_timers =
  ct_lastSync :: int
  ct_lastBackup :: int
  ct_lastSummary :: int
  ct_lastLimitsPull :: int
  ct_syncBackoffSec :: int

record cloud_in =
  ci_now :: int
  ci_sync :: "nat \<Rightarrow> db_env"
  ci_oks :: "nat \<Rightarrow> nat \<Rightarrow> bool"
  ci_device :: device_env
  ci_backup :: backup_env
  ci_prune :: db_env

definition app_sync :: "'w env \<Rightarrow> cloud_in \<Rightarrow> 'w app \<Rightarrow> int \<times> 'w app" where
  "app_sync env c a =
     (let (res, ag, db) = sync_pending_records env (ci_sync c) (ci_oks c) (ap_agent a, ap_db a)
      in (res, a\<lparr>ap_agent := ag, ap_db := db\<rparr>))"

definition app_heartbeat :: "'w env \<Rightarrow> cloud_in \<Rightarrow> 'w app \<Rightarrow> 'w app" where
  "app_heartbeat env c a =
     (let (ok, ag, dv) = machines_push_heartbeat env (ci_device c) (ap_agent a) (ap_device a)
      in a\<lparr>ap_agent := ag, ap_device := dv\<rparr>)"

definition app_pull_limits :: "'w env \<Rightarrow> 'w app \<Rightarrow> 'w app" where
  "app_pull_limits env a =
     (let (ok, ag, lm) = applimits_refresh_my_limits env (ap_agent a) (ap_limits a)
      in a\<lparr>ap_agent := ag, ap_limits := lm\<rparr>)"

definition app_snapshot :: "cloud_in \<Rightarrow> 'w app \<Rightarrow> 'w app" where
  "app_snapshot c a =
     (let (ok, bk) = backup_create_snapshot (ci_backup c) (ap_db a)
            \<lparr>bs_last = ap_last_backup a, bs_fs = ag_fs (ap_agent a)\<rparr>
      in a\<lparr>ap_last_backup := bs_last bk, ap_agent := (ap_agent a)\<lparr>ag_fs := bs_fs bk\<rparr>\<rparr>)"

definition next_backoff :: "int \<Rightarrow> int \<Rightarrow> int" where
  "next_backoff result backoff =
     (if result \<noteq> 0 then min (if backoff = 0 then 30 else backoff * 2) 600 else 0)"

definition cloud_start :: "int \<Rightarrow> int \<Rightarrow> cloud_in \<Rightarrow> 'w app \<Rightarrow> cloud_timers \<times> 'w app" where
  "cloud_start now1 now2 c a =
     (\<lparr>ct_lastSync = 0, ct_lastBackup = now1, ct_lastSummary = now2, ct_lastLimitsPull = 0,
       ct_syncBackoffSec = 0\<rparr>,
      app_snapshot c a)"

text \<open>The four branches of the loop body, in the order of the code. The daily report only prints.\<close>

definition sync_branch :: "'w env \<Rightarrow> cloud_in \<Rightarrow> AppSettings \<Rightarrow> cloud_timers \<times> 'w app \<Rightarrow> cloud_timers \<times> 'w app" where
  "sync_branch env c s p =
     (if to_i32 (sync_interval_sec s + ct_syncBackoffSec (fst p)) \<le> ci_now c - ct_lastSync (fst p)
      then
        (let (result, a1) = app_sync env c (snd p)
         in ((fst p)\<lparr>ct_syncBackoffSec := next_backoff result (ct_syncBackoffSec (fst p)),
                     ct_lastSync := ci_now c\<rparr>,
             app_heartbeat env c a1))
      else p)"

definition limits_branch :: "'w env \<Rightarrow> cloud_in \<Rightarrow> cloud_timers \<times> 'w app \<Rightarrow> cloud_timers \<times> 'w app" where
  "limits_branch env c p =
     (if 60 \<le> ci_now c - ct_lastLimitsPull (fst p)
      then ((fst p)\<lparr>ct_lastLimitsPull := ci_now c\<rparr>, app_pull_limits env (snd p)) else p)"

definition backup_branch :: "cloud_in \<Rightarrow> AppSettings \<Rightarrow> cloud_timers \<times> 'w app \<Rightarrow> cloud_timers \<times> 'w app" where
  "backup_branch c s p =
     (if backup_interval_sec s \<le> ci_now c - ct_lastBackup (fst p)
      then
        (let a1 = app_snapshot c (snd p);
             (ok, db) = db_delete_old_records (ci_prune c) RETENTION_DAYS (ap_db a1)
         in ((fst p)\<lparr>ct_lastBackup := ci_now c\<rparr>, a1\<lparr>ap_db := db\<rparr>))
      else p)"

definition summary_branch :: "cloud_in \<Rightarrow> AppSettings \<Rightarrow> cloud_timers \<times> 'w app \<Rightarrow> cloud_timers \<times> 'w app" where
  "summary_branch c s p =
     (if summary_interval_sec s \<le> ci_now c - ct_lastSummary (fst p)
      then ((fst p)\<lparr>ct_lastSummary := ci_now c\<rparr>, snd p) else p)"

definition cloud_tick :: "'w env \<Rightarrow> cloud_in \<Rightarrow> cloud_timers \<times> 'w app \<Rightarrow> cloud_timers \<times> 'w app" where
  "cloud_tick env c p =
     (let s = settings_get (settings_of (snd p))
      in summary_branch c s (backup_branch c s (limits_branch env c (sync_branch env c s p))))"

section \<open>Exit\<close>

text \<open>After both loops have ended.\<close>

definition main_exit :: "'w env \<Rightarrow> cloud_in \<Rightarrow> 'w app \<Rightarrow> 'w app" where
  "main_exit env c a =
     (let a1 = app_snapshot c (snd (app_sync env c a)) in a1\<lparr>ap_db := db_close (ap_db a1)\<rparr>)"

end
