(* ===== verification/Agent_Outage.thy ===== *)
theory Agent_Outage
  imports Agent_Loop
begin

text \<open>
  The cloud loop of \<open>src/agent/agent/main.cpp\<close> through an outage: what an iteration leaves alone when no
  request gets through, how the attempts are spaced by the backoff, and how the backlog is delivered
  once the server answers again. Only the cloud loop runs here; \<open>Delivery\<close> has the other threads.
\<close>

section \<open>Without a connection\<close>

definition down :: "'w env \<Rightarrow> bool" where
  "down env \<longleftrightarrow> (\<forall>rq i k st. fst (httpsRequest (en_net env) rq i k st) = None)"

definition same_account :: "'w agent \<Rightarrow> 'w agent \<Rightarrow> bool" where
  "same_account ag ag' \<longleftrightarrow> ag_session ag' = ag_session ag \<and> ag_settings ag' = ag_settings ag"

lemma same_account_refl [simp]: "same_account ag ag"
  by (simp add: same_account_def)

lemma same_account_trans: "same_account a b \<Longrightarrow> same_account b c \<Longrightarrow> same_account a c"
  by (simp add: same_account_def)

lemma same_account_fs [simp]: "same_account ag (ag'\<lparr>ag_fs := f\<rparr>) \<longleftrightarrow> same_account ag ag'"
  "same_account (ag\<lparr>ag_fs := f\<rparr>) ag' \<longleftrightarrow> same_account ag ag'"
  by (simp_all add: same_account_def)

lemma down_http: "down env \<Longrightarrow> \<exists>ag'. with_http (httpsRequest (en_net env) rq i k) ag = (None, ag') \<and> same_account ag ag'"
proof -
  assume d: "down env"
  obtain r ag' where w: "with_http (httpsRequest (en_net env) rq i k) ag = (r, ag')"
    by (cases "with_http (httpsRequest (en_net env) rq i k) ag")
  then have "r = fst (httpsRequest (en_net env) rq i k \<lparr>hc_conn = ag_conn ag, hc_world = ag_world ag\<rparr>)"
    by (auto simp: with_http_def split: prod.splits)
  with d have "r = None" by (simp add: down_def)
  with w with_http_frame [OF w] show ?thesis by (simp add: same_account_def)
qed

lemma down_call:
  assumes "down env"
  obtains ag' where "restclient_call env m p b e n ag = (None, ag')" "same_account ag ag'"
proof -
  obtain ag' where "rest_attempt env m p (case b of None \<Rightarrow> [] | Some b \<Rightarrow> b)
      (case e of None \<Rightarrow> [] | Some e \<Rightarrow> e) ag = (None, ag')" "same_account ag ag'"
    using down_http [OF assms] unfolding rest_attempt_def by blast
  then show ?thesis using that [of ag'] that [of ag]
    by (cases "n = 0") (simp_all add: restclient_call_def Let_def)
qed

lemma down_send:
  assumes "down env" and "auth_is_logged_in ag" and "rs \<noteq> []"
  obtains ag' where "network_send_batch env cv rs ag = ((False, True), ag')" "same_account ag ag'"
proof -
  obtain ag' where "send_attempt env (buildBody cv rs) ag = (None, ag')" "same_account ag ag'"
    using down_http [OF assms(1)] unfolding send_attempt_def by blast
  then show ?thesis using that assms(2,3) by (simp add: network_send_batch_def Let_def)
qed

lemma down_report:
  assumes "down env" and "auth_is_logged_in ag" and "records \<noteq> []"
  obtains ag' where "sync_report env cv records ag =
    (\<lparr>accepted = [], rejected = [], aborted = True, requests = 1\<rparr>, ag')" "same_account ag ag'"
proof -
  obtain ag' where a: "network_send_batch env cv (take (length records) (drop 0 records)) ag = ((False, True), ag')"
    "same_account ag ag'" using down_send [OF assms] by (metis take_all drop_0 order_refl)
  then have "sync_send env cv records 0 (length records) ag = (TransportError, ag')"
    by (simp add: sync_send_def)
  then have "bisect_loop (sync_send env cv records) kMaxRequestsPerRound [(0, length records)] empty_report ag =
      (\<lparr>accepted = [], rejected = [], aborted = True, requests = 1\<rparr>, ag')"
    by (subst bisect_loop_step [of empty_report kMaxRequestsPerRound "sync_send env cv records" 0
          "length records" ag TransportError ag'])
       (simp_all add: empty_report_def kMaxRequestsPerRound_def Let_def)
  then show ?thesis using assms(3) a(2) that by (simp add: sync_report_def sendWithBisect_def)
qed

text \<open>The first database environment of a cycle: a full budget of rounds is left.\<close>

definition first_round :: nat where "first_round = kMaxRoundsPerCycle - 1"

lemma down_sync:
  assumes "down env" and "auth_is_logged_in ag"
  obtains ag' where "sync_pending_records env denv oks (ag, db) =
    (if db_get_unsynced_records (denv first_round) MAX_RECORDS db = [] then 0 else - 1, ag', db)"
    "same_account ag ag'"
proof -
  let ?rs = "db_get_unsynced_records (denv first_round) MAX_RECORDS db"
  have n: "kMaxRoundsPerCycle = Suc first_round" by (simp add: first_round_def kMaxRoundsPerCycle_def)
  show ?thesis
  proof (cases "?rs = []")
    case True
    then show ?thesis using that [of ag] assms(2) by (simp add: sync_pending_records_def n)
  next
    case False
    obtain ag' where r: "sync_report env (de_codec (denv first_round)) ?rs ag =
        (\<lparr>accepted = [], rejected = [], aborted = True, requests = 1\<rparr>, ag')" "same_account ag ag'"
      by (rule down_report [OF assms False])
    then have "sync_rounds env denv oks (Suc first_round) (ag, db) = (- 1, ag', db)"
      using False by (simp add: sync_settle_def)
    then show ?thesis using that r(2) assms(2) False by (simp add: sync_pending_records_def n)
  qed
qed

section \<open>Frames\<close>

definition unsynced_rows :: "'w app \<Rightarrow> row list" where
  "unsynced_rows a = filter (\<lambda>r. r_synced r = 0) (db_rows (ap_db a))"

text \<open>What an outage may change: neither the account nor the unsynced records, nor whether the
  database is open.\<close>

definition held :: "'w app \<Rightarrow> 'w app \<Rightarrow> bool" where
  "held a a' \<longleftrightarrow> same_account (ap_agent a) (ap_agent a') \<and> unsynced_rows a' = unsynced_rows a \<and>
     db_open (ap_db a') = db_open (ap_db a)"

lemma held_refl [simp]: "held a a"
  by (simp add: held_def)

lemma held_trans: "held a b \<Longrightarrow> held b c \<Longrightarrow> held a c"
  by (auto simp: held_def intro: same_account_trans)

lemma down_heartbeat:
  assumes "down env" shows "held a (app_heartbeat env c a)"
proof -
  obtain did dv1 where 1: "get_device_id (ci_device c) 32 ((ap_device a)\<lparr>dv_fs := ag_fs (ap_agent a)\<rparr>) = (did, dv1)"
    by (metis prod.collapse)
  obtain label dv2 where 2: "device_get_label (ci_device c) 128 dv1 = (label, dv2)" by (metis prod.collapse)
  obtain ag' where 3: "restclient_call env ''POST'' heartbeat_path (Some (heartbeat_body did label))
      (Some (''Prefer: resolution=merge-duplicates,return=minimal'' @ crlf)) 512
      ((ap_agent a)\<lparr>ag_fs := dv_fs dv2\<rparr>) = (None, ag')" "same_account ((ap_agent a)\<lparr>ag_fs := dv_fs dv2\<rparr>) ag'"
    by (rule down_call [OF assms])
  have "machines_push_heartbeat env (ci_device c) (ap_agent a) (ap_device a) =
      (if auth_is_logged_in (ap_agent a) then (False, ag', dv2\<lparr>dv_fs := ag_fs ag'\<rparr>)
       else (False, ap_agent a, ap_device a))"
    using 1 2 3(1) by (simp add: machines_push_heartbeat_def)
  then show ?thesis using 3(2) by (simp add: app_heartbeat_def held_def unsynced_rows_def)
qed

lemma down_pull:
  assumes "down env" shows "held a (app_pull_limits env a)"
proof -
  let ?ag = "ap_agent a"
  obtain ag1 where 1: "restclient_call env ''GET'' (limits_path (as_user_id (ag_session ?ag))) None None 16384 ?ag =
      (None, ag1)" "same_account ?ag ag1" by (rule down_call [OF assms])
  have "fetchLimits env (Some (as_user_id (ag_session ?ag))) MAX_LIMITS ?ag = (None, ?ag) \<or>
      fetchLimits env (Some (as_user_id (ag_session ?ag))) MAX_LIMITS ?ag = (None, ag1)"
    using 1(1) by (simp add: fetchLimits_def)
  then have "\<exists>ag'. applimits_refresh_my_limits env ?ag (ap_limits a) = (False, ag', ap_limits a) \<and> same_account ?ag ag'"
    using 1(2) by (auto simp: applimits_refresh_my_limits_def auth_get_session_def)
  then show ?thesis by (auto simp: app_pull_limits_def held_def unsynced_rows_def)
qed

lemma snapshot_held: "held a (app_snapshot c a)"
  by (auto simp: app_snapshot_def held_def unsynced_rows_def split: prod.splits)

lemma delete_unsynced:
  "filter (\<lambda>r. r_synced r = 0) (db_rows (snd (db_delete_old_records denv days db))) =
   filter (\<lambda>r. r_synced r = 0) (db_rows db)"
  by (auto simp: db_delete_old_records_def old_synced_def intro!: filter_cong)

lemma delete_open: "db_open (snd (db_delete_old_records denv days db)) = db_open db"
  by (simp add: db_delete_old_records_def)

lemma backup_branch_held: "held (snd p) (snd (backup_branch c s p)) \<and>
  ct_lastSync (fst (backup_branch c s p)) = ct_lastSync (fst p) \<and>
  ct_syncBackoffSec (fst (backup_branch c s p)) = ct_syncBackoffSec (fst p)"
proof -
  let ?a1 = "app_snapshot c (snd p)"
  have "held ?a1 (?a1\<lparr>ap_db := snd (db_delete_old_records (ci_prune c) RETENTION_DAYS (ap_db ?a1))\<rparr>)"
    by (simp add: held_def unsynced_rows_def delete_unsynced delete_open)
  then have "held (snd p) (?a1\<lparr>ap_db := snd (db_delete_old_records (ci_prune c) RETENTION_DAYS (ap_db ?a1))\<rparr>)"
    by (rule held_trans [OF snapshot_held])
  then show ?thesis
    by (cases "db_delete_old_records (ci_prune c) RETENTION_DAYS (ap_db ?a1)") (simp add: backup_branch_def Let_def)
qed

lemma limits_branch_timers:
  "ct_lastSync (fst (limits_branch env c p)) = ct_lastSync (fst p) \<and>
   ct_syncBackoffSec (fst (limits_branch env c p)) = ct_syncBackoffSec (fst p)"
  by (simp add: limits_branch_def)

lemma summary_branch_frame:
  "snd (summary_branch c s p) = snd p \<and> ct_lastSync (fst (summary_branch c s p)) = ct_lastSync (fst p) \<and>
   ct_syncBackoffSec (fst (summary_branch c s p)) = ct_syncBackoffSec (fst p)"
  by (simp add: summary_branch_def)

section \<open>The schedule of an outage\<close>

definition sync_due :: "cloud_in \<Rightarrow> cloud_timers \<times> 'w app \<Rightarrow> bool" where
  "sync_due c p \<longleftrightarrow>
     to_i32 (sync_interval_sec (ag_settings (ap_agent (snd p))) + ct_syncBackoffSec (fst p))
       \<le> ci_now c - ct_lastSync (fst p)"

text \<open>The times at which a run of the cloud loop starts a sync.\<close>

fun attempts :: "'w env \<Rightarrow> cloud_in list \<Rightarrow> cloud_timers \<times> 'w app \<Rightarrow> int list" where
  "attempts env [] p = []"
| "attempts env (c # cs) p = (if sync_due c p then [ci_now c] else []) @ attempts env cs (cloud_tick env c p)"

text \<open>The backoff after \<open>k\<close> failed attempts in a row.\<close>

definition backoff_after :: "nat \<Rightarrow> int" where
  "backoff_after k = (if k = 0 then 0 else min (30 * 2 ^ (k - 1)) 600)"

lemma next_backoff_after: "next_backoff (- 1) (backoff_after k) = backoff_after (Suc k)"
proof (cases k)
  case (Suc n)
  have "1 \<le> (2 ^ n :: int)" by simp
  with Suc show ?thesis by (simp add: next_backoff_def backoff_after_def min_def)
qed (simp add: next_backoff_def backoff_after_def)

lemma backoff_after_bounds: "0 \<le> backoff_after k" "backoff_after k \<le> 600"
  by (simp_all add: backoff_after_def)

text \<open>Attempt \<open>k\<close> and the following ones, each at least the interval and its backoff after the one before.\<close>

fun spaced :: "int \<Rightarrow> nat \<Rightarrow> int \<Rightarrow> int list \<Rightarrow> bool" where
  "spaced interval k t [] = True"
| "spaced interval k t (u # us) \<longleftrightarrow> t + interval + backoff_after k \<le> u \<and> spaced interval (Suc k) u us"

definition waiting :: "cloud_in \<Rightarrow> 'w app \<Rightarrow> bool" where
  "waiting c a \<longleftrightarrow> de_prepare (ci_sync c first_round) \<and>
     (\<exists>r \<in> set (unsynced_rows a). r_next_retry r \<le> de_now (ci_sync c first_round))"

lemma waiting_fetch:
  "waiting c a \<Longrightarrow> db_open (ap_db a) \<Longrightarrow>
   db_get_unsynced_records (ci_sync c first_round) MAX_RECORDS (ap_db a) \<noteq> []"
  by (auto simp: waiting_def unsynced_rows_def db_get_unsynced_records_def unsynced_query_def MAX_RECORDS_def
      due_def filter_empty_conv)

lemma down_sync_branch:
  assumes "down env" and "auth_is_logged_in (ap_agent a)" and "waiting c a" and "db_open (ap_db a)"
    and "s = ag_settings (ap_agent a)"
  shows "held a (snd (sync_branch env c s (tm, a))) \<and>
    fst (sync_branch env c s (tm, a)) =
      (if sync_due c (tm, a)
       then tm\<lparr>ct_syncBackoffSec := next_backoff (- 1) (ct_syncBackoffSec tm), ct_lastSync := ci_now c\<rparr> else tm)"
proof -
  obtain ag' where r: "sync_pending_records env (ci_sync c) (ci_oks c) (ap_agent a, ap_db a) = (- 1, ag', ap_db a)"
    "same_account (ap_agent a) ag'"
    by (rule down_sync [OF assms(1,2), of "ci_sync c" "ci_oks c" "ap_db a"])
       (simp add: waiting_fetch [OF assms(3,4)])
  let ?a1 = "a\<lparr>ap_agent := ag'\<rparr>"
  have "held a ?a1" using r(2) by (simp add: held_def unsynced_rows_def)
  then have "held a (app_heartbeat env c ?a1)" by (rule held_trans [OF _ down_heartbeat [OF assms(1)]])
  moreover have "app_sync env c a = (- 1, ?a1)" using r(1) by (simp add: app_sync_def)
  ultimately show ?thesis using assms(5) by (simp add: sync_branch_def sync_due_def)
qed

lemma down_tick:
  assumes "down env" and "auth_is_logged_in (ap_agent a)" and "waiting c a" and "db_open (ap_db a)"
    and "cloud_tick env c (tm, a) = (tm', a')"
  shows "held a a' \<and>
    ct_lastSync tm' = (if sync_due c (tm, a) then ci_now c else ct_lastSync tm) \<and>
    ct_syncBackoffSec tm' = (if sync_due c (tm, a) then next_backoff (- 1) (ct_syncBackoffSec tm)
                             else ct_syncBackoffSec tm)"
proof -
  let ?s = "ag_settings (ap_agent a)"
  let ?p1 = "sync_branch env c ?s (tm, a)"
  let ?p2 = "limits_branch env c ?p1"
  let ?p3 = "backup_branch c ?s ?p2"
  note sb = down_sync_branch [OF assms(1-4) refl, of tm]
  have "held (snd ?p1) (snd ?p2)" by (simp add: limits_branch_def down_pull [OF assms(1)])
  then have h: "held a (snd ?p3)"
    using held_trans [OF held_trans [OF conjunct1 [OF sb]]] backup_branch_held [of ?p2 c ?s] by blast
  have t: "(tm', a') = summary_branch c ?s ?p3"
    using assms(5) [symmetric] by (simp add: cloud_tick_def settings_of_def settings_get_def Let_def)
  then have "a' = snd ?p3" "ct_lastSync tm' = ct_lastSync (fst ?p1)"
    "ct_syncBackoffSec tm' = ct_syncBackoffSec (fst ?p1)"
    using summary_branch_frame [of c ?s ?p3] backup_branch_held [of ?p2 c ?s] limits_branch_timers [of env c ?p1]
    by (metis fst_conv snd_conv)+
  then show ?thesis using h conjunct2 [OF sb] by simp
qed

lemma held_keeps:
  assumes "held a a'"
  shows "auth_is_logged_in (ap_agent a') = auth_is_logged_in (ap_agent a)" "waiting c a' = waiting c a"
    "db_open (ap_db a') = db_open (ap_db a)" "ag_settings (ap_agent a') = ag_settings (ap_agent a)"
  using assms by (simp_all add: held_def same_account_def auth_is_logged_in_def waiting_def)

lemma outage:
  assumes "down env" and "0 \<le> interval" and "interval + 600 < 2 ^ 31"
  shows "auth_is_logged_in (ap_agent a) \<Longrightarrow> db_open (ap_db a) \<Longrightarrow> \<forall>c \<in> set cs. waiting c a \<Longrightarrow>
    interval = sync_interval_sec (ag_settings (ap_agent a)) \<Longrightarrow> ct_syncBackoffSec tm = backoff_after k \<Longrightarrow>
    fold (cloud_tick env) cs (tm, a) = (tm', a') \<Longrightarrow>
    held a a' \<and> spaced interval k (ct_lastSync tm) (attempts env cs (tm, a)) \<and>
    ct_syncBackoffSec tm' = backoff_after (k + length (attempts env cs (tm, a))) \<and>
    ct_lastSync tm' = last (ct_lastSync tm # attempts env cs (tm, a))"
proof (induction cs arbitrary: tm a k)
  case (Cons c cs)
  obtain tm1 a1 where t: "cloud_tick env c (tm, a) = (tm1, a1)" by (cases "cloud_tick env c (tm, a)")
  have w: "waiting c a" using Cons.prems(3) by simp
  note dt = down_tick [OF assms(1) Cons.prems(1) w Cons.prems(2) t]
  note h = conjunct1 [OF dt] and hk = held_keeps [OF conjunct1 [OF dt]]
  have i: "to_i32 (interval + backoff_after k) = interval + backoff_after k"
    using assms(2,3) backoff_after_bounds [of k] by (intro to_i32_id) (simp add: in_i32_def)
  have due: "sync_due c (tm, a) \<longleftrightarrow> ct_lastSync tm + interval + backoff_after k \<le> ci_now c"
    using Cons.prems(4,5) i by (auto simp: sync_due_def)
  let ?k = "if sync_due c (tm, a) then Suc k else k"
  have b1: "ct_syncBackoffSec tm1 = backoff_after ?k"
    using dt Cons.prems(5) by (simp add: next_backoff_after)
  have "held a1 a' \<and> spaced interval ?k (ct_lastSync tm1) (attempts env cs (tm1, a1)) \<and>
      ct_syncBackoffSec tm' = backoff_after (?k + length (attempts env cs (tm1, a1))) \<and>
      ct_lastSync tm' = last (ct_lastSync tm1 # attempts env cs (tm1, a1))"
    by (rule Cons.IH [OF _ _ _ _ b1]) (use Cons.prems t hk in simp_all)
  then show ?case using t dt due held_trans [OF h] by auto
qed simp

section \<open>An example\<close>

definition demo_app :: "unit app" where
  "demo_app = \<lparr>ap_agent = example_agent, ap_db = db1, ap_track = fst demo_open, ap_limits = limits_init,
     ap_device = \<lparr>g_cachedId = ''PC-00000000'', g_cachedLabel = [], g_cacheLoaded = True, dv_fs = Map.empty\<rparr>,
     ap_last_backup = 0, ap_run_key = None\<rparr>"

definition demo_cloud :: "int \<Rightarrow> cloud_in" where
  "demo_cloud now = \<lparr>ci_now = now, ci_sync = (\<lambda>_. env0), ci_oks = (\<lambda>_ _. True),
     ci_device = \<lparr>dv_dir = Some ''C'', dv_io = io_good, dv_random = Some (0, 0, 0, 0), dv_tick = 0, dv_pid = 0\<rparr>,
     ci_backup = demo_backup, ci_prune = env0\<rparr>"

definition demo_timers :: cloud_timers where
  "demo_timers = \<lparr>ct_lastSync = 0, ct_lastBackup = 1000, ct_lastSummary = 1000, ct_lastLimitsPull = 0,
     ct_syncBackoffSec = 0\<rparr>"

lemma plain_down: "down (plain_env (fixed_net (\<lambda>_. None)))"
proof -
  have none: "fst (requestOnce (fixed_net (\<lambda>_. None)) rq k st) = None" for rq k st
    by (simp add: fixed_net_request)
  have "fst (httpsRequest (fixed_net (\<lambda>_. None)) rq i k st) = None" for rq i k st
    using none [of rq k st] none [of rq k "snd (requestOnce (fixed_net (\<lambda>_. None)) rq k st)"]
    by (cases "requestOnce (fixed_net (\<lambda>_. None)) rq k st") (simp add: httpsRequest_def)
  then show ?thesis by (simp add: down_def plain_env_def)
qed

lemma env0_facts: "de_now env0 = 1000" "de_prepare env0" "de_codec env0 = ascii_codec"
  by (simp_all add: env0_def)

lemma demo_facts: "auth_is_logged_in (ap_agent demo_app)" "db_open (ap_db demo_app)" "waiting (demo_cloud now) demo_app"
  "sync_interval_sec (ag_settings (ap_agent demo_app)) = 30" "ct_syncBackoffSec demo_timers = 0"
  "ct_lastSync demo_timers = 0"
  by (simp_all add: demo_app_def example_agent_def auth_is_logged_in_def db1_rows waiting_def demo_cloud_def
      unsynced_rows_def row1 env0_facts setDefaults_def demo_timers_def)

text \<open>An outage is survived without loss and without hammering the server: over any number of
  iterations with no connection and a record waiting, the unsynced records stay exactly as they are,
  each attempt comes at least the sync interval and the current backoff after the one before, the
  backoff doubles from 30 seconds and never exceeds ten minutes.\<close>

theorem outage_backs_off:
  assumes "down env" and "auth_is_logged_in (ap_agent a)" and "db_open (ap_db a)"
    and "\<forall>c \<in> set cs. waiting c a" and "ct_syncBackoffSec tm = 0"
    and "interval = sync_interval_sec (ag_settings (ap_agent a))" and "0 \<le> interval" and "interval + 600 < 2 ^ 31"
    and "fold (cloud_tick env) cs (tm, a) = (tm', a')" and "ts = attempts env cs (tm, a)"
  shows "unsynced_rows a' = unsynced_rows a \<and> spaced interval 0 (ct_lastSync tm) ts \<and>
    ct_syncBackoffSec tm' = (if ts = [] then 0 else min (30 * 2 ^ (length ts - 1)) 600)"
proof -
  have "ct_syncBackoffSec tm = backoff_after 0" using assms(5) by (simp add: backoff_after_def)
  from outage [OF assms(1,7,8,2,3,4,6) this assms(9)] show ?thesis
    by (simp add: assms(10) held_def backoff_after_def)
qed

lemma outage_backs_off_witness:
  "unsynced_rows (snd (fold (cloud_tick (plain_env (fixed_net (\<lambda>_. None)))) [demo_cloud 1000, demo_cloud 1200]
     (demo_timers, demo_app))) = unsynced_rows demo_app"
proof -
  let ?r = "fold (cloud_tick (plain_env (fixed_net (\<lambda>_. None)))) [demo_cloud 1000, demo_cloud 1200] (demo_timers, demo_app)"
  have "fold (cloud_tick (plain_env (fixed_net (\<lambda>_. None)))) [demo_cloud 1000, demo_cloud 1200]
      (demo_timers, demo_app) = (fst ?r, snd ?r)" by (simp only: prod.collapse)
  from outage_backs_off [OF plain_down demo_facts(1,2) _ demo_facts(5) demo_facts(4) [symmetric] _ _ this refl]
  show ?thesis using demo_facts(3) by simp
qed

section \<open>Recovery\<close>

lemma sync_branch_db:
  "sync_due c (tm, a) \<Longrightarrow> s = ag_settings (ap_agent a) \<Longrightarrow>
   sync_pending_records env (ci_sync c) (ci_oks c) (ap_agent a, ap_db a) = (res, ag', db') \<Longrightarrow>
   ap_db (snd (sync_branch env c s (tm, a))) = db' \<and>
   ct_syncBackoffSec (fst (sync_branch env c s (tm, a))) = next_backoff res (ct_syncBackoffSec tm) \<and>
   ct_lastSync (fst (sync_branch env c s (tm, a))) = ci_now c"
  by (simp add: sync_branch_def sync_due_def app_sync_def app_heartbeat_def split: prod.split)

lemma pending_ids_rows: "pending_ids db = r_id ` set (filter (\<lambda>r. r_synced r = 0) (db_rows db))"
  by (simp add: pending_ids_def)

lemma limits_branch_db: "ap_db (snd (limits_branch env c p)) = ap_db (snd p)"
  by (simp add: limits_branch_def app_pull_limits_def split: prod.split)

lemma cloud_tick_unsynced:
  assumes "cloud_tick env c (tm, a) = (tm', a')" and "sync_due c (tm, a)"
    and "sync_pending_records env (ci_sync c) (ci_oks c) (ap_agent a, ap_db a) = (res, ag', db')"
  shows "unsynced_rows a' = filter (\<lambda>r. r_synced r = 0) (db_rows db') \<and>
    ct_syncBackoffSec tm' = next_backoff res (ct_syncBackoffSec tm) \<and> ct_lastSync tm' = ci_now c"
proof -
  let ?s = "ag_settings (ap_agent a)"
  let ?p1 = "sync_branch env c ?s (tm, a)"
  let ?p2 = "limits_branch env c ?p1"
  let ?p3 = "backup_branch c ?s ?p2"
  note sb = sync_branch_db [OF assms(2) refl assms(3)]
  have "(tm', a') = summary_branch c ?s ?p3"
    using assms(1) [symmetric] by (simp add: cloud_tick_def settings_of_def settings_get_def Let_def)
  then have "a' = snd ?p3" "ct_lastSync tm' = ct_lastSync (fst ?p1)"
    "ct_syncBackoffSec tm' = ct_syncBackoffSec (fst ?p1)"
    using summary_branch_frame [of c ?s ?p3] backup_branch_held [of ?p2 c ?s] limits_branch_timers [of env c ?p1]
    by (metis fst_conv snd_conv)+
  moreover have "unsynced_rows (snd ?p3) = unsynced_rows (snd ?p2)"
    using backup_branch_held [of ?p2 c ?s] by (simp add: held_def)
  ultimately show ?thesis using sb limits_branch_db [of env c ?p1] by (simp add: unsynced_rows_def)
qed

lemma cloud_tick_db:
  assumes "cloud_tick env c (tm, a) = (tm', a')" and "sync_due c (tm, a)"
    and "sync_pending_records env (ci_sync c) (ci_oks c) (ap_agent a, ap_db a) = (res, ag', db')"
    and "ci_now c - ct_lastBackup tm < backup_interval_sec (ag_settings (ap_agent a))"
  shows "ap_db a' = db'"
proof -
  let ?s = "ag_settings (ap_agent a)"
  let ?p2 = "limits_branch env c (sync_branch env c ?s (tm, a))"
  have "ct_lastBackup (fst ?p2) = ct_lastBackup tm"
    by (simp add: limits_branch_def sync_branch_def split: prod.split)
  then have "backup_branch c ?s ?p2 = ?p2" using assms(4) by (simp add: backup_branch_def)
  then have "(tm', a') = summary_branch c ?s ?p2"
    using assms(1) [symmetric] by (simp add: cloud_tick_def settings_of_def settings_get_def Let_def)
  then have "a' = snd ?p2" using summary_branch_frame [of c ?s ?p2] by (metis snd_conv)
  then show ?thesis
    using sync_branch_db [OF assms(2) refl assms(3)] limits_branch_db [of env c "sync_branch env c ?s (tm, a)"] by simp
qed

text \<open>C18: After an outage of any length one iteration is enough: once the server accepts again, the first
  iteration at least the interval and ten minutes after the last attempt delivers every record that is
  due (up to 1999 of them) and resets the backoff.\<close>

theorem outage_recovers:
  assumes "down env" and "auth_is_logged_in (ap_agent a)" and "db_open (ap_db a)"
    and "\<forall>c \<in> set cs. waiting c a" and "ct_syncBackoffSec tm = 0"
    and "interval = sync_interval_sec (ag_settings (ap_agent a))" and "0 \<le> interval" and "interval + 600 < 2 ^ 31"
    and "fold (cloud_tick env) cs (tm, a) = (tm', a')"
    and "accepts auth_is_logged_in env' (de_codec denv)" and "ci_sync c = (\<lambda>_. denv)" and "ci_oks c = (\<lambda>_ _. True)"
    and "db_ready denv (ap_db a')" and "card (due_ids (de_now denv) (ap_db a')) < 2000"
    and "ct_lastSync tm' + interval + 600 \<le> ci_now c"
    and "cloud_tick env' c (tm', a') = (tm'', a'')"
  shows "r_id ` set (unsynced_rows a'') = r_id ` set (unsynced_rows a) - due_ids (de_now denv) (ap_db a') \<and>
    ct_syncBackoffSec tm'' = 0"
proof -
  have "ct_syncBackoffSec tm = backoff_after 0" using assms(5) by (simp add: backoff_after_def)
  note o = outage [OF assms(1,7,8,2,3,4,6) this assms(9)]
  note hk = held_keeps [OF conjunct1 [OF o]]
  have bo: "0 \<le> ct_syncBackoffSec tm'" "ct_syncBackoffSec tm' \<le> 600" using o backoff_after_bounds by simp_all
  then have "to_i32 (interval + ct_syncBackoffSec tm') = interval + ct_syncBackoffSec tm'"
    using assms(7,8) by (intro to_i32_id) (simp add: in_i32_def)
  then have due: "sync_due c (tm', a')" using bo(2) assms(6,15) hk(4) by (simp add: sync_due_def)
  have l: "auth_is_logged_in (ap_agent a')" using hk(1) assms(2) by simp
  have "card (due_ids (de_now denv) (ap_db a')) < 100 * kMaxRoundsPerCycle"
    using assms(14) by (simp add: kMaxRoundsPerCycle_def)
  from sync_rounds_drain [OF assms(10) l assms(13) this] l obtain ag1 db1 where
    "sync_pending_records env' (ci_sync c) (ci_oks c) (ap_agent a', ap_db a') = (0, ag1, db1)"
    "pending_ids db1 = pending_ids (ap_db a') - due_ids (de_now denv) (ap_db a')"
    by (auto simp: sync_pending_records_def assms(11,12))
  with cloud_tick_unsynced [OF assms(16) due this(1)] conjunct1 [OF o] show ?thesis
    by (simp add: next_backoff_def pending_ids_rows held_def unsynced_rows_def del: set_filter)
qed

lemma outage_recovers_witness:
  "r_id ` set (unsynced_rows (snd (cloud_tick (plain_env (fixed_net (\<lambda>_. Some (200, [])))) (demo_cloud 2000)
     (cloud_tick (plain_env (fixed_net (\<lambda>_. None))) (demo_cloud 1000) (demo_timers, demo_app))))) = {}"
proof -
  let ?down = "plain_env (fixed_net (\<lambda>_. None))" and ?up = "plain_env (fixed_net (\<lambda>_. Some (200, [])))"
  obtain tm' a' where t1: "cloud_tick ?down (demo_cloud 1000) (demo_timers, demo_app) = (tm', a')"
    by (metis prod.collapse)
  obtain tm'' a'' where t2: "cloud_tick ?up (demo_cloud 2000) (tm', a') = (tm'', a'')" by (metis prod.collapse)
  have due: "sync_due (demo_cloud 1000) (demo_timers, demo_app)"
    using demo_facts(4) by (simp add: sync_due_def demo_timers_def demo_cloud_def in_i32_def)
  obtain ag' where sp: "sync_pending_records ?down (ci_sync (demo_cloud 1000)) (ci_oks (demo_cloud 1000))
      (ap_agent demo_app, ap_db demo_app) = (- 1, ag', db1)"
    by (rule down_sync [OF plain_down demo_facts(1), of "ci_sync (demo_cloud 1000)" "ci_oks (demo_cloud 1000)" db1])
       (use waiting_fetch [OF demo_facts(3) [of 1000] demo_facts(2)] in \<open>simp add: demo_app_def\<close>)
  have db: "ap_db a' = db1" "ct_lastSync tm' = 1000"
    using cloud_tick_db [OF t1 due sp] cloud_tick_unsynced [OF t1 due sp]
    by (simp_all add: demo_cloud_def demo_timers_def demo_app_def example_agent_def setDefaults_def)
  have f: "fold (cloud_tick ?down) [demo_cloud 1000] (demo_timers, demo_app) = (tm', a')" using t1 by simp
  have "r_id ` set (unsynced_rows a'') = r_id ` set (unsynced_rows demo_app) - due_ids (de_now env0) (ap_db a') \<and>
      ct_syncBackoffSec tm'' = 0"
    by (intro outage_recovers [where env = ?down and env' = ?up and cs = "[demo_cloud 1000]" and tm = demo_timers
          and interval = 30 and c = "demo_cloud 2000" and tm' = tm', OF plain_down demo_facts(1,2) _ demo_facts(5)
          demo_facts(4) [symmetric] _ _ _ fixed_net_accepts])
       (use f db t2 demo_facts(3) db1_ready db1_due in \<open>simp_all add: demo_cloud_def env0_facts\<close>)
  then have "r_id ` set (unsynced_rows a'') = r_id ` set (unsynced_rows demo_app) - {1}"
    using db(1) db1_due by (simp add: env0_facts)
  then show ?thesis using t1 t2 db1_due row1 by (simp add: unsynced_rows_def demo_app_def db1_rows)
qed

end
