(* ===== verification/Agent_Control.thy ===== *)
theory Agent_Control
  imports Agent_Outage
begin

text \<open>
  The watch loop and the window messages of \<open>src/agent/agent/main.cpp\<close>: which message decides whether
  tracking is suspended, what pausing does to the open record and to the limits, how a block that the
  parent set reaches the child's machine, and what the exit sequence leaves in the table.
\<close>

section \<open>Lock, sleep and wake\<close>

type_synonym message = "db_env \<times> int \<times> nat \<times> nat"

definition handle :: "message \<Rightarrow> 'w app \<Rightarrow> 'w app" where
  "handle m a = (case m of (denv, now, msg, wParam) \<Rightarrow> snd (PowerEventWndProc denv now msg wParam a))"

definition asks_suspend :: "message \<Rightarrow> bool" where
  "asks_suspend m \<longleftrightarrow> (case m of (denv, now, msg, wParam) \<Rightarrow>
     (msg, wParam) \<in> {(WM_WTSSESSION_CHANGE, WTS_SESSION_LOCK), (WM_POWERBROADCAST, PBT_APMSUSPEND)})"

definition asks_resume :: "message \<Rightarrow> bool" where
  "asks_resume m \<longleftrightarrow> (case m of (denv, now, msg, wParam) \<Rightarrow>
     (msg, wParam) \<in> {(WM_WTSSESSION_CHANGE, WTS_SESSION_UNLOCK), (WM_POWERBROADCAST, PBT_APMRESUMEAUTOMATIC),
       (WM_POWERBROADCAST, PBT_APMRESUMESUSPEND)})"

text \<open>The messages that count, the last one first.\<close>

definition last_request :: "message list \<Rightarrow> bool option" where
  "last_request ms = map_option asks_suspend (find (\<lambda>m. asks_suspend m \<or> asks_resume m) (rev ms))"

lemma on_tracker_track: "ap_track (on_tracker f a) = fst (f (ap_track a, ap_db a))"
  by (simp add: on_tracker_def split: prod.split)

lemma close_flags:
  "g_suspended (fst (closeCurrentSession denv st now s)) = g_suspended (fst s)"
  "\<not> has_open_record (fst (closeCurrentSession denv st now s))"
  by (auto simp: closeCurrentSession_def finishCurrentRecord_def finish_begin_def finish_end_def close_end_def
      has_open_record_def no_window_def Let_def split: option.split)

lemma handle_flags:
  "g_suspended (ap_track (handle m a)) =
     (if asks_suspend m then True else if asks_resume m then False else g_suspended (ap_track a))"
  "asks_suspend m \<Longrightarrow> \<not> has_open_record (ap_track (handle m a))"
  "\<not> asks_suspend m \<Longrightarrow> has_open_record (ap_track (handle m a)) = has_open_record (ap_track a)"
proof -
  obtain denv now msg wParam where m: "m = (denv, now, msg, wParam)" by (cases m)
  have sus: "g_suspended (fst (activity_suspend denv st now s))" "\<not> has_open_record (fst (activity_suspend denv st now s))"
    for st s by (cases s; simp add: activity_suspend_def close_flags)+
  have res: "\<not> g_suspended (fst (activity_resume s))" "has_open_record (fst (activity_resume s)) = has_open_record (fst s)"
    for s by (cases s; simp add: activity_resume_def has_open_record_def)+
  note ds = m handle_def PowerEventWndProc_def asks_suspend_def asks_resume_def on_tracker_track sus res message_codes
  show "g_suspended (ap_track (handle m a)) =
     (if asks_suspend m then True else if asks_resume m then False else g_suspended (ap_track a))"
    by (simp add: ds)
  show "asks_suspend m \<Longrightarrow> \<not> has_open_record (ap_track (handle m a))"
    by (auto simp: ds)
  show "\<not> asks_suspend m \<Longrightarrow> has_open_record (ap_track (handle m a)) = has_open_record (ap_track a)"
    by (simp add: ds)
qed

text \<open>The last lock or power message decides: after any sequence of window messages tracking is
  suspended exactly if the last one that asks for anything asks for suspension, and then no record is
  open.\<close>

theorem last_message_decides:
  assumes "a' = fold handle ms a"
  shows "(case last_request ms of
            None \<Rightarrow> ap_track a' = ap_track a \<and> ap_db a' = ap_db a
          | Some suspended \<Rightarrow> g_suspended (ap_track a') = suspended \<and>
              (suspended \<longrightarrow> \<not> has_open_record (ap_track a')))"
  unfolding assms
proof (induction ms rule: rev_induct)
  case (snoc m ms)
  let ?a = "fold handle ms a"
  show ?case
  proof (cases "asks_suspend m \<or> asks_resume m")
    case True
    then show ?thesis using handle_flags [of m ?a] by (auto simp: last_request_def)
  next
    case False
    then have "handle m ?a = ?a"
      by (cases m) (auto simp: handle_def PowerEventWndProc_def asks_suspend_def asks_resume_def)
    then have e: "fold handle (ms @ [m]) a = ?a" by simp
    have "last_request (ms @ [m]) = last_request ms" using False by (simp add: last_request_def)
    with snoc.IH show ?thesis unfolding e by simp
  qed
qed (simp add: last_request_def)

lemma last_message_decides_witness:
  "let a' = fold handle [(env0, 200, WM_POWERBROADCAST, PBT_APMRESUMESUSPEND),
       (env0, 210, WM_WTSSESSION_CHANGE, WTS_SESSION_LOCK), (env0, 220, WM_POWERBROADCAST, 10)] demo_app
   in g_suspended (ap_track a') \<and> \<not> has_open_record (ap_track a')"
proof -
  let ?ms = "[(env0, 200, WM_POWERBROADCAST, PBT_APMRESUMESUSPEND),
       (env0, 210, WM_WTSSESSION_CHANGE, WTS_SESSION_LOCK), (env0, 220, WM_POWERBROADCAST, 10)]"
  have "last_request ?ms = Some True"
    by (simp add: last_request_def asks_suspend_def asks_resume_def message_codes)
  with last_message_decides [of "fold handle ?ms demo_app" ?ms demo_app, OF refl] show ?thesis
    by (simp only: option.case Let_def) blast
qed

text \<open>Waking up unlocks the tracker before the user unlocks the screen: after a lock, and a sleep or not,
  the message of an automatic wake-up is enough for the next iteration of the watch loop to open a
  record for whatever window is in front of the lock screen.\<close>

theorem wake_tracks_behind_lock:
  assumes "ms = (d1, t1, WM_WTSSESSION_CHANGE, WTS_SESSION_LOCK) # sleep @
      [(d2, t2, WM_POWERBROADCAST, PBT_APMRESUMEAUTOMATIC)]"
    and "sleep = [] \<or> sleep = [(d3, t3, WM_POWERBROADCAST, PBT_APMSUSPEND)]"
    and "getActiveWindowInfo (wi_fg w) = Some win" and "\<not> wi_paused w" and "wi_now w - lc < 20"
    and "watch_tick env w (lc, fold handle ms a) = (r, lc2, a')"
  shows "\<not> g_suspended (ap_track a') \<and> has_open_record (ap_track a') \<and>
    ar_start_time (g_current_record (ap_track a')) = wi_start w"
proof -
  let ?b = "fold handle ms a"
  have res: "asks_resume (d2, t2, WM_POWERBROADCAST, PBT_APMRESUMEAUTOMATIC)"
    "\<not> asks_suspend (d2, t2, WM_POWERBROADCAST, PBT_APMRESUMEAUTOMATIC)"
    "asks_suspend (d1, t1, WM_WTSSESSION_CHANGE, WTS_SESSION_LOCK)"
    "asks_suspend (d3, t3, WM_POWERBROADCAST, PBT_APMSUSPEND)"
    by (auto simp: asks_resume_def asks_suspend_def message_codes)
  have "\<not> has_open_record (ap_track (fold handle ((d1, t1, WM_WTSSESSION_CHANGE, WTS_SESSION_LOCK) # sleep) a))"
    using assms(2) by (elim disjE) (simp_all add: handle_flags(2) res(3,4))
  then have b: "\<not> g_suspended (ap_track ?b)" "\<not> has_open_record (ap_track ?b)"
    using res(1,2) unfolding assms(1) by (simp_all add: handle_flags(1,3))
  have "aw_process_name win \<noteq> []" by (rule base_name_nonempty [OF assms(3)])
  then have "ap_track (on_tracker (monitor_activity (wi_denv w) (settings_of ?b) (wi_end w) (wi_start w) (wi_fg w)) ?b) =
      startNewRecordLocked (wi_start w) win ((ap_track ?b)\<lparr>g_last_window := win\<rparr>)"
    using b assms(3) by (simp add: on_tracker_track monitor_activity_def monitor_decide_def)
  moreover have "a' = on_tracker (monitor_activity (wi_denv w) (settings_of ?b) (wi_end w) (wi_start w) (wi_fg w)) ?b"
    using assms(4-6) by (simp add: watch_tick_def track_tick_def check_tick_def)
  ultimately show ?thesis
    using b \<open>aw_process_name win \<noteq> []\<close> by (simp add: startNewRecordLocked_def has_open_record_def)
qed

definition demo_watch :: "foreground option \<Rightarrow> watch_in" where
  "demo_watch fg = \<lparr>wi_paused = False, wi_denv = env0, wi_end = 300, wi_start = 300, wi_fg = fg, wi_now = 300,
     wi_check_denv = env0, wi_check_fg = fg\<rparr>"

lemma fg_a_window: "getActiveWindowInfo fg_a = Some \<lparr>aw_process_name = [97], aw_window_title = [116]\<rparr>"
  by (simp add: fg_a_def getActiveWindowInfo_def getProcessBaseName_def MAX_PATH_def Let_def)

lemma wake_tracks_behind_lock_witness:
  "let a' = snd (snd (watch_tick (plain_env (fixed_net (\<lambda>_. None))) (demo_watch fg_a)
       (290, fold handle [(env0, 200, WM_WTSSESSION_CHANGE, WTS_SESSION_LOCK),
          (env0, 210, WM_POWERBROADCAST, PBT_APMSUSPEND), (env0, 220, WM_POWERBROADCAST, PBT_APMRESUMEAUTOMATIC)] demo_app)))
   in has_open_record (ap_track a') \<and> ar_start_time (g_current_record (ap_track a')) = 300"
proof -
  let ?ms = "[(env0, 200, WM_WTSSESSION_CHANGE, WTS_SESSION_LOCK), (env0, 210, WM_POWERBROADCAST, PBT_APMSUSPEND),
    (env0, 220, WM_POWERBROADCAST, PBT_APMRESUMEAUTOMATIC)]"
  let ?r = "watch_tick (plain_env (fixed_net (\<lambda>_. None))) (demo_watch fg_a) (290, fold handle ?ms demo_app)"
  obtain r lc2 a' where r: "?r = (r, lc2, a')" by (metis prod.collapse)
  have ms: "?ms = (env0, 200, WM_WTSSESSION_CHANGE, WTS_SESSION_LOCK) #
      [(env0, 210, WM_POWERBROADCAST, PBT_APMSUSPEND)] @ [(env0, 220, WM_POWERBROADCAST, PBT_APMRESUMEAUTOMATIC)]"
    by simp
  have w: "getActiveWindowInfo (wi_fg (demo_watch fg_a)) = Some \<lparr>aw_process_name = [97], aw_window_title = [116]\<rparr>"
    "\<not> wi_paused (demo_watch fg_a)" "wi_now (demo_watch fg_a) - 290 < 20" "wi_start (demo_watch fg_a) = 300"
    by (simp_all add: demo_watch_def fg_a_window)
  from wake_tracks_behind_lock [OF ms disjI2 [OF refl] w(1-3) r] show ?thesis
    unfolding w(4) by (simp only: r snd_conv Let_def)
qed

section \<open>Pausing\<close>

text \<open>Limits are not enforced on this machine.\<close>

definition no_enforcement :: "'w app \<Rightarrow> bool" where
  "no_enforcement a \<longleftrightarrow> app_role (ag_settings (ap_agent a)) \<noteq> APP_ROLE_CHILD \<or> \<not> auth_is_logged_in (ap_agent a)"

lemma on_tracker_frame [simp]: "ap_agent (on_tracker f a) = ap_agent a" "ap_limits (on_tracker f a) = ap_limits a"
  by (simp_all add: on_tracker_def split: prod.split)

lemma unenforced_check:
  assumes "no_enforcement b"
  shows "activity_check_limits env denv (settings_of b) fg m (ap_agent b) lm s = ([], None, lm, s)"
proof -
  have c: "app_role (settings_get (settings_of b)) \<noteq> APP_ROLE_CHILD \<or> \<not> auth_is_logged_in (ap_agent b)"
    using assms by (simp add: no_enforcement_def settings_of_def settings_get_def)
  show ?thesis unfolding activity_check_limits_def if_P [OF c] ..
qed

lemma unenforced_check_tick:
  assumes "no_enforcement a"
  shows "snd (snd (check_tick env w (lc, a))) = a"
  by (simp add: check_tick_def unenforced_check [OF assms])

lemma track_tick_frame [simp]: "ap_agent (track_tick w a) = ap_agent a" "ap_limits (track_tick w a) = ap_limits a"
  by (simp_all add: track_tick_def)

lemma unenforced_tick: "no_enforcement a \<Longrightarrow> snd (snd (watch_tick env w (lc, a))) = track_tick w a"
  by (simp add: watch_tick_def unenforced_check_tick no_enforcement_def)

lemma paused_tick:
  assumes "wi_paused w" and "no_enforcement a"
  shows "snd (snd (watch_tick env w (lc, a))) = a"
  using unenforced_tick [OF assms(2)] assms(1) by (simp add: track_tick_def)

definition watch_run :: "'w env \<Rightarrow> watch_in list \<Rightarrow> int \<times> 'w app \<Rightarrow> int \<times> 'w app" where
  "watch_run env ws p = fold (\<lambda>w p. snd (watch_tick env w p)) ws p"

lemma paused_run:
  assumes "\<forall>w \<in> set ws. wi_paused w" and "no_enforcement a"
  shows "snd (watch_run env ws (lc, a)) = a"
  using assms(1)
proof (induction ws arbitrary: lc)
  case (Cons w ws)
  have "snd (watch_tick env w (lc, a)) = (fst (snd (watch_tick env w (lc, a))), a)"
    using paused_tick [of w a env lc] Cons.prems assms(2) by (simp add: prod_eq_iff)
  then have "watch_run env (w # ws) (lc, a) = watch_run env ws (fst (snd (watch_tick env w (lc, a))), a)"
    by (simp add: watch_run_def)
  then show ?case using Cons by simp
qed (simp add: watch_run_def)

text \<open>The time of a pause is recorded after all: pausing leaves the open record open, so when tracking
  resumes in another window, one row is stored from before the pause to after it, as if the user had
  been in the first window all the time.\<close>

theorem pause_is_recorded:
  assumes "\<forall>w \<in> set ws. wi_paused w" and "no_enforcement a"
    and "\<not> wi_paused w" and "getActiveWindowInfo (wi_fg w) = Some win"
    and "aw_process_name win \<noteq> aw_process_name (g_last_window (ap_track a))"
    and "has_open_record (ap_track a)" and "\<not> g_suspended (ap_track a)" and "\<not> g_finish_in_progress (ap_track a)"
    and "r = g_current_record (ap_track a)" and "0 < ar_start_time r" and "ar_start_time r < wi_end w"
    and "min_duration_sec (ag_settings (ap_agent a)) \<le> to_i32 (wi_end w - ar_start_time r)"
    and "\<not> settings_is_process_excluded (de_codec (wi_denv w)) (Some (ar_process_name r)) (settings_of a)"
    and "db_open (ap_db a)" and "env_ok (wi_denv w)"
    and "a' = snd (watch_run env (ws @ [w]) (lc, a))"
  shows "\<exists>row. db_rows (ap_db a') = db_rows (ap_db a) @ [row] \<and>
    r_process_name row = wideToUtf8 (de_codec (wi_denv w)) (ar_process_name r) \<and>
    r_start row = ar_start_time r \<and> r_end row = wi_end w \<and> r_duration row = to_i32 (wi_end w - ar_start_time r)"
proof -
  obtain lc1 where p: "watch_run env ws (lc, a) = (lc1, a)"
    using paused_run [OF assms(1,2)] by (metis prod.collapse)
  let ?m = "monitor_activity (wi_denv w) (settings_of a) (wi_end w) (wi_start w) (wi_fg w) (ap_track a, ap_db a)"
  let ?r = "r\<lparr>ar_end_time := wi_end w, ar_duration_seconds := to_i32 (wi_end w - ar_start_time r)\<rparr>"
  have "snd ?m = finish_save (wi_denv w) (settings_of a) ?r (ap_db a)"
    using assms(4-11) by (simp add: monitor_activity_def monitor_decide_def finishCurrentRecord_def finish_begin_def Let_def)
  also have "\<dots> = snd (db_insert_activity (wi_denv w) (Some ?r) (ap_db a))"
    using assms(12,13) by (simp add: finish_save_def settings_get_def settings_of_def)
  finally have m: "db_rows (snd ?m) = db_rows (ap_db a) @ [new_row (wi_denv w) ?r (db_seq (ap_db a) + 1)]"
    using assms(14,15) by (simp add: db_insert_activity_def env_ok_def)
  have "a' = snd (snd (watch_tick env w (lc1, a)))"
    unfolding assms(16) using p by (simp add: watch_run_def)
  then have "ap_db a' = snd ?m"
    using unenforced_tick [OF assms(2), of env w lc1] assms(3)
    by (simp add: track_tick_def on_tracker_def split: prod.split)
  then show ?thesis using m by (simp add: new_row_def)
qed

definition fg_b :: "foreground option" where
  "fg_b = Some \<lparr>fg_title = [116], fg_image = Some [98], fg_terminate = True\<rparr>"

lemma pause_is_recorded_witness:
  "\<exists>row. db_rows (ap_db (snd (watch_run (plain_env (fixed_net (\<lambda>_. None)))
       [(demo_watch fg_a)\<lparr>wi_paused := True\<rparr>, demo_watch fg_b]
       (0, demo_app\<lparr>ap_agent := example_agent\<lparr>ag_session := no_session\<rparr>\<rparr>)))) = db_rows db1 @ [row] \<and>
     r_start row = 100 \<and> r_end row = 300 \<and> r_duration row = 200"
proof -
  let ?e = "plain_env (fixed_net (\<lambda>_. None))" and ?p = "(demo_watch fg_a)\<lparr>wi_paused := True\<rparr>"
  let ?a = "demo_app\<lparr>ap_agent := example_agent\<lparr>ag_session := no_session\<rparr>\<rparr>"
  have wb: "getActiveWindowInfo (wi_fg (demo_watch fg_b)) = Some \<lparr>aw_process_name = [98], aw_window_title = [116]\<rparr>"
    by (simp add: demo_watch_def fg_b_def getActiveWindowInfo_def getProcessBaseName_def MAX_PATH_def Let_def)
  have ne: "no_enforcement ?a" by (simp add: no_enforcement_def auth_is_logged_in_def no_session_def)
  have ex: "\<not> settings_is_process_excluded (de_codec (wi_denv (demo_watch fg_b)))
      (Some (ar_process_name (g_current_record (ap_track ?a)))) (settings_of ?a)"
    by (simp add: settings_is_process_excluded_def excluded_by_def settings_of_def settings_get_def example_agent_def
        setDefaults_def)
  have "\<exists>row. db_rows (ap_db (snd (watch_run ?e ([?p] @ [demo_watch fg_b]) (0, ?a)))) = db_rows (ap_db ?a) @ [row] \<and>
    r_process_name row = wideToUtf8 (de_codec (wi_denv (demo_watch fg_b))) (ar_process_name (g_current_record (ap_track ?a))) \<and>
    r_start row = ar_start_time (g_current_record (ap_track ?a)) \<and> r_end row = wi_end (demo_watch fg_b) \<and>
    r_duration row = to_i32 (wi_end (demo_watch fg_b) - ar_start_time (g_current_record (ap_track ?a)))"
    by (rule pause_is_recorded [OF _ ne _ wb _ _ _ _ refl _ _ _ ex _ _ refl])
       (simp_all add: demo_watch_def demo_app_def demo_open_eq has_open_record_def example_agent_def setDefaults_def
          db1_rows env_ok_def env0_def in_i32_def)
  then show ?thesis by (auto simp: demo_watch_def demo_app_def demo_open_eq in_i32_def)
qed

section \<open>Enforcing limits\<close>

lemma pull_installs:
  assumes "auth_is_logged_in (ap_agent a)" and "ap_agent a = ag"
    and "fetchLimits env (Some (as_user_id (ag_session ag))) MAX_LIMITS ag = (Some ls, ag1)"
    and "ag_session ag1 = ag_session ag" and "ag_settings ag1 = ag_settings ag"
  shows "ap_limits (app_pull_limits env a) = \<lparr>lm_cache = ls, lm_user = as_user_id (ag_session ag), lm_loaded = True\<rparr>"
    "ap_track (app_pull_limits env a) = ap_track a" "ap_db (app_pull_limits env a) = ap_db a"
    "ag_session (ap_agent (app_pull_limits env a)) = ag_session ag"
    "ag_settings (ap_agent (app_pull_limits env a)) = ag_settings ag"
  using assms by (simp_all add: app_pull_limits_def applimits_refresh_my_limits_def auth_get_session_def Let_def)

lemma nul_free_join: "nul_free sep \<Longrightarrow> \<forall>x \<in> set xs. nul_free x \<Longrightarrow> nul_free (join sep xs)"
proof (induction xs)
  case (Cons x xs)
  then show ?case by (cases xs) (auto simp: join_Cons)
qed simp

lemma nul_free_rows:
  "\<forall>l \<in> set ls. limit_row_ok child l \<Longrightarrow> nul_free (render_array (map (limit_row child) ls))"
  unfolding render_array_def
  by (auto simp: limit_row_def render_obj_def obj_text_def render_field_def intro!: nul_free_join)

text \<open>What a reply of the server to the list request installs.\<close>

lemma fetch_rows:
  assumes "en_net env = fixed_net f" and "auth_is_logged_in ag" and "child \<noteq> []"
    and "f (rest_request ag ''GET'' (limits_path child) [] []) = Some (200, body)"
    and "body = render_array (map (limit_row child) ls)" and "\<forall>l \<in> set ls. limit_row_ok child l"
    and "length body < 16384"
  shows "\<exists>ag1. fetchLimits env (Some child) n ag = (Some (take n ls), ag1) \<and>
    ag_session ag1 = ag_session ag \<and> ag_settings ag1 = ag_settings ag"
proof -
  obtain r ag1 where a: "rest_attempt env ''GET'' (limits_path child) [] [] ag = (r, ag1)" by (metis prod.collapse)
  have "take default_max_body body = body"
    using assms(7) by (intro take_all) (simp add: default_max_body_def)
  then have r: "r = Some \<lparr>hr_status = 200, hr_body = body\<rparr>"
    using rest_attempt_fixed [OF assms(1,4)] a by simp
  have "take (16384 - 1) body = body" using assms(7) by (intro take_all) simp
  then have "restclient_call env ''GET'' (limits_path child) None None 16384 ag = (Some (body, 200), ag1)"
    using a r by (simp add: restclient_call_def Let_def)
  then have "fetchLimits env (Some child) n ag = (Some (parseLimitsResponse (c_str body) n), ag1)"
    using assms(2,3) by (simp add: fetchLimits_def http_ok_def)
  then show ?thesis
    using rest_attempt_frame [OF a] c_str_nul_free [OF nul_free_rows [OF assms(6)]] limits_list_read [OF assms(6), of n] assms(5)
    by simp
qed


definition block_list :: "AppLimit list" where
  "block_list = [\<lparr>al_id = 1, al_process_name = ''A'', al_daily_limit_sec = -1, al_blocked = 1\<rparr>]"

lemma block_list_ok: "\<forall>l \<in> set block_list. limit_row_ok ''u'' l"
  "length (render_array (map (limit_row ''u'') block_list)) < 16384"
  by (simp_all add: block_list_def limit_row_ok_def row_text_def limit_keys_def MAX_LIMIT_PROCESS_def in_i32_def
      limit_row_def render_obj_def obj_text_def render_field_def esc_char_def show_int_def show_nat.simps
      plain_char_def code_def render_array_def)


text \<open>A paused tracker protects an app from its limits: while tracking is paused, a limit check can only
  terminate the app that was open when the pause began; any other app is left running, blocked or not.\<close>

theorem pause_disables_limits:
  assumes "wi_paused w" and "watch_tick env w (lc, a) = ((events, killed), lc2, a')"
    and "\<forall>exe win. wi_check_fg w = Some win \<longrightarrow> getProcessBaseName (fg_image win) = Some exe \<longrightarrow>
           \<not> wcsicmp_eq exe (ar_process_name (g_current_record (ap_track a)))"
  shows "killed = None \<and> events = []"
proof -
  have "killIfForeground (wi_check_fg w) (ar_process_name (g_current_record (ap_track a))) = None"
    using assms(3) by (auto simp: killIfForeground_def split: option.split)
  then have "fst (snd (activity_check_limits env (wi_check_denv w) (settings_of a) (wi_check_fg w) 8 (ap_agent a)
      (ap_limits a) (ap_track a, ap_db a))) = None \<and>
    fst (activity_check_limits env (wi_check_denv w) (settings_of a) (wi_check_fg w) 8 (ap_agent a)
      (ap_limits a) (ap_track a, ap_db a)) = []"
    by (simp add: activity_check_limits_def Let_def split: prod.split option.split)
  then show ?thesis using assms(1,2)
    by (auto simp: watch_tick_def track_tick_def check_tick_def case_prod_beta split: if_splits)
qed

section \<open>The end\<close>

lemma update_where_payload:
  "(\<And>r. payload (f r) = payload r) \<Longrightarrow> map payload (db_rows (update_where P f db)) = map payload (db_rows db)"
  by (simp add: update_where_def)

lemma settle_payload: "map payload (db_rows (sync_settle denv oks st records rep db)) = map payload (db_rows db)"
proof -
  have f: "map payload (db_rows (fold (\<lambda>i db. snd (db_mark_sync_failed denv st (sr_id (records ! i)) db)) is d)) =
      map payload (db_rows d)" for "is" d
  proof (induction "is" arbitrary: d)
    case (Cons i js)
    have "map payload (db_rows (snd (db_mark_sync_failed denv st (sr_id (records ! i)) d))) = map payload (db_rows d)"
      by (simp add: db_mark_sync_failed_def update_where_payload del: map_eq_conv)
    with Cons show ?case by (simp del: map_eq_conv)
  qed simp
  have "map payload (db_rows (snd (db_mark_synced_batch oks ids db))) = map payload (db_rows db)" for ids
  proof (cases "\<not> db_open db \<or> ids = []")
    case False
    obtain ok db' where c: "mark_chunks oks 0 ids True db = (ok, db')" by (cases "mark_chunks oks 0 ids True db")
    obtain S where "db_rows db' = map (\<lambda>r. if r_id r \<in> S then set_synced r else r) (db_rows db)"
      using mark_chunks_props [OF c] by blast
    then have "map payload (db_rows db') = map payload (db_rows db)" by simp
    then show ?thesis using False c by (simp add: db_mark_synced_batch_def del: map_eq_conv)
  qed (simp add: db_mark_synced_batch_def)
  then show ?thesis unfolding sync_settle_def by (simp add: f del: map_eq_conv)
qed

lemma rounds_payload:
  "sync_rounds env denv oks n (ag, db) = (res, ag', db') \<Longrightarrow> map payload (db_rows db') = map payload (db_rows db)"
proof (induction n arbitrary: ag db)
  case (Suc n)
  let ?rs = "db_get_unsynced_records (denv n) MAX_RECORDS db"
  obtain rep ag1 where r: "sync_report env (de_codec (denv n)) ?rs ag = (rep, ag1)" by (metis prod.collapse)
  let ?db1 = "sync_settle (denv n) (oks n) (ag_settings ag1) ?rs rep db"
  consider "db' = db" | "db' = ?db1" | "sync_rounds env denv oks n (ag1, ?db1) = (res, ag', db')"
    using Suc.prems r by (auto simp: Let_def split: if_splits)
  then show ?case
  proof cases
    case 3
    from Suc.IH [OF this] show ?thesis by (simp only: settle_payload)
  qed (simp_all only: settle_payload)
qed simp

text \<open>Leaving the program loses the open session: the exit sequence stores no record, whatever the
  tracker holds, so the table ends with exactly the contents it had, and closed.\<close>

theorem exit_stores_nothing:
  "map payload (db_rows (ap_db (main_exit env c a))) = map payload (db_rows (ap_db a)) \<and>
   \<not> db_open (ap_db (main_exit env c a))"
proof -
  obtain res ag' db' where r: "sync_pending_records env (ci_sync c) (ci_oks c) (ap_agent a, ap_db a) = (res, ag', db')"
    by (metis prod.collapse)
  have "map payload (db_rows db') = map payload (db_rows (ap_db a))"
    using r rounds_payload by (auto simp: sync_pending_records_def split: if_splits)
  then show ?thesis
    using r by (simp add: main_exit_def app_sync_def app_snapshot_def db_close_def case_prod_beta del: map_eq_conv)
qed

end
