(* ===== verification/Remote_View.thy ===== *)
theory Remote_View
  imports Activity_Track Json_Rows
begin

text \<open>
  \<open>src/agent/agent/remoteview.cpp\<close>: the read-only HTTP server for the local network. A request is the
  bytes that one \<open>recv\<close> delivers; the reply is the bytes of the two \<open>send\<close> calls. The life cycle keeps
  the counts that Windows keeps (open listening sockets, users of the socket library); the outcome of
  each call is a parameter. Which thread runs the accept loop is not modelled.
\<close>

section \<open>Requests and replies\<close>

definition scan_word :: "nat \<Rightarrow> string \<Rightarrow> string \<times> string" where
  "scan_word n s =
     (let t = dropWhile is_space s; w = take n (takeWhile (\<lambda>c. \<not> is_space c) t) in (w, drop (length w) t))"

text \<open>\<open>sscanf(request, "%15s %511s", ...)\<close>: the second word is read only after the first.\<close>

definition scan_request :: "string \<Rightarrow> string \<times> string" where
  "scan_request s =
     (let (meth, r) = scan_word 15 s in if meth = [] then ([], []) else (meth, fst (scan_word 511 r)))"

definition extractToken :: "string \<Rightarrow> string" where
  "extractToken path =
     (case str_find ''token='' path of
        None \<Rightarrow> []
      | Some q \<Rightarrow> takeWhile (\<lambda>c. c \<noteq> CHR ''&'' \<and> c \<noteq> spc) (drop (q + 6) path))"

definition response_header :: "nat \<Rightarrow> string \<Rightarrow> string \<Rightarrow> string" where
  "response_header statusCode statusText body =
     buf_copy 512
       (''HTTP/1.1 '' @ show_int (int statusCode) @ '' '' @ statusText @ [cr, nl] @
        ''Content-Type: application/json'' @ [cr, nl] @
        ''Content-Length: '' @ show_int (to_i32 (int (length body))) @ [cr, nl] @
        ''Connection: close'' @ [cr, nl, cr, nl])"

definition sendResponse :: "nat \<Rightarrow> string \<Rightarrow> string \<Rightarrow> string" where
  "sendResponse statusCode statusText body = response_header statusCode statusText body @ body"

definition error_body :: "string \<Rightarrow> string" where
  "error_body msg = [CHR ''{'', quo] @ ''error'' @ [quo, CHR '':'', quo] @ msg @ [quo, CHR ''}'']"

definition rv_status_body :: "codec \<Rightarrow> wstr \<times> wstr \<times> int \<Rightarrow> string" where
  "rv_status_body cv p =
     (case p of (processW, titleW, since) \<Rightarrow>
        [CHR ''{'', quo] @ ''process_name'' @ [quo, CHR '':'', quo] @ jsonEscape (wideToUtf8 cv processW) @
        [quo, CHR '','', quo] @ ''window_title'' @ [quo, CHR '':'', quo] @ jsonEscape (wideToUtf8 cv titleW) @
        [quo, CHR '','', quo] @ ''since'' @ [quo, CHR '':''] @ show_int since @ ''}'')"

definition rv_today_body :: "codec \<Rightarrow> wstr \<Rightarrow> string" where
  "rv_today_body cv summaryW =
     [CHR ''{'', quo] @ ''summary'' @ [quo, CHR '':'', quo] @ jsonEscape (wideToUtf8 cv summaryW) @ [quo, CHR ''}'']"

datatype served = NoReply | Reply string | Crash

text \<open>\<open>request\<close> is \<open>None\<close> when \<open>recv\<close> fails or the peer has closed; \<open>Crash\<close> is \<open>wcscpy_s\<close> ending the process.\<close>

definition handleClient :: "db_env \<Rightarrow> settings_state \<Rightarrow> track_state \<Rightarrow> adb \<Rightarrow> string option \<Rightarrow> served" where
  "handleClient denv st tr db request =
     (case map_option (take 4095) request of
        None \<Rightarrow> NoReply
      | Some received \<Rightarrow>
          if received = [] then NoReply
          else
            (let (meth, path) = scan_request (c_str received);
                 s = settings_get st;
                 token = extractToken path
             in if meth \<noteq> ''GET'' \<or> remote_view_enabled s = 0 \<or> remote_view_token s = [] \<or>
                   token \<noteq> remote_view_token s
                then Reply (sendResponse 401 ''Unauthorized'' (error_body ''Invalid or missing token''))
                else if prefix ''/status'' path
                then (case activity_get_current 512 2048 tr of
                        None \<Rightarrow> Crash
                      | Some p \<Rightarrow> Reply (sendResponse 200 ''OK'' (rv_status_body (de_codec denv) p)))
                else if prefix ''/today'' path
                then Reply (sendResponse 200 ''OK''
                       (rv_today_body (de_codec denv) (snd (db_build_daily_summary_text denv 4096 db))))
                else Reply (sendResponse 404 ''Not Found''
                       (error_body ''Unknown endpoint. Try /status or /today''))))"

section \<open>Life cycle\<close>

record rv_state =
  g_listen_socket :: "nat option"
  g_thread :: bool
  g_running :: bool
  rv_open :: "nat set"   \<comment> \<open>listening sockets that are open\<close>
  rv_wsa :: int          \<comment> \<open>\<open>WSAStartup\<close> calls not yet undone by \<open>WSACleanup\<close>\<close>

definition rv_init :: rv_state where
  "rv_init = \<lparr>g_listen_socket = None, g_thread = False, g_running = False, rv_open = {}, rv_wsa = 0\<rparr>"

record rv_env =
  rv_wsa_ok :: bool
  rv_socket :: "nat option"
  rv_bind :: bool
  rv_listen :: bool
  rv_thread :: bool

definition closesocket :: "rv_state \<Rightarrow> rv_state" where
  "closesocket st = st\<lparr>rv_open := rv_open st - set_option (g_listen_socket st), g_listen_socket := None\<rparr>"

definition WSACleanup :: "rv_state \<Rightarrow> rv_state" where
  "WSACleanup st = st\<lparr>rv_wsa := rv_wsa st - 1\<rparr>"

definition remoteview_start :: "rv_env \<Rightarrow> settings_state \<Rightarrow> rv_state \<Rightarrow> bool \<times> rv_state" where
  "remoteview_start env st rv =
     (if remote_view_enabled (settings_get st) = 0 then (True, rv)
      else if \<not> rv_wsa_ok env then (False, rv)
      else
        (let rv1 = rv\<lparr>rv_wsa := rv_wsa rv + 1, g_listen_socket := rv_socket env,
                      rv_open := rv_open rv \<union> set_option (rv_socket env)\<rparr>
         in if rv_socket env = None then (False, WSACleanup rv1)
            else if \<not> rv_bind env then (False, WSACleanup (closesocket rv1))
            else if \<not> rv_listen env then (False, WSACleanup (closesocket rv1))
            else (True, rv1\<lparr>g_running := True, g_thread := rv_thread env\<rparr>)))"

definition remoteview_stop :: "rv_state \<Rightarrow> rv_state" where
  "remoteview_stop rv =
     (if \<not> g_running rv then rv
      else
        (let rv1 = rv\<lparr>g_running := False\<rparr>;
             rv2 = (if g_listen_socket rv1 \<noteq> None then closesocket rv1 else rv1);
             rv3 = (if g_thread rv2 then rv2\<lparr>g_thread := False\<rparr> else rv2)
         in WSACleanup rv3))"

definition remoteview_restart :: "rv_env \<Rightarrow> settings_state \<Rightarrow> rv_state \<Rightarrow> bool \<times> rv_state" where
  "remoteview_restart env st rv = remoteview_start env st (remoteview_stop rv)"

section \<open>Facts\<close>

lemma scan_word_skip:
  assumes "\<forall>c \<in> set w. \<not> is_space c" and "w \<noteq> []" and "length w \<le> n" and "is_space d"
  shows "scan_word n (w @ d # s) = (w, d # s)"
proof -
  have "dropWhile is_space (w @ d # s) = w @ d # s" using assms(1,2) by (cases w) auto
  moreover have "takeWhile (\<lambda>c. \<not> is_space c) (w @ d # s) = w" using assms(1,4) by (simp add: takeWhile_append)
  ultimately show ?thesis using assms(3) by (simp add: scan_word_def)
qed

lemma scan_word_space: "is_space d \<Longrightarrow> scan_word n (d # s) = scan_word n s"
  by (simp add: scan_word_def)

text \<open>A well-formed request line: method, path, and anything after a blank.\<close>

lemma scan_request_line:
  assumes "\<forall>c \<in> set meth. \<not> is_space c" and "meth \<noteq> []" and "length meth \<le> 15"
    and "\<forall>c \<in> set path. \<not> is_space c" and "path \<noteq> []" and "length path \<le> 511"
  shows "scan_request (meth @ spc # path @ spc # rest) = (meth, path)"
proof -
  have sp: "is_space spc" by (simp add: is_space_def code_def)
  show ?thesis
    using assms scan_word_skip [OF assms(1-3) sp] scan_word_skip [OF assms(4-6) sp]
    by (simp add: scan_request_def scan_word_space [OF sp])
qed

lemma extractToken_query:
  assumes "CHR ''t'' \<notin> set p" and "\<forall>c \<in> set tok. c \<noteq> CHR ''&'' \<and> c \<noteq> spc"
  shows "extractToken (p @ ''token='' @ tok) = tok"
proof -
  have "str_find ''token='' (p @ ''token='' @ tok) = Some (length p)"
    using str_find_skip [OF assms(1), of "''oken=''" "''token='' @ tok"] by simp
  then show ?thesis using assms(2) by (simp add: extractToken_def takeWhile_eq_all_conv)
qed

lemma status_body_fields:
  "rv_status_body cv (p, w, t) =
     render_obj [(''process_name'', JStr (wideToUtf8 cv p)), (''window_title'', JStr (wideToUtf8 cv w)), (''since'', JInt t)]"
  by (simp add: rv_status_body_def render_obj_def obj_text_def render_field_def)

lemma handleClient_authorised:
  assumes "scan_request (c_str (take 4095 r)) = (''GET'', path)" and "r \<noteq> []"
    and "remote_view_enabled (settings_get st) \<noteq> 0" and "extractToken path = remote_view_token (settings_get st)"
    and "remote_view_token (settings_get st) \<noteq> []"
  shows "handleClient denv st tr db (Some r) =
    (if prefix ''/status'' path
     then (case activity_get_current 512 2048 tr of
             None \<Rightarrow> Crash | Some p \<Rightarrow> Reply (sendResponse 200 ''OK'' (rv_status_body (de_codec denv) p)))
     else if prefix ''/today'' path
     then Reply (sendResponse 200 ''OK''
            (rv_today_body (de_codec denv) (snd (db_build_daily_summary_text denv 4096 db))))
     else Reply (sendResponse 404 ''Not Found'' (error_body ''Unknown endpoint. Try /status or /today'')))"
  using assms by (simp add: handleClient_def Let_def)

text \<open>C20: Only an authorised request learns anything: if the reply depends at all on what is tracked or
  stored, then the request was a GET for one of the two endpoints, remote view is enabled, and the
  token in it is the configured one, which is not empty.\<close>

theorem remote_view_guarded:
  assumes "handleClient denv st tr db req \<noteq> handleClient denv' st tr' db' req"
  shows "\<exists>r path. req = Some r \<and> scan_request (c_str (take 4095 r)) = (''GET'', path) \<and>
    remote_view_enabled (settings_get st) \<noteq> 0 \<and> remote_view_token (settings_get st) \<noteq> [] \<and>
    extractToken path = remote_view_token (settings_get st) \<and> (prefix ''/status'' path \<or> prefix ''/today'' path)"
proof (cases req)
  case None
  then show ?thesis using assms by (simp add: handleClient_def)
next
  case (Some r)
  obtain meth path where sr: "scan_request (c_str (take 4095 r)) = (meth, path)"
    by (cases "scan_request (c_str (take 4095 r))")
  show ?thesis
  proof (cases "r = [] \<or> meth \<noteq> ''GET'' \<or> remote_view_enabled (settings_get st) = 0 \<or>
      remote_view_token (settings_get st) = [] \<or> extractToken path \<noteq> remote_view_token (settings_get st)")
    case True
    then have "handleClient denv st tr db req = handleClient denv' st tr' db' req"
      using Some sr by (auto simp: handleClient_def Let_def)
    with assms show ?thesis by simp
  next
    case False
    have h: "handleClient d st x y req =
      (if prefix ''/status'' path
       then (case activity_get_current 512 2048 x of
               None \<Rightarrow> Crash | Some p \<Rightarrow> Reply (sendResponse 200 ''OK'' (rv_status_body (de_codec d) p)))
       else if prefix ''/today'' path
       then Reply (sendResponse 200 ''OK''
              (rv_today_body (de_codec d) (snd (db_build_daily_summary_text d 4096 y))))
       else Reply (sendResponse 404 ''Not Found'' (error_body ''Unknown endpoint. Try /status or /today'')))" for d x y
      unfolding Some by (rule handleClient_authorised) (use sr False in simp_all)
    have "prefix ''/status'' path \<or> prefix ''/today'' path"
    proof (rule ccontr)
      assume "\<not> ?thesis"
      then have "handleClient denv st tr db req = handleClient denv' st tr' db' req" unfolding h by simp
      with assms show False ..
    qed
    then show ?thesis using Some sr False by auto
  qed
qed

text \<open>A status request with the right token is answered with the open session: the body is a JSON
  object whose fields read back as the process, the title and the start time.\<close>

theorem remote_view_status:
  assumes "r = ''GET /status?token='' @ remote_view_token (settings_get st) @ spc # rest"
    and "nul_free r" and "length r \<le> 4095"
    and "remote_view_enabled (settings_get st) \<noteq> 0" and "remote_view_token (settings_get st) \<noteq> []"
    and "\<forall>c \<in> set (remote_view_token (settings_get st)). \<not> is_space c \<and> c \<noteq> CHR ''&''"
    and "length (remote_view_token (settings_get st)) \<le> 497"
    and "length (ar_process_name (g_current_record tr)) < 512" and "length (ar_window_title (g_current_record tr)) < 2048"
    and "proc = wideToUtf8 (de_codec denv) (ar_process_name (g_current_record tr))"
    and "title = wideToUtf8 (de_codec denv) (ar_window_title (g_current_record tr))"
    and "row_text {''window_title'', ''since''} proc" and "printable title" and "\<not> hides ''since'' (''window_title'', JStr title)"
    and "in_i32 (ar_start_time (g_current_record tr))" and "length proc < n" and "length title < n"
  shows "\<exists>body. handleClient denv st tr db (Some r) = Reply (sendResponse 200 ''OK'' body) \<and>
    json_extract_string body ''process_name'' (int n) = Some proc \<and>
    json_extract_string body ''window_title'' (int n) = Some title \<and>
    json_extract_long body ''since'' = Some (ar_start_time (g_current_record tr), False)"
proof -
  let ?tok = "remote_view_token (settings_get st)"
  let ?path = "''/status?token='' @ ?tok"
  let ?t = "ar_start_time (g_current_record tr)"
  let ?body = "render_obj [(''process_name'', JStr proc), (''window_title'', JStr title), (''since'', JInt ?t)]"
  have r: "c_str (take 4095 r) = ''GET'' @ spc # ?path @ spc # rest" using assms(1-3) by simp
  have sr: "scan_request (c_str (take 4095 r)) = (''GET'', ?path)"
    unfolding r
  proof (rule scan_request_line)
    have "\<forall>c \<in> set ''/status?token=''. \<not> is_space c" by (simp add: is_space_def code_def)
    then show "\<forall>c \<in> set ?path. \<not> is_space c" using assms(6) unfolding set_append by blast
    show "\<forall>c \<in> set ''GET''. \<not> is_space c" by (simp add: is_space_def code_def)
  qed (use assms(7) in simp_all)
  have "is_space spc" by (simp add: is_space_def code_def)
  then have "\<forall>c \<in> set ?tok. c \<noteq> spc" using assms(6) by blast
  then have tok: "extractToken ?path = ?tok"
    using assms(6) by (simp add: extractToken_def takeWhile_eq_all_conv)
  have cur: "activity_get_current 512 2048 tr =
      Some (ar_process_name (g_current_record tr), ar_window_title (g_current_record tr), ?t)"
    using assms(8,9) by (simp add: activity_get_current_def wcscpy_s_def)
  have "handleClient denv st tr db (Some r) = Reply (sendResponse 200 ''OK'' ?body)"
    using handleClient_authorised [OF sr _ assms(4) tok assms(5), of denv tr db] assms(1) cur
    by (simp add: status_body_fields assms(10,11))
  moreover have keys: "key_ok ''process_name''" "key_ok ''window_title''" "key_ok ''since''"
    by (simp_all add: key_ok_def plain_char_def code_def)
  have cp: "clear_of ''window_title'' [(''process_name'', JStr proc)]"
    using clear_of_str [OF assms(12), of "''window_title''"] keys by simp
  have cs: "clear_of ''since'' [(''process_name'', JStr proc), (''window_title'', JStr title)]"
    using clear_of_str [OF assms(12), of "''since''" "''process_name''" "[(''window_title'', JStr title)]"] keys assms(14)
    by (simp add: clear_of_def [of _ "[(''window_title'', JStr title)]"])
  have "json_extract_string ?body ''process_name'' (int n) = Some proc"
    using row_string [of "''process_name''" "[]" "{''window_title'', ''since''}" proc n] keys assms(12,16) by simp
  moreover have "json_extract_string ?body ''window_title'' (int n) = Some title"
    using json_extract_string_field [of "[(''process_name'', JStr proc)]" "''window_title''" title "int n"]
      clear_ofD [OF cp] keys assms(13,17) by simp
  moreover have "json_extract_long ?body ''since'' = Some (?t, False)"
    using row_long [OF cs keys(3) assms(15), of "[]"] by simp
  ultimately show ?thesis by blast
qed

section \<open>The life cycle leaks nothing\<close>

inductive rv_step :: "rv_state \<Rightarrow> rv_state \<Rightarrow> bool" where
  booting: "\<not> g_running rv \<Longrightarrow> rv_step rv (snd (remoteview_start env st rv))"
| stopping: "rv_step rv (remoteview_stop rv)"
| restarting: "rv_step rv (snd (remoteview_restart env st rv))"

definition rv_inv :: "rv_state \<Rightarrow> bool" where
  "rv_inv rv \<longleftrightarrow> rv_open rv = set_option (g_listen_socket rv) \<and> (g_running rv \<longleftrightarrow> g_listen_socket rv \<noteq> None) \<and>
     rv_wsa rv = (if g_running rv then 1 else 0) \<and> (g_thread rv \<longrightarrow> g_running rv)"

lemma start_inv: "rv_inv rv \<Longrightarrow> \<not> g_running rv \<Longrightarrow> rv_inv (snd (remoteview_start env st rv))"
  by (cases "rv_socket env") (auto simp: rv_inv_def remoteview_start_def closesocket_def WSACleanup_def Let_def)

lemma stop_inv: "rv_inv rv \<Longrightarrow> rv_inv (remoteview_stop rv) \<and> \<not> g_running (remoteview_stop rv)"
  by (auto simp: rv_inv_def remoteview_stop_def closesocket_def WSACleanup_def Let_def)

lemma step_inv: "rv_step rv rv' \<Longrightarrow> rv_inv rv \<Longrightarrow> rv_inv rv'"
  by (induction rule: rv_step.induct) (auto simp: start_inv stop_inv remoteview_restart_def)

text \<open>Whatever fails and however often the server is stopped and restarted, nothing leaks: at most one
  listening socket is open, the one in use, the socket library is held exactly while the server runs,
  and a restart with remote view disabled leaves nothing open.\<close>

theorem remote_view_no_leak:
  assumes "rv_step\<^sup>*\<^sup>* rv_init rv"
  shows "rv_open rv = set_option (g_listen_socket rv) \<and> rv_wsa rv = (if g_running rv then 1 else 0) \<and>
    (remote_view_enabled (settings_get st) = 0 \<longrightarrow>
       (let rv' = snd (remoteview_restart env st rv) in rv_open rv' = {} \<and> rv_wsa rv' = 0 \<and> \<not> g_running rv'))"
proof -
  have "rv_inv rv_init" by (simp add: rv_inv_def rv_init_def)
  with assms have i: "rv_inv rv" by (induction rule: rtranclp_induct) (simp_all add: step_inv)
  have "rv_inv (remoteview_stop rv)" "\<not> g_running (remoteview_stop rv)" using stop_inv [OF i] by auto
  then show ?thesis using i by (auto simp: rv_inv_def remoteview_restart_def remoteview_start_def Let_def)
qed

definition rv_settings :: settings_state where
  "rv_settings = example_state\<lparr>g_settings := setDefaults\<lparr>remote_view_enabled := 1, remote_view_token := ''ab''\<rparr>\<rparr>"

lemma rv_settings_simps: "remote_view_enabled (settings_get rv_settings) = 1"
  "remote_view_token (settings_get rv_settings) = ''ab''"
  by (simp_all add: rv_settings_def settings_get_def)

lemma remote_view_no_leak_witness:
  "rv_open (remoteview_stop (snd (remoteview_start \<lparr>rv_wsa_ok = True, rv_socket = Some 5, rv_bind = True,
     rv_listen = True, rv_thread = True\<rparr> rv_settings rv_init))) = {}"
proof -
  let ?e = "\<lparr>rv_wsa_ok = True, rv_socket = Some 5, rv_bind = True, rv_listen = True, rv_thread = True\<rparr>"
  let ?a = "snd (remoteview_start ?e rv_settings rv_init)"
  have "rv_step rv_init ?a" by (rule rv_step.booting) (simp add: rv_init_def)
  then have "rv_step\<^sup>*\<^sup>* rv_init (remoteview_stop ?a)"
    by (meson converse_rtranclp_into_rtranclp r_into_rtranclp rv_step.stopping)
  from remote_view_no_leak [OF this] show ?thesis
    by (simp add: remoteview_stop_def remoteview_start_def rv_init_def rv_settings_simps closesocket_def WSACleanup_def)
qed

definition rv_request :: string where
  "rv_request = ''GET /status?token=ab HTTP/1.1''"

lemma rv_request_line: "scan_request (c_str (take 4095 rv_request)) = (''GET'', ''/status?token=ab'')"
proof -
  have "nul_free rv_request" "length rv_request \<le> 4095" by (simp_all add: rv_request_def)
  then have "c_str (take 4095 rv_request) = ''GET'' @ spc # ''/status?token=ab'' @ spc # ''HTTP/1.1''"
    by (simp add: rv_request_def)
  moreover have "scan_request (''GET'' @ spc # ''/status?token=ab'' @ spc # ''HTTP/1.1'') = (''GET'', ''/status?token=ab'')"
    by (rule scan_request_line) (simp_all add: is_space_def code_def)
  ultimately show ?thesis by simp
qed

lemma remote_view_guarded_witness:
  "\<exists>path. scan_request (c_str (take 4095 rv_request)) = (''GET'', path) \<and> extractToken path = ''ab''"
proof -
  let ?long = "track_init\<lparr>g_current_record := no_record\<lparr>ar_process_name := replicate 600 0\<rparr>\<rparr>"
  have tok: "extractToken ''/status?token=ab'' = remote_view_token (settings_get rv_settings)"
    using extractToken_query [of "''/s''"] by (simp add: rv_settings_simps extractToken_def)
  have h: "handleClient env0 rv_settings tr db0 (Some rv_request) =
      (case activity_get_current 512 2048 tr of
         None \<Rightarrow> Crash | Some p \<Rightarrow> Reply (sendResponse 200 ''OK'' (rv_status_body (de_codec env0) p)))" for tr
    using handleClient_authorised [OF rv_request_line _ _ tok, of env0 tr db0]
    by (simp add: rv_settings_simps rv_request_def)
  have "activity_get_current 512 2048 ?long = None" "activity_get_current 512 2048 track_init \<noteq> None"
    by (simp_all add: activity_get_current_def wcscpy_s_def track_init_def no_record_def)
  then have "handleClient env0 rv_settings track_init db0 (Some rv_request) \<noteq>
      handleClient env0 rv_settings ?long db0 (Some rv_request)"
    unfolding h by auto
  from remote_view_guarded [OF this] show ?thesis by (auto simp: rv_settings_simps)
qed

lemma remote_view_status_witness:
  "\<exists>body. handleClient env0 rv_settings (fst demo_open) db0 (Some rv_request) = Reply (sendResponse 200 ''OK'' body) \<and>
     json_extract_string body ''process_name'' 64 = Some ''a'' \<and> json_extract_long body ''since'' = Some (100, False)"
proof -
  have a: "wideToUtf8 ascii_codec [97] = ''a''" "wideToUtf8 ascii_codec [116] = ''t''" by code_simp+
  have cv: "de_codec env0 = ascii_codec" by (simp add: env0_def)
  have nh: "row_text {''window_title'', ''since''} ''a''" "printable ''t''" "\<not> hides ''since'' (''window_title'', JStr ''t'')"
    by (simp_all add: row_text_def plain_char_def printable_def code_def hides_def segs_def esc_char_def)
  have r: "rv_request = ''GET /status?token='' @ remote_view_token (settings_get rv_settings) @ spc # ''HTTP/1.1''"
    by (simp add: rv_request_def rv_settings_simps)
  have "\<exists>body. handleClient env0 rv_settings (fst demo_open) db0 (Some rv_request) = Reply (sendResponse 200 ''OK'' body) \<and>
    json_extract_string body ''process_name'' (int 64) = Some ''a'' \<and>
    json_extract_string body ''window_title'' (int 64) = Some ''t'' \<and>
    json_extract_long body ''since'' = Some (ar_start_time (g_current_record (fst demo_open)), False)"
    by (rule remote_view_status [OF r])
       (use a nh in \<open>simp_all add: rv_request_def rv_settings_simps demo_open_eq cv is_space_def code_def in_i32_def\<close>)
  then show ?thesis by (simp add: demo_open_eq) blast
qed

end
