(* ===== verification/Parent_Link.thy ===== *)
theory Parent_Link
  imports App_Limits
begin

text \<open>
  \<open>src/agent/shared/parentlink.cpp\<close>: the links between parent and child accounts. An invitation looks
  the child's account up by its email and then stores a pending link; approving and revoking patch the
  link's status. Whether the server lets a parent see a child's data is decided by its row policies,
  which have a theory of their own.
\<close>

section \<open>Data\<close>

record ParentLink =
  pl_id :: int
  pl_other_user_id :: string
  pl_other_email :: string
  pl_status :: string

definition MAX_LINK_UUID :: nat where "MAX_LINK_UUID = 40"
definition MAX_LINK_EMAIL :: nat where "MAX_LINK_EMAIL = 256"
definition MAX_LINK_STATUS :: nat where "MAX_LINK_STATUS = 16"

section \<open>Operations\<close>

definition stripJsonQuotes :: "string \<Rightarrow> string" where
  "stripJsonQuotes s =
     (if 2 \<le> length s \<and> hd s = quo \<and> last s = quo then take (length s - 2) (drop 1 s) else s)"

definition link_of_obj :: "string \<Rightarrow> string \<Rightarrow> string \<Rightarrow> ParentLink" where
  "link_of_obj uuid_field email_field obj =
     \<lparr>pl_id = (case json_extract_long obj ''id'' of Some (v, _) \<Rightarrow> v | None \<Rightarrow> 0),
      pl_other_user_id = extract_or_empty obj uuid_field MAX_LINK_UUID,
      pl_other_email = extract_or_empty obj email_field MAX_LINK_EMAIL,
      pl_status = extract_or_empty obj ''status'' MAX_LINK_STATUS\<rparr>"

definition listLinks ::
  "'w env \<Rightarrow> string \<Rightarrow> string \<Rightarrow> string \<Rightarrow> nat \<Rightarrow> 'w agent \<Rightarrow> ParentLink list \<times> 'w agent" where
  "listLinks env rpc_path uuid_field email_field max_out ag =
     (if \<not> auth_is_logged_in ag then ([], ag)
      else
        (let (res, ag1) = restclient_call env ''POST'' rpc_path (Some ''{}'') None 16384 ag
         in case res of
              None \<Rightarrow> ([], ag1)
            | Some (response, st) \<Rightarrow>
                if \<not> http_ok st then ([], ag1)
                else (map (link_of_obj uuid_field email_field)
                        (json_array_objs 2048 max_out (c_str response)), ag1)))"

definition status_body :: "string \<Rightarrow> string" where
  "status_body new_status =
     [CHR ''{'', quo] @ ''status'' @ [quo, CHR '':'', quo] @ new_status @ [quo, CHR ''}'']"

definition updateStatus ::
  "'w env \<Rightarrow> int \<Rightarrow> string \<Rightarrow> nat \<Rightarrow> 'w agent \<Rightarrow> (string + unit) \<times> 'w agent" where
  "updateStatus env link_id new_status err_out_size ag =
     (if \<not> auth_is_logged_in ag then (Inl (buf_copy err_out_size ''Ban can dang nhap truoc.''), ag)
      else
        (let (res, ag1) = restclient_call env ''PATCH'' (''/rest/v1/parent_links?id=eq.'' @ show_int link_id)
               (Some (status_body new_status)) (Some (''Prefer: return=minimal'' @ crlf)) 2048 ag
         in case res of
              None \<Rightarrow> (Inl (buf_copy err_out_size ''Khong the ket noi toi Supabase.''), ag1)
            | Some (response, st) \<Rightarrow>
                if http_ok st then (Inr (), ag1)
                else (Inl (buf_copy err_out_size (http_error st response)), ag1)))"

definition lookup_path :: string where
  "lookup_path = ''/rest/v1/rpc/find_user_id_by_email''"

definition links_path :: string where
  "links_path = ''/rest/v1/parent_links''"

definition lookup_body :: "string \<Rightarrow> string" where
  "lookup_body child_email =
     [CHR ''{'', quo] @ ''target_email'' @ [quo, CHR '':'', quo] @ jsonEscape child_email @ [quo, CHR ''}'']"

definition invite_body :: "string \<Rightarrow> string" where
  "invite_body childUserId =
     [CHR ''{'', quo] @ ''child_user_id'' @ [quo, CHR '':'', quo] @ childUserId @ [quo, CHR ''}'']"

definition no_account :: "string \<Rightarrow> string" where
  "no_account email =
     ''Khong tim thay tai khoan nao voi email '' @ quo # email @ quo #
     ''. Con can dang ky/dang nhap JustInTime bang chinh email nay truoc.''"

text \<open>What the lookup's reply says: the account's id, or the text of the error.\<close>

definition lookup_result :: "string \<Rightarrow> string \<Rightarrow> nat \<Rightarrow> string + string" where
  "lookup_result email response st =
     (if \<not> http_ok st then Inl (http_error st response)
      else if prefix ''null'' response then Inl (no_account email)
      else
        (let childUserId = stripJsonQuotes response
         in if childUserId = [] then Inl (''Phan hoi khong hop le tu server: '' @ response)
            else if MAX_LINK_UUID \<le> length childUserId
              then Inl ''ID tra ve tu server qua dai, khong hop le.''
            else Inr childUserId))"

definition parentlink_invite_child ::
  "'w env \<Rightarrow> string option \<Rightarrow> nat \<Rightarrow> 'w agent \<Rightarrow> (string + unit) \<times> 'w agent" where
  "parentlink_invite_child env child_email err_out_size ag =
     (if \<not> auth_is_logged_in ag then (Inl (buf_copy err_out_size ''Ban can dang nhap truoc.''), ag)
      else if child_email = None \<or> child_email = Some []
        then (Inl (buf_copy err_out_size ''Vui long nhap email cua con.''), ag)
      else
        (let email = the child_email;
             (res, ag1) = restclient_call env ''POST'' lookup_path (Some (lookup_body email)) None 2048 ag
         in case res of
              None \<Rightarrow> (Inl (buf_copy err_out_size ''Khong the ket noi toi Supabase.''), ag1)
            | Some (response, st) \<Rightarrow>
                (case lookup_result email (c_str response) st of
                   Inl e \<Rightarrow> (Inl (buf_copy err_out_size e), ag1)
                 | Inr childUserId \<Rightarrow>
                     (let (res2, ag2) = restclient_call env ''POST'' links_path
                            (Some (invite_body childUserId)) (Some (''Prefer: return=minimal'' @ crlf)) 2048 ag1
                      in case res2 of
                           None \<Rightarrow> (Inl (buf_copy err_out_size ''Khong the ket noi toi Supabase.''), ag2)
                         | Some (insertResp, insertStatus) \<Rightarrow>
                             if http_ok insertStatus then (Inr (), ag2)
                             else if insertStatus = 409
                               then (Inl (buf_copy err_out_size
                                       ''Da co lien ket (dang cho hoac da duoc chap nhan) voi tai khoan nay roi.''),
                                     ag2)
                             else (Inl (buf_copy err_out_size (http_error insertStatus insertResp)), ag2)))))"

definition parentlink_list_as_parent :: "'w env \<Rightarrow> nat \<Rightarrow> 'w agent \<Rightarrow> ParentLink list \<times> 'w agent" where
  "parentlink_list_as_parent env max_out ag =
     listLinks env ''/rest/v1/rpc/parent_links_for_parent'' ''child_user_id'' ''child_email'' max_out ag"

definition parentlink_list_as_child :: "'w env \<Rightarrow> nat \<Rightarrow> 'w agent \<Rightarrow> ParentLink list \<times> 'w agent" where
  "parentlink_list_as_child env max_out ag =
     listLinks env ''/rest/v1/rpc/parent_links_for_child'' ''parent_user_id'' ''parent_email'' max_out ag"

definition parentlink_approve :: "'w env \<Rightarrow> int \<Rightarrow> nat \<Rightarrow> 'w agent \<Rightarrow> (string + unit) \<times> 'w agent" where
  "parentlink_approve env link_id err_out_size ag = updateStatus env link_id ''approved'' err_out_size ag"

definition parentlink_revoke :: "'w env \<Rightarrow> int \<Rightarrow> nat \<Rightarrow> 'w agent \<Rightarrow> (string + unit) \<times> 'w agent" where
  "parentlink_revoke env link_id err_out_size ag = updateStatus env link_id ''revoked'' err_out_size ag"

section \<open>Properties\<close>

lemma buf_copy_starts: "1 < n \<Longrightarrow> c \<noteq> nul \<Longrightarrow> buf_copy n (c # s) \<noteq> []"
  by (simp add: buf_copy_def c_str_def)

lemma lookup_result_Inr:
  "lookup_result e r st = Inr child \<longleftrightarrow>
     http_ok st \<and> \<not> prefix ''null'' r \<and> child = stripJsonQuotes r \<and> child \<noteq> [] \<and> length child < MAX_LINK_UUID"
  by (auto simp: lookup_result_def Let_def)

lemma lookup_result_Inl:
  "lookup_result e r st = Inl msg \<Longrightarrow> \<exists>c s. msg = c # s \<and> c \<noteq> nul"
  by (auto simp: lookup_result_def http_error_def no_account_def Let_def split: if_splits)

text \<open>An invitation is reported as sent only if the email was looked up by the logged-in user, the
  server named a plausible account for it, and the link to exactly that account was accepted; every
  other outcome is an error whose text is not empty and fits the caller's buffer.\<close>

theorem invite_contract:
  assumes "parentlink_invite_child env email sz ag = (res, ag')" and "1 < sz"
  shows "(res = Inr () \<longrightarrow>
            auth_is_logged_in ag \<and>
            (\<exists>e child resp st ag1 resp2 st2. email = Some e \<and> e \<noteq> [] \<and>
               restclient_call env ''POST'' lookup_path (Some (lookup_body e)) None 2048 ag = (Some (resp, st), ag1) \<and>
               http_ok st \<and> child = stripJsonQuotes (c_str resp) \<and> child \<noteq> [] \<and> length child < MAX_LINK_UUID \<and>
               restclient_call env ''POST'' links_path (Some (invite_body child))
                 (Some (''Prefer: return=minimal'' @ crlf)) 2048 ag1 = (Some (resp2, st2), ag') \<and>
               http_ok st2)) \<and>
         (\<forall>e. res = Inl e \<longrightarrow> e \<noteq> [] \<and> length e < sz)"
proof -
  have len: "length (buf_copy sz x) < sz" for x using assms(2) by (simp add: buf_copy_length)
  note ne = buf_copy_starts [OF assms(2)]
  show ?thesis
  proof (cases "\<not> auth_is_logged_in ag \<or> email = None \<or> email = Some []")
    case True
    then show ?thesis using assms(1) len ne by (auto simp: parentlink_invite_child_def split: if_splits)
  next
    case False
    then obtain e where e: "email = Some e" "e \<noteq> []" "auth_is_logged_in ag" by auto
    obtain res1 ag1 where c1: "restclient_call env ''POST'' lookup_path (Some (lookup_body e)) None 2048 ag = (res1, ag1)"
      by (cases "restclient_call env ''POST'' lookup_path (Some (lookup_body e)) None 2048 ag")
    show ?thesis
    proof (cases res1)
      case None
      then show ?thesis using assms(1) e c1 len ne by (auto simp: parentlink_invite_child_def)
    next
      case (Some rs)
      obtain r st where rs: "rs = (r, st)" by (cases rs)
      show ?thesis
      proof (cases "lookup_result e (c_str r) st")
        case (Inl msg)
        then have "res = Inl (buf_copy sz msg)"
          using assms(1) e c1 Some rs by (simp add: parentlink_invite_child_def)
        then show ?thesis using lookup_result_Inl [OF Inl] len ne by auto
      next
        case (Inr child)
        note ch = Inr [unfolded lookup_result_Inr]
        obtain res2 ag2 where c2: "restclient_call env ''POST'' links_path (Some (invite_body child))
            (Some (''Prefer: return=minimal'' @ crlf)) 2048 ag1 = (res2, ag2)"
          by (cases "restclient_call env ''POST'' links_path (Some (invite_body child))
            (Some (''Prefer: return=minimal'' @ crlf)) 2048 ag1")
        have eq: "parentlink_invite_child env email sz ag =
            (case res2 of
               None \<Rightarrow> (Inl (buf_copy sz ''Khong the ket noi toi Supabase.''), ag2)
             | Some (insertResp, insertStatus) \<Rightarrow>
                 if http_ok insertStatus then (Inr (), ag2)
                 else if insertStatus = 409
                   then (Inl (buf_copy sz
                           ''Da co lien ket (dang cho hoac da duoc chap nhan) voi tai khoan nay roi.''), ag2)
                 else (Inl (buf_copy sz (http_error insertStatus insertResp)), ag2))"
          using e c1 Some rs Inr c2 by (simp add: parentlink_invite_child_def)
        show ?thesis
        proof (cases "\<exists>r2 st2. res2 = Some (r2, st2) \<and> http_ok st2")
          case True
          then show ?thesis using assms(1) eq e c1 Some rs ch c2 by fastforce
        next
          case False
          then obtain msg where "res = Inl (buf_copy sz msg)" "\<exists>c s. msg = c # s \<and> c \<noteq> nul"
            using assms(1) unfolding eq by (auto simp: http_error_def split: option.splits if_splits)
          then show ?thesis using len ne by auto
        qed
      qed
    qed
  qed
qed

lemma invite_contract_witness:
  "\<exists>e. fst (parentlink_invite_child (plain_env (fixed_net (\<lambda>_. None))) (Some ''kid'') 64 example_agent) = Inl e \<and>
     e \<noteq> [] \<and> length e < 64"
proof -
  let ?r = "parentlink_invite_child (plain_env (fixed_net (\<lambda>_. None))) (Some ''kid'') 64 example_agent"
  obtain res ag' where r: "?r = (res, ag')" by (cases ?r)
  obtain ag1 where "restclient_call (plain_env (fixed_net (\<lambda>_. None))) ''POST'' lookup_path
      (Some (lookup_body ''kid'')) None 2048 example_agent = (None, ag1)"
    using restclient_offline [of "plain_env (fixed_net (\<lambda>_. None))"]
    by (metis plain_env_def env.select_convs(1) prod.collapse)
  then have "\<exists>e. res = Inl e"
    using r by (auto simp: parentlink_invite_child_def auth_is_logged_in_def example_agent_def)
  then show ?thesis using invite_contract [OF r] r by auto
qed

end
