(* ===== verification/I18n_Table.thy ===== *)
theory I18n_Table
  imports Settings_Store
begin

text \<open>
  \<open>src/agent/shared/i18n.cpp\<close>: the texts of the agent's windows in English and Vietnamese, and their lookup by key.
  A text is UTF-8; a character that is not plain ASCII is written here as its code point, \<open>#0110;\<close> for U+0110.
\<close>

section \<open>Texts\<close>

definition utf8_of :: "nat \<Rightarrow> string" where
  "utf8_of n =
     (if n < 0x80 then [char_of n]
      else if n < 0x800 then [char_of (0xC0 + n div 64), char_of (0x80 + n mod 64)]
      else [char_of (0xE0 + n div 4096), char_of (0x80 + n div 64 mod 64), char_of (0x80 + n mod 64)])"

definition hex_value :: "char \<Rightarrow> nat" where
  "hex_value c = (if is_digit c then code c - 48 else code c - 55)"

fun ucn :: "string \<Rightarrow> string" where
  "ucn [] = []"
| "ucn (c # cs) =
     (if c = CHR ''#''
      then (case cs of
              a # b # d # e # semi # rest \<Rightarrow>
                utf8_of (((hex_value a * 16 + hex_value b) * 16 + hex_value d) * 16 + hex_value e) @ ucn rest
            | _ \<Rightarrow> c # ucn cs)
      else c # ucn cs)"

record I18nEntry =
  ie_key :: string
  ie_en :: string
  ie_vi :: string

definition entry :: "string \<Rightarrow> string \<Rightarrow> string \<Rightarrow> I18nEntry" where
  "entry k e v = \<lparr>ie_key = k, ie_en = e, ie_vi = v\<rparr>"

definition tray_entries :: "I18nEntry list" where
  "tray_entries =
    [entry ''tray.login''
      ''Log in / Sign up...''
      (ucn ''#0110;#0103;ng nh#1EAD;p / #0110;#0103;ng k#00FD;...''),
     entry ''tray.logout''
      ''Log out''
      (ucn ''#0110;#0103;ng xu#1EA5;t''),
     entry ''tray.pause''
      ''Pause tracking''
      (ucn ''T#1EA1;m d#1EEB;ng theo d#00F5;i''),
     entry ''tray.resume''
      ''Resume tracking''
      (ucn ''Ti#1EBF;p t#1EE5;c theo d#00F5;i''),
     entry ''tray.report''
      (ucn ''View today#0027;s report'')
      (ucn ''Xem b#00E1;o c#00E1;o h#00F4;m nay''),
     entry ''tray.settings''
      ''Settings...''
      (ucn ''C#00E0;i #0111;#1EB7;t...''),
     entry ''tray.supabase_setup''
      ''Supabase Setup...''
      (ucn ''Thi#1EBF;t l#1EAD;p Supabase...''),
     entry ''tray.remote_view''
      ''Remote View...''
      (ucn ''Xem t#1EEB; xa...''),
     entry ''tray.dashboards_menu''
      ''Dashboards''
      (ucn ''B#1EA3;ng #0111;i#1EC1;u khi#1EC3;n''),
     entry ''tray.dashboard_python''
      ''Open Web Dashboard (Python)''
      (ucn ''M#1EDF; Dashboard Web (Python)''),
     entry ''tray.dashboard_go''
      ''Open Dashboard''
      (ucn ''M#1EDF; Dashboard''),
     entry ''tray.dashboard_tip''
      (ucn (''#0022;Open Dashboard#0022; launches a separate native window (no browser). The Python dashboard is '' @
        ''a legacy, separate web app on http://127.0.0.1:5000, kept for now.''))
      (ucn (''#0022;M#1EDF; Dashboard#0022; ch#1EA1;y 1 c#1EED;a s#1ED5; ri#00EA;ng (kh#00F4;ng c#1EA7;n tr#00EC;'' @
        ''nh duy#1EC7;t). Dashboard Python l#00E0; b#1EA3;n web c#0169;, ri#00EA;ng bi#1EC7;t, t#1EA1;i '' @
        ''http://127.0.0.1:5000, v#1EAB;n gi#1EEF; l#1EA1;i t#1EA1;m th#1EDD;i.'')),
     entry ''tray.parent_link''
      ''Monitored By...''
      (ucn ''#0110;#01B0;#1EE3;c Gi#00E1;m S#00E1;t B#1EDF;i...''),
     entry ''tray.parent_link_tip''
      (ucn (''See the full list of parent accounts requesting or already approved to view this device#0027;s '' @
        ''activity, and revoke access at any time.''))
      (ucn (''Xem #0111;#1EA7;y #0111;#1EE7; danh s#00E1;ch t#00E0;i kho#1EA3;n ph#1EE5; huynh #0111;ang xin/'' @
        ''#0111;#00E3; #0111;#01B0;#1EE3;c xem ho#1EA1;t #0111;#1ED9;ng c#1EE7;a m#00E1;y n#00E0;y, v#00E0; '' @
        ''thu h#1ED3;i quy#1EC1;n xem b#1EA5;t k#1EF3; l#00FA;c n#00E0;o.'')),
     entry ''tray.parent_dashboard''
      ''Parent Dashboard...''
      (ucn ''B#1EA3;ng #0110;i#1EC1;u Khi#1EC3;n Ph#1EE5; Huynh...''),
     entry ''tray.parent_dashboard_tip''
      ''Invite a child, view their activity, and set time limits/blocked apps.''
      (ucn (''M#1EDD;i con, xem ho#1EA1;t #0111;#1ED9;ng, v#00E0; #0111;#1EB7;t gi#1EDB;i h#1EA1;n th#1EDD;i '' @
        ''gian/ch#1EB7;n app.'')),
     entry ''tray.debug_console''
      ''Show debug console''
      (ucn ''Hi#1EC7;n c#1EED;a s#1ED5; debug''),
     entry ''tray.check_updates''
      ''Check for Updates...''
      (ucn ''Ki#1EC3;m tra c#1EAD;p nh#1EAD;t...''),
     entry ''tray.checking_updates''
      ''Checking for updates...''
      (ucn ''#0110;ang ki#1EC3;m tra c#1EAD;p nh#1EAD;t...''),
     entry ''tray.about''
      ''About JustInTime...''
      (ucn ''Gi#1EDB;i thi#1EC7;u JustInTime...''),
     entry ''tray.exit''
      ''Exit''
      (ucn ''Tho#00E1;t''),
     entry ''tray.update_available''
      (ucn ''#005C;xE2#005C;xAC#005C;x86 Update available: v%1'')
      (ucn ''#005C;xE2#005C;xAC#005C;x86 C#00F3; b#1EA3;n c#1EAD;p nh#1EAD;t: v%1''),
     entry ''tray.logged_in_as''
      ''Logged in: %1''
      (ucn ''#0110;#00E3; #0111;#0103;ng nh#1EAD;p: %1'')]"

definition about_entries :: "I18nEntry list" where
  "about_entries =
    [entry ''about.title''
      ''About JustInTime''
      (ucn ''Gi#1EDB;i thi#1EC7;u JustInTime''),
     entry ''about.body''
      (ucn (''<h3>JustInTime</h3><p>Version %1</p><p>Lightweight activity tracker with optional Supabase cloud '' @
        ''sync, a local/offline dashboard, and consent-based parent/child linking.</p><p>Publisher: %2<br><a '' @
        ''href=#0022;%3#0022;>%3</a></p>''))
      (ucn (''<h3>JustInTime</h3><p>Phi#00EA;n b#1EA3;n %1</p><p>C#00F4;ng c#1EE5; theo d#00F5;i ho#1EA1;t #0111;'' @
        ''#1ED9;ng m#00E1;y t#00ED;nh g#1ECD;n nh#1EB9;, #0111;#1ED3;ng b#1ED9; cloud tu#1EF3; ch#1ECD;n qua '' @
        ''Supabase, dashboard c#1EE5;c b#1ED9;/offline, v#00E0; li#00EA;n k#1EBF;t ph#1EE5; huynh-con c#00F3; '' @
        ''#0111;#1ED3;ng thu#1EAD;n.</p><p>Nh#00E0; ph#00E1;t h#00E0;nh: %2<br><a href=#0022;%3#0022;'' @
        ''>%3</a></p>''))]"

definition update_entries :: "I18nEntry list" where
  "update_entries =
    [entry ''update.you_have_latest''
      (ucn ''You#0027;re running the latest version (%1).'')
      (ucn ''B#1EA1;n #0111;ang d#00F9;ng phi#00EA;n b#1EA3;n m#1EDB;i nh#1EA5;t (%1).''),
     entry ''update.check_failed''
      (ucn ''Could not check for updates:#000A;%1'')
      (ucn ''Kh#00F4;ng th#1EC3; ki#1EC3;m tra c#1EAD;p nh#1EAD;t:#000A;%1'')]"

definition limit_entries :: "I18nEntry list" where
  "limit_entries =
    [entry ''limit.blocked''
      (ucn ''#0022;%1#0022; has been closed - a parent has blocked this app.'')
      (ucn (''#0022;%1#0022; #0111;#00E3; b#1ECB; #0111;#00F3;ng - ph#1EE5; huynh #0111;#00E3; ch#1EB7;n #1EE9;ng '' @
        ''d#1EE5;ng n#00E0;y.'')),
     entry ''limit.time_up''
      (ucn ''#0022;%1#0022; has been closed - today#0027;s time limit set by a parent has been reached.'')
      (ucn (''#0022;%1#0022; #0111;#00E3; b#1ECB; #0111;#00F3;ng - #0111;#00E3; h#1EBF;t th#1EDD;i gian s#1EED; d'' @
        ''#1EE5;ng h#00F4;m nay do ph#1EE5; huynh #0111;#1EB7;t.'')),
     entry ''limit.generic''
      (ucn ''#0022;%1#0022; has been closed by a parent-set limit.'')
      (ucn (''#0022;%1#0022; #0111;#00E3; b#1ECB; #0111;#00F3;ng do gi#1EDB;i h#1EA1;n ph#1EE5; huynh #0111;#1EB7;'' @
        ''t.''))]"

definition role_entries :: "I18nEntry list" where
  "role_entries =
    [entry ''settings.role_label''
      (ucn ''This machine#0027;s role:'')
      (ucn ''Vai tr#00F2; m#00E1;y n#00E0;y:''),
     entry ''settings.role_child''
      ''Child (Agent) - this machine is tracked/limited''
      (ucn ''Con (Agent) - m#00E1;y n#00E0;y #0111;#01B0;#1EE3;c theo d#00F5;i/gi#1EDB;i h#1EA1;n''),
     entry ''settings.role_parent''
      ''Parent - this machine views/limits child machines''
      (ucn ''Ph#1EE5; huynh (Parent) - m#00E1;y n#00E0;y xem/gi#1EDB;i h#1EA1;n m#00E1;y con''),
     entry ''settings.role_note''
      (ucn (''Changing role does not delete data already tracked on this machine. #0022;Child#0022; is the '' @
        ''default and keeps the old behavior.''))
      (ucn (''#0110;#1ED5;i vai tr#00F2; kh#00F4;ng xo#00E1; d#1EEF; li#1EC7;u #0111;#00E3; theo d#00F5;i tr#00EA;'' @
        ''n m#00E1;y n#00E0;y. Vai tr#00F2; #0022;Con#0022; l#00E0; m#1EB7;c #0111;#1ECB;nh v#00E0; gi#1EEF; '' @
        ''nguy#00EA;n h#00E0;nh vi c#0169;.'')),
     entry ''settings.language_label''
      ''Interface language:''
      (ucn ''Ng#00F4;n ng#1EEF; giao di#1EC7;n:''),
     entry ''settings.page_title''
      ''Settings''
      (ucn ''C#00E0;i #0111;#1EB7;t''),
     entry ''page.save_btn''
      ''Save''
      (ucn ''L#01B0;u'')]"

definition plink_entries :: "I18nEntry list" where
  "plink_entries =
    [entry ''plink.title''
      ''Monitored By...''
      (ucn ''#0110;#01B0;#1EE3;c gi#00E1;m s#00E1;t b#1EDF;i...''),
     entry ''plink.note''
      (ucn (''The list below shows EVERY parent account requesting or already approved to view this device#0027;s '' @
        ''activity, including pending invites. You can revoke access at any time.''))
      (ucn (''Danh s#00E1;ch d#01B0;#1EDB;i #0111;#00E2;y li#1EC7;t k#00EA; #0110;#1EA6;Y #0110;#1EE6; m#1ECD;i t'' @
        ''#00E0;i kho#1EA3;n ph#1EE5; huynh #0111;ang xin ho#1EB7;c #0111;#00E3; #0111;#01B0;#1EE3;c ph#00E9;'' @
        ''p xem ho#1EA1;t #0111;#1ED9;ng c#1EE7;a m#00E1;y n#00E0;y, k#1EC3; c#1EA3; c#00E1;c l#1EDD;i m#1EDD;'' @
        ''i #0111;ang ch#1EDD; b#1EA1;n #0111;#1ED3;ng #00FD;. B#1EA1;n c#00F3; th#1EC3; thu h#1ED3;i quy'' @
        ''#1EC1;n xem b#1EA5;t k#1EF3; l#00FA;c n#00E0;o.'')),
     entry ''plink.col_email''
      ''Parent email''
      (ucn ''Email ph#1EE5; huynh''),
     entry ''plink.col_status''
      ''Status''
      (ucn ''Tr#1EA1;ng th#00E1;i''),
     entry ''plink.approve_btn''
      ''Approve''
      (ucn ''#0110;#1ED3;ng #00FD; (Approve)''),
     entry ''plink.revoke_btn''
      ''Revoke''
      (ucn ''Thu h#1ED3;i (Revoke)''),
     entry ''plink.close_btn''
      ''Close''
      (ucn ''#0110;#00F3;ng''),
     entry ''plink.status_pending''
      ''Waiting for your approval''
      (ucn ''#0110;ang ch#1EDD; b#1EA1;n #0111;#1ED3;ng #00FD;''),
     entry ''plink.status_approved''
      ''Approved - currently monitoring''
      (ucn ''#0110;#00E3; #0111;#1ED3;ng #00FD; - #0111;ang #0111;#01B0;#1EE3;c xem''),
     entry ''plink.status_revoked''
      ''Revoked''
      (ucn ''#0110;#00E3; thu h#1ED3;i''),
     entry ''plink.empty''
      ''No parent accounts linked to this device yet.''
      (ucn ''Ch#01B0;a c#00F3; ph#1EE5; huynh n#00E0;o li#00EA;n k#1EBF;t v#1EDB;i t#00E0;i kho#1EA3;n n#00E0;y.''),
     entry ''plink.select_row''
      ''Select a row in the list first.''
      (ucn ''Ch#1ECD;n 1 d#00F2;ng trong danh s#00E1;ch tr#01B0;#1EDB;c.''),
     entry ''plink.approved_msg''
      (ucn ''This parent can now view this device#0027;s activity.'')
      (ucn (''#0110;#00E3; #0111;#1ED3;ng #00FD; cho ph#1EE5; huynh n#00E0;y xem ho#1EA1;t #0111;#1ED9;ng c#1EE7;'' @
        ''a m#00E1;y.'')),
     entry ''plink.revoke_confirm''
      (ucn ''Revoke this parent#0027;s access? They will no longer be able to view this device#0027;s activity.'')
      (ucn (''Thu h#1ED3;i quy#1EC1;n xem c#1EE7;a ph#1EE5; huynh n#00E0;y? H#1ECD; s#1EBD; kh#00F4;ng c#00F2;n '' @
        ''xem #0111;#01B0;#1EE3;c ho#1EA1;t #0111;#1ED9;ng c#1EE7;a m#00E1;y n#1EEF;a.'')),
     entry ''plink.revoked_msg''
      ''Revoked.''
      (ucn ''#0110;#00E3; thu h#1ED3;i.'')]"

definition pdlg_entries :: "I18nEntry list" where
  "pdlg_entries =
    [entry ''pdlg.title''
      ''Parent Dashboard''
      ''Parent Dashboard'',
     entry ''pdlg.invite_box''
      ''Invite a New Child''
      (ucn ''M#1EDD;i con m#1EDB;i''),
     entry ''pdlg.invite_note''
      (ucn (''Enter your child#0027;s JustInTime account email. They will see this invite under #0022;Monitored '' @
        ''By...#0022; and must approve it before you can see their activity.''))
      (ucn (''Nh#1EAD;p email t#00E0;i kho#1EA3;n JustInTime c#1EE7;a con. Con s#1EBD; th#1EA5;y l#1EDD;i m#1EDD;'' @
        ''i n#00E0;y trong m#1EE5;c #0022;#0110;#01B0;#1EE3;c gi#00E1;m s#00E1;t b#1EDF;i...#0022; v#00E0; ph'' @
        ''#1EA3;i ch#1EE7; #0111;#1ED9;ng #0111;#1ED3;ng #00FD; th#00EC; b#1EA1;n m#1EDB;i xem #0111;#01B0;'' @
        ''#1EE3;c ho#1EA1;t #0111;#1ED9;ng c#1EE7;a con.'')),
     entry ''pdlg.invite_placeholder''
      ''child-email@example.com''
      ''email-cua-con@example.com'',
     entry ''pdlg.invite_btn''
      ''Send Invite''
      (ucn ''G#1EED;i l#1EDD;i m#1EDD;i''),
     entry ''pdlg.children_box''
      ''Linked Children''
      (ucn ''C#00E1;c con #0111;#00E3; li#00EA;n k#1EBF;t''),
     entry ''pdlg.col_email''
      ''Child email''
      ''Email con'',
     entry ''pdlg.col_status''
      ''Status''
      (ucn ''Tr#1EA1;ng th#00E1;i''),
     entry ''pdlg.status_pending''
      ''Waiting for approval''
      (ucn ''#0110;ang ch#1EDD; con #0111;#1ED3;ng #00FD;''),
     entry ''pdlg.status_approved''
      ''Approved - visible''
      (ucn ''#0110;#00E3; #0111;#1ED3;ng #00FD; - #0111;ang xem #0111;#01B0;#1EE3;c''),
     entry ''pdlg.status_revoked''
      ''Revoked''
      (ucn ''#0110;#00E3; b#1ECB; thu h#1ED3;i''),
     entry ''pdlg.children_empty''
      ''No children invited yet. Use the box above to send your first invite.''
      (ucn (''Ch#01B0;a m#1EDD;i con n#00E0;o. D#00F9;ng #00F4; ph#00ED;a tr#00EA;n #0111;#1EC3; g#1EED;i l#1EDD;'' @
        ''i m#1EDD;i #0111;#1EA7;u ti#00EA;n.'')),
     entry ''pdlg.limits_box''
      ''App Limits''
      (ucn ''Gi#1EDB;i h#1EA1;n #1EE9;ng d#1EE5;ng''),
     entry ''pdlg.limits_hint_select''
      ''Select an approved child above to view/set limits.''
      (ucn (''Ch#1ECD;n 1 con #0111;#00E3; #0022;#0110;#00E3; #0111;#1ED3;ng #00FD;#0022; #1EDF; tr#00EA;n #0111;'' @
        ''#1EC3; xem/#0111;#1EB7;t gi#1EDB;i h#1EA1;n.'')),
     entry ''pdlg.limits_hint_count''
      (ucn (''%1 limit(s) currently applied. Limits won#0027;t load/save if the child hasn#0027;t approved yet ('' @
        ''#0022;pending#0022;).''))
      (ucn (''%1 gi#1EDB;i h#1EA1;n #0111;ang #00E1;p d#1EE5;ng. N#1EBF;u con ch#01B0;a #0111;#1ED3;ng #00FD; ('' @
        ''#0022;pending#0022;), gi#1EDB;i h#1EA1;n s#1EBD; kh#00F4;ng t#1EA3;i/l#01B0;u #0111;#01B0;#1EE3;c.'')),
     entry ''pdlg.limits_none''
      ''No limits set for this child yet. Fill the form below to add one.''
      (ucn (''Ch#01B0;a c#00F3; gi#1EDB;i h#1EA1;n n#00E0;o cho con n#00E0;y. #0110;i#1EC1;n form b#00EA;n d#01B0;'' @
        ''#1EDB;i #0111;#1EC3; th#00EA;m.'')),
     entry ''pdlg.limit_process''
      ''Process name:''
      (ucn ''T#00EA;n ti#1EBF;n tr#00EC;nh:''),
     entry ''pdlg.limit_process_placeholder''
      ''e.g. RobloxPlayerBeta.exe''
      ''vd: RobloxPlayerBeta.exe'',
     entry ''pdlg.limit_amount''
      ''Limit:''
      (ucn ''Gi#1EDB;i h#1EA1;n:''),
     entry ''pdlg.limit_minutes_suffix''
      '' min/day''
      (ucn '' ph#00FA;t/ng#00E0;y''),
     entry ''pdlg.limit_nolimit''
      ''No time limit''
      (ucn ''Kh#00F4;ng gi#1EDB;i h#1EA1;n th#1EDD;i gian''),
     entry ''pdlg.limit_block''
      (ucn ''Block entirely (app can#0027;t be opened)'')
      (ucn ''Ch#1EB7;n h#1EB3;n (kh#00F4;ng cho m#1EDF; app n#00E0;y)''),
     entry ''pdlg.limit_save_btn''
      ''Save Limit''
      (ucn ''L#01B0;u gi#1EDB;i h#1EA1;n''),
     entry ''pdlg.limit_delete_btn''
      ''Delete Selected Limit''
      (ucn ''Xo#00E1; gi#1EDB;i h#1EA1;n #0111;#00E3; ch#1ECD;n''),
     entry ''pdlg.limit_blocked_label''
      ''-''
      ''-'',
     entry ''pdlg.limit_unlimited''
      ''No limit''
      (ucn ''Kh#00F4;ng gi#1EDB;i h#1EA1;n''),
     entry ''pdlg.limit_allowed''
      ''Allowed (limited)''
      (ucn ''Cho ph#00E9;p (c#00F3; gi#1EDB;i h#1EA1;n)''),
     entry ''pdlg.close_btn''
      ''Close''
      (ucn ''#0110;#00F3;ng''),
     entry ''pdlg.select_child_first''
      ''Select a child in the list above first.''
      (ucn ''Ch#1ECD;n 1 con trong danh s#00E1;ch ph#00ED;a tr#00EA;n tr#01B0;#1EDB;c.''),
     entry ''pdlg.enter_process''
      ''Enter a process name (e.g. RobloxPlayerBeta.exe).''
      (ucn ''Nh#1EAD;p t#00EA;n ti#1EBF;n tr#00EC;nh (vd: RobloxPlayerBeta.exe).''),
     entry ''pdlg.invite_sent''
      (ucn ''Invite sent. The child needs to open #0022;Monitored By...#0022; on their device to approve it.'')
      (ucn (''#0110;#00E3; g#1EED;i l#1EDD;i m#1EDD;i. Con c#1EA7;n v#00E0;o m#1EE5;c #0022;#0110;#01B0;#1EE3;c gi'' @
        ''#00E1;m s#00E1;t b#1EDF;i...#0022; tr#00EA;n m#00E1;y c#1EE7;a con #0111;#1EC3; #0111;#1ED3;ng '' @
        ''#00FD;.'')),
     entry ''pdlg.limit_saved''
      ''Limit saved.''
      (ucn ''#0110;#00E3; l#01B0;u gi#1EDB;i h#1EA1;n.''),
     entry ''pdlg.enter_child_email''
      (ucn ''Enter your child#0027;s email first.'')
      (ucn ''Nh#1EAD;p email c#1EE7;a con tr#01B0;#1EDB;c.''),
     entry ''pdlg.select_limit_first''
      ''Select a limit in the list first.''
      (ucn ''Ch#1ECD;n 1 gi#1EDB;i h#1EA1;n trong danh s#00E1;ch tr#01B0;#1EDB;c.'')]"

definition cp_entries :: "I18nEntry list" where
  "cp_entries =
    [entry ''cp.title''
      ''JustInTime Control Panel''
      (ucn ''B#1EA3;ng #0111;i#1EC1;u khi#1EC3;n JustInTime''),
     entry ''cp.nav_overview''
      ''Overview''
      (ucn ''T#1ED5;ng quan''),
     entry ''cp.nav_account''
      ''Account''
      (ucn ''T#00E0;i kho#1EA3;n''),
     entry ''cp.nav_settings''
      ''Settings''
      (ucn ''C#00E0;i #0111;#1EB7;t''),
     entry ''cp.nav_remoteview''
      ''Remote View''
      (ucn ''Xem t#1EEB; xa''),
     entry ''cp.nav_parentlink''
      ''Monitored By''
      (ucn ''#0110;#01B0;#1EE3;c gi#00E1;m s#00E1;t b#1EDF;i''),
     entry ''cp.nav_family''
      ''Family''
      (ucn ''Gia #0111;#00EC;nh''),
     entry ''cp.nav_advanced''
      ''Advanced''
      (ucn ''N#00E2;ng cao''),
     entry ''cp.nav_about''
      ''About''
      (ucn ''Gi#1EDB;i thi#1EC7;u''),
     entry ''cp.overview_greeting_in''
      ''Welcome back''
      (ucn ''Ch#00E0;o m#1EEB;ng tr#1EDF; l#1EA1;i''),
     entry ''cp.overview_greeting_out''
      ''Welcome to JustInTime''
      (ucn ''Ch#00E0;o m#1EEB;ng #0111;#1EBF;n v#1EDB;i JustInTime''),
     entry ''cp.overview_not_logged_in''
      (ucn (''You#0027;re not logged in yet. Your activity is still tracked and saved locally on this computer - '' @
        ''logging in just adds cloud sync, family features, and Remote View.''))
      (ucn (''B#1EA1;n ch#01B0;a #0111;#0103;ng nh#1EAD;p. Ho#1EA1;t #0111;#1ED9;ng v#1EAB;n #0111;#01B0;#1EE3;c '' @
        ''theo d#00F5;i v#00E0; l#01B0;u c#1EE5;c b#1ED9; tr#00EA;n m#00E1;y n#00E0;y b#00EC;nh th#01B0;#1EDD;'' @
        ''ng - #0111;#0103;ng nh#1EAD;p ch#1EC9; #0111;#1EC3; th#00EA;m #0111;#1ED3;ng b#1ED9; #0111;#00E1;m m'' @
        ''#00E2;y, t#00ED;nh n#0103;ng gia #0111;#00EC;nh, v#00E0; Xem t#1EEB; xa.'')),
     entry ''cp.overview_login_cta''
      ''Log in / Sign up''
      (ucn ''#0110;#0103;ng nh#1EAD;p / #0110;#0103;ng k#00FD;''),
     entry ''cp.overview_status_tracking''
      ''Tracking your activity right now.''
      (ucn ''#0110;ang theo d#00F5;i ho#1EA1;t #0111;#1ED9;ng.''),
     entry ''cp.overview_status_paused''
      ''Tracking is paused.''
      (ucn ''#0110;ang t#1EA1;m d#1EEB;ng theo d#00F5;i.''),
     entry ''cp.overview_pause_btn''
      ''Pause tracking''
      (ucn ''T#1EA1;m d#1EEB;ng theo d#00F5;i''),
     entry ''cp.overview_resume_btn''
      ''Resume tracking''
      (ucn ''Ti#1EBF;p t#1EE5;c theo d#00F5;i''),
     entry ''cp.overview_today_title''
      ''Today so far''
      (ucn ''H#00F4;m nay''),
     entry ''cp.overview_quick_links''
      ''Quick links''
      (ucn ''L#1ED1;i t#1EAF;t nhanh''),
     entry ''cp.overview_open_dashboard''
      ''Open full Dashboard''
      (ucn ''M#1EDF; Dashboard #0111;#1EA7;y #0111;#1EE7;''),
     entry ''cp.overview_first_run_title''
      ''First time here?''
      (ucn ''L#1EA7;n #0111;#1EA7;u d#00F9;ng?''),
     entry ''cp.overview_first_run_body''
      (ucn (''JustInTime quietly tracks which apps and windows you use, so you (or, if you choose, a linked '' @
        ''family member) can see how time is spent. Nothing is hidden: check #0022;Monitored By#0022; any '' @
        ''time to see exactly who can see this computer#0027;s activity, and revoke access whenever you want.''))
      (ucn (''JustInTime #00E2;m th#1EA7;m ghi l#1EA1;i app/c#1EED;a s#1ED5; b#1EA1;n d#00F9;ng, #0111;#1EC3; b'' @
        ''#1EA1;n (ho#1EB7;c, n#1EBF;u b#1EA1;n ch#1ECD;n, m#1ED9;t th#00E0;nh vi#00EA;n gia #0111;#00EC;nh '' @
        ''#0111;#00E3; li#00EA;n k#1EBF;t) xem #0111;#01B0;#1EE3;c th#1EDD;i gian d#00F9;ng m#00E1;y. Kh#00F4;'' @
        ''ng c#00F3; g#00EC; b#1ECB; gi#1EA5;u: xem m#1EE5;c #0022;#0110;#01B0;#1EE3;c gi#00E1;m s#00E1;t b'' @
        ''#1EDF;i#0022; b#1EA5;t c#1EE9; l#00FA;c n#00E0;o #0111;#1EC3; bi#1EBF;t ch#00ED;nh x#00E1;c ai '' @
        ''#0111;ang xem #0111;#01B0;#1EE3;c ho#1EA1;t #0111;#1ED9;ng c#1EE7;a m#00E1;y n#00E0;y, v#00E0; thu h'' @
        ''#1ED3;i quy#1EC1;n xem b#1EA5;t c#1EE9; khi n#00E0;o b#1EA1;n mu#1ED1;n.'')),
     entry ''cp.overview_no_data''
      ''No activity recorded yet today.''
      (ucn ''Ch#01B0;a c#00F3; ho#1EA1;t #0111;#1ED9;ng n#00E0;o #0111;#01B0;#1EE3;c ghi l#1EA1;i h#00F4;m nay.''),
     entry ''cp.overview_machines_title''
      ''Machines''
      (ucn ''C#00E1;c m#00E1;y''),
     entry ''cp.overview_machines_this_device''
      ''(this device)''
      (ucn ''(m#00E1;y n#00E0;y)''),
     entry ''cp.overview_machines_login_required''
      ''Log in to see every device linked to your account.''
      (ucn (''#0110;#0103;ng nh#1EAD;p #0111;#1EC3; xem m#1ECD;i thi#1EBF;t b#1ECB; li#00EA;n k#1EBF;t v#1EDB;i t'' @
        ''#00E0;i kho#1EA3;n c#1EE7;a b#1EA1;n.'')),
     entry ''cp.overview_machines_none''
      ''No other devices have reported in yet.''
      (ucn ''Ch#01B0;a c#00F3; thi#1EBF;t b#1ECB; n#00E0;o kh#00E1;c g#1EED;i t#00ED;n hi#1EC7;u.''),
     entry ''cp.overview_dashboard_missing''
      ((''Could not find the web dashboard (%1). Make sure JustInTime Dashboard is installed in the same '' @
        ''folder as this app.''))
      (ucn (''Kh#00F4;ng t#00EC;m th#1EA5;y dashboard web (%1). H#00E3;y ch#1EAF;c ch#1EAF;n JustInTime Dashboard '' @
        ''#0111;#00E3; #0111;#01B0;#1EE3;c c#00E0;i c#00F9;ng th#01B0; m#1EE5;c v#1EDB;i app n#00E0;y.''))]"

definition login_entries :: "I18nEntry list" where
  "login_entries =
    [entry ''login.heading''
      ''Account''
      (ucn ''T#00E0;i kho#1EA3;n''),
     entry ''login.note''
      ((''Log in to sync your activity to the cloud, link with a parent account, or use Remote View / device '' @
        ''messaging.''))
      (ucn (''#0110;#0103;ng nh#1EAD;p #0111;#1EC3; #0111;#1ED3;ng b#1ED9; ho#1EA1;t #0111;#1ED9;ng l#00EA;n '' @
        ''#0111;#00E1;m m#00E2;y, li#00EA;n k#1EBF;t v#1EDB;i t#00E0;i kho#1EA3;n ph#1EE5; huynh, ho#1EB7;c d'' @
        ''#00F9;ng Xem t#1EEB; xa / nh#1EAF;n tin li#00EA;n m#00E1;y.'')),
     entry ''login.email_label''
      ''Email:''
      ''Email:'',
     entry ''login.password_label''
      ''Password:''
      (ucn ''M#1EAD;t kh#1EA9;u:''),
     entry ''login.login_btn''
      ''Log in''
      (ucn ''#0110;#0103;ng nh#1EAD;p''),
     entry ''login.signup_btn''
      ''Sign up''
      (ucn ''#0110;#0103;ng k#00FD;''),
     entry ''login.logout_btn''
      ''Log out''
      (ucn ''#0110;#0103;ng xu#1EA5;t''),
     entry ''login.logged_in_as''
      (ucn ''Logged in as <b>%1</b>.#000A;#000A;Your activity now syncs to the cloud.'')
      (ucn (''#0110;#00E3; #0111;#0103;ng nh#1EAD;p v#1EDB;i <b>%1</b>.#000A;#000A;Ho#1EA1;t #0111;#1ED9;ng c'' @
        ''#1EE7;a b#1EA1;n gi#1EDD; #0111;#1ED3;ng b#1ED9; l#00EA;n #0111;#00E1;m m#00E2;y.'')),
     entry ''login.enter_both''
      ''Please enter both email and password.''
      (ucn ''Vui l#00F2;ng nh#1EAD;p c#1EA3; email v#00E0; m#1EAD;t kh#1EA9;u.''),
     entry ''login.logout_confirm''
      ''Log out of the current account?''
      (ucn ''#0110;#0103;ng xu#1EA5;t kh#1ECF;i t#00E0;i kho#1EA3;n hi#1EC7;n t#1EA1;i?''),
     entry ''login.logout_done''
      ''Logged out. Data is still saved locally, but cloud sync is paused.''
      (ucn (''#0110;#00E3; #0111;#0103;ng xu#1EA5;t. D#1EEF; li#1EC7;u v#1EAB;n #0111;#01B0;#1EE3;c l#01B0;u c'' @
        ''#1EE5;c b#1ED9;, nh#01B0;ng #0111;#1ED3;ng b#1ED9; #0111;#00E1;m m#00E2;y t#1EA1;m d#1EEB;ng.'')),
     entry ''login.success''
      ''Logged in successfully! Your data will now sync to the cloud.''
      (ucn (''#0110;#0103;ng nh#1EAD;p th#00E0;nh c#00F4;ng! D#1EEF; li#1EC7;u c#1EE7;a b#1EA1;n gi#1EDD; s#1EBD; '' @
        ''#0111;#1ED3;ng b#1ED9; l#00EA;n #0111;#00E1;m m#00E2;y.''))]"

definition rview_entries :: "I18nEntry list" where
  "rview_entries =
    [entry ''rview.heading''
      ''Remote View''
      (ucn ''Xem t#1EEB; xa''),
     entry ''rview.enable_check''
      ''Enable Remote View (read-only, HTTP, unencrypted)''
      (ucn ''B#1EAD;t Xem t#1EEB; xa (ch#1EC9; #0111;#1ECD;c, HTTP, kh#00F4;ng m#00E3; ho#00E1;)''),
     entry ''rview.port_label''
      ''Port:''
      (ucn ''C#1ED5;ng:''),
     entry ''rview.token_label''
      ''Access token:''
      (ucn ''M#00E3; truy c#1EAD;p:''),
     entry ''rview.regenerate_btn''
      ''Regenerate''
      (ucn ''T#1EA1;o m#00E3; m#1EDB;i''),
     entry ''rview.url_label''
      ''Status URL:''
      (ucn ''URL tr#1EA1;ng th#00E1;i:''),
     entry ''rview.copy_btn''
      ''Copy status URL''
      (ucn ''Sao ch#00E9;p URL''),
     entry ''rview.warning''
      ((''Warning: this is plain HTTP, not encrypted. Only use it on a trusted local network or VPN - do not '' @
        ''expose this port directly to the public internet.''))
      (ucn (''C#1EA3;nh b#00E1;o: #0111;#00E2;y l#00E0; HTTP th#01B0;#1EDD;ng, kh#00F4;ng m#00E3; ho#00E1;. Ch'' @
        ''#1EC9; n#00EA;n d#00F9;ng trong m#1EA1;ng LAN/VPN tin c#1EAD;y - kh#00F4;ng m#1EDF; c#1ED5;ng n'' @
        ''#00E0;y th#1EB3;ng ra Internet c#00F4;ng c#1ED9;ng.'')),
     entry ''rview.save_btn''
      ''Save''
      (ucn ''L#01B0;u''),
     entry ''rview.copied''
      ''Copied to clipboard.''
      (ucn ''#0110;#00E3; sao ch#00E9;p.''),
     entry ''rview.saved''
      ''Remote View settings saved.''
      (ucn ''#0110;#00E3; l#01B0;u c#1EA5;u h#00EC;nh Xem t#1EEB; xa.'')]"

definition supabase_entries :: "I18nEntry list" where
  "supabase_entries =
    [entry ''supabase.heading''
      ''Supabase Setup (Advanced)''
      (ucn ''Thi#1EBF;t l#1EAD;p Supabase (N#00E2;ng cao)''),
     entry ''supabase.note''
      (ucn (''Only change this if you#0027;re running your own Supabase project instead of the default one. Leave '' @
        ''both fields empty to use the built-in defaults.''))
      (ucn (''Ch#1EC9; #0111;#1ED5;i m#1EE5;c n#00E0;y n#1EBF;u b#1EA1;n t#1EF1; ch#1EA1;y project Supabase ri'' @
        ''#00EA;ng thay v#00EC; d#00F9;ng m#1EB7;c #0111;#1ECB;nh. #0110;#1EC3; tr#1ED1;ng c#1EA3; 2 #00F4; '' @
        ''#0111;#1EC3; d#00F9;ng gi#00E1; tr#1ECB; m#1EB7;c #0111;#1ECB;nh s#1EB5;n c#00F3;.'')),
     entry ''supabase.url_label''
      ''Supabase URL:''
      ''Supabase URL:'',
     entry ''supabase.key_label''
      ''Publishable Key:''
      ''Publishable Key:'',
     entry ''supabase.save_btn''
      ''Save''
      (ucn ''L#01B0;u''),
     entry ''supabase.saved''
      ''Supabase configuration saved.''
      (ucn ''#0110;#00E3; l#01B0;u c#1EA5;u h#00EC;nh Supabase.'')]"

definition g_entries :: "I18nEntry list" where
  "g_entries = tray_entries @ about_entries @ update_entries @ limit_entries @ role_entries @
    plink_entries @ pdlg_entries @ cp_entries @ login_entries @ rview_entries @
    supabase_entries"

section \<open>Lookup\<close>

text \<open>\<open>emplace\<close> keeps an element that is there.\<close>

definition emplace :: "(string \<rightharpoonup> I18nEntry) \<Rightarrow> I18nEntry \<Rightarrow> (string \<rightharpoonup> I18nEntry)" where
  "emplace m e = (if m (ie_key e) = None then m(ie_key e \<mapsto> e) else m)"

definition lookupTable :: "I18nEntry list \<Rightarrow> (string \<rightharpoonup> I18nEntry)" where
  "lookupTable es = foldl emplace Map.empty es"

definition i18n_t :: "AppSettings \<Rightarrow> string option \<Rightarrow> string" where
  "i18n_t s key =
     (case key of
        None \<Rightarrow> []
      | Some k \<Rightarrow>
          (case lookupTable g_entries k of
             None \<Rightarrow> k
           | Some e \<Rightarrow> if language s = APP_LANG_VI then ie_vi e else ie_en e))"

definition tr :: "AppSettings \<Rightarrow> string \<Rightarrow> string" where
  "tr s key = i18n_t s (Some key)"

section \<open>Facts\<close>

text \<open>The table built once is the search from the front it replaced.\<close>

lemma foldl_emplace: "foldl emplace m es k = (case m k of Some e \<Rightarrow> Some e | None \<Rightarrow> find (\<lambda>e. ie_key e = k) es)"
  by (induction es arbitrary: m) (auto simp: emplace_def split: option.splits)

lemma lookupTable_find: "lookupTable es k = find (\<lambda>e. ie_key e = k) es"
  by (simp add: lookupTable_def foldl_emplace)

text \<open>The keys the windows of the agent ask for.\<close>

definition used_keys :: "string list" where
  "used_keys =
    [''tray.login'', ''tray.logout'', ''tray.pause'', ''tray.resume'', ''tray.report'', ''tray.settings'',
     ''tray.supabase_setup'', ''tray.remote_view'', ''tray.dashboards_menu'', ''tray.dashboard_python'',
     ''tray.dashboard_go'', ''tray.dashboard_tip'', ''tray.parent_link'', ''tray.parent_link_tip'',
     ''tray.parent_dashboard'', ''tray.parent_dashboard_tip'', ''tray.debug_console'',
     ''tray.check_updates'', ''tray.checking_updates'', ''tray.about'', ''tray.exit'',
     ''tray.update_available'', ''tray.logged_in_as'', ''about.body'', ''update.you_have_latest'',
     ''update.check_failed'', ''limit.blocked'', ''limit.time_up'', ''limit.generic'',
     ''settings.role_label'', ''settings.role_child'', ''settings.role_parent'', ''settings.role_note'',
     ''settings.language_label'', ''settings.page_title'', ''page.save_btn'', ''plink.title'',
     ''plink.note'', ''plink.col_email'', ''plink.col_status'', ''plink.approve_btn'',
     ''plink.revoke_btn'', ''plink.status_pending'', ''plink.status_approved'', ''plink.status_revoked'',
     ''plink.empty'', ''plink.select_row'', ''plink.approved_msg'', ''plink.revoke_confirm'',
     ''plink.revoked_msg'', ''pdlg.title'', ''pdlg.invite_box'', ''pdlg.invite_note'',
     ''pdlg.invite_placeholder'', ''pdlg.invite_btn'', ''pdlg.children_box'', ''pdlg.col_email'',
     ''pdlg.col_status'', ''pdlg.status_pending'', ''pdlg.status_approved'', ''pdlg.status_revoked'',
     ''pdlg.children_empty'', ''pdlg.limits_box'', ''pdlg.limits_hint_select'', ''pdlg.limits_hint_count'',
     ''pdlg.limits_none'', ''pdlg.limit_process'', ''pdlg.limit_process_placeholder'',
     ''pdlg.limit_amount'', ''pdlg.limit_minutes_suffix'', ''pdlg.limit_nolimit'', ''pdlg.limit_block'',
     ''pdlg.limit_save_btn'', ''pdlg.limit_delete_btn'', ''pdlg.limit_blocked_label'',
     ''pdlg.limit_unlimited'', ''pdlg.limit_allowed'', ''pdlg.select_child_first'', ''pdlg.enter_process'',
     ''pdlg.invite_sent'', ''pdlg.limit_saved'', ''pdlg.enter_child_email'', ''pdlg.select_limit_first'',
     ''cp.title'', ''cp.nav_overview'', ''cp.nav_account'', ''cp.nav_settings'', ''cp.nav_remoteview'',
     ''cp.nav_parentlink'', ''cp.nav_family'', ''cp.nav_advanced'', ''cp.nav_about'',
     ''cp.overview_greeting_in'', ''cp.overview_greeting_out'', ''cp.overview_not_logged_in'',
     ''cp.overview_login_cta'', ''cp.overview_status_tracking'', ''cp.overview_status_paused'',
     ''cp.overview_pause_btn'', ''cp.overview_resume_btn'', ''cp.overview_today_title'',
     ''cp.overview_quick_links'', ''cp.overview_open_dashboard'', ''cp.overview_first_run_title'',
     ''cp.overview_first_run_body'', ''cp.overview_no_data'', ''cp.overview_machines_title'',
     ''cp.overview_machines_this_device'', ''cp.overview_machines_login_required'',
     ''cp.overview_machines_none'', ''cp.overview_dashboard_missing'', ''login.heading'', ''login.note'',
     ''login.email_label'', ''login.password_label'', ''login.login_btn'', ''login.signup_btn'',
     ''login.logout_btn'', ''login.logged_in_as'', ''login.enter_both'', ''login.logout_confirm'',
     ''login.logout_done'', ''login.success'', ''rview.heading'', ''rview.enable_check'',
     ''rview.port_label'', ''rview.token_label'', ''rview.regenerate_btn'', ''rview.url_label'',
     ''rview.copy_btn'', ''rview.warning'', ''rview.save_btn'', ''rview.copied'', ''rview.saved'',
     ''supabase.heading'', ''supabase.note'', ''supabase.url_label'', ''supabase.key_label'',
     ''supabase.save_btn'', ''supabase.saved'']"

lemma ie_entry: "ie_key (entry k e v) = k" "ie_en (entry k e v) = e" "ie_vi (entry k e v) = v"
  by (simp_all add: entry_def)

lemma tray_keys: "map ie_key tray_entries =
    [''tray.login'', ''tray.logout'', ''tray.pause'', ''tray.resume'', ''tray.report'', ''tray.settings'',
     ''tray.supabase_setup'', ''tray.remote_view'', ''tray.dashboards_menu'', ''tray.dashboard_python'',
     ''tray.dashboard_go'', ''tray.dashboard_tip'', ''tray.parent_link'', ''tray.parent_link_tip'',
     ''tray.parent_dashboard'', ''tray.parent_dashboard_tip'', ''tray.debug_console'',
     ''tray.check_updates'', ''tray.checking_updates'', ''tray.about'', ''tray.exit'',
     ''tray.update_available'', ''tray.logged_in_as'']"
  by (simp only: tray_entries_def list.map ie_entry)

lemma about_keys: "map ie_key about_entries =
    [''about.title'', ''about.body'']"
  by (simp only: about_entries_def list.map ie_entry)

lemma update_keys: "map ie_key update_entries =
    [''update.you_have_latest'', ''update.check_failed'']"
  by (simp only: update_entries_def list.map ie_entry)

lemma limit_keys: "map ie_key limit_entries =
    [''limit.blocked'', ''limit.time_up'', ''limit.generic'']"
  by (simp only: limit_entries_def list.map ie_entry)

lemma role_keys: "map ie_key role_entries =
    [''settings.role_label'', ''settings.role_child'', ''settings.role_parent'', ''settings.role_note'',
     ''settings.language_label'', ''settings.page_title'', ''page.save_btn'']"
  by (simp only: role_entries_def list.map ie_entry)

lemma plink_keys: "map ie_key plink_entries =
    [''plink.title'', ''plink.note'', ''plink.col_email'', ''plink.col_status'', ''plink.approve_btn'',
     ''plink.revoke_btn'', ''plink.close_btn'', ''plink.status_pending'', ''plink.status_approved'',
     ''plink.status_revoked'', ''plink.empty'', ''plink.select_row'', ''plink.approved_msg'',
     ''plink.revoke_confirm'', ''plink.revoked_msg'']"
  by (simp only: plink_entries_def list.map ie_entry)

lemma pdlg_keys: "map ie_key pdlg_entries =
    [''pdlg.title'', ''pdlg.invite_box'', ''pdlg.invite_note'', ''pdlg.invite_placeholder'',
     ''pdlg.invite_btn'', ''pdlg.children_box'', ''pdlg.col_email'', ''pdlg.col_status'',
     ''pdlg.status_pending'', ''pdlg.status_approved'', ''pdlg.status_revoked'', ''pdlg.children_empty'',
     ''pdlg.limits_box'', ''pdlg.limits_hint_select'', ''pdlg.limits_hint_count'', ''pdlg.limits_none'',
     ''pdlg.limit_process'', ''pdlg.limit_process_placeholder'', ''pdlg.limit_amount'',
     ''pdlg.limit_minutes_suffix'', ''pdlg.limit_nolimit'', ''pdlg.limit_block'', ''pdlg.limit_save_btn'',
     ''pdlg.limit_delete_btn'', ''pdlg.limit_blocked_label'', ''pdlg.limit_unlimited'',
     ''pdlg.limit_allowed'', ''pdlg.close_btn'', ''pdlg.select_child_first'', ''pdlg.enter_process'',
     ''pdlg.invite_sent'', ''pdlg.limit_saved'', ''pdlg.enter_child_email'', ''pdlg.select_limit_first'']"
  by (simp only: pdlg_entries_def list.map ie_entry)

lemma cp_keys: "map ie_key cp_entries =
    [''cp.title'', ''cp.nav_overview'', ''cp.nav_account'', ''cp.nav_settings'', ''cp.nav_remoteview'',
     ''cp.nav_parentlink'', ''cp.nav_family'', ''cp.nav_advanced'', ''cp.nav_about'',
     ''cp.overview_greeting_in'', ''cp.overview_greeting_out'', ''cp.overview_not_logged_in'',
     ''cp.overview_login_cta'', ''cp.overview_status_tracking'', ''cp.overview_status_paused'',
     ''cp.overview_pause_btn'', ''cp.overview_resume_btn'', ''cp.overview_today_title'',
     ''cp.overview_quick_links'', ''cp.overview_open_dashboard'', ''cp.overview_first_run_title'',
     ''cp.overview_first_run_body'', ''cp.overview_no_data'', ''cp.overview_machines_title'',
     ''cp.overview_machines_this_device'', ''cp.overview_machines_login_required'',
     ''cp.overview_machines_none'', ''cp.overview_dashboard_missing'']"
  by (simp only: cp_entries_def list.map ie_entry)

lemma login_keys: "map ie_key login_entries =
    [''login.heading'', ''login.note'', ''login.email_label'', ''login.password_label'', ''login.login_btn'',
     ''login.signup_btn'', ''login.logout_btn'', ''login.logged_in_as'', ''login.enter_both'',
     ''login.logout_confirm'', ''login.logout_done'', ''login.success'']"
  by (simp only: login_entries_def list.map ie_entry)

lemma rview_keys: "map ie_key rview_entries =
    [''rview.heading'', ''rview.enable_check'', ''rview.port_label'', ''rview.token_label'',
     ''rview.regenerate_btn'', ''rview.url_label'', ''rview.copy_btn'', ''rview.warning'',
     ''rview.save_btn'', ''rview.copied'', ''rview.saved'']"
  by (simp only: rview_entries_def list.map ie_entry)

lemma supabase_keys: "map ie_key supabase_entries =
    [''supabase.heading'', ''supabase.note'', ''supabase.url_label'', ''supabase.key_label'',
     ''supabase.save_btn'', ''supabase.saved'']"
  by (simp only: supabase_entries_def list.map ie_entry)

lemmas section_keys = tray_keys about_keys update_keys limit_keys role_keys plink_keys pdlg_keys cp_keys login_keys rview_keys supabase_keys

lemma used_keys_filter:
  "used_keys = filter (\<lambda>k. k \<notin> {''about.title'', ''plink.close_btn'', ''pdlg.close_btn''}) (map ie_key g_entries)"
  unfolding g_entries_def map_append section_keys used_keys_def by simp

text \<open>Every text a window of the agent asks for is in the table, so no window ever shows a key; and what is shown is
  the entry of that key in the language of the settings, which is English unless it is set to Vietnamese.\<close>

theorem every_text_found:
  assumes "k \<in> set used_keys"
  shows "\<exists>e \<in> set g_entries. ie_key e = k \<and> (\<forall>s. tr s k = (if language s = APP_LANG_VI then ie_vi e else ie_en e))"
proof -
  have "k \<in> ie_key ` set g_entries" using assms unfolding used_keys_filter by auto
  then obtain e where e: "find (\<lambda>e. ie_key e = k) g_entries = Some e"
    by (cases "find (\<lambda>e. ie_key e = k) g_entries") (auto simp: find_None_iff)
  then have "e \<in> set g_entries" "ie_key e = k" by (auto simp: find_Some_iff)
  moreover have "tr s k = (if language s = APP_LANG_VI then ie_vi e else ie_en e)" for s
    by (simp add: tr_def i18n_t_def lookupTable_find e)
  ultimately show ?thesis by blast
qed

lemma every_text_found_witness: "\<exists>e \<in> set g_entries. ie_key e = ''tray.pause''"
  using every_text_found [of "''tray.pause''"] unfolding used_keys_def by auto

end
