(* ===== verification/Parent_Page.thy ===== *)
theory Parent_Page
  imports Parent_Link I18n_Table
begin

text \<open>
  The agent's two pages about links between accounts: \<open>src/agent/parent/parentpage.cpp\<close>, where a parent invites
  children and sets limits, and \<open>src/agent/agent/parentlinkpage.cpp\<close>, where a child answers. A table keeps the row
  that is selected when its items are replaced, and drops the selection when the row is removed; dialogs are the
  list of texts shown. The state of the session and the connection is the one of \<open>Rest_Client\<close>.
\<close>

section \<open>What the pages take from Qt\<close>

record ui =
  ui_settings :: AppSettings
  ui_trimmed :: "string \<Rightarrow> string"                      \<comment> \<open>\<open>QString::trimmed\<close>\<close>
  ui_arg :: "string \<Rightarrow> string \<Rightarrow> string"                \<comment> \<open>\<open>QString::arg\<close>\<close>

definition ui_tr :: "ui \<Rightarrow> string \<Rightarrow> string" where
  "ui_tr ui key = tr (ui_settings ui) key"

definition keep_row :: "nat \<Rightarrow> nat option \<Rightarrow> nat option" where
  "keep_row rows sel = (case sel of Some r \<Rightarrow> if r < rows then Some r else None | None \<Rightarrow> None)"

section \<open>The parent's page\<close>

record child_row =
  cr_email :: string
  cr_user :: string
  cr_status :: string

record limit_item =
  li_process :: string
  li_id :: int
  li_limit :: string
  li_status :: string

record parent_page =
  pp_children :: "child_row list"
  pp_child :: "nat option"
  pp_limits :: "limit_item list"
  pp_limit :: "nat option"
  pp_header :: string
  pp_email :: string
  pp_process :: string
  pp_minutes :: int
  pp_noLimit :: bool
  pp_block :: bool
  pp_dialogs :: "string list"

definition MAX_LINKS :: nat where "MAX_LINKS = 32"

definition say :: "string \<Rightarrow> parent_page \<Rightarrow> parent_page" where
  "say msg p = p\<lparr>pp_dialogs := pp_dialogs p @ [msg]\<rparr>"

definition status_text :: "ui \<Rightarrow> string \<Rightarrow> string \<Rightarrow> string" where
  "status_text ui page st =
     ui_tr ui (page @ (if st = ''pending'' then ''status_pending''
                     else if st = ''approved'' then ''status_approved'' else ''status_revoked''))"

definition child_row_of :: "ui \<Rightarrow> ParentLink \<Rightarrow> child_row" where
  "child_row_of ui l =
     \<lparr>cr_email = pl_other_email l, cr_user = pl_other_user_id l, cr_status = status_text ui ''pdlg.'' (pl_status l)\<rparr>"

definition show_children :: "ui \<Rightarrow> ParentLink list \<Rightarrow> parent_page \<Rightarrow> parent_page" where
  "show_children ui links p =
     p\<lparr>pp_children := map (child_row_of ui) links, pp_child := keep_row (length links) (pp_child p), pp_limits := [],
       pp_limit := None, pp_header := ui_tr ui ''pdlg.limits_hint_select''\<rparr>"

definition refreshChildren :: "ui \<Rightarrow> 'w env \<Rightarrow> parent_page \<times> 'w agent \<Rightarrow> parent_page \<times> 'w agent" where
  "refreshChildren ui env pa =
     (let (links, ag1) = parentlink_list_as_parent env MAX_LINKS (snd pa) in (show_children ui links (fst pa), ag1))"

text \<open>The empty string when no row is selected.\<close>

definition selectedChildUserId :: "parent_page \<Rightarrow> string" where
  "selectedChildUserId p =
     (case pp_child p of
        None \<Rightarrow> []
      | Some r \<Rightarrow> if r < length (pp_children p) then cr_user (pp_children p ! r) else [])"

definition limit_item_of :: "ui \<Rightarrow> AppLimit \<Rightarrow> limit_item" where
  "limit_item_of ui l =
     \<lparr>li_process = al_process_name l, li_id = al_id l,
      li_limit =
        (if al_blocked l \<noteq> 0 then ui_tr ui ''pdlg.limit_blocked_label''
         else if 0 \<le> al_daily_limit_sec l
         then show_int (al_daily_limit_sec l div 60) @ ui_tr ui ''pdlg.limit_minutes_suffix''
         else ui_tr ui ''pdlg.limit_unlimited''),
      li_status = ui_tr ui (if al_blocked l \<noteq> 0 then ''pdlg.limit_block'' else ''pdlg.limit_allowed'')\<rparr>"

definition refreshLimits :: "ui \<Rightarrow> 'w env \<Rightarrow> parent_page \<times> 'w agent \<Rightarrow> parent_page \<times> 'w agent" where
  "refreshLimits ui env pa =
     (case pa of (p, ag) \<Rightarrow>
        (let childId = selectedChildUserId p
         in if childId = []
            then (p\<lparr>pp_limits := [], pp_limit := None, pp_header := ui_tr ui ''pdlg.limits_hint_select''\<rparr>, ag)
            else
              (let (ls, ag1) = applimits_list_for_child env (Some childId) MAX_LIMITS ag
               in (p\<lparr>pp_header := (if ls \<noteq> [] then ui_arg ui (ui_tr ui ''pdlg.limits_hint_count'') (show_nat (length ls))
                                   else ui_tr ui ''pdlg.limits_none''),
                     pp_limits := map (limit_item_of ui) ls, pp_limit := keep_row (length ls) (pp_limit p)\<rparr>, ag1))))"

definition selectChild :: "ui \<Rightarrow> 'w env \<Rightarrow> nat \<Rightarrow> parent_page \<times> 'w agent \<Rightarrow> parent_page \<times> 'w agent" where
  "selectChild ui env r pa = refreshLimits ui env ((fst pa)\<lparr>pp_child := Some r\<rparr>, snd pa)"

definition onInvite :: "ui \<Rightarrow> 'w env \<Rightarrow> parent_page \<times> 'w agent \<Rightarrow> parent_page \<times> 'w agent" where
  "onInvite ui env pa =
     (case pa of (p, ag) \<Rightarrow>
        (let email = ui_trimmed ui (pp_email p)
         in if email = [] then (say (ui_tr ui ''pdlg.enter_child_email'') p, ag)
            else
              (case parentlink_invite_child env (Some email) 300 ag of
                 (Inr _, ag1) \<Rightarrow> refreshChildren ui env ((say (ui_tr ui ''pdlg.invite_sent'') p)\<lparr>pp_email := []\<rparr>, ag1)
               | (Inl err, ag1) \<Rightarrow> (say err p, ag1))))"

definition form_seconds :: "parent_page \<Rightarrow> int" where
  "form_seconds p = (if pp_block p \<or> pp_noLimit p then -1 else pp_minutes p * 60)"

definition onSaveLimit :: "ui \<Rightarrow> 'w env \<Rightarrow> parent_page \<times> 'w agent \<Rightarrow> parent_page \<times> 'w agent" where
  "onSaveLimit ui env pa =
     (case pa of (p, ag) \<Rightarrow>
        (let childId = selectedChildUserId p; processName = ui_trimmed ui (pp_process p)
         in if childId = [] then (say (ui_tr ui ''pdlg.select_child_first'') p, ag)
            else if processName = [] then (say (ui_tr ui ''pdlg.enter_process'') p, ag)
            else
              (case applimits_set env (Some childId) (Some processName) (form_seconds p) (if pp_block p then 1 else 0) 300 ag of
                 (Inr _, ag1) \<Rightarrow> refreshLimits ui env ((say (ui_tr ui ''pdlg.limit_saved'') p)\<lparr>pp_process := []\<rparr>, ag1)
               | (Inl err, ag1) \<Rightarrow> (say err p, ag1))))"

definition onDeleteLimit :: "ui \<Rightarrow> 'w env \<Rightarrow> parent_page \<times> 'w agent \<Rightarrow> parent_page \<times> 'w agent" where
  "onDeleteLimit ui env pa =
     (case pa of (p, ag) \<Rightarrow>
        (case pp_limit p of
           None \<Rightarrow> (say (ui_tr ui ''pdlg.select_limit_first'') p, ag)
         | Some r \<Rightarrow>
             if length (pp_limits p) \<le> r then (p, ag)
             else
               (case applimits_delete env (to_i32 (li_id (pp_limits p ! r))) 300 ag of
                  (Inr _, ag1) \<Rightarrow> refreshLimits ui env (p, ag1)
                | (Inl err, ag1) \<Rightarrow> (say err p, ag1))))"

section \<open>The child's page\<close>

record link_page =
  lp_links :: "(string \<times> int \<times> string) list"   \<comment> \<open>email, id, status\<close>
  lp_row :: "nat option"
  lp_dialogs :: "string list"

definition link_page_refresh :: "ui \<Rightarrow> 'w env \<Rightarrow> link_page \<times> 'w agent \<Rightarrow> link_page \<times> 'w agent" where
  "link_page_refresh ui env pa =
     (let (links, ag1) = parentlink_list_as_child env MAX_LINKS (snd pa)
      in ((fst pa)\<lparr>lp_links := map (\<lambda>l. (pl_other_email l, pl_id l, status_text ui ''plink.'' (pl_status l))) links,
                   lp_row := keep_row (length links) (lp_row (fst pa))\<rparr>, ag1))"

definition selectedLinkId :: "link_page \<Rightarrow> int" where
  "selectedLinkId p =
     (case lp_row p of None \<Rightarrow> -1 | Some r \<Rightarrow> if r < length (lp_links p) then to_i32 (fst (snd (lp_links p ! r))) else -1)"

definition link_say :: "string \<Rightarrow> link_page \<Rightarrow> link_page" where
  "link_say msg p = p\<lparr>lp_dialogs := lp_dialogs p @ [msg]\<rparr>"

definition onApprove :: "ui \<Rightarrow> 'w env \<Rightarrow> link_page \<times> 'w agent \<Rightarrow> link_page \<times> 'w agent" where
  "onApprove ui env pa =
     (case pa of (p, ag) \<Rightarrow>
        if selectedLinkId p < 0 then (link_say (ui_tr ui ''plink.select_row'') p, ag)
        else
          (case parentlink_approve env (selectedLinkId p) 256 ag of
             (Inr _, ag1) \<Rightarrow> link_page_refresh ui env (link_say (ui_tr ui ''plink.approved_msg'') p, ag1)
           | (Inl err, ag1) \<Rightarrow> (link_say err p, ag1)))"

definition onRevoke :: "ui \<Rightarrow> 'w env \<Rightarrow> bool \<Rightarrow> link_page \<times> 'w agent \<Rightarrow> link_page \<times> 'w agent" where
  "onRevoke ui env yes pa =
     (case pa of (p, ag) \<Rightarrow>
        if selectedLinkId p < 0 then (link_say (ui_tr ui ''plink.select_row'') p, ag)
        else if \<not> yes then (p, ag)
        else
          (case parentlink_revoke env (selectedLinkId p) 256 ag of
             (Inr _, ag1) \<Rightarrow> link_page_refresh ui env (link_say (ui_tr ui ''plink.revoked_msg'') p, ag1)
           | (Inl err, ag1) \<Rightarrow> (link_say err p, ag1)))"

section \<open>The form's request\<close>

text \<open>What is sent reads back as what the form says.\<close>

definition limit_fields :: "string \<Rightarrow> string \<Rightarrow> int \<Rightarrow> int \<Rightarrow> (string \<times> jval) list" where
  "limit_fields child name daily blocked =
     [(''child_user_id'', JStr child), (''process_name'', JStr name),
      (''daily_limit_sec'', if 0 \<le> daily then JInt daily else JNull), (''blocked'', JBool (blocked \<noteq> 0))]"

lemma limit_body_fields:
  assumes "list_all plain_char child"
  shows "limit_body child name daily blocked = render_obj (limit_fields child name daily blocked)"
  using jsonEscape_plain [OF assms] by (simp add: limit_body_def limit_fields_def render_obj_def obj_text_def render_field_def)

definition form_limit :: "ui \<Rightarrow> parent_page \<Rightarrow> AppLimit" where
  "form_limit ui p =
     \<lparr>al_id = 0, al_process_name = ui_trimmed ui (pp_process p), al_daily_limit_sec = form_seconds p,
      al_blocked = (if pp_block p then 1 else 0)\<rparr>"

text \<open>What the spin box allows, and texts that need no escaping.\<close>

definition form_ok :: "ui \<Rightarrow> parent_page \<Rightarrow> bool" where
  "form_ok ui p \<longleftrightarrow>
     1 \<le> pp_minutes p \<and> pp_minutes p \<le> 1440 \<and> row_text limit_keys (ui_trimmed ui (pp_process p)) \<and>
     length (ui_trimmed ui (pp_process p)) < MAX_LIMIT_PROCESS \<and> row_text limit_keys (selectedChildUserId p)"

lemma form_seconds_range: "1 \<le> pp_minutes p \<Longrightarrow> pp_minutes p \<le> 1440 \<Longrightarrow> in_i32 (form_seconds p) \<and> -1 \<le> form_seconds p \<and> form_seconds p \<le> 86400"
  by (auto simp: form_seconds_def in_i32_def)

text \<open>The request of the form reads back as the form: the child that is selected, the application's name, no limit
  when the application is blocked or unlimited and else the minutes in seconds (at most a day), and the block.\<close>

theorem form_reads_back:
  assumes "form_ok ui p"
  defines "body \<equiv> limit_body (selectedChildUserId p) (ui_trimmed ui (pp_process p)) (form_seconds p) (if pp_block p then 1 else 0)"
  shows "json_extract_string body ''process_name'' (int MAX_LIMIT_PROCESS) = Some (ui_trimmed ui (pp_process p)) \<and>
    json_extract_long body ''daily_limit_sec'' =
      Some (if pp_block p \<or> pp_noLimit p then (0, True) else (pp_minutes p * 60, False)) \<and>
    json_extract_bool body ''blocked'' = Some (pp_block p)"
proof -
  let ?child = "selectedChildUserId p" and ?name = "ui_trimmed ui (pp_process p)"
  let ?c = "(''child_user_id'', JStr ?child)" and ?n = "(''process_name'', JStr ?name)"
  let ?d = "(''daily_limit_sec'', if 0 \<le> form_seconds p then JInt (form_seconds p) else JNull)"
  let ?b = "(''blocked'', JBool (pp_block p))"
  have tc: "row_text limit_keys ?child" and tn: "row_text limit_keys ?name" and len: "length ?name < MAX_LIMIT_PROCESS"
    and range: "in_i32 (form_seconds p)" "1 \<le> pp_minutes p"
    using assms(1) form_seconds_range by (auto simp: form_ok_def)
  have body: "body = render_obj [?c, ?n, ?d, ?b]"
    unfolding body_def using limit_body_fields [of ?child ?name "form_seconds p" "if pp_block p then 1 else 0"] tc
    by (simp add: limit_fields_def row_text_def)
  have mem: "''process_name'' \<in> limit_keys" "''daily_limit_sec'' \<in> limit_keys" "''blocked'' \<in> limit_keys"
    by (simp_all add: limit_keys_def)
  note str = clear_of_str [OF tc mem(1)] clear_of_str [OF tc mem(2)] clear_of_str [OF tc mem(3)]
    clear_of_str [OF tn mem(2)] clear_of_str [OF tn mem(3)]
  have c1: "clear_of ''process_name'' [?c]" by (simp add: str limit_keys_ok)
  have c2: "clear_of ''daily_limit_sec'' [?c, ?n]" by (simp add: str limit_keys_ok)
  have c3: "clear_of ''blocked'' [?c, ?n, ?d]" by (simp add: str limit_keys_ok)
  have "json_extract_string body ''process_name'' (int MAX_LIMIT_PROCESS) = Some ?name"
    using row_string [OF c1 limit_keys_ok(3) tn len, of "[?d, ?b]"] by (simp add: body)
  moreover have "json_extract_long body ''daily_limit_sec'' =
      Some (if pp_block p \<or> pp_noLimit p then (0, True) else (pp_minutes p * 60, False))"
    using row_long [OF c2 limit_keys_ok(4) range(1), of "[?b]"] row_null [OF c2 limit_keys_ok(4), of "[?b]"] range(2)
    by (cases "pp_block p \<or> pp_noLimit p") (auto simp: body form_seconds_def)
  moreover have "json_extract_bool body ''blocked'' = Some (pp_block p)"
    using row_bool [OF c3 limit_keys_ok(5), of "pp_block p" "[]"] by (simp add: body)
  ultimately show ?thesis by blast
qed

definition demo_ui :: ui where
  "demo_ui = \<lparr>ui_settings = setDefaults, ui_trimmed = id, ui_arg = (\<lambda>t a. t @ a)\<rparr>"

definition demo_links :: "ParentLink list" where
  "demo_links = [\<lparr>pl_id = 7, pl_other_user_id = ''ann'', pl_other_email = ''a'', pl_status = ''approved''\<rparr>]"

definition demo_parent :: parent_page where
  "demo_parent =
     \<lparr>pp_children = map (child_row_of demo_ui) demo_links, pp_child = Some 0, pp_limits = [], pp_limit = None, pp_header = [],
      pp_email = [], pp_process = ''game.exe'', pp_minutes = 60, pp_noLimit = False, pp_block = False, pp_dialogs = []\<rparr>"

lemma form_reads_back_witness:
  "json_extract_long (limit_body ''ann'' ''game.exe'' 3600 0) ''daily_limit_sec'' = Some (3600, False)"
proof -
  have "form_ok demo_ui demo_parent"
    by (simp add: form_ok_def demo_parent_def demo_ui_def demo_links_def child_row_of_def selectedChildUserId_def row_text_def
        limit_keys_def MAX_LIMIT_PROCESS_def plain_char_def code_def)
  from form_reads_back [OF this] show ?thesis
    by (simp add: demo_parent_def demo_ui_def demo_links_def child_row_of_def selectedChildUserId_def form_seconds_def)
qed

section \<open>Which child is selected\<close>

text \<open>Without a selected child nothing is sent.\<close>

lemma save_needs_child: "selectedChildUserId p = [] \<Longrightarrow> snd (onSaveLimit ui env (p, ag)) = ag"
  by (simp add: onSaveLimit_def Let_def)

text \<open>A sent invitation changes the child that is selected. The new child comes first in the list the server sends
  (the newest link first), the table keeps the number of the selected row, and so the next limit goes to the child above
  the selected one, or to the child just invited.\<close>

theorem invitation_moves_selection:
  assumes "parentlink_list_as_parent env MAX_LINKS ag = (new # old, ag1)"
    and "pp_children p = map (child_row_of ui) old" and "pp_child p = Some r" and "r < length old"
    and "distinct (map pl_other_user_id (new # old))"
  defines "p' \<equiv> fst (refreshChildren ui env (p, ag))"
  shows "selectedChildUserId p = pl_other_user_id (old ! r) \<and>
    selectedChildUserId p' = pl_other_user_id ((new # old) ! r) \<and> selectedChildUserId p' \<noteq> selectedChildUserId p"
proof -
  have "p' = show_children ui (new # old) p" by (simp add: p'_def refreshChildren_def assms(1))
  then have "selectedChildUserId p' = pl_other_user_id ((new # old) ! r)"
    using assms(3,4) by (cases r) (simp_all add: show_children_def keep_row_def selectedChildUserId_def child_row_of_def)
  moreover have "selectedChildUserId p = pl_other_user_id (old ! r)"
    using assms(2-4) by (simp add: selectedChildUserId_def child_row_of_def)
  moreover have "pl_other_user_id ((new # old) ! r) \<noteq> pl_other_user_id ((new # old) ! Suc r)"
    using assms(4,5) nth_eq_iff_index_eq [of "map pl_other_user_id (new # old)" r "Suc r"]
    by (simp del: nth_Cons_Suc distinct.simps list.map add: nth_map)
  ultimately show ?thesis by simp
qed

lemma list_links_fixed:
  assumes "en_net env = fixed_net (\<lambda>_. Some (200, body))" and "auth_is_logged_in ag" and "length body < 16384"
  shows "\<exists>ag1. parentlink_list_as_parent env n ag =
    (map (link_of_obj ''child_user_id'' ''child_email'') (json_array_objs 2048 n (c_str body)), ag1)"
proof -
  let ?path = "''/rest/v1/rpc/parent_links_for_parent''"
  obtain r ag1 where a: "rest_attempt env ''POST'' ?path ''{}'' [] ag = (r, ag1)" by (metis prod.collapse)
  have "take default_max_body body = body" using assms(3) by (intro take_all) (simp add: default_max_body_def)
  then have r: "r = Some \<lparr>hr_status = 200, hr_body = body\<rparr>"
    using rest_attempt_fixed [OF assms(1), where ag = ag and meth = "''POST''" and path = ?path and body = "''{}''" and extra = "[]" and s = 200] a by simp
  have "take (16384 - 1) body = body" using assms(3) by (intro take_all) simp
  then have "restclient_call env ''POST'' ?path (Some ''{}'') None 16384 ag = (Some (body, 200), ag1)"
    using a r by (simp add: restclient_call_def Let_def)
  then show ?thesis using assms(2) by (simp add: parentlink_list_as_parent_def listLinks_def http_ok_def)
qed

definition two_links :: string where
  "two_links = render_array
     [[(''id'', JInt 8), (''child_user_id'', JStr ''bob''), (''child_email'', JStr ''b''), (''status'', JStr ''pending'')],
      [(''id'', JInt 7), (''child_user_id'', JStr ''ann''), (''child_email'', JStr ''a''), (''status'', JStr ''approved'')]]"

lemma two_links_read:
  "map (link_of_obj ''child_user_id'' ''child_email'') (json_array_objs 2048 MAX_LINKS (c_str two_links)) =
     \<lparr>pl_id = 8, pl_other_user_id = ''bob'', pl_other_email = ''b'', pl_status = ''pending''\<rparr> # demo_links"
  by code_simp

lemma invitation_moves_selection_witness:
  "selectedChildUserId demo_parent = ''ann'' \<and>
   selectedChildUserId (fst (refreshChildren demo_ui (plain_env (fixed_net (\<lambda>_. Some (200, two_links)))) (demo_parent, example_agent))) = ''bob''"
proof -
  let ?e = "plain_env (fixed_net (\<lambda>_. Some (200, two_links)))"
  have len: "length two_links < 16384" by code_simp
  have "auth_is_logged_in example_agent" by (simp add: auth_is_logged_in_def example_agent_def)
  then obtain ag1 where l: "parentlink_list_as_parent ?e MAX_LINKS example_agent =
      (\<lparr>pl_id = 8, pl_other_user_id = ''bob'', pl_other_email = ''b'', pl_status = ''pending''\<rparr> # demo_links, ag1)"
    using list_links_fixed [of ?e two_links example_agent MAX_LINKS] len two_links_read by (auto simp: plain_env_def)
  show ?thesis
    using invitation_moves_selection [OF l, of demo_parent demo_ui 0] by (simp add: demo_parent_def demo_links_def)
qed

end
