(* ===== verification/Cloud_Policy.thy ===== *)
theory Cloud_Policy
  imports JIT_Prelude
begin

text \<open>
  The rules of the cloud's database that parents and children rely on: the row-level policies, constraints
  and triggers of \<open>migrations/004_parent_links.sql\<close> and \<open>006_permission_levels.sql\<close>. A request comes from an
  authenticated user and may be any statement on the two tables, not only those the programs send.
\<close>

section \<open>Statements under policies\<close>

text \<open>PostgreSQL joins the policies of a command by \<open>or\<close>: a statement touches the rows that pass \<open>using\<close>, and fails as
  a whole when a new row passes no \<open>with check\<close>. \<open>None\<close> is a statement that failed.\<close>

definition rls_insert :: "('r \<Rightarrow> bool) \<Rightarrow> 'r \<Rightarrow> 'r list \<Rightarrow> 'r list option" where
  "rls_insert check r rows = (if check r then Some (rows @ [r]) else None)"

definition rls_update :: "('r \<Rightarrow> bool) \<Rightarrow> ('r \<Rightarrow> bool) \<Rightarrow> ('r \<Rightarrow> bool) \<Rightarrow> ('r \<Rightarrow> 'r) \<Rightarrow> 'r list \<Rightarrow> 'r list option" where
  "rls_update using check sel f rows =
     (if list_all (\<lambda>r. using r \<and> sel r \<longrightarrow> check (f r)) rows
      then Some (map (\<lambda>r. if using r \<and> sel r then f r else r) rows) else None)"

definition rls_delete :: "('r \<Rightarrow> bool) \<Rightarrow> ('r \<Rightarrow> bool) \<Rightarrow> 'r list \<Rightarrow> 'r list" where
  "rls_delete using sel rows = filter (\<lambda>r. \<not> (using r \<and> sel r)) rows"

section \<open>The tables\<close>

datatype link_status = Pending | Approved | Revoked

datatype link_level = Full | ViewOnly

record link =
  lk_id :: int
  lk_parent :: string
  lk_child :: string
  lk_status :: link_status
  lk_created :: int
  lk_approved_at :: "int option"
  lk_revoked_at :: "int option"
  lk_level :: link_level

record limit =
  lm_id :: int
  lm_child :: string
  lm_set_by :: string
  lm_process :: string
  lm_daily :: "int option"
  lm_blocked :: bool

record server =
  sv_links :: "link list"
  sv_limits :: "limit list"
  sv_activity :: "(string \<times> string) list"   \<comment> \<open>user and record\<close>

definition links_valid :: "link list \<Rightarrow> bool" where
  "links_valid ls \<longleftrightarrow>
     distinct (map lk_id ls) \<and> distinct (map (\<lambda>l. (lk_parent l, lk_child l)) ls) \<and>
     list_all (\<lambda>l. lk_parent l \<noteq> lk_child l) ls"

definition limits_valid :: "limit list \<Rightarrow> bool" where
  "limits_valid ms \<longleftrightarrow> distinct (map lm_id ms) \<and> distinct (map (\<lambda>m. (lm_child m, lm_process m)) ms)"

definition set_timestamps :: "int \<Rightarrow> link \<Rightarrow> link \<Rightarrow> link" where
  "set_timestamps now old new =
     new\<lparr>lk_approved_at := (if lk_status new = Approved \<and> lk_status old \<noteq> Approved then Some now else lk_approved_at new),
         lk_revoked_at := (if lk_status new = Revoked \<and> lk_status old \<noteq> Revoked then Some now else lk_revoked_at new)\<rparr>"

section \<open>The policies\<close>

definition sees_link :: "string \<Rightarrow> link \<Rightarrow> bool" where
  "sees_link u l \<longleftrightarrow> u = lk_parent l \<or> u = lk_child l"

definition may_insert_link :: "string \<Rightarrow> link \<Rightarrow> bool" where
  "may_insert_link u l \<longleftrightarrow> u = lk_parent l \<and> lk_status l = Pending"

definition may_become :: "string \<Rightarrow> link \<Rightarrow> bool" where
  "may_become u l \<longleftrightarrow> u = lk_child l \<or> (u = lk_parent l \<and> lk_status l = Revoked)"

definition approved :: "server \<Rightarrow> string \<Rightarrow> string \<Rightarrow> bool" where
  "approved s p c \<longleftrightarrow> list_ex (\<lambda>l. lk_parent l = p \<and> lk_child l = c \<and> lk_status l = Approved) (sv_links s)"

definition sees_limit :: "server \<Rightarrow> string \<Rightarrow> limit \<Rightarrow> bool" where
  "sees_limit s u m \<longleftrightarrow> u = lm_child m \<or> approved s u (lm_child m)"

definition may_set_limit :: "server \<Rightarrow> string \<Rightarrow> limit \<Rightarrow> bool" where
  "may_set_limit s u m \<longleftrightarrow> lm_set_by m = u \<and> approved s u (lm_child m)"

definition visible_activity :: "server \<Rightarrow> string \<Rightarrow> (string \<times> string) list" where
  "visible_activity s u = filter (\<lambda>(owner, _). u = owner \<or> approved s u owner) (sv_activity s)"

definition visible_limits :: "server \<Rightarrow> string \<Rightarrow> limit list" where
  "visible_limits s u = filter (sees_limit s u) (sv_limits s)"

section \<open>Requests\<close>

datatype db_request =
    InsertLink link
  | UpdateLinks "link \<Rightarrow> bool" "link \<Rightarrow> link"
  | DeleteLinks "link \<Rightarrow> bool"
  | InsertLimit limit
  | UpdateLimits "limit \<Rightarrow> bool" "limit \<Rightarrow> limit"
  | DeleteLimits "limit \<Rightarrow> bool"
  | UpsertLimit int string string "int option" bool

text \<open>An upsert of \<open>child_user_id\<close>, \<open>process_name\<close>, \<open>daily_limit_sec\<close> and \<open>blocked\<close>: the new row has the defaults of the
  table (\<open>set_by\<close> is the user); on a conflict only the columns of the request are replaced. The policies of both
  commands apply, and a conflicting row outside \<open>using\<close> fails the statement.\<close>

definition upsert_limit :: "server \<Rightarrow> string \<Rightarrow> int \<Rightarrow> string \<Rightarrow> string \<Rightarrow> int option \<Rightarrow> bool \<Rightarrow> limit list option" where
  "upsert_limit s u i c proc daily blk =
     (let new = \<lparr>lm_id = i, lm_child = c, lm_set_by = u, lm_process = proc, lm_daily = daily, lm_blocked = blk\<rparr>;
          same = (\<lambda>m. lm_child m = c \<and> lm_process m = proc);
          change = (\<lambda>m. m\<lparr>lm_daily := daily, lm_blocked := blk\<rparr>)
      in if \<not> may_set_limit s u new then None
         else if list_ex same (sv_limits s)
         then (if approved s u c then rls_update (\<lambda>m. True) (may_set_limit s u) same change (sv_limits s) else None)
         else Some (sv_limits s @ [new]))"

definition checked :: "('a \<Rightarrow> bool) \<Rightarrow> 'a option \<Rightarrow> 'a option" where
  "checked ok r = (case r of Some x \<Rightarrow> if ok x then Some x else None | None \<Rightarrow> None)"

fun serve :: "int \<Rightarrow> string \<Rightarrow> db_request \<Rightarrow> server \<Rightarrow> server option" where
  "serve now u (InsertLink l) s =
     map_option (\<lambda>ls. s\<lparr>sv_links := ls\<rparr>) (checked links_valid (rls_insert (may_insert_link u) l (sv_links s)))"
| "serve now u (UpdateLinks sel f) s =
     map_option (\<lambda>ls. s\<lparr>sv_links := ls\<rparr>)
       (checked links_valid
         (rls_update (sees_link u) (may_become u) sel (\<lambda>l. set_timestamps now l (f l)) (sv_links s)))"
| "serve now u (DeleteLinks sel) s = Some s"
| "serve now u (InsertLimit m) s =
     map_option (\<lambda>ms. s\<lparr>sv_limits := ms\<rparr>) (checked limits_valid (rls_insert (may_set_limit s u) m (sv_limits s)))"
| "serve now u (UpdateLimits sel f) s =
     map_option (\<lambda>ms. s\<lparr>sv_limits := ms\<rparr>)
       (checked limits_valid (rls_update (\<lambda>m. approved s u (lm_child m)) (may_set_limit s u) sel f (sv_limits s)))"
| "serve now u (DeleteLimits sel) s =
     Some (s\<lparr>sv_limits := rls_delete (\<lambda>m. approved s u (lm_child m)) sel (sv_limits s)\<rparr>)"
| "serve now u (UpsertLimit i c proc daily blk) s =
     map_option (\<lambda>ms. s\<lparr>sv_limits := ms\<rparr>) (checked limits_valid (upsert_limit s u i c proc daily blk))"

text \<open>A statement that failed changes nothing.\<close>

definition serve_or_keep :: "int \<Rightarrow> string \<Rightarrow> db_request \<Rightarrow> server \<Rightarrow> server" where
  "serve_or_keep now u r s = (case serve now u r s of Some s' \<Rightarrow> s' | None \<Rightarrow> s)"

definition serve_all :: "(int \<times> string \<times> db_request) list \<Rightarrow> server \<Rightarrow> server" where
  "serve_all reqs s = foldl (\<lambda>s (now, u, r). serve_or_keep now u r s) s reqs"

section \<open>The statements the programs send\<close>

text \<open>\<open>approveLink\<close>, \<open>revokeLink\<close> and \<open>setPermission\<close> of \<open>cloud.cpp\<close>, \<open>parentlink_approve\<close> and \<open>parentlink_revoke\<close> of the agent: a
  PATCH of one column of the link with an id. \<open>inviteChild\<close>: an insertion with the defaults.\<close>

definition patch_status :: "int \<Rightarrow> link_status \<Rightarrow> db_request" where
  "patch_status i st = UpdateLinks (\<lambda>l. lk_id l = i) (\<lambda>l. l\<lparr>lk_status := st\<rparr>)"

definition patch_level :: "int \<Rightarrow> link_level \<Rightarrow> db_request" where
  "patch_level i v = UpdateLinks (\<lambda>l. lk_id l = i) (\<lambda>l. l\<lparr>lk_level := v\<rparr>)"

definition invite_link :: "int \<Rightarrow> int \<Rightarrow> string \<Rightarrow> string \<Rightarrow> db_request" where
  "invite_link i now p c =
     InsertLink \<lparr>lk_id = i, lk_parent = p, lk_child = c, lk_status = Pending, lk_created = now, lk_approved_at = None,
                 lk_revoked_at = None, lk_level = Full\<rparr>"

section \<open>Consent\<close>

text \<open>The contract of a table under such policies: what is new after an update has passed \<open>check\<close>, what is gone has
  passed \<open>using\<close>.\<close>

locale guarded_table =
  fixes touch :: "'r \<Rightarrow> bool" and check :: "'r \<Rightarrow> bool" and change :: "('r \<Rightarrow> bool) \<Rightarrow> ('r \<Rightarrow> 'r) \<Rightarrow> 'r list \<Rightarrow> 'r list option"
  assumes change_new: "change sel f rows = Some rows' \<Longrightarrow> r \<in> set rows' \<Longrightarrow> r \<in> set rows \<or> check r"
    and change_gone: "change sel f rows = Some rows' \<Longrightarrow> r \<in> set rows \<Longrightarrow> r \<in> set rows' \<or> touch r"
    and change_frame: "change sel f rows = Some rows' \<Longrightarrow> (\<And>r. touch r \<Longrightarrow> \<not> P r) \<Longrightarrow> (\<And>r. check r \<Longrightarrow> \<not> P r) \<Longrightarrow>
      filter P rows' = filter P rows"
begin

lemma untouched:
  assumes "change sel f rows = Some rows'" and "\<And>r. touch r \<or> check r \<Longrightarrow> \<not> P r"
  shows "r \<in> set rows' \<and> P r \<longleftrightarrow> r \<in> set rows \<and> P r"
  using change_new [OF assms(1)] change_gone [OF assms(1)] assms(2) by blast

lemma change_frame': "change sel f rows = Some rows' \<Longrightarrow> (\<And>r. touch r \<or> check r \<Longrightarrow> \<not> P r) \<Longrightarrow> filter P rows' = filter P rows"
  by (rule change_frame) auto

end

lemma rls_update_frame:
  assumes "rls_update using check sel f rows = Some rows'"
    and "\<And>r. using r \<Longrightarrow> \<not> P r" and "\<And>r. check r \<Longrightarrow> \<not> P r"
  shows "filter P rows' = filter P rows"
  using assms by (induction rows arbitrary: rows') (auto simp: rls_update_def split: if_splits)

lemma rls_update_frame_sel:
  assumes "rls_update using check sel f rows = Some rows'" and "\<And>r. sel r \<Longrightarrow> \<not> P r" and "\<And>r. sel r \<Longrightarrow> \<not> P (f r)"
  shows "filter P rows' = filter P rows"
  using assms by (induction rows arbitrary: rows') (auto simp: rls_update_def split: if_splits)

lemma rls_update_new: "rls_update using check sel f rows = Some rows' \<Longrightarrow> r \<in> set rows' \<Longrightarrow> r \<in> set rows \<or> check r"
  by (auto simp: rls_update_def list_all_iff split: if_splits)

lemma rls_update_gone: "rls_update using check sel f rows = Some rows' \<Longrightarrow> r \<in> set rows \<Longrightarrow> r \<in> set rows' \<or> using r"
  by (auto simp: rls_update_def split: if_splits)

text \<open>The tables of links (the update together with the trigger) and of limits are such tables.\<close>

interpretation links: guarded_table "sees_link u" "may_become u"
    "\<lambda>sel f. rls_update (sees_link u) (may_become u) sel (\<lambda>l. set_timestamps now l (f l))" for u now
  by unfold_locales (fact rls_update_new rls_update_gone rls_update_frame)+

interpretation limits: guarded_table "\<lambda>m. approved s u (lm_child m)" "may_set_limit s u"
    "rls_update (\<lambda>m. approved s u (lm_child m)) (may_set_limit s u)" for s u
  by unfold_locales (fact rls_update_new rls_update_gone rls_update_frame)+

lemma approved_iff: "approved s p c \<longleftrightarrow> (\<exists>l \<in> set (sv_links s). lk_parent l = p \<and> lk_child l = c \<and> lk_status l = Approved)"
  by (auto simp: approved_def list_ex_iff)

lemma checked_Some: "checked ok r = Some x \<longleftrightarrow> r = Some x \<and> ok x"
  by (auto simp: checked_def split: option.splits)

text \<open>One request: a link is approved by nobody but its child.\<close>

lemma serve_consent:
  assumes "serve now u r s = Some s'" and "approved s' p c" and "u \<noteq> c"
  shows "approved s p c"
proof -
  obtain l where l: "l \<in> set (sv_links s')" "lk_parent l = p" "lk_child l = c" "lk_status l = Approved"
    using assms(2) by (auto simp: approved_iff)
  have no: "\<not> may_insert_link u l" "\<not> may_become u l" using l assms(3) by (auto simp: may_insert_link_def may_become_def)
  have "l \<in> set (sv_links s)"
  proof (cases r)
    case (InsertLink k)
    then show ?thesis using assms(1) l(1) no by (auto simp: checked_Some rls_insert_def split: if_splits)
  next
    case (UpdateLinks sel f)
    then show ?thesis using assms(1) l(1) no links.change_new by (fastforce simp: checked_Some)
  qed (use assms(1) l(1) in auto)
  then show ?thesis using l by (auto simp: approved_iff)
qed

lemma serve_all_Cons: "serve_all ((now, u, r) # reqs) s = serve_all reqs (serve_or_keep now u r s)"
  by (simp add: serve_all_def)

lemma serve_all_consent:
  assumes "\<not> approved s p c" and "\<forall>(now, u, r) \<in> set reqs. u \<noteq> c"
  shows "\<not> approved (serve_all reqs s) p c"
  using assms
proof (induction reqs arbitrary: s)
  case (Cons q reqs)
  obtain now u r where q: "q = (now, u, r)" by (cases q)
  have "\<not> approved (serve_or_keep now u r s) p c"
    using serve_consent [of now u r s _ p c] Cons.prems q by (auto simp: serve_or_keep_def split: option.splits)
  then show ?case using Cons q by (simp add: serve_all_Cons)
qed (simp add: serve_all_def)

definition limits_of :: "string \<Rightarrow> server \<Rightarrow> limit list" where
  "limits_of c s = filter (\<lambda>m. lm_child m = c) (sv_limits s)"

text \<open>One request of a user who is not approved leaves the limits of a child alone.\<close>

lemma serve_limits_frame:
  assumes "\<not> approved s u c"
  shows "limits_of c (serve_or_keep now u r s) = limits_of c s"
proof (cases "serve now u r s")
  case (Some s')
  have no: "\<not> (approved s u (lm_child m) \<or> may_set_limit s u m) \<or> lm_child m \<noteq> c" for m
    using assms by (auto simp: may_set_limit_def)
  have "limits_of c s' = limits_of c s"
  proof (cases r)
    case (InsertLimit m)
    then show ?thesis using Some no [of m] by (auto simp: limits_of_def checked_Some rls_insert_def split: if_splits)
  next
    case (UpdateLimits sel f)
    then obtain ms where ms: "rls_update (\<lambda>m. approved s u (lm_child m)) (may_set_limit s u) sel f (sv_limits s) = Some ms"
        "s' = s\<lparr>sv_limits := ms\<rparr>"
      using Some by (auto simp: checked_Some)
    have "filter (\<lambda>m. lm_child m = c) ms = filter (\<lambda>m. lm_child m = c) (sv_limits s)"
      by (rule limits.change_frame' [OF ms(1)]) (use no in blast)
    then show ?thesis using ms(2) by (simp add: limits_of_def)
  next
    case (DeleteLimits sel)
    have keep: "filter (\<lambda>m. lm_child m = c) (rls_delete (\<lambda>m. approved s u (lm_child m)) sel ms) = filter (\<lambda>m. lm_child m = c) ms" for ms
      using assms by (induction ms) (auto simp: rls_delete_def)
    show ?thesis using Some DeleteLimits keep by (auto simp: limits_of_def)
  next
    case (UpsertLimit i c' proc daily blk)
    then obtain ms where ms: "upsert_limit s u i c' proc daily blk = Some ms" "s' = s\<lparr>sv_limits := ms\<rparr>"
      using Some by (auto simp: checked_Some)
    have "c' \<noteq> c" using ms(1) assms by (auto simp: upsert_limit_def Let_def may_set_limit_def split: if_splits)
    then have "filter (\<lambda>m. lm_child m = c) ms = filter (\<lambda>m. lm_child m = c) (sv_limits s)"
      using ms(1) by (auto simp: upsert_limit_def Let_def split: if_splits intro: rls_update_frame_sel)
    then show ?thesis using ms(2) by (simp add: limits_of_def)
  qed (use Some in \<open>auto simp: limits_of_def checked_Some\<close>)
  then show ?thesis using Some by (simp add: serve_or_keep_def)
qed (simp add: serve_or_keep_def)

text \<open>C29: Without the child's consent nothing happens to it. From a state in which a link is not approved, whatever
  statements anybody but the child sends, in whatever order, the would-be parent reads no record of the
  child's activity and no further statement of theirs adds, changes or removes a limit of the child.\<close>

theorem no_access_without_consent:
  assumes "\<not> approved s p c" and "p \<noteq> c" and "\<forall>(now, u, r) \<in> set reqs. u \<noteq> c"
  shows "(\<forall>x. (c, x) \<notin> set (visible_activity (serve_all reqs s) p)) \<and>
    limits_of c (serve_or_keep now p r (serve_all reqs s)) = limits_of c (serve_all reqs s)"
  using serve_all_consent [OF assms(1,3)] assms(2) serve_limits_frame by (auto simp: visible_activity_def)

definition demo_link :: "link_status \<Rightarrow> link" where
  "demo_link st =
     \<lparr>lk_id = 1, lk_parent = ''p'', lk_child = ''c'', lk_status = st, lk_created = 0, lk_approved_at = None,
      lk_revoked_at = None, lk_level = Full\<rparr>"

definition demo_server :: "link_status \<Rightarrow> server" where
  "demo_server st = \<lparr>sv_links = [demo_link st], sv_limits = [], sv_activity = [(''c'', ''log'')]\<rparr>"

lemma no_access_without_consent_witness:
  "\<not> approved (serve_all [(5, ''p'', patch_status 1 Approved)] (demo_server Pending)) ''p'' ''c'' \<and>
   (''c'', ''log'') \<notin> set (visible_activity (serve_all [(5, ''p'', patch_status 1 Approved)] (demo_server Pending)) ''p'')"
  using no_access_without_consent [of "demo_server Pending" "''p''" "''c''" "[(5, ''p'', patch_status 1 Approved)]"]
    serve_all_consent [of "demo_server Pending" "''p''" "''c''" "[(5, ''p'', patch_status 1 Approved)]"]
  by (auto simp: demo_server_def demo_link_def approved_def)

section \<open>What the programs' requests do\<close>

lemma links_valid_map:
  assumes "\<And>l. lk_id (g l) = lk_id l \<and> lk_parent (g l) = lk_parent l \<and> lk_child (g l) = lk_child l"
  shows "links_valid (map g ls) \<longleftrightarrow> links_valid ls"
proof -
  have "map lk_id (map g ls) = map lk_id ls" "map (\<lambda>l. (lk_parent l, lk_child l)) (map g ls) = map (\<lambda>l. (lk_parent l, lk_child l)) ls"
    using assms by (simp_all add: comp_def)
  moreover have "list_all (\<lambda>l. lk_parent l \<noteq> lk_child l) (map g ls) \<longleftrightarrow> list_all (\<lambda>l. lk_parent l \<noteq> lk_child l) ls"
    using assms by (simp add: list_all_iff)
  ultimately show ?thesis unfolding links_valid_def by (simp only:)
qed

lemma limits_valid_map:
  assumes "\<And>m. lm_id (g m) = lm_id m \<and> lm_child (g m) = lm_child m \<and> lm_process (g m) = lm_process m"
  shows "limits_valid (map g ms) \<longleftrightarrow> limits_valid ms"
proof -
  have "map lm_id (map g ms) = map lm_id ms" "map (\<lambda>m. (lm_child m, lm_process m)) (map g ms) = map (\<lambda>m. (lm_child m, lm_process m)) ms"
    using assms by (simp_all add: comp_def)
  then show ?thesis unfolding limits_valid_def by (simp only:)
qed

text \<open>The status and level a user can give the link with an id.\<close>

lemma patch_outcome:
  assumes "links_valid (sv_links s)" and "l \<in> set (sv_links s)" and "sees_link u l"
    and "f l = l\<lparr>lk_status := st, lk_level := v\<rparr>" and "\<And>x. lk_id (f x) = lk_id x"
  shows "serve now u (UpdateLinks (\<lambda>x. lk_id x = lk_id l) f) s =
    (if u = lk_child l \<or> st = Revoked
     then Some (s\<lparr>sv_links := map (\<lambda>x. if x = l then set_timestamps now l (f l) else x) (sv_links s)\<rparr>) else None)"
proof -
  let ?g = "\<lambda>x. set_timestamps now x (f x)"
  have only: "x = l" if "x \<in> set (sv_links s)" "lk_id x = lk_id l" for x
    using assms(1,2) that by (auto simp: links_valid_def distinct_map inj_on_def)
  have chk: "may_become u (?g l) \<longleftrightarrow> u = lk_child l \<or> st = Revoked"
    using assms(3,4) by (auto simp: may_become_def sees_link_def set_timestamps_def)
  have all: "list_all (\<lambda>x. sees_link u x \<and> lk_id x = lk_id l \<longrightarrow> may_become u (?g x)) (sv_links s) \<longleftrightarrow>
      u = lk_child l \<or> st = Revoked"
    using only assms(2,3) chk by (auto simp: list_all_iff)
  have upd: "map (\<lambda>x. if sees_link u x \<and> lk_id x = lk_id l then ?g x else x) (sv_links s) =
      map (\<lambda>x. if x = l then ?g l else x) (sv_links s)"
    using only assms(3) by auto
  have "links_valid (map (\<lambda>x. if x = l then ?g l else x) (sv_links s))"
    using assms(1,4) by (subst links_valid_map) (simp_all add: set_timestamps_def)
  then show ?thesis by (auto simp: rls_update_def all upd checked_def)
qed



text \<open>A second invitation between the same two accounts fails, also after the first was revoked: the row of the
  revoked link stays, and its uniqueness is what the client then reads as an open invitation.\<close>

lemma second_invitation_refused:
  assumes "l \<in> set (sv_links s)" and "lk_parent l = p" and "lk_child l = c"
  shows "serve now p (invite_link i now p c) s = None"
  using assms by (auto simp: invite_link_def rls_insert_def may_insert_link_def checked_def links_valid_def)

text \<open>What a parent's form for a limit does. An approved parent sets the limit of an application, and the child
  then reads exactly that limit for it; but a limit another parent has set can be neither replaced nor changed, as
  the row keeps who has set it and the policy demands that this be the user.\<close>

theorem set_limit_outcome:
  assumes "limits_valid (sv_limits s)" and "i \<notin> lm_id ` set (sv_limits s)"
  shows "serve now u (UpsertLimit i c proc daily blk) s =
    (if \<not> approved s u c \<or> (\<exists>m \<in> set (sv_limits s). lm_child m = c \<and> lm_process m = proc \<and> lm_set_by m \<noteq> u) then None
     else Some (s\<lparr>sv_limits :=
       (if \<exists>m \<in> set (sv_limits s). lm_child m = c \<and> lm_process m = proc
        then map (\<lambda>m. if lm_child m = c \<and> lm_process m = proc then m\<lparr>lm_daily := daily, lm_blocked := blk\<rparr> else m) (sv_limits s)
        else sv_limits s @ [\<lparr>lm_id = i, lm_child = c, lm_set_by = u, lm_process = proc, lm_daily = daily, lm_blocked = blk\<rparr>])\<rparr>))"
proof (cases "approved s u c")
  case True
  let ?same = "\<lambda>m. lm_child m = c \<and> lm_process m = proc"
  let ?change = "\<lambda>m. if ?same m then m\<lparr>lm_daily := daily, lm_blocked := blk\<rparr> else m"
  let ?new = "\<lparr>lm_id = i, lm_child = c, lm_set_by = u, lm_process = proc, lm_daily = daily, lm_blocked = blk\<rparr>"
  have chk: "list_all (\<lambda>m. ?same m \<longrightarrow> may_set_limit s u (m\<lparr>lm_daily := daily, lm_blocked := blk\<rparr>)) (sv_limits s) \<longleftrightarrow>
      \<not> (\<exists>m \<in> set (sv_limits s). ?same m \<and> lm_set_by m \<noteq> u)"
    using True by (auto simp: list_all_iff may_set_limit_def)
  have valid: "limits_valid (map ?change (sv_limits s))" using assms(1) by (subst limits_valid_map) simp_all
  have valid_new: "limits_valid (sv_limits s @ [?new])" if "\<not> (\<exists>m \<in> set (sv_limits s). ?same m)"
    using assms that by (auto simp: limits_valid_def)
  have new: "may_set_limit s u ?new" using True by (simp add: may_set_limit_def)
  show ?thesis
    using True chk valid valid_new new
    by (cases "\<exists>m \<in> set (sv_limits s). ?same m")
       (auto simp: upsert_limit_def Let_def rls_update_def list_ex_iff checked_def)
qed (simp add: upsert_limit_def may_set_limit_def checked_def)

definition two_parents :: server where
  "two_parents =
     \<lparr>sv_links = [demo_link Approved, (demo_link Approved)\<lparr>lk_id := 2, lk_parent := ''q''\<rparr>],
      sv_limits = [\<lparr>lm_id = 1, lm_child = ''c'', lm_set_by = ''q'', lm_process = ''game.exe'', lm_daily = Some 3600, lm_blocked = False\<rparr>],
      sv_activity = []\<rparr>"

lemma set_limit_outcome_witness:
  "serve 5 ''p'' (UpsertLimit 2 ''c'' ''game.exe'' None True) two_parents = None \<and>
   serve 5 ''q'' (UpsertLimit 2 ''c'' ''game.exe'' None True) two_parents \<noteq> None"
  using set_limit_outcome [of two_parents 2 5 "''p''" "''c''" "''game.exe''" None True]
    set_limit_outcome [of two_parents 2 5 "''q''" "''c''" "''game.exe''" None True]
  by (simp add: two_parents_def demo_link_def limits_valid_def approved_def)

end
