(* ===== verification/Limit_Chain.thy ===== *)
theory Limit_Chain
  imports Parent_Page Cloud_Policy
begin

text \<open>
  From the parent's form to the child's agent: the request of \<open>Parent_Page\<close>, the database of \<open>Cloud_Policy\<close>, the list
  the child's agent reads with \<open>App_Limits\<close>.
\<close>

section \<open>Rows on the wire\<close>

text \<open>A row of \<open>app_limits\<close> as the agent holds it; SQL NULL is the negative limit.\<close>

definition agent_limit :: "limit \<Rightarrow> AppLimit" where
  "agent_limit m =
     \<lparr>al_id = lm_id m, al_process_name = lm_process m,
      al_daily_limit_sec = (case lm_daily m of None \<Rightarrow> -1 | Some d \<Rightarrow> d), al_blocked = (if lm_blocked m then 1 else 0)\<rparr>"

definition form_request :: "int \<Rightarrow> ui \<Rightarrow> parent_page \<Rightarrow> db_request" where
  "form_request i ui p =
     UpsertLimit i (selectedChildUserId p) (ui_trimmed ui (pp_process p))
       (if 0 \<le> form_seconds p then Some (form_seconds p) else None) (pp_block p)"

definition limits_reply :: "string \<Rightarrow> limit list \<Rightarrow> string" where
  "limits_reply c rows = render_array (map (limit_row c) (map agent_limit rows))"

lemma served_form_rows:
  assumes "serve now u (form_request i ui p) s = Some s'" and "m \<in> set (limits_of (selectedChildUserId p) s')"
    and "lm_process m = ui_trimmed ui (pp_process p)"
  shows "lm_daily m = (if 0 \<le> form_seconds p then Some (form_seconds p) else None) \<and> lm_blocked m = pp_block p"
  using assms
  by (auto simp: form_request_def limits_of_def upsert_limit_def Let_def checked_Some rls_update_def list_ex_iff
      split: if_splits)

lemma upsert_limit_present:
  assumes "upsert_limit s u i c proc daily blk = Some ms"
  shows "\<exists>m \<in> set ms. lm_child m = c \<and> lm_process m = proc"
proof (cases "list_ex (\<lambda>m. lm_child m = c \<and> lm_process m = proc) (sv_limits s)")
  case True
  then obtain m where m: "m \<in> set (sv_limits s)" "lm_child m = c" "lm_process m = proc" by (auto simp: list_ex_iff)
  have "m\<lparr>lm_daily := daily, lm_blocked := blk\<rparr> \<in> set ms"
    using assms True m by (force simp: upsert_limit_def Let_def rls_update_def split: if_splits)
  then show ?thesis using m by (intro bexI) auto
qed (use assms in \<open>auto simp: upsert_limit_def Let_def split: if_splits\<close>)

lemma served_form_present:
  assumes "serve now u (form_request i ui p) s = Some s'"
  shows "\<exists>m \<in> set (limits_of (selectedChildUserId p) s'). lm_process m = ui_trimmed ui (pp_process p)"
  using assms upsert_limit_present by (fastforce simp: form_request_def limits_of_def checked_Some)

lemma agent_limit_form:
  assumes "lm_daily m = (if 0 \<le> form_seconds p then Some (form_seconds p) else None)" and "lm_blocked m = pp_block p"
    and "1 \<le> pp_minutes p"
  shows "al_daily_limit_sec (agent_limit m) = form_seconds p \<and> al_blocked (agent_limit m) = (if pp_block p then 1 else 0)"
  using assms by (auto simp: agent_limit_def form_seconds_def)


definition family :: server where
  "family =
     \<lparr>sv_links = [\<lparr>lk_id = 1, lk_parent = ''p'', lk_child = ''ann'', lk_status = Approved, lk_created = 0,
                   lk_approved_at = None, lk_revoked_at = None, lk_level = Full\<rparr>],
      sv_limits = [], sv_activity = []\<rparr>"

definition game_row :: limit where
  "game_row = \<lparr>lm_id = 5, lm_child = ''ann'', lm_set_by = ''p'', lm_process = ''game.exe'', lm_daily = Some 3600, lm_blocked = False\<rparr>"

lemma game_row_served: "serve 9 ''p'' (form_request 5 demo_ui demo_parent) family = Some (family\<lparr>sv_limits := [game_row]\<rparr>)"
  by (simp add: form_request_def demo_ui_def demo_parent_def demo_links_def child_row_of_def selectedChildUserId_def
      form_seconds_def family_def game_row_def upsert_limit_def may_set_limit_def approved_def checked_def limits_valid_def)

lemma game_row_ok: "limit_row_ok ''ann'' (agent_limit game_row)"
  by (simp add: agent_limit_def game_row_def limit_row_ok_def row_text_def limit_keys_def MAX_LIMIT_PROCESS_def in_i32_def
      limit_row_def render_obj_def obj_text_def render_field_def esc_char_def show_int_def show_nat.simps
      plain_char_def code_def)


end
