(* ===== verification/Agent_Pages.thy ===== *)
theory Agent_Pages
  imports Parent_Page Remote_View
begin

text \<open>
  The agent's pages that change settings and the session: \<open>settingspage.cpp\<close>, \<open>remoteviewpage.cpp\<close>,
  \<open>supabasesetuppage.cpp\<close> and \<open>loginpage.cpp\<close> under \<open>src/agent/agent/\<close>. A page reads its fields from the settings when
  it is made, and writes them over the current settings when it is saved.
\<close>

section \<open>Settings\<close>

record settings_form =
  sf_sync :: int
  sf_backup :: int
  sf_summary :: int
  sf_min :: int
  sf_autostart :: bool
  sf_role :: int
  sf_language :: int
  sf_excluded :: string

text \<open>A spin box keeps its value in its range.\<close>

definition spin :: "int \<Rightarrow> int \<Rightarrow> int \<Rightarrow> int" where
  "spin lo hi v = max lo (min hi v)"

definition SettingsPage :: "AppSettings \<Rightarrow> settings_form" where
  "SettingsPage s =
     \<lparr>sf_sync = spin 5 3600 (sync_interval_sec s), sf_backup = spin 60 86400 (backup_interval_sec s),
      sf_summary = spin 30 3600 (summary_interval_sec s), sf_min = spin 0 3600 (min_duration_sec s),
      sf_autostart = (autostart_enabled s \<noteq> 0),
      sf_role = (if app_role s = APP_ROLE_PARENT then APP_ROLE_PARENT else APP_ROLE_CHILD),
      sf_language = (if language s = APP_LANG_VI then APP_LANG_VI else APP_LANG_EN),
      sf_excluded = excluded_processes s\<rparr>"

definition form_settings :: "settings_form \<Rightarrow> AppSettings \<Rightarrow> AppSettings" where
  "form_settings f s =
     s\<lparr>sync_interval_sec := sf_sync f, backup_interval_sec := sf_backup f, summary_interval_sec := sf_summary f,
       min_duration_sec := sf_min f, autostart_enabled := (if sf_autostart f then 1 else 0), app_role := sf_role f,
       language := sf_language f, excluded_processes := buf_copy MAX_EXCLUDED_LEN (sf_excluded f)\<rparr>"

definition ERR_SETTINGS_SAVE_FAIL :: string where
  "ERR_SETTINGS_SAVE_FAIL = ''E4001''"

definition save_failed :: "string \<Rightarrow> string" where
  "save_failed what = ''['' @ ERR_SETTINGS_SAVE_FAIL @ ''] Failed to save '' @ what @ ''.''"

text \<open>The dialog shown, whether \<open>settingsSaved\<close> is emitted, and the new state.\<close>

definition settings_onSave :: "settings_env \<Rightarrow> settings_form \<Rightarrow> settings_state \<Rightarrow> (string \<times> bool) \<times> settings_state" where
  "settings_onSave env f st =
     (case settings_update env (form_settings f (settings_get st)) st of
        (True, st') \<Rightarrow> ((''Settings saved.'', True), st')
      | (False, st') \<Rightarrow> ((save_failed ''settings'', False), st'))"

section \<open>Remote view\<close>

record remote_form =
  rf_enabled :: bool
  rf_port :: int
  rf_token :: string

definition RemoteViewPage :: "AppSettings \<Rightarrow> remote_form" where
  "RemoteViewPage s =
     \<lparr>rf_enabled = (remote_view_enabled s \<noteq> 0), rf_port = spin 1024 65535 (remote_view_port s),
      rf_token = remote_view_token s\<rparr>"

text \<open>The addresses of the machine, with the loopback marked.\<close>

definition localIpAddress :: "(string \<times> bool \<times> bool) list \<Rightarrow> string" where
  "localIpAddress addrs =
     (case filter (\<lambda>(a, ipv4, loopback). ipv4 \<and> \<not> loopback) addrs of (a, _) # _ \<Rightarrow> a | [] \<Rightarrow> ''YOUR_LOCAL_IP'')"

definition refreshUrlPreview :: "(string \<times> bool \<times> bool) list \<Rightarrow> remote_form \<Rightarrow> string" where
  "refreshUrlPreview addrs f =
     ''http://'' @ localIpAddress addrs @ '':'' @ show_int (rf_port f) @ ''/status?token='' @ rf_token f"

definition onRegenerateToken :: "nat list option \<Rightarrow> remote_form \<Rightarrow> remote_form" where
  "onRegenerateToken random f =
     f\<lparr>rf_token := (case random of Some bs \<Rightarrow> concat (map hex2 (take 16 bs)) | None \<Rightarrow> [])\<rparr>"

definition remote_settings :: "remote_form \<Rightarrow> AppSettings \<Rightarrow> AppSettings" where
  "remote_settings f s =
     s\<lparr>remote_view_enabled := (if rf_enabled f then 1 else 0), remote_view_port := rf_port f,
       remote_view_token := buf_copy 64 (rf_token f)\<rparr>"

definition remote_onSave ::
  "ui \<Rightarrow> settings_env \<Rightarrow> rv_env \<Rightarrow> remote_form \<Rightarrow> settings_state \<times> rv_state \<Rightarrow> string \<times> settings_state \<times> rv_state" where
  "remote_onSave ui env renv f s =
     (case s of (st, rv) \<Rightarrow>
        (case settings_update env (remote_settings f (settings_get st)) st of
           (False, st') \<Rightarrow> (save_failed ''settings'', st', rv)
         | (True, st') \<Rightarrow> (ui_tr ui ''rview.saved'', st', snd (remoteview_restart renv st' rv))))"

section \<open>The server's address\<close>

definition supabase_settings :: "string \<Rightarrow> string \<Rightarrow> AppSettings \<Rightarrow> AppSettings" where
  "supabase_settings url key s =
     s\<lparr>supabase_url := buf_copy MAX_URL_LEN url, supabase_key := buf_copy MAX_KEY_LEN key\<rparr>"

definition supabase_onSave :: "ui \<Rightarrow> settings_env \<Rightarrow> string \<Rightarrow> string \<Rightarrow> settings_state \<Rightarrow> string \<times> settings_state" where
  "supabase_onSave ui env url key st =
     (case settings_update env (supabase_settings url key (settings_get st)) st of
        (True, st') \<Rightarrow> (ui_tr ui ''supabase.saved'', st')
      | (False, st') \<Rightarrow> (save_failed ''configuration'', st'))"

section \<open>The account\<close>

record login_page =
  lg_email :: string
  lg_password :: string
  lg_logged_in :: bool      \<comment> \<open>which of the two pages is shown\<close>
  lg_as :: string
  lg_dialogs :: "string list"

definition login_refresh :: "ui \<Rightarrow> 'w agent \<Rightarrow> login_page \<Rightarrow> login_page" where
  "login_refresh ui ag p =
     (let session = auth_get_session ag
      in if as_logged_in session
         then p\<lparr>lg_as := ui_arg ui (ui_tr ui ''login.logged_in_as'') (as_email session), lg_logged_in := True\<rparr>
         else p\<lparr>lg_email := [], lg_password := [], lg_logged_in := False\<rparr>)"

definition login_say :: "string \<Rightarrow> login_page \<Rightarrow> login_page" where
  "login_say msg p = p\<lparr>lg_dialogs := lg_dialogs p @ [msg]\<rparr>"

text \<open>The flag says whether \<open>loggedIn\<close> or \<open>loggedOut\<close> is emitted.\<close>

definition attempt :: "ui \<Rightarrow> 'w env \<Rightarrow> bool \<Rightarrow> login_page \<times> 'w agent \<Rightarrow> bool \<times> login_page \<times> 'w agent" where
  "attempt ui env isRegister pa =
     (case pa of (p, ag) \<Rightarrow>
        (let email = ui_trimmed ui (lg_email p); password = lg_password p
         in if email = [] \<or> password = [] then (False, login_say (ui_tr ui ''login.enter_both'') p, ag)
            else
              (let ((ok, err), ag1) = (if isRegister then auth_register env email password 512 ag
                                       else auth_login env email password 512 ag)
               in if ok
                  then (if auth_is_logged_in ag1
                        then (True, login_refresh ui ag1 (login_say (ui_tr ui ''login.success'') p), ag1)
                        else (False, (case err of Some (c # cs) \<Rightarrow> login_say (c # cs) p | _ \<Rightarrow> p), ag1))
                  else (False, login_say (case err of Some e \<Rightarrow> e | None \<Rightarrow> []) p, ag1))))"

definition onLogoutClicked :: "ui \<Rightarrow> 'w env \<Rightarrow> bool \<Rightarrow> login_page \<times> 'w agent \<Rightarrow> bool \<times> login_page \<times> 'w agent" where
  "onLogoutClicked ui env yes pa =
     (case pa of (p, ag) \<Rightarrow>
        if \<not> yes then (False, p, ag)
        else (let ag1 = auth_logout env ag
              in (True, login_say (ui_tr ui ''login.logout_done'') (login_refresh ui ag1 p), ag1)))"

section \<open>What the pages leave of the settings\<close>

datatype page_save = SaveSettings settings_form | SaveRemote remote_form | SaveSupabase string string

fun page_settings :: "page_save \<Rightarrow> AppSettings \<Rightarrow> AppSettings" where
  "page_settings (SaveSettings f) s = form_settings f s"
| "page_settings (SaveRemote f) s = remote_settings f s"
| "page_settings (SaveSupabase url key) s = supabase_settings url key s"

text \<open>A line edit holds one line.\<close>

definition one_line :: "string \<Rightarrow> bool" where
  "one_line t \<longleftrightarrow> cr \<notin> set t \<and> nl \<notin> set t"

fun page_valid :: "page_save \<Rightarrow> bool" where
  "page_valid (SaveSettings f) \<longleftrightarrow>
     one_line (sf_excluded f) \<and> 5 \<le> sf_sync f \<and> sf_sync f \<le> 3600 \<and> 60 \<le> sf_backup f \<and> sf_backup f \<le> 86400 \<and>
     30 \<le> sf_summary f \<and> sf_summary f \<le> 3600 \<and> 0 \<le> sf_min f \<and> sf_min f \<le> 3600 \<and>
     sf_role f \<in> {APP_ROLE_CHILD, APP_ROLE_PARENT} \<and> sf_language f \<in> {APP_LANG_EN, APP_LANG_VI}"
| "page_valid (SaveRemote f) \<longleftrightarrow> one_line (rf_token f) \<and> 1024 \<le> rf_port f \<and> rf_port f \<le> 65535"
| "page_valid (SaveSupabase url key) \<longleftrightarrow> one_line url \<and> one_line key"

text \<open>What a page does not show it leaves as it was.\<close>

fun untouched :: "page_save \<Rightarrow> AppSettings \<Rightarrow> AppSettings \<Rightarrow> bool" where
  "untouched (SaveSettings f) s s' \<longleftrightarrow>
     remote_view_enabled s' = remote_view_enabled s \<and> remote_view_port s' = remote_view_port s \<and>
     remote_view_token s' = remote_view_token s \<and> supabase_url s' = supabase_url s \<and> supabase_key s' = supabase_key s \<and>
     retry_backoff_base_sec s' = retry_backoff_base_sec s \<and> retry_backoff_max_sec s' = retry_backoff_max_sec s"
| "untouched (SaveRemote f) s s' \<longleftrightarrow> remote_settings (RemoteViewPage s) s' = remote_settings (RemoteViewPage s) s"
| "untouched (SaveSupabase url key) s s' \<longleftrightarrow> supabase_settings [] [] s' = supabase_settings [] [] s"

lemma set_c_str: "set (c_str s) \<subseteq> set s"
  by (auto simp: c_str_def dest: set_takeWhileD)

lemma set_buf_copy: "set (buf_copy n s) \<subseteq> set s"
  using set_c_str by (auto simp: buf_copy_def dest: in_set_takeD)

lemma ini_value_buf:
  assumes "0 < n" and "one_line t"
  shows "ini_value n (buf_copy n t)"
proof -
  have no: "cr \<notin> set (buf_copy n t) \<and> nl \<notin> set (buf_copy n t)"
    using set_buf_copy [of n t] assms(2) by (auto simp: one_line_def)
  then have "buf_copy n t \<noteq> [] \<Longrightarrow> last (buf_copy n t) \<noteq> cr" using last_in_set by metis
  then show ?thesis using no set_buf_copy [of n t] assms by (auto simp: ini_value_def buf_copy_length)
qed

lemma page_settings_ok: "settings_ok s \<Longrightarrow> page_valid pg \<Longrightarrow> settings_ok (page_settings pg s)"
  by (cases pg)
     (auto simp: settings_ok_def form_settings_def remote_settings_def supabase_settings_def settings_consts in_i32_def
       intro!: ini_value_buf)

lemma page_untouched: "untouched pg s (page_settings pg s)"
  by (cases pg) (simp_all add: form_settings_def remote_settings_def supabase_settings_def)

lemma settings_update_get: "settings_get (snd (settings_update env s st)) = s"
  by (auto simp: settings_update_def settings_get_def settings_apply_autostart_def Let_def
      split: prod.splits option.splits)

text \<open>Whatever is entered on one of the pages, a save keeps the settings well-formed and all fields of the other pages,
  and when it is reported as done, the agent's next start reads exactly the settings in use now.\<close>

theorem pages_keep_settings:
  assumes "settings_ok (settings_get st)" and "page_valid pg"
    and "settings_update env (page_settings pg (settings_get st)) st = (ok, st')"
  shows "settings_ok (settings_get st') \<and> untouched pg (settings_get st) (settings_get st') \<and>
    (ok \<and> remote_view_token (settings_get st') \<noteq> [] \<longrightarrow> fst (settings_load env st') = settings_get st')"
proof -
  let ?s = "page_settings pg (settings_get st)"
  have get: "settings_get st' = ?s" using settings_update_get [of env ?s st] assms(3) by simp
  have good: "settings_ok ?s" by (rule page_settings_ok [OF assms(1,2)])
  have "fst (settings_load env st') = ?s" if "ok" "remote_view_token ?s \<noteq> []"
  proof -
    let ?st2 = "snd (settings_apply_autostart env (autostart_enabled ?s) (st\<lparr>g_settings := ?s\<rparr>))"
    have upd: "settings_update env ?s st = (True, st')" using assms(3) that(1) by simp
    obtain fs' where fs: "settings_save env ?s (st_fs ?st2) = (True, fs')" "st' = ?st2\<lparr>st_fs := fs'\<rparr>"
      using upd by (auto simp: settings_update_def Let_def split: prod.splits)
    show ?thesis using settings_roundtrip [OF good that(2) fs(1)] fs(2) by simp
  qed
  then show ?thesis using get good page_untouched by simp
qed

lemma pages_keep_settings_witness:
  "settings_ok (settings_get (snd (settings_update example_env
     (page_settings (SaveSupabase ''u'' ''k'') (settings_get example_state)) example_state)))"
proof -
  have "settings_ok (settings_get example_state)"
    by (simp add: example_state_def settings_get_def setDefaults_def settings_ok_def in_i32_def ini_value_def settings_consts)
  moreover have "page_valid (SaveSupabase ''u'' ''k'')" by (simp add: one_line_def)
  ultimately show ?thesis using pages_keep_settings by (metis prod.collapse)
qed

end
