(* ===== verification/Control_Panel.thy ===== *)
theory Control_Panel
  imports Agent_Pages Agent_Loop "HOL-Library.Signed_Division"
begin

text \<open>
  The agent's window, \<open>src/agent/agent/controlpanelwindow.cpp\<close>: a side bar, one page per row, and the overview. A
  list emits \<open>currentRowChanged\<close> only when the current row changes. A \<open>QString\<close> is its UTF-8 text.
\<close>

section \<open>What Qt and the other parts give\<close>

record 'w panel_env =
  pe_ui :: ui
  pe_net :: "'w env"
  pe_db :: db_env
  pe_device :: device_env
  pe_settings :: settings_env
  pe_toLower :: "string \<Rightarrow> string"

definition panel_ui :: "'w panel_env \<Rightarrow> 'w app \<Rightarrow> ui" where
  "panel_ui env a = (pe_ui env)\<lparr>ui_settings := ag_settings (ap_agent a)\<rparr>"

definition with_settings :: "settings_state \<Rightarrow> 'w app \<Rightarrow> 'w app" where
  "with_settings st a =
     a\<lparr>ap_agent := (ap_agent a)\<lparr>ag_settings := g_settings st, ag_fs := st_fs st\<rparr>, ap_run_key := run_key st\<rparr>"

section \<open>The overview\<close>

text \<open>The names of the needles and of the standard icons.\<close>

definition icon_rules :: "(string \<times> string) list" where
  "icon_rules =
     [(''chrome'', ''SP_BrowserReload''), (''firefox'', ''SP_BrowserReload''), (''msedge'', ''SP_BrowserReload''),
      (''opera'', ''SP_BrowserReload''), (''brave'', ''SP_BrowserReload''),
      (''discord'', ''SP_MessageBoxInformation''), (''zalo'', ''SP_MessageBoxInformation''),
      (''telegram'', ''SP_MessageBoxInformation''), (''messenger'', ''SP_MessageBoxInformation''),
      (''slack'', ''SP_MessageBoxInformation''),
      (''code'', ''SP_FileDialogDetailedView''), (''devenv'', ''SP_FileDialogDetailedView''),
      (''pycharm'', ''SP_FileDialogDetailedView''), (''clion'', ''SP_FileDialogDetailedView''),
      (''idea'', ''SP_FileDialogDetailedView''),
      (''steam'', ''SP_MediaPlay''), (''riot'', ''SP_MediaPlay''), (''valorant'', ''SP_MediaPlay''),
      (''leagueclient'', ''SP_MediaPlay''), (''epicgames'', ''SP_MediaPlay''),
      (''word'', ''SP_FileIcon''), (''excel'', ''SP_FileIcon''), (''powerpnt'', ''SP_FileIcon''),
      (''acrobat'', ''SP_FileIcon''), (''onenote'', ''SP_FileIcon''),
      (''spotify'', ''SP_MediaVolume''), (''vlc'', ''SP_MediaVolume''), (''potplayer'', ''SP_MediaVolume''),
      (''itunes'', ''SP_MediaVolume''),
      (''explorer'', ''SP_DirIcon''), (''cmd'', ''SP_CommandLink''), (''powershell'', ''SP_CommandLink''),
      (''terminal'', ''SP_CommandLink''),
      (''photoshop'', ''SP_DialogApplyButton''), (''figma'', ''SP_DialogApplyButton''),
      (''illustrator'', ''SP_DialogApplyButton'')]"

definition iconForProcess :: "(string \<Rightarrow> string) \<Rightarrow> string \<Rightarrow> string" where
  "iconForProcess toLower processNameRaw =
     (let p = toLower processNameRaw
      in case find (\<lambda>(needle, icon). str_find needle p \<noteq> None) icon_rules of
           Some (_, icon) \<Rightarrow> icon | None \<Rightarrow> ''SP_ComputerIcon'')"

definition prettyProcessName :: "string \<Rightarrow> string" where
  "prettyProcessName s =
     (if 4 \<le> length s \<and> map lower (drop (length s - 4) s) = ''.exe'' then take (length s - 4) s else s)"

definition formatHMS :: "int \<Rightarrow> string" where
  "formatHMS secs = pad0 2 (secs sdiv 3600) @ '':'' @ pad0 2 (secs smod 3600 sdiv 60) @ '':'' @ pad0 2 (secs smod 60)"

record overview =
  ov_greeting :: string
  ov_subtitle :: "string option"                 \<comment> \<open>none when hidden\<close>
  ov_loginBtn :: bool
  ov_today :: "(string \<times> string \<times> string) list"  \<comment> \<open>icon, name, time\<close>
  ov_todayEmpty :: bool
  ov_machines :: "(bool \<times> string) list"           \<comment> \<open>this device, label\<close>
  ov_machinesText :: string
  ov_machinesEmpty :: bool

record panel =
  cp_current :: int
  cp_hideLink :: bool
  cp_hideFamily :: bool
  cp_stack :: int
  cp_visible :: bool
  cp_paused :: bool
  cp_status :: string
  cp_pauseBtn :: string
  cp_overview :: overview
  cp_login :: login_page
  cp_links :: link_page
  cp_family :: parent_page
  cp_settings :: settings_form

definition MACHINES_MAX :: nat where "MACHINES_MAX = 50"

definition setPaused :: "ui \<Rightarrow> bool \<Rightarrow> panel \<Rightarrow> panel" where
  "setPaused ui paused p =
     p\<lparr>cp_paused := paused,
       cp_status := (if paused then ui_tr ui ''cp.overview_status_paused'' else ui_tr ui ''cp.overview_status_tracking''),
       cp_pauseBtn := (if paused then ui_tr ui ''cp.overview_resume_btn'' else ui_tr ui ''cp.overview_pause_btn'')\<rparr>"

definition today_row :: "'w panel_env \<Rightarrow> wstr \<times> int \<Rightarrow> string \<times> string \<times> string" where
  "today_row env e =
     (let processName = wideToUtf8 (de_codec (pe_db env)) (fst e)
      in (iconForProcess (pe_toLower env) processName, prettyProcessName processName, formatHMS (snd e)))"

definition machine_row :: "ui \<Rightarrow> string \<Rightarrow> MachineHeartbeat \<Rightarrow> bool \<times> string" where
  "machine_row ui selfDeviceId m =
     (let isSelf = mh_device_id m = selfDeviceId;
          label = (if mh_hostname m = [] then mh_device_id m else mh_hostname m)
      in (isSelf, if isSelf then label @ '' '' @ ui_tr ui ''cp.overview_machines_this_device'' else label))"

definition refreshOverview :: "'w panel_env \<Rightarrow> panel \<times> 'w app \<Rightarrow> panel \<times> 'w app" where
  "refreshOverview env pa =
     (case pa of (p, a) \<Rightarrow>
        (let ui = panel_ui env a; session = auth_get_session (ap_agent a); loggedIn = as_logged_in session;
             entries = db_get_today_app_summary (pe_db env) DAILY_APP_SUMMARY_MAX (ap_db a);
             (machines, ag1) = (if loggedIn then machines_list (pe_net env) MACHINES_MAX (ap_agent a) else ([], ap_agent a));
             (selfDeviceId, dv1) = get_device_id (pe_device env) 64 ((ap_device a)\<lparr>dv_fs := ag_fs ag1\<rparr>);
             p1 = setPaused ui (cp_paused p) p;
             old = cp_overview p
         in (p1\<lparr>cp_overview :=
                 \<lparr>ov_greeting = (if loggedIn then ui_arg ui (ui_arg ui ''%1, %2'' (ui_tr ui ''cp.overview_greeting_in'')) (as_email session)
                                else ui_tr ui ''cp.overview_greeting_out''),
                  ov_subtitle = (if loggedIn then None else Some (ui_tr ui ''cp.overview_not_logged_in'')),
                  ov_loginBtn = (\<not> loggedIn),
                  ov_today = map (today_row env) entries,
                  ov_todayEmpty = (entries = []),
                  ov_machines = map (machine_row ui selfDeviceId) machines,
                  ov_machinesText = (if \<not> loggedIn then ui_tr ui ''cp.overview_machines_login_required''
                                    else if machines = [] then ui_tr ui ''cp.overview_machines_none'' else ov_machinesText old),
                  ov_machinesEmpty = (machines = [])\<rparr>\<rparr>,
             a\<lparr>ap_agent := ag1\<lparr>ag_fs := dv_fs dv1\<rparr>, ap_device := dv1\<rparr>)))"

section \<open>Rows and pages\<close>

datatype page = PageOverview | PageAccount | PageSettings | PageRemoteView | PageParentLink | PageFamily | PageAdvanced | PageAbout

definition m_rowOverview :: int where "m_rowOverview = 0"
definition m_rowAccount :: int where "m_rowAccount = 1"
definition m_rowSettings :: int where "m_rowSettings = 2"
definition m_rowRemoteView :: int where "m_rowRemoteView = 3"
definition m_rowParentLink :: int where "m_rowParentLink = 4"
definition m_rowFamily :: int where "m_rowFamily = 5"
definition m_rowAdvanced :: int where "m_rowAdvanced = 6"
definition m_rowAbout :: int where "m_rowAbout = 7"

lemmas rows = m_rowOverview_def m_rowAccount_def m_rowSettings_def m_rowRemoteView_def m_rowParentLink_def m_rowFamily_def
  m_rowAdvanced_def m_rowAbout_def

fun pageToRow :: "page \<Rightarrow> int" where
  "pageToRow PageOverview = m_rowOverview"
| "pageToRow PageAccount = m_rowAccount"
| "pageToRow PageSettings = m_rowSettings"
| "pageToRow PageRemoteView = m_rowRemoteView"
| "pageToRow PageParentLink = m_rowParentLink"
| "pageToRow PageFamily = m_rowFamily"
| "pageToRow PageAdvanced = m_rowAdvanced"
| "pageToRow PageAbout = m_rowAbout"

definition row_hidden :: "panel \<Rightarrow> int \<Rightarrow> bool" where
  "row_hidden p row \<longleftrightarrow> row = m_rowParentLink \<and> cp_hideLink p \<or> row = m_rowFamily \<and> cp_hideFamily p"

definition login_page_refresh :: "'w panel_env \<Rightarrow> panel \<times> 'w app \<Rightarrow> panel \<times> 'w app" where
  "login_page_refresh env pa =
     (case pa of (p, a) \<Rightarrow> (p\<lparr>cp_login := login_refresh (panel_ui env a) (ap_agent a) (cp_login p)\<rparr>, a))"

definition links_refresh :: "'w panel_env \<Rightarrow> panel \<times> 'w app \<Rightarrow> panel \<times> 'w app" where
  "links_refresh env pa =
     (case pa of (p, a) \<Rightarrow>
        (let (l, ag) = link_page_refresh (panel_ui env a) (pe_net env) (cp_links p, ap_agent a)
         in (p\<lparr>cp_links := l\<rparr>, a\<lparr>ap_agent := ag\<rparr>)))"

definition family_refresh :: "'w panel_env \<Rightarrow> panel \<times> 'w app \<Rightarrow> panel \<times> 'w app" where
  "family_refresh env pa =
     (case pa of (p, a) \<Rightarrow>
        (let (f, ag) = refreshChildren (panel_ui env a) (pe_net env) (cp_family p, ap_agent a)
         in (p\<lparr>cp_family := f\<rparr>, a\<lparr>ap_agent := ag\<rparr>)))"

definition onSidebarRowChanged :: "'w panel_env \<Rightarrow> int \<Rightarrow> panel \<times> 'w app \<Rightarrow> panel \<times> 'w app" where
  "onSidebarRowChanged env row pa =
     (if row < 0 then pa
      else
        (let pa1 = ((fst pa)\<lparr>cp_stack := row\<rparr>, snd pa)
         in if row = m_rowOverview then refreshOverview env pa1
            else if row = m_rowAccount then login_page_refresh env pa1
            else if row = m_rowParentLink then links_refresh env pa1
            else if row = m_rowFamily then family_refresh env pa1
            else pa1))"

definition setCurrentRow :: "'w panel_env \<Rightarrow> int \<Rightarrow> panel \<times> 'w app \<Rightarrow> panel \<times> 'w app" where
  "setCurrentRow env row pa =
     (if cp_current (fst pa) = row then pa else onSidebarRowChanged env row ((fst pa)\<lparr>cp_current := row\<rparr>, snd pa))"

definition refreshSidebarVisibility :: "'w panel_env \<Rightarrow> panel \<times> 'w app \<Rightarrow> panel \<times> 'w app" where
  "refreshSidebarVisibility env pa =
     (case pa of (p, a) \<Rightarrow>
        (let s = settings_get (settings_of a);
             isChild = app_role s \<noteq> APP_ROLE_PARENT; isParent = app_role s = APP_ROLE_PARENT;
             p1 = p\<lparr>cp_hideLink := \<not> isChild, cp_hideFamily := \<not> isParent\<rparr>
         in if 0 \<le> cp_current p1 \<and> row_hidden p1 (cp_current p1) then setCurrentRow env m_rowOverview (p1, a) else (p1, a)))"

text \<open>The end of the constructor: the pages exist, no row is current yet.\<close>

definition panel_start :: "'w panel_env \<Rightarrow> panel \<times> 'w app \<Rightarrow> panel \<times> 'w app" where
  "panel_start env pa =
     setCurrentRow env m_rowOverview (refreshOverview env (refreshSidebarVisibility env ((fst pa)\<lparr>cp_current := - 1\<rparr>, snd pa)))"

definition openTo :: "'w panel_env \<Rightarrow> page \<Rightarrow> panel \<times> 'w app \<Rightarrow> panel \<times> 'w app" where
  "openTo env pg pa =
     (let pa1 = refreshSidebarVisibility env pa;
          pa2 = (if pg = PageOverview then refreshOverview env pa1
                 else if pg = PageAccount then login_page_refresh env pa1
                 else if pg = PageParentLink then links_refresh env pa1
                 else if pg = PageFamily then family_refresh env pa1
                 else pa1);
          pa3 = setCurrentRow env (pageToRow pg) pa2
      in ((fst pa3)\<lparr>cp_visible := True\<rparr>, snd pa3))"

definition closeEvent :: "panel \<times> 'w app \<Rightarrow> panel \<times> 'w app" where
  "closeEvent pa = ((fst pa)\<lparr>cp_visible := False\<rparr>, snd pa)"

text \<open>The signals that follow, \<open>accountChanged\<close> and \<open>settingsChanged\<close>, go to the tray icon.\<close>

definition onLoggedInOrOut :: "'w panel_env \<Rightarrow> panel \<times> 'w app \<Rightarrow> panel \<times> 'w app" where
  "onLoggedInOrOut env pa = family_refresh env (links_refresh env (refreshOverview env pa))"

definition onSettingsSaved :: "'w panel_env \<Rightarrow> panel \<times> 'w app \<Rightarrow> panel \<times> 'w app" where
  "onSettingsSaved env pa = refreshOverview env (refreshSidebarVisibility env pa)"

section \<open>The browser\<close>

definition dashboard_url :: string where "dashboard_url = ''http://127.0.0.1:5000/''"

text \<open>Each probe of the port is an element of the list; \<open>n\<close> failures so far.\<close>

fun retry_probes :: "nat \<Rightarrow> bool list \<Rightarrow> nat option" where
  "retry_probes n [] = None"
| "retry_probes n (up # probes) =
     (if up then Some n else if 20 \<le> Suc n then Some (Suc n) else retry_probes (Suc n) probes)"

datatype browser = Opened nat | Missing string | Waiting   \<comment> \<open>after so many failed probes\<close>

definition openWebDashboard :: "ui \<Rightarrow> string \<Rightarrow> (string \<Rightarrow> bool) \<Rightarrow> bool \<Rightarrow> bool list \<Rightarrow> string option \<times> browser" where
  "openWebDashboard ui appDir exists listening probes =
     (if listening then (None, Opened 0)
      else
        (let exePath = appDir @ ''/dashboard-go/dashboard.exe''
         in if \<not> exists exePath then (None, Missing (ui_arg ui (ui_tr ui ''cp.overview_dashboard_missing'') exePath))
            else (Some exePath, case retry_probes 0 probes of Some n \<Rightarrow> Opened n | None \<Rightarrow> Waiting)))"


lemma retry_probes_bound:
  "n < 20 \<Longrightarrow> 20 \<le> n + length probes \<Longrightarrow> \<exists>k \<le> 20. n \<le> k \<and> retry_probes n probes = Some k \<and> (k < 20 \<longrightarrow> probes ! (k - n))"
proof (induction n probes rule: retry_probes.induct)
  case (2 n up probes)
  show ?case
  proof (cases "up \<or> 20 \<le> Suc n")
    case False
    then obtain k where k: "k \<le> 20" "Suc n \<le> k" "retry_probes (Suc n) probes = Some k" "k < 20 \<longrightarrow> probes ! (k - Suc n)"
      using 2 by auto
    moreover have "(up # probes) ! (k - n) = probes ! (k - Suc n)" using k(2) by (simp add: nth_Cons' )
    ultimately show ?thesis using False by (intro exI [of _ k]) simp
  qed (use 2 in auto)
qed simp

text \<open>Whatever the started program does, the browser opens after at most twenty failed probes of its port, and before
  that only once a probe has succeeded.\<close>

lemma browser_opens:
  assumes "20 \<le> length probes" and "exists (appDir @ ''/dashboard-go/dashboard.exe'')"
  shows "\<exists>k \<le> 20. snd (openWebDashboard ui appDir exists listening probes) = Opened k \<and> (listening \<or> k < 20 \<and> probes ! k \<or> k = 20)"
  using retry_probes_bound [of 0 probes] assms by (auto simp: openWebDashboard_def Let_def)

end
