(* ===== verification/Update_Check.thy ===== *)
theory Update_Check
  imports Settings_Store "HOL-Library.List_Lexorder"
begin

text \<open>
  \<open>src/agent/agent/updatechecker.cpp\<close>: is the release the server lists newer than this program? Two
  functions of Qt are parameters: \<open>QString::toInt\<close> (\<open>None\<close> where it reports no number) and the JSON
  parser, whose result is \<open>None\<close> unless the document is an array; an object maps a key to its string
  value, empty where there is none. A \<open>QString\<close> is a \<open>string\<close>.
\<close>

type_synonym to_int = "string \<Rightarrow> int option"
type_synonym json_array = "string \<Rightarrow> (string \<Rightarrow> string) list option"

section \<open>Comparing versions\<close>

definition APP_VERSION :: string where "APP_VERSION = ''1.0.2.2 release''"

definition strip_v :: "string \<Rightarrow> string" where
  "strip_v a = (if a \<noteq> [] \<and> lower (hd a) = CHR ''v'' then tl a else a)"

definition version_parts :: "to_int \<Rightarrow> string \<Rightarrow> int list" where
  "version_parts ti a = map (\<lambda>p. case ti p of Some v \<Rightarrow> v | None \<Rightarrow> 0) (split_on CHR ''.'' (strip_v a))"

function compare_loop :: "int list \<Rightarrow> int list \<Rightarrow> nat \<Rightarrow> nat \<Rightarrow> int" where
  "compare_loop partsA partsB count i =
     (if count \<le> i then 0
      else
        (let va = (if i < length partsA then partsA ! i else 0);
             vb = (if i < length partsB then partsB ! i else 0)
         in if va \<noteq> vb then to_i32 (va - vb) else compare_loop partsA partsB count (Suc i)))"
  by pat_completeness auto
termination by (relation "measure (\<lambda>(as, bs, count, i). count - i)") auto

declare compare_loop.simps [simp del]

definition compareVersions :: "to_int \<Rightarrow> string \<Rightarrow> string \<Rightarrow> int" where
  "compareVersions ti a b =
     (let partsA = version_parts ti a; partsB = version_parts ti b
      in compare_loop partsA partsB (max (length partsA) (length partsB)) 0)"

section \<open>The check\<close>

text \<open>Address, query items and headers of the request.\<close>

definition checkNow :: "string \<times> (string \<times> string) list \<times> (string \<times> string) list" where
  "checkNow =
     (SUPABASE_URL @ ''/rest/v1/app_releases'',
      [(''select'', ''version,download_url,notes''), (''order'', ''published_at.desc''), (''limit'', ''1'')],
      [(''apikey'', SUPABASE_ANON_KEY), (''Accept'', ''application/json'')])"

datatype update_signal = updateAvailable string string string | upToDate | checkFailed string

text \<open>The reply is the text of Qt's error or the data.\<close>

definition onReply :: "to_int \<Rightarrow> json_array \<Rightarrow> string + string \<Rightarrow> update_signal" where
  "onReply ti fromJson reply =
     (case reply of
        Inl errorString \<Rightarrow> checkFailed errorString
      | Inr data \<Rightarrow>
          (case fromJson data of
             None \<Rightarrow> checkFailed ''Unexpected response from update server (is migrations/003_app_releases.sql set up, and does it have at least one row?)''
           | Some [] \<Rightarrow> checkFailed ''Unexpected response from update server (is migrations/003_app_releases.sql set up, and does it have at least one row?)''
           | Some (obj # _) \<Rightarrow>
               (let latestVersion = obj ''version''; downloadUrl = obj ''download_url''; notes = obj ''notes''
                in if latestVersion = [] then checkFailed ''Update server returned no version info.''
                   else if 0 < compareVersions ti latestVersion APP_VERSION
                   then updateAvailable latestVersion downloadUrl notes
                   else upToDate)))"

section \<open>Versions as an order\<close>

text \<open>The reference: lists of components without trailing zeros, in lexicographic order.\<close>

fun trim0 :: "int list \<Rightarrow> int list" where
  "trim0 [] = []"
| "trim0 (a # as) = (let t = trim0 as in if a = 0 \<and> t = [] then [] else a # t)"

fun compare_parts :: "int list \<Rightarrow> int list \<Rightarrow> int" where
  "compare_parts [] [] = 0"
| "compare_parts (a # as) [] = (if a \<noteq> 0 then to_i32 (a - 0) else compare_parts as [])"
| "compare_parts [] (b # bs) = (if 0 \<noteq> b then to_i32 (0 - b) else compare_parts [] bs)"
| "compare_parts (a # as) (b # bs) = (if a \<noteq> b then to_i32 (a - b) else compare_parts as bs)"

lemma compare_loop_parts:
  "count = max (length as) (length bs) \<Longrightarrow> compare_loop as bs count i = compare_parts (drop i as) (drop i bs)"
proof (induction as bs count i rule: compare_loop.induct)
  case (1 as bs count i)
  show ?case
  proof (cases "count \<le> i")
    case True
    then show ?thesis using 1(2) by (simp add: compare_loop.simps)
  next
    case False
    consider "i < length as" "i < length bs" | "i < length as" "length bs \<le> i" | "length as \<le> i" "i < length bs"
      using False 1(2) by linarith
    then show ?thesis
      using 1(1) [OF False refl refl _ 1(2)] False
      by cases (simp_all add: compare_loop.simps [of as bs count i] Let_def Cons_nth_drop_Suc [symmetric])
  qed
qed

definition component :: "int \<Rightarrow> bool" where
  "component v \<longleftrightarrow> 0 \<le> v \<and> v < 2 ^ 31"

lemma diff_sign:
  assumes "component a" and "component b"
  shows "to_i32 (a - b) = a - b" "to_i32 a = a" "to_i32 (- b) = - b"
  using assms by (simp_all add: component_def in_i32_def)

lemma trim0_less: "[] < trim0 as \<longleftrightarrow> trim0 as \<noteq> []"
  by (cases "trim0 as") simp_all

lemma compare_parts_order:
  "\<forall>v \<in> set as \<union> set bs. component v \<Longrightarrow>
   (0 < compare_parts as bs \<longleftrightarrow> trim0 bs < trim0 as) \<and> (compare_parts as bs = 0 \<longleftrightarrow> trim0 as = trim0 bs)"
proof (induction as bs rule: compare_parts.induct)
  case (2 a as)
  then show ?case using diff_sign [of a 0] by (auto simp: Let_def component_def trim0_less)
next
  case (3 b bs)
  then show ?case using diff_sign [of 0 b] by (auto simp: Let_def component_def)
next
  case (4 a as b bs)
  then show ?case using diff_sign [of a b] by (auto simp: Let_def component_def trim0_less)
qed simp

datatype version = Version (components: "nat list")

definition significant :: "version \<Rightarrow> int list" where
  "significant v = trim0 (map int (components v))"

instantiation version :: preorder
begin

definition less_eq_version :: "version \<Rightarrow> version \<Rightarrow> bool" where
  "less_eq_version v w \<longleftrightarrow> significant v \<le> significant w"

definition less_version :: "version \<Rightarrow> version \<Rightarrow> bool" where
  "less_version v w \<longleftrightarrow> significant v < significant w"

instance
  by standard (auto simp: less_eq_version_def less_version_def)

end

lemma version_total: "v \<le> w \<or> w \<le> v" for v w :: version
  by (auto simp: less_eq_version_def)

lemma version_less_simps [simp]:
  "Version [] < Version (b # bs) \<longleftrightarrow> b \<noteq> 0 \<or> Version [] < Version bs"
  "\<not> Version as < Version []"
  "Version (a # as) < Version (b # bs) \<longleftrightarrow> a < b \<or> a = b \<and> Version as < Version bs"
  "Version as \<le> Version bs \<longleftrightarrow> \<not> Version bs < Version as"
  by (auto simp: less_version_def less_eq_version_def significant_def Let_def trim0_less)

text \<open>Strings whose components Qt reads as the numbers \<open>as\<close>.\<close>

definition reads_version :: "to_int \<Rightarrow> string \<Rightarrow> nat list \<Rightarrow> bool" where
  "reads_version ti s as \<longleftrightarrow> version_parts ti s = map int as \<and> (\<forall>a \<in> set as. a < 2 ^ 31)"

lemma compareVersions_order:
  assumes "reads_version ti a as" and "reads_version ti b bs"
  shows "(0 < compareVersions ti a b \<longleftrightarrow> Version bs < Version as) \<and>
    (compareVersions ti a b = 0 \<longleftrightarrow> significant (Version as) = significant (Version bs))"
proof -
  have "\<forall>v \<in> set (map int as) \<union> set (map int bs). component v"
    using assms by (fastforce simp: reads_version_def component_def)
  from compare_parts_order [OF this] show ?thesis
    using assms by (simp add: compareVersions_def reads_version_def compare_loop_parts less_version_def significant_def Let_def)
qed

text \<open>C21: Comparing versions is comparing component lists in lexicographic order, missing components
  counting as zero: the result is positive, zero or negative exactly as the first version is above, level
  with, or below the second in a total preorder, so that \<open>1.2\<close> and \<open>1.2.0\<close> are the same version.\<close>

theorem compare_is_version_order:
  assumes "reads_version ti a as" and "reads_version ti b bs"
  shows "(0 < compareVersions ti a b \<longleftrightarrow> Version bs < Version as) \<and>
    (compareVersions ti a b = 0 \<longleftrightarrow> Version as \<le> Version bs \<and> Version bs \<le> Version as) \<and>
    (compareVersions ti a b < 0 \<longleftrightarrow> Version as < Version bs)"
  using compareVersions_order [OF assms] by (auto simp: less_version_def less_eq_version_def simp del: version_less_simps)

text \<open>Qt's reading of decimal numbers, for examples.\<close>

definition demo_to_int :: to_int where
  "demo_to_int s = (if s \<noteq> [] \<and> list_all is_digit s then Some (read_dec s) else None)"

lemma compare_is_version_order_witness: "0 < compareVersions demo_to_int ''v1.10'' ''1.9.3''"
proof -
  have "reads_version demo_to_int ''v1.10'' [1, 10]" "reads_version demo_to_int ''1.9.3'' [1, 9, 3]"
    by (simp_all add: reads_version_def version_parts_def strip_v_def lower_def demo_to_int_def is_digit_def
        read_dec_def is_space_def code_def)
  from compare_is_version_order [OF this] show ?thesis by simp
qed

text \<open>The program does not know its own version: its last component reads \<open>2 release\<close>, which is no number,
  so a listed release is offered exactly if it is newer than 1.0.2.0; the very release that runs, 1.0.2.2, and
  the older 1.0.2.1 are offered as updates for ever.\<close>

theorem own_release_offered:
  assumes "ti ''1'' = Some 1" and "ti ''0'' = Some 0" and "ti ''2'' = Some 2" and "ti ''2 release'' = None"
    and "fromJson data = Some (obj # rest)" and "obj ''version'' \<noteq> []" and "reads_version ti (obj ''version'') as"
  shows "onReply ti fromJson (Inr data) =
      (if Version [1, 0, 2, 0] < Version as
       then updateAvailable (obj ''version'') (obj ''download_url'') (obj ''notes'') else upToDate) \<and>
    reads_version ti ''1.0.2.2'' [1, 0, 2, 2] \<and> Version [1, 0, 2, 0] < Version [1, 0, 2, 1] \<and>
    Version [1, 0, 2, 1] < Version [1, 0, 2, 2]"
proof -
  have "reads_version ti APP_VERSION [1, 0, 2, 0]" "reads_version ti ''1.0.2.2'' [1, 0, 2, 2]"
    using assms(1-4) by (simp_all add: reads_version_def version_parts_def strip_v_def lower_def APP_VERSION_def code_def)
  then show ?thesis
    using compareVersions_order [OF assms(7), of APP_VERSION "[1, 0, 2, 0]"] assms(5,6) by (simp add: onReply_def Let_def)
qed

lemma own_release_offered_witness:
  "onReply demo_to_int (\<lambda>_. Some [\<lambda>k. if k = ''version'' then ''1.0.2.2'' else []]) (Inr ''...'') =
   updateAvailable ''1.0.2.2'' [] []"
proof -
  have ti: "demo_to_int ''1'' = Some 1" "demo_to_int ''0'' = Some 0" "demo_to_int ''2'' = Some 2"
    "demo_to_int ''2 release'' = None" "reads_version demo_to_int ''1.0.2.2'' [1, 0, 2, 2]"
    by (simp_all add: demo_to_int_def is_digit_def read_dec_def is_space_def code_def reads_version_def version_parts_def
        strip_v_def lower_def)
  let ?j = "\<lambda>_. Some [\<lambda>k. if k = ''version'' then ''1.0.2.2'' else []]"
  show ?thesis
    using own_release_offered [OF ti(1-4), of ?j "''...''" _ "[]" "[1, 0, 2, 2]"] ti(5) by simp
qed

end
