(* ===== verification/Tray_Icon.thy ===== *)
theory Tray_Icon
  imports Control_Panel Update_Check Agent_Outage
begin

text \<open>
  The icon in the notification area, \<open>src/agent/agent/trayicon.cpp\<close>: the menu, the updates it announces, and what
  it opens. Dialogs, balloons, opened addresses and started programs are appended to a list of outputs.
\<close>

section \<open>State\<close>

datatype effect =
    Dialog string
  | Balloon string string
  | OpenUrl string
  | OpenLater string            \<comment> \<open>after 1.2 seconds\<close>
  | Start string "string list" string
  | Console bool
  | Quit

record tray =
  ty_account :: "string option"     \<comment> \<open>none when hidden\<close>
  ty_login :: bool
  ty_logout :: bool
  ty_pause :: string
  ty_debugChecked :: bool
  ty_link :: bool
  ty_family :: bool
  ty_tip :: string
  ty_checkEnabled :: bool
  ty_checkText :: string
  ty_download :: "string option"    \<comment> \<open>none until the first update\<close>
  ty_paused :: bool
  ty_debug :: bool
  ty_manual :: bool                 \<comment> \<open>\<open>m_manualUpdateCheck\<close>\<close>
  ty_notified :: string             \<comment> \<open>\<open>m_lastNotifiedVersion\<close>\<close>
  ty_url :: string                  \<comment> \<open>\<open>m_pendingDownloadUrl\<close>\<close>
  ty_requests :: nat                \<comment> \<open>checks that were started\<close>
  ty_out :: "effect list"

type_synonym 'w desk = "tray \<times> panel \<times> 'w app"

definition out :: "effect \<Rightarrow> tray \<Rightarrow> tray" where
  "out x t = t\<lparr>ty_out := ty_out t @ [x]\<rparr>"

section \<open>The menu\<close>

definition tooltip :: "bool \<Rightarrow> AuthSession \<Rightarrow> string" where
  "tooltip paused session =
     (if as_logged_in session then ''JustInTime - '' @ as_email session else ''JustInTime - not logged in'') @
     (if paused then '' (paused)'' else [])"

definition updateTooltip :: "'w agent \<Rightarrow> tray \<Rightarrow> tray" where
  "updateTooltip ag t = t\<lparr>ty_tip := tooltip (ty_paused t) (auth_get_session ag)\<rparr>"

definition rebuildMenu :: "'w panel_env \<Rightarrow> 'w app \<Rightarrow> tray \<Rightarrow> tray" where
  "rebuildMenu env a t =
     (let ui = panel_ui env a; session = auth_get_session (ap_agent a); s = settings_get (settings_of a);
          t1 = (if as_logged_in session
                then t\<lparr>ty_account := Some (ui_arg ui (ui_tr ui ''tray.logged_in_as'') (as_email session)), ty_login := False,
                       ty_logout := True\<rparr>
                else t\<lparr>ty_account := None, ty_login := True, ty_logout := False\<rparr>)
      in updateTooltip (ap_agent a)
           (t1\<lparr>ty_pause := (if ty_paused t then ui_tr ui ''tray.resume'' else ui_tr ui ''tray.pause''),
               ty_debugChecked := ty_debug t, ty_link := (app_role s = APP_ROLE_CHILD),
               ty_family := (app_role s = APP_ROLE_PARENT)\<rparr>))"

definition on_panel :: "(panel \<times> 'w app \<Rightarrow> panel \<times> 'w app) \<Rightarrow> 'w desk \<Rightarrow> 'w desk" where
  "on_panel f d = (fst d, f (snd d))"

definition on_tray :: "('w app \<Rightarrow> tray \<Rightarrow> tray) \<Rightarrow> 'w desk \<Rightarrow> 'w desk" where
  "on_tray f d = (f (snd (snd d)) (fst d), snd d)"

text \<open>The end of the constructor.\<close>

definition tray_start :: "'w panel_env \<Rightarrow> 'w desk \<Rightarrow> 'w desk" where
  "tray_start env d =
     on_tray (rebuildMenu env)
       (on_panel (\<lambda>pa. (setPaused (panel_ui env (snd pa)) (ty_paused (fst d)) (fst pa), snd pa)) (on_panel (panel_start env) d))"

section \<open>Actions\<close>

definition open_panel :: "'w panel_env \<Rightarrow> page \<Rightarrow> 'w desk \<Rightarrow> 'w desk" where
  "open_panel env pg = on_panel (openTo env pg)"

definition login_for_links :: string where
  "login_for_links =
     ucn ''B#1EA1;n c#1EA7;n #0111;#0103;ng nh#1EAD;p tr#01B0;#1EDB;c #0111;#1EC3; xem/thu h#1ED3;i li#00EA;n k#1EBF;t ph#1EE5; huynh.''"

definition login_for_family :: string where
  "login_for_family = ucn ''B#1EA1;n c#1EA7;n #0111;#0103;ng nh#1EAD;p tr#01B0;#1EDB;c #0111;#1EC3; d#00F9;ng Parent Dashboard.''"

definition onParentLinkSettings :: "'w panel_env \<Rightarrow> 'w desk \<Rightarrow> 'w desk" where
  "onParentLinkSettings env d =
     (if \<not> auth_is_logged_in (ap_agent (snd (snd d))) then on_tray (\<lambda>_. out (Dialog login_for_links)) d
      else open_panel env PageParentLink d)"

definition onParentDashboard :: "'w panel_env \<Rightarrow> 'w desk \<Rightarrow> 'w desk" where
  "onParentDashboard env d =
     (if \<not> auth_is_logged_in (ap_agent (snd (snd d))) then on_tray (\<lambda>_. out (Dialog login_for_family)) d
      else open_panel env PageFamily d)"

definition tray_onLogout :: "'w panel_env \<Rightarrow> bool \<Rightarrow> 'w desk \<Rightarrow> 'w desk" where
  "tray_onLogout env yes d =
     (if \<not> yes then d
      else
        (let a1 = (snd (snd d))\<lparr>ap_agent := auth_logout (pe_net env) (ap_agent (snd (snd d)))\<rparr>
         in on_tray (\<lambda>_. out (Dialog ''Logged out. Data is still saved locally, but cloud sync is paused.''))
              (on_tray (rebuildMenu env) (fst d, fst (snd d), a1))))"

definition onTogglePause :: "'w panel_env \<Rightarrow> 'w desk \<Rightarrow> 'w desk" where
  "onTogglePause env d =
     (let t1 = (fst d)\<lparr>ty_paused := \<not> ty_paused (fst d)\<rparr>
      in on_tray (rebuildMenu env)
           (on_panel (\<lambda>pa. (setPaused (panel_ui env (snd pa)) (ty_paused t1) (fst pa), snd pa)) (t1, snd d)))"

definition onViewReport :: "'w panel_env \<Rightarrow> 'w desk \<Rightarrow> 'w desk" where
  "onViewReport env d =
     on_tray (\<lambda>a. out (Dialog (ucn ''Today#0027;s summary:'' @ [nl, nl] @
       wideToUtf8 (de_codec (pe_db env)) (snd (db_build_daily_summary_text (pe_db env) 4096 (ap_db a)))))) d"

definition onToggleDebugConsole :: "tray \<Rightarrow> tray" where
  "onToggleDebugConsole t =
     (let v = \<not> ty_debug t in (out (Console v) (t\<lparr>ty_debug := v\<rparr>))\<lparr>ty_debugChecked := v\<rparr>)"

section \<open>Dashboards\<close>

definition join_with :: "string \<Rightarrow> string list \<Rightarrow> string" where
  "join_with sep xs = (case xs of [] \<Rightarrow> [] | x # rest \<Rightarrow> x @ concat (map (\<lambda>y. sep @ y) rest))"

definition res_candidates :: "string \<Rightarrow> string \<Rightarrow> string list" where
  "res_candidates exeDir relativeName =
     [exeDir @ ''/'' @ relativeName, exeDir @ ''/../'' @ relativeName, exeDir @ ''/../../'' @ relativeName,
      exeDir @ ''/../../../'' @ relativeName]"

definition findResourceDir :: "(string \<Rightarrow> bool) \<Rightarrow> (string \<Rightarrow> string) \<Rightarrow> string \<Rightarrow> string \<Rightarrow> string" where
  "findResourceDir dirExists absolutePath exeDir relativeName =
     (case find dirExists (res_candidates exeDir relativeName) of
        Some candidate \<Rightarrow> absolutePath candidate
      | None \<Rightarrow> absolutePath (exeDir @ ''/'' @ relativeName))"

definition local_url :: "int \<Rightarrow> string" where
  "local_url port = ''http://127.0.0.1:'' @ show_int port @ ''/''"

definition launchDashboard :: "bool \<Rightarrow> bool \<Rightarrow> string \<Rightarrow> int \<Rightarrow> string \<Rightarrow> string list \<Rightarrow> string \<Rightarrow> tray \<Rightarrow> tray" where
  "launchDashboard portOpen started label port program arguments workingDir t =
     (if portOpen then out (OpenUrl (local_url port)) t
      else if \<not> started
      then out (Dialog (''Could not start '' @ label @ ''.'' @ [nl, nl] @ ''Tried to run:'' @ [nl] @ program @ [spc] @
             join_with [spc] arguments @ [nl, nl] @ ''Working directory:'' @ [nl] @ workingDir)) t
      else out (OpenLater (local_url port)) (out (Start program arguments workingDir) t))"

definition missing_python :: "string \<Rightarrow> string" where
  "missing_python scriptPath =
     ''Could not find the Python dashboard at:'' @ [nl] @ scriptPath @ [nl, nl] @
     ucn ''Make sure the #0027;dashboard#0027; folder sits next to JustInTime.exe '' @
     ''(or in the project root, for dev builds), and that Python '' @
     ''with the packages in dashboard/requirements.txt is installed.''"

definition missing_dashboard :: "string \<Rightarrow> string" where
  "missing_dashboard exePath =
     ''Could not find the Dashboard at:'' @ [nl] @ exePath @ [nl, nl] @
     ucn ''Build it first - it#0027;s a separate CMake target, apps/dashboard '' @ ''(target JustInTimeDashboard).''"

definition onOpenPythonDashboard ::
  "(string \<Rightarrow> bool) \<Rightarrow> (string \<Rightarrow> string) \<Rightarrow> (string \<Rightarrow> bool) \<Rightarrow> string \<Rightarrow> bool \<Rightarrow> bool \<Rightarrow> tray \<Rightarrow> tray" where
  "onOpenPythonDashboard dirExists absolutePath fileExists exeDir portOpen started t =
     (let dashboardDir = findResourceDir dirExists absolutePath exeDir ''dashboard'';
          scriptPath = dashboardDir @ ''/app.pyw''
      in if \<not> fileExists scriptPath then out (Dialog (missing_python scriptPath)) t
         else launchDashboard portOpen started ''the Python dashboard'' 5000 ''pythonw'' [scriptPath] dashboardDir t)"

definition onOpenDashboard :: "(string \<Rightarrow> bool) \<Rightarrow> string \<Rightarrow> tray \<Rightarrow> tray" where
  "onOpenDashboard fileExists exeDir t =
     (let exePath = exeDir @ ''/JustInTimeDashboard.exe''
      in if \<not> fileExists exePath then out (Dialog (missing_dashboard exePath)) t
         else out (Start exePath [] exeDir) t)"

section \<open>Updates\<close>

definition onUpdateTimer :: "tray \<Rightarrow> tray" where
  "onUpdateTimer t = t\<lparr>ty_manual := False, ty_requests := Suc (ty_requests t)\<rparr>"

definition onCheckForUpdates :: "ui \<Rightarrow> tray \<Rightarrow> tray" where
  "onCheckForUpdates ui t =
     t\<lparr>ty_manual := True, ty_checkEnabled := False, ty_checkText := ui_tr ui ''tray.checking_updates'',
       ty_requests := Suc (ty_requests t)\<rparr>"

definition check_done :: "ui \<Rightarrow> tray \<Rightarrow> tray" where
  "check_done ui t = t\<lparr>ty_checkEnabled := True, ty_checkText := ui_tr ui ''tray.check_updates''\<rparr>"

definition update_balloon :: "string \<Rightarrow> string \<Rightarrow> effect" where
  "update_balloon version notes =
     Balloon ''JustInTime Update Available''
       (''Version '' @ version @ '' is available.'' @ (if notes = [] then [] else nl # notes) @ [nl, nl] @ ''Click here to download.'')"

definition onUpdateAvailable :: "ui \<Rightarrow> string \<Rightarrow> string \<Rightarrow> string \<Rightarrow> tray \<Rightarrow> tray" where
  "onUpdateAvailable ui version downloadUrl notes t =
     (let t1 = (check_done ui t)\<lparr>ty_url := downloadUrl, ty_download := Some (ui_arg ui (ui_tr ui ''tray.update_available'') version)\<rparr>;
          t2 = (if ty_manual t1 \<or> ty_notified t1 \<noteq> version
                then out (update_balloon version notes) (t1\<lparr>ty_notified := version\<rparr>) else t1)
      in t2\<lparr>ty_manual := False\<rparr>)"

definition onUpdateUpToDate :: "ui \<Rightarrow> tray \<Rightarrow> tray" where
  "onUpdateUpToDate ui t =
     (let t1 = check_done ui t;
          t2 = (if ty_manual t1 then out (Dialog (ui_arg ui (ui_tr ui ''update.you_have_latest'') APP_VERSION)) t1 else t1)
      in t2\<lparr>ty_manual := False\<rparr>)"

definition onUpdateCheckFailed :: "ui \<Rightarrow> string \<Rightarrow> tray \<Rightarrow> tray" where
  "onUpdateCheckFailed ui reason t =
     (let t1 = check_done ui t;
          t2 = (if ty_manual t1 then out (Dialog (ui_arg ui (ui_tr ui ''update.check_failed'') reason)) t1 else t1)
      in t2\<lparr>ty_manual := False\<rparr>)"

fun on_update_signal :: "ui \<Rightarrow> update_signal \<Rightarrow> tray \<Rightarrow> tray" where
  "on_update_signal ui (updateAvailable version url notes) t = onUpdateAvailable ui version url notes t"
| "on_update_signal ui upToDate t = onUpdateUpToDate ui t"
| "on_update_signal ui (checkFailed reason) t = onUpdateCheckFailed ui reason t"

text \<open>The menu entry and a click on a balloon do the same.\<close>

definition onTrayMessageClicked :: "tray \<Rightarrow> tray" where
  "onTrayMessageClicked t = (if ty_url t \<noteq> [] then out (OpenUrl (ty_url t)) t else t)"

definition notifyLimitBlocked :: "ui \<Rightarrow> string \<Rightarrow> int \<Rightarrow> tray \<Rightarrow> tray" where
  "notifyLimitBlocked ui processName reason t =
     out (Balloon ''JustInTime''
       (ui_arg ui (ui_tr ui (if reason = LIMIT_REASON_BLOCKED then ''limit.blocked''
                             else if reason = LIMIT_REASON_TIME_UP then ''limit.time_up'' else ''limit.generic'')) processName)) t"


section \<open>Events\<close>

datatype action =
    ActLogin | ActLogout bool | ActPause | ActReport | ActSettings | ActSupabase | ActRemoteView
  | ActPython "string \<Rightarrow> bool" "string \<Rightarrow> string" "string \<Rightarrow> bool" string bool bool
  | ActDashboard "string \<Rightarrow> bool" string
  | ActParentLink | ActFamily | ActDebug | ActCheckUpdates | ActDownload | ActAbout | ActExit

fun offered :: "tray \<Rightarrow> action \<Rightarrow> bool" where
  "offered t ActLogin = ty_login t"
| "offered t (ActLogout yes) = ty_logout t"
| "offered t ActParentLink = ty_link t"
| "offered t ActFamily = ty_family t"
| "offered t ActCheckUpdates = ty_checkEnabled t"
| "offered t ActDownload = (ty_download t \<noteq> None)"
| "offered t _ = True"

fun do_action :: "'w panel_env \<Rightarrow> action \<Rightarrow> 'w desk \<Rightarrow> 'w desk" where
  "do_action env ActLogin d = open_panel env PageAccount d"
| "do_action env (ActLogout yes) d = tray_onLogout env yes d"
| "do_action env ActPause d = onTogglePause env d"
| "do_action env ActReport d = onViewReport env d"
| "do_action env ActSettings d = open_panel env PageSettings d"
| "do_action env ActSupabase d = open_panel env PageAdvanced d"
| "do_action env ActRemoteView d = open_panel env PageRemoteView d"
| "do_action env (ActPython de ap fe dir po st) d = on_tray (\<lambda>_. onOpenPythonDashboard de ap fe dir po st) d"
| "do_action env (ActDashboard fe dir) d = on_tray (\<lambda>_. onOpenDashboard fe dir) d"
| "do_action env ActParentLink d = onParentLinkSettings env d"
| "do_action env ActFamily d = onParentDashboard env d"
| "do_action env ActDebug d = on_tray (\<lambda>_. onToggleDebugConsole) d"
| "do_action env ActCheckUpdates d = on_tray (\<lambda>a. onCheckForUpdates (panel_ui env a)) d"
| "do_action env ActDownload d = on_tray (\<lambda>_. onTrayMessageClicked) d"
| "do_action env ActAbout d = open_panel env PageAbout d"
| "do_action env ActExit d = on_tray (\<lambda>_. out Quit) d"

text \<open>The context menu opens after the icon has reported the click. \<open>Elsewhere\<close> is what the other threads do, which
  leave the settings alone.\<close>

datatype 'w event =
    IconClicked bool
  | MenuAction action
  | RowClicked int
  | LoginButton
  | PauseButton
  | CloseWindow
  | SaveSettingsPage settings_form
  | AccountEntered bool login_page
  | AccountLeft bool
  | UpdateTimer
  | UpdateReply update_signal
  | BalloonClicked
  | LimitBlocked string int
  | Elsewhere "'w app"

definition save_page :: "'w panel_env \<Rightarrow> settings_form \<Rightarrow> 'w desk \<Rightarrow> 'w desk" where
  "save_page env f d =
     (case d of (t, p, a) \<Rightarrow>
        (let ((msg, emitted), st) = settings_onSave (pe_settings env) f (settings_of a);
             d1 = (out (Dialog msg) t, p\<lparr>cp_settings := f\<rparr>, with_settings st a)
         in if emitted then on_tray (rebuildMenu env) (on_panel (onSettingsSaved env) d1) else d1))"

definition account_changed :: "'w panel_env \<Rightarrow> bool \<times> login_page \<times> 'w agent \<Rightarrow> 'w desk \<Rightarrow> 'w desk" where
  "account_changed env r d =
     (case d of (t, p, a) \<Rightarrow>
        (let d1 = (t, p\<lparr>cp_login := fst (snd r)\<rparr>, a\<lparr>ap_agent := snd (snd r)\<rparr>)
         in if fst r then on_tray (rebuildMenu env) (on_panel (onLoggedInOrOut env) d1) else d1))"

fun desk_step :: "'w panel_env \<Rightarrow> 'w event \<Rightarrow> 'w desk \<Rightarrow> 'w desk" where
  "desk_step env (IconClicked trigger) d =
     (let d1 = on_tray (rebuildMenu env) d in if trigger then open_panel env PageOverview d1 else d1)"
| "desk_step env (MenuAction act) d =
     (let d1 = on_tray (rebuildMenu env) d in if offered (fst d1) act then do_action env act d1 else d1)"
| "desk_step env (RowClicked row) (t, p, a) =
     (if 0 \<le> row \<and> row \<le> m_rowAbout \<and> \<not> row_hidden p row then (t, setCurrentRow env row (p, a)) else (t, p, a))"
| "desk_step env LoginButton (t, p, a) =
     (if ov_loginBtn (cp_overview p) then (t, setCurrentRow env m_rowAccount (p, a)) else (t, p, a))"
| "desk_step env PauseButton d = onTogglePause env d"
| "desk_step env CloseWindow d = on_panel closeEvent d"
| "desk_step env (SaveSettingsPage f) d = save_page env f d"
| "desk_step env (AccountEntered isRegister lp) (t, p, a) =
     account_changed env (attempt (panel_ui env a) (pe_net env) isRegister (lp, ap_agent a)) (t, p, a)"
| "desk_step env (AccountLeft yes) (t, p, a) =
     account_changed env (onLogoutClicked (panel_ui env a) (pe_net env) yes (cp_login p, ap_agent a)) (t, p, a)"
| "desk_step env UpdateTimer d = on_tray (\<lambda>_. onUpdateTimer) d"
| "desk_step env (UpdateReply s) d = on_tray (\<lambda>a. on_update_signal (panel_ui env a) s) d"
| "desk_step env BalloonClicked d = on_tray (\<lambda>_. onTrayMessageClicked) d"
| "desk_step env (LimitBlocked proc reason) d = on_tray (\<lambda>a. notifyLimitBlocked (panel_ui env a) proc reason) d"
| "desk_step env (Elsewhere b) (t, p, a) = (if ag_settings (ap_agent b) = ag_settings (ap_agent a) then (t, p, b) else (t, p, a))"

section \<open>The window follows the role\<close>

fun save_written :: "'w panel_env \<Rightarrow> 'w event \<Rightarrow> 'w desk \<Rightarrow> bool" where
  "save_written env (SaveSettingsPage f) d = snd (fst (settings_onSave (pe_settings env) f (settings_of (snd (snd d)))))"
| "save_written env _ d = True"

text \<open>Reachable states; the flag says that no save of the settings has failed.\<close>

inductive desk_reach :: "'w desk \<Rightarrow> bool \<Rightarrow> bool" where
  start: "desk_reach (tray_start env d) True"
| step: "desk_reach d saved \<Longrightarrow> desk_reach (desk_step env ev d) (saved \<and> save_written env ev d)"

definition role_parent :: "'w app \<Rightarrow> bool" where
  "role_parent a \<longleftrightarrow> app_role (ag_settings (ap_agent a)) = APP_ROLE_PARENT"

definition row_shown :: "panel \<Rightarrow> bool" where
  "row_shown p \<longleftrightarrow> cp_current p = cp_stack p \<and> 0 \<le> cp_current p \<and> cp_current p \<le> m_rowAbout \<and> \<not> row_hidden p (cp_current p)"

definition rows_follow :: "panel \<Rightarrow> 'w app \<Rightarrow> bool" where
  "rows_follow p a \<longleftrightarrow> cp_hideLink p = role_parent a \<and> cp_hideFamily p = (\<not> role_parent a)"


text \<open>Nothing on the desk but a save of the settings changes them.\<close>

lemma call_settings:
  "restclient_call env m q b e n ag = (res, ag') \<Longrightarrow> ag_settings ag' = ag_settings ag"
  by (auto simp: restclient_call_def Let_def split: if_splits prod.splits option.splits
      dest!: rest_attempt_frame(3) refresh_if_stale_settings)

lemma machines_settings [simp]: "ag_settings (snd (machines_list env n ag)) = ag_settings ag"
  by (auto simp: machines_list_def Let_def split: prod.split option.split dest!: call_settings)

lemma links_settings [simp]: "ag_settings (snd (listLinks env r u e n ag)) = ag_settings ag"
  by (auto simp: listLinks_def Let_def split: prod.split option.split dest!: call_settings)

lemma auth_flow_settings: "doAuthFlow env ep em pw n ag = (r, ag') \<Longrightarrow> ag_settings ag' = ag_settings ag"
  by (auto simp: doAuthFlow_def Let_def split: prod.splits option.splits if_splits dest!: doAuthPost_frame(3))

lemma logout_settings [simp]: "ag_settings (auth_logout env ag) = ag_settings ag"
  by (simp add: auth_logout_def)

lemma attempt_settings [simp]:
  "ag_settings (snd (snd (attempt ui env isReg (lp, ag)))) = ag_settings ag"
  by (auto simp: attempt_def Let_def auth_register_def auth_login_def split: prod.split option.split list.split
      dest!: auth_flow_settings)

lemma logout_page_settings [simp]:
  "ag_settings (snd (snd (onLogoutClicked ui env yes (lp, ag)))) = ag_settings ag"
  by (simp add: onLogoutClicked_def Let_def)

text \<open>Pages redraw themselves without touching rows, the pause or the settings.\<close>

definition moved :: "int \<Rightarrow> int \<Rightarrow> panel \<times> 'w app \<Rightarrow> panel \<times> 'w app \<Rightarrow> bool" where
  "moved current stack pa pa' \<longleftrightarrow>
     ag_settings (ap_agent (snd pa')) = ag_settings (ap_agent (snd pa)) \<and>
     cp_current (fst pa') = current \<and> cp_stack (fst pa') = stack \<and>
     cp_hideLink (fst pa') = cp_hideLink (fst pa) \<and> cp_hideFamily (fst pa') = cp_hideFamily (fst pa) \<and>
     cp_paused (fst pa') = cp_paused (fst pa)"

definition redraws :: "(panel \<times> 'w app \<Rightarrow> panel \<times> 'w app) \<Rightarrow> bool" where
  "redraws f \<longleftrightarrow> (\<forall>pa. moved (cp_current (fst pa)) (cp_stack (fst pa)) pa (f pa))"

lemma redraws_pages: "redraws (login_page_refresh env)" "redraws (links_refresh env)" "redraws (family_refresh env)"
  by (auto simp: redraws_def moved_def login_page_refresh_def links_refresh_def family_refresh_def link_page_refresh_def
      refreshChildren_def parentlink_list_as_child_def parentlink_list_as_parent_def Let_def split: prod.split)
     (metis links_settings snd_conv)+

lemma redraws_overview: "redraws (refreshOverview env)"
  by (auto simp: redraws_def moved_def refreshOverview_def setPaused_def Let_def split: prod.split)
     (metis machines_settings snd_conv)+


lemma redraws_id: "redraws (\<lambda>pa. pa)"
  by (simp add: redraws_def moved_def)

lemma redrawsD: "redraws f \<Longrightarrow> moved (cp_current (fst pa)) (cp_stack (fst pa)) pa (f pa)"
  unfolding redraws_def by blast

lemmas page_redraws = redraws_overview redraws_pages redraws_id

lemma sidebar_moved:
  assumes "0 \<le> row"
  shows "moved (cp_current (fst pa)) row pa (onSidebarRowChanged env row pa)"
proof -
  let ?pa = "((fst pa)\<lparr>cp_stack := row\<rparr>, snd pa)"
  let ?f = "if row = m_rowOverview then refreshOverview env else if row = m_rowAccount then login_page_refresh env
    else if row = m_rowParentLink then links_refresh env else if row = m_rowFamily then family_refresh env else (\<lambda>pa. pa)"
  have "redraws ?f" by (simp add: page_redraws)
  moreover have "onSidebarRowChanged env row pa = ?f ?pa" using assms by (simp add: onSidebarRowChanged_def Let_def)
  ultimately show ?thesis using redrawsD [of ?f ?pa] by (simp add: moved_def)
qed

lemma setCurrentRow_moved:
  assumes "0 \<le> row" and "cp_current (fst pa) \<noteq> row \<or> cp_stack (fst pa) = row"
  shows "moved row row pa (setCurrentRow env row pa)"
  using sidebar_moved [OF assms(1), of "((fst pa)\<lparr>cp_current := row\<rparr>, snd pa)" env] assms(2)
  by (auto simp: setCurrentRow_def moved_def)

definition in_row :: "panel \<times> 'w app \<Rightarrow> bool" where
  "in_row pa \<longleftrightarrow> cp_current (fst pa) = cp_stack (fst pa) \<and> 0 \<le> cp_current (fst pa) \<and> cp_current (fst pa) \<le> m_rowAbout"

lemma visibility_ok:
  assumes "in_row pa \<or> cp_current (fst pa) = - 1"
  shows "rows_follow (fst (refreshSidebarVisibility env pa)) (snd (refreshSidebarVisibility env pa)) \<and>
    (in_row pa \<longrightarrow> row_shown (fst (refreshSidebarVisibility env pa))) \<and>
    (cp_current (fst pa) = - 1 \<longrightarrow> cp_current (fst (refreshSidebarVisibility env pa)) = - 1) \<and>
    ag_settings (ap_agent (snd (refreshSidebarVisibility env pa))) = ag_settings (ap_agent (snd pa)) \<and>
    cp_paused (fst (refreshSidebarVisibility env pa)) = cp_paused (fst pa)"
proof -
  obtain p a where pa: "pa = (p, a)" by (cases pa)
  let ?p1 = "p\<lparr>cp_hideLink := role_parent a, cp_hideFamily := \<not> role_parent a\<rparr>"
  have e: "refreshSidebarVisibility env pa =
      (if 0 \<le> cp_current p \<and> row_hidden ?p1 (cp_current p) then setCurrentRow env m_rowOverview (?p1, a) else (?p1, a))"
    by (simp add: pa refreshSidebarVisibility_def settings_get_def settings_of_def role_parent_def Let_def)
  show ?thesis
  proof (cases "0 \<le> cp_current p \<and> row_hidden ?p1 (cp_current p)")
    case True
    then have "cp_current (fst (?p1, a)) \<noteq> m_rowOverview" by (auto simp: row_hidden_def rows)
    then have "moved m_rowOverview m_rowOverview (?p1, a) (setCurrentRow env m_rowOverview (?p1, a))"
      by (intro setCurrentRow_moved) (simp_all add: rows)
    then show ?thesis using True unfolding e
      by (auto simp: moved_def pa rows_follow_def role_parent_def row_shown_def row_hidden_def rows)
  next
    case False
    then show ?thesis using assms unfolding e
      by (auto simp: pa rows_follow_def row_shown_def in_row_def)
  qed
qed

text \<open>What holds of window and icon.\<close>

definition desk_ok :: "bool \<Rightarrow> 'w desk \<Rightarrow> bool" where
  "desk_ok saved d \<longleftrightarrow>
     row_shown (fst (snd d)) \<and> cp_paused (fst (snd d)) = ty_paused (fst d) \<and>
     (saved \<longrightarrow> rows_follow (fst (snd d)) (snd (snd d)))"

lemma row_shown_in_row: "row_shown (fst pa) \<Longrightarrow> in_row pa"
  by (simp add: row_shown_def in_row_def)

lemma openTo_ok:
  assumes "row_shown (fst pa)" and "pg = PageFamily \<longrightarrow> role_parent (snd pa)" and "pg = PageParentLink \<longrightarrow> \<not> role_parent (snd pa)"
  shows "row_shown (fst (openTo env pg pa)) \<and> rows_follow (fst (openTo env pg pa)) (snd (openTo env pg pa)) \<and>
    cp_paused (fst (openTo env pg pa)) = cp_paused (fst pa)"
proof -
  let ?v = "refreshSidebarVisibility env pa"
  let ?r = "if pg = PageOverview then refreshOverview env ?v else if pg = PageAccount then login_page_refresh env ?v
    else if pg = PageParentLink then links_refresh env ?v else if pg = PageFamily then family_refresh env ?v else ?v"
  have v: "rows_follow (fst ?v) (snd ?v)" "row_shown (fst ?v)" "ag_settings (ap_agent (snd ?v)) = ag_settings (ap_agent (snd pa))"
    "cp_paused (fst ?v) = cp_paused (fst pa)"
    using visibility_ok [of pa env] row_shown_in_row [OF assms(1)] by blast+
  let ?f = "if pg = PageOverview then refreshOverview env else if pg = PageAccount then login_page_refresh env
    else if pg = PageParentLink then links_refresh env else if pg = PageFamily then family_refresh env else (\<lambda>pa. pa)"
  have "redraws ?f" by (simp add: page_redraws)
  then have r: "moved (cp_current (fst ?v)) (cp_stack (fst ?v)) ?v ?r"
    using redrawsD [of ?f ?v] by (simp split: if_splits)
  have row: "0 \<le> pageToRow pg" "pageToRow pg \<le> m_rowAbout" by (cases pg; simp add: rows)+
  have "cp_current (fst ?r) \<noteq> pageToRow pg \<or> cp_stack (fst ?r) = pageToRow pg"
    using r v(2) by (auto simp: moved_def row_shown_def)
  then have m: "moved (pageToRow pg) (pageToRow pg) ?r (setCurrentRow env (pageToRow pg) ?r)"
    by (rule setCurrentRow_moved [OF row(1)])
  have hid: "\<not> row_hidden (fst ?v) (pageToRow pg)"
    using v(1,3) assms(2,3) by (cases pg) (auto simp: row_hidden_def rows rows_follow_def role_parent_def)
  have e: "openTo env pg pa = ((fst (setCurrentRow env (pageToRow pg) ?r))\<lparr>cp_visible := True\<rparr>, snd (setCurrentRow env (pageToRow pg) ?r))"
    by (simp add: openTo_def Let_def)
  show ?thesis
    using m r v hid row unfolding e moved_def by (auto simp: row_shown_def rows_follow_def role_parent_def row_hidden_def)
qed


lemma desk_ok_mono: "desk_ok True d \<Longrightarrow> desk_ok saved d"
  by (simp add: desk_ok_def split: prod.splits)

lemma desk_ok_tray:
  assumes "\<And>a t. ty_paused (f a t) = ty_paused t"
  shows "desk_ok saved (on_tray f d) = desk_ok saved d"
  using assms by (simp add: desk_ok_def on_tray_def split: prod.split)

lemma desk_ok_moved:
  assumes "desk_ok saved (t, p, a)" and "moved (cp_current p) (cp_stack p) (p, a) pa"
  shows "desk_ok saved (t, pa)"
  using assms
  by (cases pa) (simp add: desk_ok_def moved_def row_shown_def rows_follow_def role_parent_def row_hidden_def)

lemma desk_ok_open:
  assumes "desk_ok saved d" and "pg = PageFamily \<longrightarrow> role_parent (snd (snd d))" and "pg = PageParentLink \<longrightarrow> \<not> role_parent (snd (snd d))"
  shows "desk_ok True (open_panel env pg d)"
  using openTo_ok [of "snd d" pg env] assms by (simp add: desk_ok_def open_panel_def on_panel_def split: prod.splits)

lemma out_paused [simp]: "ty_paused (out x t) = ty_paused t"
  by (simp add: out_def)

lemma tray_paused:
  "ty_paused (rebuildMenu env a t) = ty_paused t"
  "ty_paused (onToggleDebugConsole t) = ty_paused t"
  "ty_paused (onOpenPythonDashboard de ap fe dir po st t) = ty_paused t"
  "ty_paused (onOpenDashboard fe dir t) = ty_paused t"
  "ty_paused (onCheckForUpdates ui t) = ty_paused t"
  "ty_paused (onUpdateTimer t) = ty_paused t"
  "ty_paused (on_update_signal ui sg t) = ty_paused t"
  "ty_paused (onTrayMessageClicked t) = ty_paused t"
  "ty_paused (notifyLimitBlocked ui pr r t) = ty_paused t"
  by (cases sg; simp add: rebuildMenu_def updateTooltip_def onToggleDebugConsole_def onOpenPythonDashboard_def
      launchDashboard_def onOpenDashboard_def onCheckForUpdates_def onUpdateTimer_def onUpdateAvailable_def
      onUpdateUpToDate_def onUpdateCheckFailed_def check_done_def onTrayMessageClicked_def notifyLimitBlocked_def Let_def)+

lemma menu_roles:
  "ty_link (rebuildMenu env a t) \<Longrightarrow> \<not> role_parent a" "ty_family (rebuildMenu env a t) \<Longrightarrow> role_parent a"
  by (auto simp: rebuildMenu_def updateTooltip_def role_parent_def settings_get_def settings_of_def settings_consts Let_def
      split: if_splits)

lemma toggle_ok: "desk_ok saved d \<Longrightarrow> desk_ok saved (onTogglePause env d)"
  by (cases d) (simp add: onTogglePause_def desk_ok_tray tray_paused Let_def on_panel_def,
    simp add: desk_ok_def setPaused_def row_shown_def rows_follow_def row_hidden_def)

lemma tray_logout_ok: "desk_ok saved d \<Longrightarrow> desk_ok saved (tray_onLogout env yes d)"
  by (cases d) (simp add: tray_onLogout_def desk_ok_tray tray_paused Let_def,
    simp add: desk_ok_def rows_follow_def role_parent_def)

lemma action_ok:
  assumes "desk_ok saved d" and "offered (fst d) act" and "ty_link (fst d) \<Longrightarrow> \<not> role_parent (snd (snd d))"
    and "ty_family (fst d) \<Longrightarrow> role_parent (snd (snd d))"
  shows "desk_ok saved (do_action env act d)"
  using assms desk_ok_open [THEN desk_ok_mono, OF assms(1)]
  by (cases act) (simp_all add: desk_ok_tray tray_paused toggle_ok tray_logout_ok onParentLinkSettings_def
      onParentDashboard_def onViewReport_def)


lemma account_ok:
  assumes "desk_ok saved (t, p, a)" and "ag_settings (snd (snd r)) = ag_settings (ap_agent a)"
  shows "desk_ok saved (account_changed env r (t, p, a))"
proof -
  let ?d = "(t, p\<lparr>cp_login := fst (snd r)\<rparr>, a\<lparr>ap_agent := snd (snd r)\<rparr>)"
  have d: "desk_ok saved ?d"
    using assms by (simp add: desk_ok_def row_shown_def rows_follow_def role_parent_def row_hidden_def)
  have "desk_ok saved (on_panel (onLoggedInOrOut env) ?d)"
    using redrawsD [OF page_redraws(1), of "snd ?d" env] redrawsD [OF page_redraws(3), of "refreshOverview env (snd ?d)" env]
      redrawsD [OF page_redraws(4), of "links_refresh env (refreshOverview env (snd ?d))" env] d
    by (simp add: on_panel_def onLoggedInOrOut_def desk_ok_def moved_def row_shown_def rows_follow_def role_parent_def row_hidden_def)
  then show ?thesis using d by (simp add: account_changed_def desk_ok_tray tray_paused Let_def)
qed

lemma save_ok:
  assumes "desk_ok saved d"
  shows "desk_ok (saved \<and> save_written env (SaveSettingsPage f) d) (save_page env f d)"
proof -
  obtain t p a where dd: "d = (t, p, a)" by (cases d)
  obtain msg emitted st where on: "settings_onSave (pe_settings env) f (settings_of a) = ((msg, emitted), st)"
    by (metis surj_pair)
  let ?d = "(out (Dialog msg) t, p\<lparr>cp_settings := f\<rparr>, with_settings st a)"
  have d: "desk_ok False ?d" using assms dd by (simp add: desk_ok_def row_shown_def row_hidden_def)
  show ?thesis
  proof (cases emitted)
    case True
    let ?v = "refreshSidebarVisibility env (snd ?d)"
    have v: "row_shown (fst ?v)" "rows_follow (fst ?v) (snd ?v)" "cp_paused (fst ?v) = ty_paused t"
      using visibility_ok [of "snd ?d" env] row_shown_in_row [of "snd ?d"] d by (auto simp: desk_ok_def)
    have "desk_ok True (on_panel (onSettingsSaved env) ?d)"
      using redrawsD [OF page_redraws(1), of ?v env] v
      by (simp add: on_panel_def onSettingsSaved_def desk_ok_def moved_def row_shown_def rows_follow_def role_parent_def
          row_hidden_def)
    then show ?thesis using True on dd by (simp add: save_page_def desk_ok_tray tray_paused desk_ok_mono)
  next
    case False
    then show ?thesis using d on dd by (simp add: save_page_def)
  qed
qed

lemma desk_step_ok:
  assumes "desk_ok saved d"
  shows "desk_ok (saved \<and> save_written env ev d) (desk_step env ev d)"
proof -
  obtain t p a where d: "d = (t, p, a)" by (cases d)
  have row: "desk_ok saved (t, setCurrentRow env row (p, a))" if "0 \<le> row" "row \<le> m_rowAbout" "\<not> row_hidden p row" for row
  proof -
    have "cp_current (fst (p, a)) \<noteq> row \<or> cp_stack (fst (p, a)) = row"
      using assms d by (auto simp: desk_ok_def row_shown_def)
    from setCurrentRow_moved [OF that(1) this, of env] show ?thesis
      using assms d that by (simp add: desk_ok_def moved_def row_shown_def rows_follow_def role_parent_def row_hidden_def)
  qed
  show ?thesis
  proof (cases ev)
    case (IconClicked trigger)
    have "desk_ok saved (on_tray (rebuildMenu env) d)" using assms by (simp add: desk_ok_tray tray_paused)
    with desk_ok_open [OF this, of PageOverview env] show ?thesis using IconClicked by (simp add: Let_def desk_ok_mono)
  next
    case (MenuAction act)
    let ?d = "on_tray (rebuildMenu env) d"
    have m: "desk_ok saved ?d" using assms by (simp add: desk_ok_tray tray_paused)
    have "ty_link (fst ?d) \<Longrightarrow> \<not> role_parent (snd (snd ?d))" "ty_family (fst ?d) \<Longrightarrow> role_parent (snd (snd ?d))"
      using menu_roles [of env "snd (snd d)" "fst d"] by (simp_all add: on_tray_def)
    then show ?thesis using MenuAction m action_ok [OF m, of act env] by (simp add: Let_def)
  next
    case (SaveSettingsPage f)
    then show ?thesis using save_ok [OF assms, of env f] by simp
  next
    case (RowClicked r)
    then show ?thesis using assms row [of r] d by simp
  next
    case LoginButton
    then show ?thesis using assms row [of m_rowAccount] d by (simp add: row_hidden_def rows)
  next
    case PauseButton
    then show ?thesis using toggle_ok [OF assms] by simp
  next
    case CloseWindow
    then show ?thesis
      using assms by (simp add: on_panel_def closeEvent_def desk_ok_def row_shown_def rows_follow_def row_hidden_def)
  next
    case (AccountEntered isRegister lp)
    then show ?thesis using account_ok [of saved t p a] assms d by simp
  next
    case (AccountLeft yes)
    then show ?thesis using account_ok [of saved t p a] assms d by simp
  next
    case (Elsewhere b)
    then show ?thesis using assms d by (simp add: desk_ok_def rows_follow_def role_parent_def)
  qed (use assms in \<open>simp_all add: desk_ok_tray tray_paused\<close>)
qed

lemma start_ok: "desk_ok True (tray_start env d)"
proof -
  let ?pa = "((fst (snd d))\<lparr>cp_current := - 1\<rparr>, snd (snd d))"
  let ?v = "refreshSidebarVisibility env ?pa"
  let ?r = "refreshOverview env ?v"
  have v: "rows_follow (fst ?v) (snd ?v)" "cp_current (fst ?v) = - 1" using visibility_ok [of ?pa env] by simp_all
  have r: "moved (cp_current (fst ?v)) (cp_stack (fst ?v)) ?v ?r" by (rule redrawsD [OF page_redraws(1)])
  have "cp_current (fst ?r) \<noteq> m_rowOverview \<or> cp_stack (fst ?r) = m_rowOverview"
    using r v(2) by (simp add: moved_def rows)
  then have s: "moved m_rowOverview m_rowOverview ?r (panel_start env (snd d))"
    unfolding panel_start_def by (intro setCurrentRow_moved) (simp_all add: rows)
  have "row_shown (fst (panel_start env (snd d))) \<and> rows_follow (fst (panel_start env (snd d))) (snd (panel_start env (snd d)))"
    using s r v by (simp add: moved_def row_shown_def rows_follow_def role_parent_def row_hidden_def rows)
  then show ?thesis
    by (simp add: tray_start_def desk_ok_tray tray_paused)
       (auto simp: on_panel_def desk_ok_def setPaused_def row_shown_def rows_follow_def row_hidden_def)
qed



definition demo_panel_env :: "unit panel_env" where
  "demo_panel_env =
     \<lparr>pe_ui = demo_ui, pe_net = plain_env (fixed_net (\<lambda>_. None)), pe_db = env0, pe_device = device_env0 0,
      pe_settings = example_env, pe_toLower = map lower\<rparr>"

definition demo_panel :: panel where
  "demo_panel =
     \<lparr>cp_current = - 1, cp_hideLink = False, cp_hideFamily = False, cp_stack = 0, cp_visible = False, cp_paused = False,
      cp_status = [], cp_pauseBtn = [],
      cp_overview = \<lparr>ov_greeting = [], ov_subtitle = None, ov_loginBtn = False, ov_today = [], ov_todayEmpty = True,
        ov_machines = [], ov_machinesText = [], ov_machinesEmpty = True\<rparr>,
      cp_login = \<lparr>lg_email = [], lg_password = [], lg_logged_in = False, lg_as = [], lg_dialogs = []\<rparr>,
      cp_links = \<lparr>lp_links = [], lp_row = None, lp_dialogs = []\<rparr>, cp_family = demo_parent,
      cp_settings = SettingsPage setDefaults\<rparr>"

definition demo_tray :: tray where
  "demo_tray =
     \<lparr>ty_account = None, ty_login = True, ty_logout = False, ty_pause = [], ty_debugChecked = False, ty_link = False,
      ty_family = False, ty_tip = [], ty_checkEnabled = True, ty_checkText = [], ty_download = None, ty_paused = False,
      ty_debug = False, ty_manual = False, ty_notified = [], ty_url = [], ty_requests = 0, ty_out = []\<rparr>"


text \<open>A save that fails is in force all the same: the dialog says that nothing was saved, yet the settings in use are
  those of the form. So a machine that a failed save has made a parent's still shows the page for children.\<close>

lemma failed_save_in_force:
  assumes "settings_onSave env f st = ((msg, False), st')"
  shows "msg = save_failed ''settings'' \<and> settings_get st' = form_settings f (settings_get st)"
proof -
  obtain ok st1 where u: "settings_update env (form_settings f (settings_get st)) st = (ok, st1)" by (metis surj_pair)
  have "settings_get st1 = form_settings f (settings_get st)"
    using settings_update_get [of env "form_settings f (settings_get st)" st] u by simp
  then show ?thesis using assms u by (cases ok) (auto simp: settings_onSave_def)
qed

lemma failed_save_splits_role:
  assumes "settings_onSave (pe_settings env) f (settings_of a) = ((msg, False), st)"
  shows "snd (desk_step env (SaveSettingsPage f) (t, p, a)) = (p\<lparr>cp_settings := f\<rparr>, with_settings st a) \<and>
    role_parent (with_settings st a) = (sf_role f = APP_ROLE_PARENT)"
  using failed_save_in_force [OF assms]
  by (simp add: save_page_def assms role_parent_def with_settings_def settings_get_def form_settings_def)

section \<open>What the icon says about updates\<close>

text \<open>The releases that the replies name, with their notes, and those among them that differ from the one before.\<close>

fun releases :: "update_signal list \<Rightarrow> (string \<times> string) list" where
  "releases [] = []"
| "releases (updateAvailable version url notes # ss) = (version, notes) # releases ss"
| "releases (upToDate # ss) = releases ss"
| "releases (checkFailed reason # ss) = releases ss"

fun news :: "string \<Rightarrow> (string \<times> string) list \<Rightarrow> (string \<times> string) list" where
  "news v [] = []"
| "news v ((w, notes) # rs) = (if w = v then news v rs else (w, notes) # news w rs)"

definition background_check :: "ui \<Rightarrow> update_signal \<Rightarrow> tray \<Rightarrow> tray" where
  "background_check ui sg t = on_update_signal ui sg (onUpdateTimer t)"

lemma news_adjacent: "v # map fst (news v rs) = remdups_adj (v # map fst rs)"
  by (induction v rs rule: news.induct) (auto simp: remdups_adj_Cons' split: list.split)

lemma background_out:
  "ty_out (fold (background_check ui) sgs t) =
   ty_out t @ map (\<lambda>(w, notes). update_balloon w notes) (news (ty_notified t) (releases sgs))"
proof (induction sgs arbitrary: t)
  case (Cons sg sgs)
  have step: "ty_out (background_check ui sg t) = ty_out t @
      map (\<lambda>(w, notes). update_balloon w notes) (news (ty_notified t) (releases [sg]))"
    "ty_notified (background_check ui sg t) = (case sg of updateAvailable w _ _ \<Rightarrow> w | _ \<Rightarrow> ty_notified t)"
    by (cases sg; simp add: background_check_def onUpdateTimer_def onUpdateAvailable_def onUpdateUpToDate_def
        onUpdateCheckFailed_def check_done_def out_def Let_def)+
  show ?case using Cons [of "background_check ui sg t"] step by (cases sg) (auto split: if_splits)
qed simp

text \<open>The checks that run by themselves announce a release once, not every six hours: over any series of replies
  the balloons shown are exactly those of the releases that differ from the one announced before, in order, and
  failures and replies without a newer release show nothing.\<close>

theorem release_announced_once:
  "\<exists>ns. ty_out (fold (background_check ui) sgs t) = ty_out t @ map (\<lambda>(w, notes). update_balloon w notes) ns \<and>
     ty_notified t # map fst ns = remdups_adj (ty_notified t # map fst (releases sgs))"
  using background_out news_adjacent by blast

text \<open>A check that the user asks for ends with exactly one answer, a balloon or a dialog, and the entry of the menu is
  enabled again. But when the timer of the background check fires before the reply, the request is forgotten: a reply
  that there is nothing new, or that the check failed, shows nothing.\<close>

theorem manual_check_answer:
  "(\<exists>x. ty_out (on_update_signal ui sg (onCheckForUpdates ui t)) = ty_out t @ [x]) \<and>
   ty_checkEnabled (on_update_signal ui sg (onCheckForUpdates ui t)) \<and>
   ty_out (on_update_signal ui sg (onUpdateTimer (onCheckForUpdates ui t))) =
     ty_out t @ map (\<lambda>(w, notes). update_balloon w notes) (news (ty_notified t) (releases [sg]))"
  by (cases sg; simp add: onCheckForUpdates_def onUpdateTimer_def onUpdateAvailable_def onUpdateUpToDate_def
      onUpdateCheckFailed_def check_done_def out_def Let_def)

text \<open>A click on any balloon, the notice of a blocked program too, opens the download of the last release offered.\<close>

lemma limit_balloon_opens_download:
  "ty_url t \<noteq> [] \<Longrightarrow>
   ty_out (onTrayMessageClicked (notifyLimitBlocked ui proc reason t)) = ty_out (notifyLimitBlocked ui proc reason t) @ [OpenUrl (ty_url t)]"
  by (simp add: onTrayMessageClicked_def notifyLimitBlocked_def out_def)

end
