(* ===== verification/Agent_Start.thy ===== *)
theory Agent_Start
  imports Tray_Icon Agent_Control
begin

text \<open>
  The start of the agent, \<open>main\<close> of \<open>src/agent/agent/main.cpp\<close>, the console of \<open>src/common/log.cpp\<close>, and the two
  functions of \<open>database.cpp\<close> that only print. What a process leaves behind when it ends, in whatever way, are the
  files, the database and the registry.
\<close>

section \<open>The console\<close>

record console =
  g_enabled :: bool
  g_consoleCreated :: bool
  con_shown :: bool

definition jit_log_enabled :: "console \<Rightarrow> bool" where
  "jit_log_enabled c = g_enabled c"

definition createConsole :: "bool \<Rightarrow> console \<Rightarrow> bool \<times> console" where
  "createConsole allocOk c =
     (if g_consoleCreated c then (True, c) else if \<not> allocOk then (False, c) else (True, c\<lparr>g_consoleCreated := True\<rparr>))"

definition jit_console_show :: "bool \<Rightarrow> bool \<Rightarrow> console \<Rightarrow> console" where
  "jit_console_show allocOk visible c =
     (if visible
      then (case createConsole allocOk c of (True, c1) \<Rightarrow> c1\<lparr>con_shown := True, g_enabled := True\<rparr> | (False, c1) \<Rightarrow> c1)
      else c\<lparr>g_enabled := False, con_shown := False\<rparr>)"

text \<open>\<open>JIT_LOG\<close>: the text that is printed, if any.\<close>

definition JIT_LOG :: "console \<Rightarrow> wstr \<Rightarrow> wstr list" where
  "JIT_LOG c msg = (if jit_log_enabled c then [msg] else [])"

definition db_print_daily_summary :: "console \<Rightarrow> db_env \<Rightarrow> adb \<Rightarrow> wstr list" where
  "db_print_daily_summary c env db =
     (if \<not> jit_log_enabled c then []
      else JIT_LOG c (wide [nl] @ wide ''========== TONG KET HOM NAY (theo app) =========='' @ wide [nl] @
             snd (db_build_daily_summary_text env 4096 db) @
             wide ''=================================================='' @ wide [nl]))"

definition unsynced_line :: "db_env \<Rightarrow> row \<Rightarrow> wstr" where
  "unsynced_line env r =
     wide (''[UNSYNCED] id='' @ show_int (to_i32 (r_id r)) @ '' process='') @
     wide_cstr (db_utf8ToWide (de_codec env) (r_process_name r) 512) @
     wide ('' duration='' @ show_int (to_i32 (r_duration r)) @ [nl])"

definition db_print_unsynced :: "console \<Rightarrow> db_env \<Rightarrow> adb \<Rightarrow> wstr list" where
  "db_print_unsynced c env db =
     (if \<not> db_open db \<or> \<not> de_prepare env then []
      else concat (map (\<lambda>r. JIT_LOG c (unsynced_line env r)) (filter (\<lambda>r. r_synced r = 0) (db_rows db))))"

section \<open>The window for lock and power messages\<close>

record power_env =
  pw_creates :: bool
  pw_registers :: bool

datatype power_window = NoWindow | PowerWindow bool   \<comment> \<open>told of lock and unlock\<close>

definition createPowerEventWindow :: "power_env \<Rightarrow> power_window" where
  "createPowerEventWindow env = (if \<not> pw_creates env then NoWindow else PowerWindow (pw_registers env))"

definition destroyPowerEventWindow :: "power_window \<Rightarrow> power_window" where
  "destroyPowerEventWindow w = (case w of NoWindow \<Rightarrow> NoWindow | PowerWindow told \<Rightarrow> NoWindow)"

section \<open>The start\<close>

text \<open>The memory of a new process: what is declared static in the sources, with its initial value.\<close>

definition zero_settings :: AppSettings where
  "zero_settings =
     \<lparr>sync_interval_sec = 0, backup_interval_sec = 0, summary_interval_sec = 0, min_duration_sec = 0, autostart_enabled = 0,
      app_role = 0, language = 0, retry_backoff_base_sec = 0, retry_backoff_max_sec = 0, remote_view_enabled = 0,
      remote_view_port = 0, remote_view_token = [], excluded_processes = [], supabase_url = [], supabase_key = []\<rparr>"

definition new_process :: "'w app \<Rightarrow> 'w app" where
  "new_process a =
     a\<lparr>ap_agent := (ap_agent a)\<lparr>ag_settings := zero_settings, ag_session := no_session, ag_conn := None\<rparr>,
       ap_db := (ap_db a)\<lparr>db_open := False, db_changes := 0\<rparr>, ap_track := track_init, ap_limits := limits_init,
       ap_device := \<lparr>g_cachedId = [], g_cachedLabel = [], g_cacheLoaded = False, dv_fs = ag_fs (ap_agent a)\<rparr>,
       ap_last_backup := - 1\<rparr>"

record 'w start_env =
  st_power :: power_env
  st_trayAvailable :: bool
  st_db :: db_env
  st_settings :: settings_env
  st_net :: "'w env"
  st_remote :: rv_env
  st_panel :: "'w panel_env"

definition ERR_UI_TRAY_INIT_FAIL :: string where "ERR_UI_TRAY_INIT_FAIL = ''E5001''"
definition ERR_DB_OPEN_FAIL :: string where "ERR_DB_OPEN_FAIL = ''E2001''"

text \<open>Up to the tray icon: the text of the dialog that ends the program, or the state and the remote view.\<close>

definition main_load :: "'w start_env \<Rightarrow> 'w app \<Rightarrow> string + ('w app \<times> rv_state)" where
  "main_load env a =
     (if \<not> st_trayAvailable env
      then Inl (''['' @ ERR_UI_TRAY_INIT_FAIL @ ''] System tray is not available on this system.'')
      else
        (case db_init (st_db env) (ap_db a) of
           (False, db) \<Rightarrow> Inl (''['' @ ERR_DB_OPEN_FAIL @ ''] Failed to initialize database.'')
         | (True, db) \<Rightarrow>
             (let a1 = a\<lparr>ap_db := db\<rparr>;
                  a2 = with_settings (snd (settings_load (st_settings env) (settings_of a1))) a1;
                  a3 = a2\<lparr>ap_agent := snd (auth_load_session (st_net env) (ap_agent a2))\<rparr>
              in Inr (a3, snd (remoteview_start (st_remote env) (settings_of a3) rv_init)))))"

definition welcome_text :: string where
  "welcome_text =
     ''Welcome to JustInTime!'' @ [nl, nl] @ ''Your activity is still being tracked and saved locally.'' @ [nl] @
     ucn ''Log in via the system tray icon#0027;s right-click menu'' @ [nl] @ ''to sync your data to the cloud.''"

definition main_start ::
  "'w start_env \<Rightarrow> tray \<Rightarrow> panel \<Rightarrow> 'w app \<Rightarrow> string + ('w desk \<times> rv_state \<times> power_window)" where
  "main_start env t p a =
     (case main_load env a of
        Inl msg \<Rightarrow> Inl msg
      | Inr (a1, rv) \<Rightarrow>
          (let d = tray_start (st_panel env) (t, p, a1);
               d1 = (if auth_is_logged_in (ap_agent (snd (snd d))) then d else on_tray (\<lambda>_. out (Dialog welcome_text)) d)
           in Inr (d1, rv, createPowerEventWindow (st_power env))))"

section \<open>Changing the role\<close>

text \<open>What the watch loop shows and ends in its iterations.\<close>

fun watch_effects :: "'w env \<Rightarrow> watch_in list \<Rightarrow> int \<times> 'w app \<Rightarrow> (ActivityLimitEvent list \<times> wstr option) list" where
  "watch_effects env [] p = []"
| "watch_effects env (w # ws) p = (let (e, p') = watch_tick env w p in e # watch_effects env ws p')"

lemma unenforced_watch_tick:
  assumes "no_enforcement a"
  shows "\<exists>lc'. watch_tick env w (lc, a) = (([], None), lc', track_tick w a)"
proof -
  have "no_enforcement (track_tick w a)" using assms by (simp add: no_enforcement_def)
  note unenforced_check [OF this, where lm = "ap_limits a"]
  then show ?thesis by (simp add: watch_tick_def check_tick_def)
qed

lemma unenforced_effects: "no_enforcement a \<Longrightarrow> set (watch_effects env ws (lc, a)) \<subseteq> {([], None)}"
proof (induction ws arbitrary: lc a)
  case (Cons w ws)
  obtain lc' where t: "watch_tick env w (lc, a) = (([], None), lc', track_tick w a)"
    using unenforced_watch_tick [OF Cons.prems] by blast
  have "no_enforcement (track_tick w a)" using Cons.prems by (simp add: no_enforcement_def)
  from Cons.IH [OF this, of lc'] show ?case by (simp add: t)
qed simp

text \<open>The role of the machine is a field of the settings page, and nobody asks who is changing it: once the form says
  that this is a parent's machine, or none of the two, the loop warns of nothing and ends no program, whatever limits
  the parent has set and even when the save has failed.\<close>

lemma role_change_ends_enforcement:
  assumes "sf_role f \<noteq> APP_ROLE_CHILD" and "settings_onSave senv f (settings_of a) = (res, st')"
  shows "set (watch_effects env ws (lc, with_settings st' a)) \<subseteq> {([], None)}"
proof (rule unenforced_effects)
  obtain ok st1 where u: "settings_update senv (form_settings f (settings_get (settings_of a))) (settings_of a) = (ok, st1)"
    by (metis surj_pair)
  then have "settings_get st' = form_settings f (settings_get (settings_of a))"
    using assms(2) settings_update_get [of senv "form_settings f (settings_get (settings_of a))" "settings_of a"]
    by (cases ok) (auto simp: settings_onSave_def)
  then show "no_enforcement (with_settings st' a)"
    using assms(1) by (simp add: no_enforcement_def with_settings_def settings_get_def form_settings_def)
qed

section \<open>A restart finds everything\<close>

text \<open>Settings and session as files: what a save leaves.\<close>

definition settings_stored :: "'w start_env \<Rightarrow> AppSettings \<Rightarrow> fs \<Rightarrow> bool" where
  "settings_stored env s fs \<longleftrightarrow> Option.bind (getSettingsPath (st_settings env)) fs = Some (render_settings s)"

definition session_stored :: "'w start_env \<Rightarrow> AuthSession \<Rightarrow> fs \<Rightarrow> bool" where
  "session_stored env sess fs \<longleftrightarrow>
     (\<exists>enc. en_protect (st_net env) (session_text sess) = Some enc \<and> Option.bind (sessionFilePath (st_net env)) fs = Some enc)"

lemma settings_save_stores:
  assumes "settings_save (st_settings env) s fs = (True, fs')"
  shows "settings_stored env s fs'"
proof -
  obtain t where t: "getSettingsPath (st_settings env) = Some t"
    using assms by (cases "getSettingsPath (st_settings env)") (auto simp: settings_save_def)
  show ?thesis
    using writeFileAtomic_result(1) [OF assms [unfolded settings_save_def t]] t by (simp add: settings_stored_def)
qed

text \<open>Both files are in one directory, under different names.\<close>

lemma config_names_differ:
  assumes "config_dir (st_settings env) = en_dir (st_net env)"
    and "getSettingsPath (st_settings env) = Some t" and "sessionFilePath (st_net env) = Some q"
  shows "t \<noteq> q" "t \<noteq> tmp_path q" "q \<noteq> tmp_path t"
  using assms by (auto simp: getSettingsPath_def sessionFilePath_def configFile_def tmp_path_def)

lemma session_save_stores:
  assumes "saveSessionToDisk (st_net env) sess fs = (True, fs')"
    and "config_dir (st_settings env) = en_dir (st_net env)"
  shows "session_stored env sess fs'" and "settings_stored env s fs \<Longrightarrow> settings_stored env s fs'"
proof -
  obtain enc where e: "en_protect (st_net env) (session_text sess) = Some enc"
    using assms(1) by (cases "en_protect (st_net env) (session_text sess)") (auto simp: saveSessionToDisk_def)
  obtain q where q: "sessionFilePath (st_net env) = Some q"
    using assms(1) e by (cases "sessionFilePath (st_net env)") (auto simp: saveSessionToDisk_def)
  have w: "writeFileAtomic (en_io (st_net env)) (Some q) enc fs = (True, fs')" using assms(1) e q by (simp add: saveSessionToDisk_def)
  show "session_stored env sess fs'" using writeFileAtomic_result(1) [OF w] e q by (simp add: session_stored_def)
  show "settings_stored env s fs'" if "settings_stored env s fs"
  proof (cases "getSettingsPath (st_settings env)")
    case (Some t)
    then show ?thesis
      using that writeFileAtomic_result(2) [OF w, of t] config_names_differ [OF assms(2) Some q] by (simp add: settings_stored_def)
  qed (use that in \<open>simp add: settings_stored_def\<close>)
qed

lemma load_stored_settings:
  assumes "settings_ok s" and "remote_view_token s \<noteq> []" and "settings_stored env s (st_fs st)"
  shows "settings_load (st_settings env) st = (s, st\<lparr>g_settings := s\<rparr>)"
proof -
  obtain t where t: "getSettingsPath (st_settings env) = Some t" "st_fs st t = Some (render_settings s)"
    using assms(3) by (auto simp: settings_stored_def bind_eq_Some_conv)
  have "applyIniValues setDefaults (parseIniFile t (st_fs st)) = s"
    using parse_render_settings [OF assms(1)] apply_rendered [OF assms(1)] t(2) by (simp add: parseIniFile_def)
  then show ?thesis using t assms(2) by (simp add: settings_load_def Let_def)
qed

lemma load_stored_session:
  assumes "dpapi_ok (st_net env)" and "session_ok sess" and "session_full sess" and "session_stored env sess (ag_fs ag)"
  shows "auth_load_session (st_net env) ag = (True, ag\<lparr>ag_session := sess\<rparr>)"
  using assms parse_session_text [OF assms(2)]
  by (auto simp: auth_load_session_def loadSessionFromDisk_def session_stored_def dpapi_ok_def)

text \<open>C33: Whenever the process ends, the next start finds it all: with the files of a save of the settings and of the
  session, a start of a new process, whose memory is empty, has the same settings in use, the
  same user logged in, every record of the database, synced or not, and the remote view listens exactly when the
  settings enable it and the system lets it.\<close>

theorem restart_restores:
  assumes "settings_ok s" and "remote_view_token s \<noteq> []" and "session_ok sess" and "session_full sess"
    and "dpapi_ok (st_net env)" and "settings_stored env s (ag_fs (ap_agent a))" and "session_stored env sess (ag_fs (ap_agent a))"
    and "main_load env (new_process a) = Inr (a', rv)"
  shows "settings_get (settings_of a') = s \<and> auth_get_session (ap_agent a') = sess \<and>
    db_rows (ap_db a') = db_rows (ap_db a) \<and> db_seq (ap_db a') = db_seq (ap_db a) \<and> db_open (ap_db a') \<and>
    ag_fs (ap_agent a') = ag_fs (ap_agent a) \<and> ap_run_key a' = ap_run_key a \<and>
    (g_running rv \<longleftrightarrow> remote_view_enabled s \<noteq> 0 \<and> rv_wsa_ok (st_remote env) \<and> rv_socket (st_remote env) \<noteq> None \<and>
       rv_bind (st_remote env) \<and> rv_listen (st_remote env))"
proof -
  obtain db where db: "db_init (st_db env) (ap_db (new_process a)) = (True, db)"
    using assms(8) by (auto simp: main_load_def split: if_splits prod.splits bool.splits)
  have rows: "db_rows db = db_rows (ap_db a)" "db_seq db = db_seq (ap_db a)" "db_open db"
    using db by (auto simp: db_init_def new_process_def split: if_splits)
  let ?a1 = "(new_process a)\<lparr>ap_db := db\<rparr>"
  have st: "settings_load (st_settings env) (settings_of ?a1) = (s, (settings_of ?a1)\<lparr>g_settings := s\<rparr>)"
    by (rule load_stored_settings [OF assms(1,2)]) (use assms(6) in \<open>simp add: settings_of_def new_process_def\<close>)
  let ?a2 = "with_settings ((settings_of ?a1)\<lparr>g_settings := s\<rparr>) ?a1"
  have "session_stored env sess (ag_fs (ap_agent ?a2))"
    using assms(7) by (simp add: with_settings_def settings_of_def new_process_def)
  note se = load_stored_session [OF assms(5,3,4) this]
  have load: "main_load env (new_process a) =
      Inr (?a2\<lparr>ap_agent := (ap_agent ?a2)\<lparr>ag_session := sess\<rparr>\<rparr>,
           snd (remoteview_start (st_remote env) (settings_of (?a2\<lparr>ap_agent := (ap_agent ?a2)\<lparr>ag_session := sess\<rparr>\<rparr>)) rv_init))"
    using assms(8) db st se by (auto simp: main_load_def Let_def split: if_splits)
  show ?thesis
    using assms(8) load rows
    by (auto simp: with_settings_def settings_of_def settings_get_def auth_get_session_def new_process_def remoteview_start_def
        rv_init_def WSACleanup_def closesocket_def Let_def)
qed


definition demo_start :: "unit start_env" where
  "demo_start =
     \<lparr>st_power = \<lparr>pw_creates = True, pw_registers = True\<rparr>, st_trayAvailable = True, st_db = env0, st_settings = example_env,
      st_net = plain_env (fixed_net (\<lambda>_. None)),
      st_remote = \<lparr>rv_wsa_ok = True, rv_socket = Some 4, rv_bind = True, rv_listen = True, rv_thread = True\<rparr>,
      st_panel = demo_panel_env\<rparr>"

definition demo_session :: AuthSession where
  "demo_session =
     \<lparr>as_logged_in = True, as_user_id = ''u'', as_email = ''e'', as_access_token = ''t'', as_refresh_token = ''r''\<rparr>"

definition demo_files :: fs where
  "demo_files =
     (snd (saveSessionToDisk (st_net demo_start) demo_session (snd (settings_save (st_settings demo_start) example_settings Map.empty))))"

definition demo_after :: "unit app" where
  "demo_after = demo_app\<lparr>ap_agent := example_agent\<lparr>ag_fs := demo_files\<rparr>\<rparr>"

lemma restart_restores_witness:
  "map_sum id (\<lambda>(a, rv). (settings_get (settings_of a), auth_get_session (ap_agent a))) (main_load demo_start (new_process demo_after)) =
   Inr (example_settings, demo_session)"
proof -
  have s: "settings_ok example_settings" "remote_view_token example_settings \<noteq> []"
    by (simp_all add: example_settings_def settings_ok_def setDefaults_def in_i32_def ini_value_def settings_consts)
  have e: "session_ok demo_session" "session_full demo_session" "dpapi_ok (st_net demo_start)"
    by (simp_all add: demo_session_def session_ok_def session_full_def field_ok_def MAX_EMAIL_LEN_def MAX_TOKEN_LEN_def demo_start_def)
  let ?fs1 = "snd (settings_save (st_settings demo_start) example_settings Map.empty)"
  have 1: "settings_save (st_settings demo_start) example_settings Map.empty = (True, ?fs1)"
    by (simp add: demo_start_def settings_save_def example_env_def getSettingsPath_def configFile_def)
  have 2: "saveSessionToDisk (st_net demo_start) demo_session ?fs1 = (True, demo_files)"
    unfolding demo_files_def by (simp add: demo_start_def saveSessionToDisk_def plain_env_def sessionFilePath_def configFile_def)
  have d: "config_dir (st_settings demo_start) = en_dir (st_net demo_start)"
    by (simp add: demo_start_def example_env_def plain_env_def)
  note stored = session_save_stores [OF 2 d]
  have files: "settings_stored demo_start example_settings (ag_fs (ap_agent demo_after))"
      "session_stored demo_start demo_session (ag_fs (ap_agent demo_after))"
    using stored(1) stored(2) [OF settings_save_stores [OF 1]] by (simp_all add: demo_after_def)
  obtain a' rv where run: "main_load demo_start (new_process demo_after) = Inr (a', rv)"
    by (simp add: main_load_def demo_start_def db_init_def env0_def Let_def)
  from restart_restores [OF s e files run] run show ?thesis by simp
qed

text \<open>Without a tray or a database nothing is started.\<close>

lemma start_refused:
  "\<not> st_trayAvailable env \<or> \<not> de_opens (st_db env) \<Longrightarrow> \<exists>msg. main_start env t p a = Inl msg"
  by (auto simp: main_start_def main_load_def db_init_def)

text \<open>A console that could not be made leaves the log off, though the menu shows it as on.\<close>

lemma no_console_no_log:
  "\<not> g_consoleCreated c \<Longrightarrow> jit_log_enabled (jit_console_show False True c) = jit_log_enabled c \<and>
    ty_debugChecked (onToggleDebugConsole t) = (\<not> ty_debug t)"
  by (simp add: jit_console_show_def createConsole_def jit_log_enabled_def onToggleDebugConsole_def Let_def)

end
