(* ===== verification/Json_Value.thy ===== *)
theory Json_Value
  imports Complex_Main JIT_Prelude
begin

text \<open>
  JSON values as the dashboard handles them: the values and access functions of the nlohmann library
  that its code uses, with the exceptions they throw as values of a sum. Parsing and printing are the
  library's and stay parameters. A number is an integer (64 bits, signed or unsigned) or a double; the
  rounding of a large integer that is read as a double is not modelled.
\<close>

section \<open>Values and errors\<close>

datatype json =
    JsNull
  | JsBool bool
  | JsInt int
  | JsReal rat
  | JsStr string
  | JsArr "json list"
  | JsObj "(string \<times> json) list"

text \<open>The exceptions of the dashboard: the three of \<open>cloud.h\<close> and those of the JSON library.\<close>

datatype dash_error = Unauthorized | AuthError string | ApiError string | JsonError

type_synonym 'a result = "dash_error + 'a"

record json_lib =
  jl_parse :: "string \<Rightarrow> json option"
  jl_what :: "string \<Rightarrow> string"          \<comment> \<open>message of the parse error\<close>
  jl_dump :: "json \<Rightarrow> string option"      \<comment> \<open>\<open>None\<close>: a string is not UTF-8\<close>
  jl_dump2 :: "json \<Rightarrow> string option"     \<comment> \<open>\<open>dump(2)\<close>\<close>

definition bind_res :: "'a result \<Rightarrow> ('a \<Rightarrow> 'b result) \<Rightarrow> 'b result" where
  "bind_res r f = (case r of Inl e \<Rightarrow> Inl e | Inr x \<Rightarrow> f x)"

lemma bind_res_simps [simp]: "bind_res (Inl e) f = Inl e" "bind_res (Inr x) f = f x"
  by (simp_all add: bind_res_def)

lemma bind_res_eq_Inr: "bind_res r f = Inr y \<longleftrightarrow> (\<exists>x. r = Inr x \<and> f x = Inr y)"
  by (cases r) auto

lemma bind_res_eq_Inl: "bind_res r f = Inl e \<longleftrightarrow> r = Inl e \<or> (\<exists>x. r = Inr x \<and> f x = Inl e)"
  by (cases r) auto

fun traverse :: "('a \<Rightarrow> 'b result) \<Rightarrow> 'a list \<Rightarrow> 'b list result" where
  "traverse f [] = Inr []"
| "traverse f (x # xs) = bind_res (f x) (\<lambda>y. bind_res (traverse f xs) (\<lambda>ys. Inr (y # ys)))"

section \<open>Access\<close>

fun is_object :: "json \<Rightarrow> bool" where
  "is_object (JsObj fs) = True" | "is_object _ = False"

fun is_string :: "json \<Rightarrow> bool" where
  "is_string (JsStr s) = True" | "is_string _ = False"

fun is_number :: "json \<Rightarrow> bool" where
  "is_number (JsInt i) = True" | "is_number (JsReal r) = True" | "is_number _ = False"

text \<open>A member, when the value is an object that has it (\<open>contains\<close> and \<open>[]\<close>).\<close>

fun member :: "string \<Rightarrow> json \<Rightarrow> json option" where
  "member key (JsObj fs) = map_of fs key" | "member key _ = None"

definition str_member :: "string \<Rightarrow> json \<Rightarrow> string option" where
  "str_member key j = (case member key j of Some (JsStr s) \<Rightarrow> Some s | _ \<Rightarrow> None)"

text \<open>\<open>static_cast\<close> of a double to an integer truncates; out of range it is undefined in C++.\<close>

definition trunc :: "rat \<Rightarrow> int" where
  "trunc r = (if 0 \<le> r then \<lfloor>r\<rfloor> else - \<lfloor>- r\<rfloor>)"

definition to_i64 :: "int \<Rightarrow> int" where
  "to_i64 i = (i + 2 ^ 63) mod 2 ^ 64 - 2 ^ 63"

fun get_string :: "json \<Rightarrow> string result" where
  "get_string (JsStr s) = Inr s" | "get_string _ = Inl JsonError"

fun get_i64 :: "json \<Rightarrow> int result" where
  "get_i64 (JsInt i) = Inr (to_i64 i)" | "get_i64 (JsReal r) = Inr (to_i64 (trunc r))" | "get_i64 _ = Inl JsonError"

fun get_int :: "json \<Rightarrow> int result" where
  "get_int (JsInt i) = Inr (to_i32 i)"
| "get_int (JsReal r) = Inr (to_i32 (trunc r))"
| "get_int (JsBool b) = Inr (if b then 1 else 0)"
| "get_int _ = Inl JsonError"

fun get_bool :: "json \<Rightarrow> bool result" where
  "get_bool (JsBool b) = Inr b" | "get_bool _ = Inl JsonError"

fun get_double :: "json \<Rightarrow> rat result" where
  "get_double (JsInt i) = Inr (of_int i)" | "get_double (JsReal r) = Inr r" | "get_double _ = Inl JsonError"

text \<open>\<open>j.value(key, def)\<close>: the default only when the key is missing; a member of another type throws,
  and so does a \<open>j\<close> that is no object.\<close>

fun value_or :: "(json \<Rightarrow> 'a result) \<Rightarrow> string \<Rightarrow> 'a \<Rightarrow> json \<Rightarrow> 'a result" where
  "value_or get key def (JsObj fs) = (case map_of fs key of Some v \<Rightarrow> get v | None \<Rightarrow> Inr def)"
| "value_or get key def _ = Inl JsonError"

text \<open>What \<open>for (const auto& r : j)\<close> visits.\<close>

fun elements :: "json \<Rightarrow> json list" where
  "elements (JsArr xs) = xs"
| "elements (JsObj fs) = map snd fs"
| "elements JsNull = []"
| "elements j = [j]"

section \<open>Facts\<close>

lemma traverse_map:
  "(\<And>x. x \<in> set xs \<Longrightarrow> f (g x) = Inr x) \<Longrightarrow> traverse f (map g xs) = Inr xs"
  by (induction xs) simp_all

lemma traverse_Inr_length: "traverse f xs = Inr ys \<Longrightarrow> length ys = length xs"
  by (induction xs arbitrary: ys) (auto simp: bind_res_eq_Inr)

lemma traverse_Inr_nth: "traverse f xs = Inr ys \<Longrightarrow> i < length xs \<Longrightarrow> f (xs ! i) = Inr (ys ! i)"
proof (induction xs arbitrary: ys i)
  case (Cons x xs)
  then show ?case by (cases i) (auto simp: bind_res_eq_Inr)
qed simp

lemma traverse_total: "(\<forall>x \<in> set xs. \<exists>y. f x = Inr y) \<longleftrightarrow> (\<exists>ys. traverse f xs = Inr ys)"
  by (induction xs) (auto simp: bind_res_eq_Inr)

lemma traverse_error: "traverse f xs = Inl e \<Longrightarrow> \<exists>x \<in> set xs. f x = Inl e"
  by (induction xs) (auto simp: bind_res_eq_Inl)

lemma value_or_error:
  assumes "\<And>v e. get v = Inl e \<Longrightarrow> e = JsonError"
  shows "value_or get key def j = Inl e \<Longrightarrow> e = JsonError"
  by (cases j) (auto split: option.splits dest: assms)

lemma get_errors [dest]:
  "get_string v = Inl e \<Longrightarrow> e = JsonError" "get_i64 v = Inl e \<Longrightarrow> e = JsonError"
  "get_int v = Inl e \<Longrightarrow> e = JsonError" "get_bool v = Inl e \<Longrightarrow> e = JsonError"
  "get_double v = Inl e \<Longrightarrow> e = JsonError"
  by (cases v; simp)+

lemma value_or_errors:
  "value_or get_string key d v = Inl e \<Longrightarrow> e = JsonError" "value_or get_i64 key i v = Inl e \<Longrightarrow> e = JsonError"
  "value_or get_bool key b v = Inl e \<Longrightarrow> e = JsonError" "value_or get_double key q v = Inl e \<Longrightarrow> e = JsonError"
  by (erule value_or_error [rotated]; erule get_errors)+

definition in_i64 :: "int \<Rightarrow> bool" where
  "in_i64 i \<longleftrightarrow> - (2 ^ 63) \<le> i \<and> i < 2 ^ 63"

lemma to_i64_id [simp]: "in_i64 i \<Longrightarrow> to_i64 i = i"
  by (simp add: to_i64_def in_i64_def)

lemma trunc_of_int [simp]: "trunc (of_int i) = i"
  by (simp add: trunc_def flip: of_int_minus)

section \<open>What the library promises\<close>

text \<open>An object whose members are strings and integers comes back from its text with the same members.\<close>

definition flat_json :: "json \<Rightarrow> bool" where
  "flat_json v \<longleftrightarrow> (case v of JsStr s \<Rightarrow> True | JsInt i \<Rightarrow> in_i64 i | _ \<Rightarrow> False)"

definition json_lib_ok :: "json_lib \<Rightarrow> bool" where
  "json_lib_ok lib \<longleftrightarrow>
     (\<forall>fs text. (\<forall>(k, v) \<in> set fs. flat_json v) \<longrightarrow> distinct (map fst fs) \<longrightarrow> jl_dump2 lib (JsObj fs) = Some text \<longrightarrow>
        (\<exists>gs. jl_parse lib text = Some (JsObj gs) \<and> map_of gs = map_of fs))"

lemma json_lib_parse:
  assumes "json_lib_ok lib" and "jl_dump2 lib (JsObj fs) = Some text"
    and "\<forall>(k, v) \<in> set fs. flat_json v" and "distinct (map fst fs)"
  obtains gs where "jl_parse lib text = Some (JsObj gs)" "map_of gs = map_of fs"
  using assms unfolding json_lib_ok_def by blast

end
