(* ===== verification/Dash_Cloud.thy ===== *)
theory Dash_Cloud
  imports Json_Value Http_Client Device_Id "HOL-Library.Char_ord" "HOL-Library.List_Lexorder"
begin

text \<open>
  \<open>src/dashboard/cloud.cpp\<close>: the dashboard's client for the cloud. Every operation is a function on the
  connection of the calling thread; its result is a value or one of the exceptions of \<open>cloud.h\<close> or of
  the JSON library. The network and the JSON parser and printer are parameters.
\<close>

section \<open>Operations that may throw\<close>

record 'w cloud_env =
  ce_net :: "'w net"
  ce_lib :: json_lib

type_synonym ('w, 'a) cloud = "'w http_state \<Rightarrow> 'a result \<times> 'w http_state"

definition cbind :: "('w, 'a) cloud \<Rightarrow> ('a \<Rightarrow> ('w, 'b) cloud) \<Rightarrow> ('w, 'b) cloud" where
  "cbind m f st = (case m st of (Inl e, st') \<Rightarrow> (Inl e, st') | (Inr x, st') \<Rightarrow> f x st')"

definition pure :: "'a result \<Rightarrow> ('w, 'a) cloud" where
  "pure r st = (r, st)"

section \<open>Requests\<close>

definition url_plain :: "char \<Rightarrow> bool" where
  "url_plain c \<longleftrightarrow> is_digit c \<or> (65 \<le> code c \<and> code c \<le> 90) \<or> (97 \<le> code c \<and> code c \<le> 122) \<or>
     c \<in> {CHR ''-'', CHR ''_'', CHR ''.'', CHR ''~''}"

text \<open>\<open>std::hex\<close> without a width.\<close>

definition hex_upper :: "nat \<Rightarrow> string" where
  "hex_upper n = (if n < 16 then [hexU n] else [hexU (n div 16), hexU (n mod 16)])"

definition urlEncode :: "string \<Rightarrow> string" where
  "urlEncode s = concat (map (\<lambda>c. if url_plain c then [c] else CHR ''%'' # hex_upper (code c)) s)"

definition kSupabaseURL :: string where
  "kSupabaseURL = ''https://crdvfasjtrfrasqehwkc.supabase.co''"

definition kSupabaseAnonKey :: string where
  "kSupabaseAnonKey = ''sb_publishable_2BDazw0ggLN0GC9Zyu2hOQ_XrcqaR7v''"

definition kHost :: string where
  "kHost = hostFromUrl kSupabaseURL"

definition kApikeyHeader :: string where
  "kApikeyHeader = ''apikey: '' @ kSupabaseAnonKey @ [cr, nl]"

definition parseAuthErrorMessage :: "json_lib \<Rightarrow> string \<Rightarrow> nat \<Rightarrow> string" where
  "parseAuthErrorMessage lib body st =
     (let unexpected = ''unexpected error (HTTP '' @ show_int (int st) @ '')''
      in case jl_parse lib body of
           None \<Rightarrow> unexpected
         | Some data \<Rightarrow>
             (case filter (\<lambda>m. m \<noteq> None \<and> m \<noteq> Some [])
                     (map (\<lambda>key. str_member key data) [''error_description'', ''msg'', ''message'']) of
                Some m # _ \<Rightarrow> m
              | _ \<Rightarrow> unexpected))"

record Session =
  cs_accessToken :: string
  cs_refreshToken :: string
  cs_userId :: string
  cs_email :: string

definition parse_json :: "json_lib \<Rightarrow> string \<Rightarrow> json result" where
  "parse_json lib body = (case jl_parse lib body of None \<Rightarrow> Inl JsonError | Some j \<Rightarrow> Inr j)"

definition dump_json :: "json_lib \<Rightarrow> json \<Rightarrow> string result" where
  "dump_json lib j = (case jl_dump lib j of None \<Rightarrow> Inl JsonError | Some t \<Rightarrow> Inr t)"

text \<open>\<open>r.value(key, "")\<close>\<close>

abbreviation str_or :: "string \<Rightarrow> json \<Rightarrow> string result" where
  "str_or key r \<equiv> value_or get_string key [] r"

abbreviation int_or :: "string \<Rightarrow> json \<Rightarrow> int result" where
  "int_or key r \<equiv> value_or get_i64 key 0 r"

definition session_user :: "json \<Rightarrow> (string \<times> string) result" where
  "session_user raw =
     (case member ''user'' raw of
        Some u \<Rightarrow>
          if is_object u
          then bind_res (str_or ''id'' u) (\<lambda>i. bind_res (str_or ''email'' u) (\<lambda>e. Inr (i, e)))
          else Inr ([], [])
      | None \<Rightarrow> Inr ([], []))"

definition parseSessionResponse :: "json_lib \<Rightarrow> string \<Rightarrow> Session result" where
  "parseSessionResponse lib body =
     bind_res (parse_json lib body) (\<lambda>raw.
     bind_res (str_or ''access_token'' raw) (\<lambda>acc.
     bind_res (str_or ''refresh_token'' raw) (\<lambda>ref.
     bind_res (session_user raw) (\<lambda>(uid, email).
     Inr \<lparr>cs_accessToken = acc, cs_refreshToken = ref, cs_userId = uid, cs_email = email\<rparr>))))"

definition network_error :: dash_error where
  "network_error = ApiError ''network error contacting Supabase''"

definition authRequest :: "'w cloud_env \<Rightarrow> string \<Rightarrow> string \<Rightarrow> string \<Rightarrow> string \<Rightarrow> ('w, HttpResult) cloud" where
  "authRequest env meth path body extraHeaders st =
     (case httpsRequest (ce_net env)
             \<lparr>rq_host = kHost, rq_method = meth, rq_path = path,
              rq_headers = kApikeyHeader @ ''Content-Type: application/json'' @ [cr, nl] @ extraHeaders,
              rq_body = body\<rparr> (meth = ''GET'') default_max_body st of
        (None, st') \<Rightarrow> (Inl network_error, st')
      | (Some r, st') \<Rightarrow> (Inr r, st'))"

definition bearer :: "string \<Rightarrow> string" where
  "bearer accessToken = ''Authorization: Bearer '' @ accessToken @ [cr, nl]"

section \<open>Sessions\<close>

text \<open>The reply to a request that must be answered with 200.\<close>

definition ok_or_auth_error :: "json_lib \<Rightarrow> HttpResult \<Rightarrow> HttpResult result" where
  "ok_or_auth_error lib r =
     (if hr_status r \<noteq> 200 then Inl (AuthError (parseAuthErrorMessage lib (hr_body r) (hr_status r))) else Inr r)"

definition login :: "'w cloud_env \<Rightarrow> string \<Rightarrow> string \<Rightarrow> ('w, Session) cloud" where
  "login env email password =
     cbind (pure (dump_json (ce_lib env) (JsObj [(''email'', JsStr email), (''password'', JsStr password)]))) (\<lambda>body.
     cbind (authRequest env ''POST'' ''/auth/v1/token?grant_type=password'' body []) (\<lambda>r.
     cbind (pure (ok_or_auth_error (ce_lib env) r)) (\<lambda>r.
     pure (parseSessionResponse (ce_lib env) (hr_body r)))))"

definition logout :: "'w cloud_env \<Rightarrow> string \<Rightarrow> string \<Rightarrow> ('w, unit) cloud" where
  "logout env accessToken scope =
     cbind (authRequest env ''POST'' (''/auth/v1/logout'' @ (if scope \<noteq> [] then ''?scope='' @ scope else [])) []
              (bearer accessToken)) (\<lambda>r.
     pure (if hr_status r \<noteq> 204 \<and> hr_status r \<noteq> 401
           then Inl (AuthError (parseAuthErrorMessage (ce_lib env) (hr_body r) (hr_status r))) else Inr ()))"

definition refreshSession :: "'w cloud_env \<Rightarrow> string \<Rightarrow> ('w, Session) cloud" where
  "refreshSession env refreshToken =
     cbind (pure (dump_json (ce_lib env) (JsObj [(''refresh_token'', JsStr refreshToken)]))) (\<lambda>body.
     cbind (authRequest env ''POST'' ''/auth/v1/token?grant_type=refresh_token'' body []) (\<lambda>r.
     cbind (pure (ok_or_auth_error (ce_lib env) r)) (\<lambda>r.
     pure (parseSessionResponse (ce_lib env) (hr_body r)))))"

definition sessionFromOAuthTokens :: "'w cloud_env \<Rightarrow> string \<Rightarrow> string \<Rightarrow> ('w, Session) cloud" where
  "sessionFromOAuthTokens env accessToken refreshToken =
     (if accessToken = [] \<or> refreshToken = []
      then pure (Inl (AuthError ''missing access_token or refresh_token''))
      else
        cbind (authRequest env ''GET'' ''/auth/v1/user'' [] (bearer accessToken)) (\<lambda>r.
        cbind (pure (ok_or_auth_error (ce_lib env) r)) (\<lambda>r.
        cbind (pure (parse_json (ce_lib env) (hr_body r))) (\<lambda>user.
        cbind (pure (str_or ''email'' user)) (\<lambda>email.
        if email = [] then pure (Inl (AuthError ''OAuth provider did not return an email address''))
        else
          cbind (pure (str_or ''id'' user)) (\<lambda>uid.
          pure (Inr \<lparr>cs_accessToken = accessToken, cs_refreshToken = refreshToken, cs_userId = uid,
                     cs_email = email\<rparr>)))))))"

section \<open>Client\<close>

definition reply_json :: "json_lib \<Rightarrow> bool \<Rightarrow> HttpResult \<Rightarrow> json result" where
  "reply_json lib expectArray r =
     (if hr_status r = 401 then Inl Unauthorized
      else if hr_status r < 200 \<or> 300 \<le> hr_status r
      then Inl (ApiError (''supabase returned '' @ show_int (int (hr_status r)) @ '': '' @ hr_body r))
      else if hr_body r = [] then Inr (if expectArray then JsArr [] else JsObj [])
      else (case jl_parse lib (hr_body r) of
              Some j \<Rightarrow> Inr j
            | None \<Rightarrow> Inl (ApiError (''invalid JSON from supabase: '' @ jl_what lib (hr_body r)))))"

definition client_request :: "string \<Rightarrow> string \<Rightarrow> string \<Rightarrow> string \<Rightarrow> string \<Rightarrow> HttpReq" where
  "client_request token meth path extraHeaders bodyStr =
     \<lparr>rq_host = kHost, rq_method = meth, rq_path = path,
      rq_headers = kApikeyHeader @ ''Content-Type: application/json'' @ [cr, nl] @
        ''Authorization: Bearer '' @ token @ [cr, nl] @ extraHeaders,
      rq_body = bodyStr\<rparr>"

definition request ::
  "'w cloud_env \<Rightarrow> string \<Rightarrow> string \<Rightarrow> string \<Rightarrow> json option \<Rightarrow> string \<Rightarrow> bool \<Rightarrow> ('w, json) cloud" where
  "request env token meth path body extraHeaders expectArray =
     cbind (pure (case body of None \<Rightarrow> Inr [] | Some j \<Rightarrow> dump_json (ce_lib env) j)) (\<lambda>bodyStr.
     cbind (\<lambda>st. case httpsRequest (ce_net env)
                (client_request token meth path extraHeaders bodyStr) (meth = ''GET'') default_max_body st of
              (None, st') \<Rightarrow> (Inl network_error, st')
            | (Some r, st') \<Rightarrow> (Inr r, st')) (\<lambda>r.
     pure (reply_json (ce_lib env) expectArray r)))"

definition get_rows :: "'w cloud_env \<Rightarrow> string \<Rightarrow> string \<Rightarrow> ('w, json) cloud" where
  "get_rows env token path = request env token ''GET'' path None [] True"

text \<open>An operation without a result.\<close>

definition send_only ::
  "'w cloud_env \<Rightarrow> string \<Rightarrow> string \<Rightarrow> string \<Rightarrow> json option \<Rightarrow> string \<Rightarrow> ('w, unit) cloud" where
  "send_only env token meth path body extraHeaders =
     cbind (request env token meth path body extraHeaders False) (\<lambda>_. pure (Inr ()))"

definition minimal :: string where
  "minimal = ''Prefer: return=minimal'' @ [cr, nl]"

definition merge_minimal :: string where
  "merge_minimal = ''Prefer: resolution=merge-duplicates,return=minimal'' @ [cr, nl]"

definition changePassword :: "'w cloud_env \<Rightarrow> string \<Rightarrow> string \<Rightarrow> ('w, unit) cloud" where
  "changePassword env token newPassword =
     send_only env token ''PUT'' ''/auth/v1/user'' (Some (JsObj [(''password'', JsStr newPassword)])) []"

subsection \<open>Activity\<close>

record DailyTotal =
  dt_deviceId :: string
  dt_processName :: string
  dt_day :: string
  dt_totalSeconds :: int

definition daily_path :: "string \<Rightarrow> string \<Rightarrow> string" where
  "daily_path dayFrom dayTo =
     ''/rest/v1/activity_daily_totals?select=*&order=day.desc,total_seconds.desc&limit=1000'' @
     (if dayFrom \<noteq> [] \<and> dayTo \<noteq> [] then ''&and=(day.gte.'' @ dayFrom @ '',day.lte.'' @ dayTo @ '')''
      else if dayFrom \<noteq> [] then ''&day=gte.'' @ dayFrom
      else if dayTo \<noteq> [] then ''&day=lte.'' @ dayTo
      else [])"

definition daily_of_json :: "json \<Rightarrow> DailyTotal result" where
  "daily_of_json r =
     bind_res (str_or ''device_id'' r) (\<lambda>d. bind_res (str_or ''process_name'' r) (\<lambda>p.
     bind_res (str_or ''day'' r) (\<lambda>y. bind_res (int_or ''total_seconds'' r) (\<lambda>t.
     Inr \<lparr>dt_deviceId = d, dt_processName = p, dt_day = y, dt_totalSeconds = t\<rparr>))))"

definition dailyTotals :: "'w cloud_env \<Rightarrow> string \<Rightarrow> string \<Rightarrow> string \<Rightarrow> ('w, DailyTotal list) cloud" where
  "dailyTotals env token dayFrom dayTo =
     cbind (get_rows env token (daily_path dayFrom dayTo)) (\<lambda>arr. pure (traverse daily_of_json (elements arr)))"

record RecentLog =
  rl_deviceId :: string
  rl_processName :: string
  rl_windowTitle :: string
  rl_duration :: int
  rl_startTime :: int
  rl_endTime :: int

definition log_of_json :: "json \<Rightarrow> RecentLog result" where
  "log_of_json r =
     bind_res (str_or ''device_id'' r) (\<lambda>d. bind_res (str_or ''process_name'' r) (\<lambda>p.
     bind_res (str_or ''window_title'' r) (\<lambda>w. bind_res (int_or ''duration_seconds'' r) (\<lambda>n.
     bind_res (int_or ''start_time'' r) (\<lambda>s. bind_res (int_or ''end_time'' r) (\<lambda>e.
     Inr \<lparr>rl_deviceId = d, rl_processName = p, rl_windowTitle = w, rl_duration = n, rl_startTime = s,
          rl_endTime = e\<rparr>))))))"

definition recentLogs :: "'w cloud_env \<Rightarrow> string \<Rightarrow> int \<Rightarrow> ('w, RecentLog list) cloud" where
  "recentLogs env token limit =
     cbind (get_rows env token
       (''/rest/v1/activity_logs?select=device_id,process_name,window_title,duration_seconds,start_time,end_time'' @
        ''&order=start_time.desc&limit='' @ show_int limit))
       (\<lambda>arr. pure (traverse log_of_json (elements arr)))"

definition activityLogsForChild :: "'w cloud_env \<Rightarrow> string \<Rightarrow> string \<Rightarrow> int \<Rightarrow> int \<Rightarrow> ('w, RecentLog list) cloud" where
  "activityLogsForChild env token childUserId sinceUnix limit =
     cbind (get_rows env token
       (''/rest/v1/activity_logs?select=device_id,process_name,window_title,duration_seconds,start_time,end_time'' @
        ''&user_id=eq.'' @ urlEncode childUserId @
        (if 0 < sinceUnix then ''&start_time=gte.'' @ show_int sinceUnix else []) @
        ''&order=start_time.desc&limit='' @ show_int limit))
       (\<lambda>arr. pure (traverse log_of_json (elements arr)))"

definition ping :: "'w cloud_env \<Rightarrow> string \<Rightarrow> ('w, unit) cloud" where
  "ping env token = cbind (get_rows env token ''/rest/v1/activity_daily_totals?limit=1'') (\<lambda>_. pure (Inr ()))"

subsection \<open>Messages\<close>

record Message =
  ms_id :: int
  ms_senderDeviceId :: string
  ms_targetDeviceId :: string
  ms_kind :: string
  ms_payload :: string
  ms_createdAt :: string
  ms_readAt :: "string option"

definition sendMessage :: "'w cloud_env \<Rightarrow> string \<Rightarrow> Message \<Rightarrow> ('w, unit) cloud" where
  "sendMessage env token msg =
     send_only env token ''POST'' ''/rest/v1/device_messages''
       (Some (JsObj [(''sender_device_id'', JsStr (ms_senderDeviceId msg)),
                     (''target_device_id'', JsStr (ms_targetDeviceId msg)),
                     (''kind'', JsStr (ms_kind msg)), (''payload'', JsStr (ms_payload msg))])) minimal"

definition message_of_json :: "json \<Rightarrow> Message result" where
  "message_of_json r =
     bind_res (int_or ''id'' r) (\<lambda>i. bind_res (str_or ''sender_device_id'' r) (\<lambda>s.
     bind_res (str_or ''target_device_id'' r) (\<lambda>t. bind_res (str_or ''kind'' r) (\<lambda>k.
     bind_res (str_or ''payload'' r) (\<lambda>p. bind_res (str_or ''created_at'' r) (\<lambda>c.
     Inr \<lparr>ms_id = i, ms_senderDeviceId = s, ms_targetDeviceId = t, ms_kind = k, ms_payload = p,
          ms_createdAt = c, ms_readAt = str_member ''read_at'' r\<rparr>))))))"

definition parseMessages :: "json \<Rightarrow> Message list result" where
  "parseMessages arr = traverse message_of_json (elements arr)"

definition inbox :: "'w cloud_env \<Rightarrow> string \<Rightarrow> string \<Rightarrow> int \<Rightarrow> ('w, Message list) cloud" where
  "inbox env token selfDeviceId limit =
     cbind (get_rows env token
       (''/rest/v1/device_messages?target_device_id=eq.'' @ urlEncode selfDeviceId @
        ''&order=created_at.desc&limit='' @ show_int limit)) (\<lambda>arr. pure (parseMessages arr))"

definition thread_path :: "string \<Rightarrow> string \<Rightarrow> int \<Rightarrow> string" where
  "thread_path selfDeviceId otherDeviceId limit =
     (let self = urlEncode selfDeviceId; other = urlEncode otherDeviceId
      in ''/rest/v1/device_messages?or=(and(sender_device_id.eq.'' @ self @ '',target_device_id.eq.'' @ other @
         ''),and(sender_device_id.eq.'' @ other @ '',target_device_id.eq.'' @ self @
         ''))&order=created_at.asc&limit='' @ show_int limit)"

definition message_thread :: "'w cloud_env \<Rightarrow> string \<Rightarrow> string \<Rightarrow> string \<Rightarrow> int \<Rightarrow> ('w, Message list) cloud" where
  "message_thread env token selfDeviceId otherDeviceId limit =
     cbind (get_rows env token (thread_path selfDeviceId otherDeviceId limit)) (\<lambda>arr. pure (parseMessages arr))"

text \<open>\<open>GetSystemTime\<close> as year, month, day, hour, minute and second.\<close>

type_synonym system_time = "int \<times> int \<times> int \<times> int \<times> int \<times> int"

definition utc_text :: "system_time \<Rightarrow> string" where
  "utc_text t =
     (case t of (y, mo, d, h, mi, s) \<Rightarrow>
        buf_copy 32 (pad0 4 y @ ''-'' @ pad0 2 mo @ ''-'' @ pad0 2 d @ ''T'' @ pad0 2 h @ '':'' @ pad0 2 mi @
          '':'' @ pad0 2 s @ ''Z''))"

definition markRead :: "'w cloud_env \<Rightarrow> string \<Rightarrow> system_time \<Rightarrow> int \<Rightarrow> ('w, unit) cloud" where
  "markRead env token now i =
     send_only env token ''PATCH'' (''/rest/v1/device_messages?id=eq.'' @ show_int i)
       (Some (JsObj [(''read_at'', JsStr (utc_text now))])) minimal"

subsection \<open>Parents and children\<close>

text \<open>A text found anywhere in the message of an \<open>ApiError\<close> counts as the status.\<close>

definition invite_error :: "dash_error \<Rightarrow> dash_error" where
  "invite_error e =
     (case e of
        ApiError msg \<Rightarrow>
          if str_find ''409'' msg \<noteq> None then ApiError ''already invited or linked with this account'' else e
      | _ \<Rightarrow> e)"

definition inviteChild :: "'w cloud_env \<Rightarrow> string \<Rightarrow> string \<Rightarrow> ('w, unit) cloud" where
  "inviteChild env token childEmail =
     cbind (request env token ''POST'' ''/rest/v1/rpc/find_user_id_by_email''
              (Some (JsObj [(''target_email'', JsStr childEmail)])) [] False) (\<lambda>idResult.
     (let childId = (case idResult of JsStr s \<Rightarrow> s | _ \<Rightarrow> [])
      in if childId = []
         then pure (Inl (ApiError (''no JustInTime account found for '' @ quo # childEmail @ quo #
                '' - they need to sign up/log in with this exact email first'')))
         else
           (\<lambda>st. case send_only env token ''POST'' ''/rest/v1/parent_links''
                          (Some (JsObj [(''child_user_id'', JsStr childId)])) minimal st of
                   (Inl e, st') \<Rightarrow> (Inl (invite_error e), st')
                 | (Inr x, st') \<Rightarrow> (Inr x, st'))))"

record ClientParentLink =
  cl_id :: int
  cl_otherUserId :: string
  cl_otherEmail :: string
  cl_status :: string
  cl_createdAt :: string
  cl_approvedAt :: "string option"

definition optApprovedAt :: "json \<Rightarrow> string option" where
  "optApprovedAt r = str_member ''approved_at'' r"

definition link_of_json :: "string \<Rightarrow> string \<Rightarrow> json \<Rightarrow> ClientParentLink result" where
  "link_of_json user_key email_key r =
     bind_res (int_or ''id'' r) (\<lambda>i. bind_res (str_or user_key r) (\<lambda>u.
     bind_res (str_or email_key r) (\<lambda>e. bind_res (str_or ''status'' r) (\<lambda>s.
     bind_res (str_or ''created_at'' r) (\<lambda>c.
     Inr \<lparr>cl_id = i, cl_otherUserId = u, cl_otherEmail = e, cl_status = s, cl_createdAt = c,
          cl_approvedAt = optApprovedAt r\<rparr>)))))"

definition listLinksAsParent :: "'w cloud_env \<Rightarrow> string \<Rightarrow> ('w, ClientParentLink list) cloud" where
  "listLinksAsParent env token =
     cbind (request env token ''POST'' ''/rest/v1/rpc/parent_links_for_parent'' None [] True)
       (\<lambda>arr. pure (traverse (link_of_json ''child_user_id'' ''child_email'') (elements arr)))"

definition listLinksAsChild :: "'w cloud_env \<Rightarrow> string \<Rightarrow> ('w, ClientParentLink list) cloud" where
  "listLinksAsChild env token =
     cbind (request env token ''POST'' ''/rest/v1/rpc/parent_links_for_child'' None [] True)
       (\<lambda>arr. pure (traverse (link_of_json ''parent_user_id'' ''parent_email'') (elements arr)))"

definition set_status :: "string \<Rightarrow> 'w cloud_env \<Rightarrow> string \<Rightarrow> int \<Rightarrow> ('w, unit) cloud" where
  "set_status status env token linkId =
     send_only env token ''PATCH'' (''/rest/v1/parent_links?id=eq.'' @ show_int linkId)
       (Some (JsObj [(''status'', JsStr status)])) minimal"

definition approveLink :: "'w cloud_env \<Rightarrow> string \<Rightarrow> int \<Rightarrow> ('w, unit) cloud" where
  "approveLink = set_status ''approved''"

definition revokeLink :: "'w cloud_env \<Rightarrow> string \<Rightarrow> int \<Rightarrow> ('w, unit) cloud" where
  "revokeLink = set_status ''revoked''"

definition listPermissions :: "'w cloud_env \<Rightarrow> string \<Rightarrow> ('w, (int \<times> string) list) cloud" where
  "listPermissions env token =
     cbind (get_rows env token ''/rest/v1/parent_links?select=id,permission_level'') (\<lambda>arr.
       pure (traverse (\<lambda>r. bind_res (int_or ''id'' r) (\<lambda>i.
         bind_res (value_or get_string ''permission_level'' ''full'' r) (\<lambda>l. Inr (i, l)))) (elements arr)))"

definition setPermission :: "'w cloud_env \<Rightarrow> string \<Rightarrow> int \<Rightarrow> string \<Rightarrow> ('w, unit) cloud" where
  "setPermission env token linkId level =
     send_only env token ''PATCH'' (''/rest/v1/parent_links?id=eq.'' @ show_int linkId)
       (Some (JsObj [(''permission_level'', JsStr level)])) minimal"

subsection \<open>Limits\<close>

record ClientAppLimit =
  ca_id :: int
  ca_processName :: string
  ca_dailyLimitSec :: "int option"
  ca_blocked :: bool

definition limit_seconds :: "json \<Rightarrow> int option result" where
  "limit_seconds r =
     (case member ''daily_limit_sec'' r of
        Some v \<Rightarrow> if is_number v then bind_res (get_int v) (\<lambda>i. Inr (Some i)) else Inr None
      | None \<Rightarrow> Inr None)"

definition limit_of_json :: "json \<Rightarrow> ClientAppLimit result" where
  "limit_of_json r =
     bind_res (int_or ''id'' r) (\<lambda>i. bind_res (str_or ''process_name'' r) (\<lambda>p.
     bind_res (value_or get_bool ''blocked'' False r) (\<lambda>b. bind_res (limit_seconds r) (\<lambda>d.
     Inr \<lparr>ca_id = i, ca_processName = p, ca_dailyLimitSec = d, ca_blocked = b\<rparr>))))"

definition listLimitsForChild :: "'w cloud_env \<Rightarrow> string \<Rightarrow> string \<Rightarrow> ('w, ClientAppLimit list) cloud" where
  "listLimitsForChild env token childUserId =
     cbind (get_rows env token
       (''/rest/v1/app_limits?select=id,process_name,daily_limit_sec,blocked&child_user_id=eq.'' @
        urlEncode childUserId @ ''&order=process_name.asc''))
       (\<lambda>arr. pure (traverse limit_of_json (elements arr)))"

definition json_of_option :: "('a \<Rightarrow> json) \<Rightarrow> 'a option \<Rightarrow> json" where
  "json_of_option f x = (case x of None \<Rightarrow> JsNull | Some y \<Rightarrow> f y)"

definition setLimit ::
  "'w cloud_env \<Rightarrow> string \<Rightarrow> string \<Rightarrow> string \<Rightarrow> int option \<Rightarrow> bool \<Rightarrow> ('w, unit) cloud" where
  "setLimit env token childUserId processName dailyLimitSec blocked =
     send_only env token ''POST'' ''/rest/v1/app_limits?on_conflict=child_user_id,process_name''
       (Some (JsObj [(''child_user_id'', JsStr childUserId), (''process_name'', JsStr processName),
                     (''blocked'', JsBool blocked), (''daily_limit_sec'', json_of_option JsInt dailyLimitSec)]))
       merge_minimal"

definition deleteLimit :: "'w cloud_env \<Rightarrow> string \<Rightarrow> int \<Rightarrow> ('w, unit) cloud" where
  "deleteLimit env token limitId =
     send_only env token ''DELETE'' (''/rest/v1/app_limits?id=eq.'' @ show_int limitId) None minimal"

subsection \<open>Heartbeats\<close>

record DeviceHeartbeat =
  dh_deviceId :: string
  dh_hostname :: string
  dh_lastSeen :: string
  dh_cpuPercent :: rat
  dh_ramPercent :: rat
  dh_diskPercent :: rat

definition pushHeartbeat ::
  "'w cloud_env \<Rightarrow> string \<Rightarrow> system_time \<Rightarrow> string \<Rightarrow> string \<Rightarrow> rat \<Rightarrow> rat \<Rightarrow> rat \<Rightarrow> ('w, unit) cloud" where
  "pushHeartbeat env token now deviceId label cpu ram disk =
     send_only env token ''POST'' ''/rest/v1/device_heartbeats?on_conflict=user_id,device_id''
       (Some (JsObj [(''device_id'', JsStr deviceId), (''hostname'', JsStr label), (''cpu_percent'', JsReal cpu),
                     (''ram_percent'', JsReal ram), (''disk_percent'', JsReal disk),
                     (''last_seen'', JsStr (utc_text now))])) merge_minimal"

abbreviation dbl_or :: "string \<Rightarrow> json \<Rightarrow> rat result" where
  "dbl_or key r \<equiv> value_or get_double key 0 r"

definition heartbeat_of_json :: "json \<Rightarrow> DeviceHeartbeat result" where
  "heartbeat_of_json r =
     bind_res (str_or ''device_id'' r) (\<lambda>d. bind_res (str_or ''hostname'' r) (\<lambda>h.
     bind_res (str_or ''last_seen'' r) (\<lambda>l. bind_res (dbl_or ''cpu_percent'' r) (\<lambda>c.
     bind_res (dbl_or ''ram_percent'' r) (\<lambda>m. bind_res (dbl_or ''disk_percent'' r) (\<lambda>k.
     Inr \<lparr>dh_deviceId = d, dh_hostname = h, dh_lastSeen = l, dh_cpuPercent = c, dh_ramPercent = m,
          dh_diskPercent = k\<rparr>))))))"

definition parseHeartbeats :: "json \<Rightarrow> DeviceHeartbeat list result" where
  "parseHeartbeats arr = traverse heartbeat_of_json (elements arr)"

definition listHeartbeats :: "'w cloud_env \<Rightarrow> string \<Rightarrow> ('w, DeviceHeartbeat list) cloud" where
  "listHeartbeats env token =
     cbind (get_rows env token ''/rest/v1/device_heartbeats?select=*&order=last_seen.desc'')
       (\<lambda>arr. pure (parseHeartbeats arr))"

definition listHeartbeatsForChild :: "'w cloud_env \<Rightarrow> string \<Rightarrow> string \<Rightarrow> ('w, DeviceHeartbeat list) cloud" where
  "listHeartbeatsForChild env token childUserId =
     cbind (get_rows env token
       (''/rest/v1/device_heartbeats?select=*&user_id=eq.'' @ urlEncode childUserId @ ''&order=last_seen.desc''))
       (\<lambda>arr. pure (parseHeartbeats arr))"

definition deleteHeartbeat :: "'w cloud_env \<Rightarrow> string \<Rightarrow> string \<Rightarrow> ('w, unit) cloud" where
  "deleteHeartbeat env token deviceId =
     send_only env token ''DELETE'' (''/rest/v1/device_heartbeats?device_id=eq.'' @ urlEncode deviceId) None minimal"

definition distinctDevices :: "DailyTotal list \<Rightarrow> string list" where
  "distinctDevices totals =
     sort (foldl (\<lambda>out t. if dt_deviceId t \<in> set out then out else out @ [dt_deviceId t]) [] totals)"

subsection \<open>The JSON the pages read (\<open>cloud.h\<close>)\<close>

definition json_of_daily :: "DailyTotal \<Rightarrow> json" where
  "json_of_daily t =
     JsObj [(''device_id'', JsStr (dt_deviceId t)), (''process_name'', JsStr (dt_processName t)),
            (''day'', JsStr (dt_day t)), (''total_seconds'', JsInt (dt_totalSeconds t))]"

definition json_of_log :: "RecentLog \<Rightarrow> json" where
  "json_of_log l =
     JsObj [(''device_id'', JsStr (rl_deviceId l)), (''process_name'', JsStr (rl_processName l)),
            (''window_title'', JsStr (rl_windowTitle l)), (''duration_seconds'', JsInt (rl_duration l)),
            (''start_time'', JsInt (rl_startTime l)), (''end_time'', JsInt (rl_endTime l))]"

definition json_of_message :: "Message \<Rightarrow> json" where
  "json_of_message m =
     JsObj [(''id'', JsInt (ms_id m)), (''sender_device_id'', JsStr (ms_senderDeviceId m)),
            (''target_device_id'', JsStr (ms_targetDeviceId m)), (''kind'', JsStr (ms_kind m)),
            (''payload'', JsStr (ms_payload m)), (''created_at'', JsStr (ms_createdAt m)),
            (''read_at'', json_of_option JsStr (ms_readAt m))]"

definition json_of_link :: "ClientParentLink \<Rightarrow> json" where
  "json_of_link l =
     JsObj [(''id'', JsInt (cl_id l)), (''other_user_id'', JsStr (cl_otherUserId l)),
            (''other_email'', JsStr (cl_otherEmail l)), (''status'', JsStr (cl_status l)),
            (''created_at'', JsStr (cl_createdAt l)), (''approved_at'', json_of_option JsStr (cl_approvedAt l))]"

definition json_of_limit :: "ClientAppLimit \<Rightarrow> json" where
  "json_of_limit l =
     JsObj [(''id'', JsInt (ca_id l)), (''process_name'', JsStr (ca_processName l)),
            (''daily_limit_sec'', json_of_option JsInt (ca_dailyLimitSec l)), (''blocked'', JsBool (ca_blocked l))]"

definition json_of_heartbeat :: "DeviceHeartbeat \<Rightarrow> json" where
  "json_of_heartbeat h =
     JsObj [(''device_id'', JsStr (dh_deviceId h)), (''hostname'', JsStr (dh_hostname h)),
            (''cpu_percent'', JsReal (dh_cpuPercent h)), (''ram_percent'', JsReal (dh_ramPercent h)),
            (''disk_percent'', JsReal (dh_diskPercent h)), (''last_seen'', JsStr (dh_lastSeen h))]"

end
