(* ===== verification/Cloud_Client.thy ===== *)
theory Cloud_Client
  imports Dash_Cloud App_Limits
begin

text \<open>
  What the cloud client of the dashboard guarantees: how often a request is sent, which requests an
  invitation makes, that rows are read as they were written, that identifiers survive the URL, and
  that dashboard and agent read the same limits.
\<close>

section \<open>Requests sent\<close>

text \<open>A network that also logs the requests.\<close>

definition logging :: "'w cloud_env \<Rightarrow> ('w \<times> HttpReq list) cloud_env" where
  "logging env = \<lparr>ce_net = counted (ce_net env), ce_lib = ce_lib env\<rparr>"

definition sent :: "('w \<times> HttpReq list) http_state \<Rightarrow> HttpReq list" where
  "sent st = snd (hc_world st)"

lemma client_request_fields [simp]:
  "rq_host (client_request token meth path extra b) = kHost"
  "rq_method (client_request token meth path extra b) = meth"
  "rq_path (client_request token meth path extra b) = path"
  "rq_body (client_request token meth path extra b) = b"
  by (simp_all add: client_request_def)

lemma client_request_bearer: "sublist (bearer token) (rq_headers (client_request token meth path extra b))"
proof -
  have "rq_headers (client_request token meth path extra b) =
    (kApikeyHeader @ ''Content-Type: application/json'' @ [cr, nl]) @ bearer token @ extra"
    by (simp add: client_request_def bearer_def)
  then show ?thesis by (metis sublist_appendI)
qed

lemma request_outcome:
  assumes "request env token meth path body extra ea st = (res, st')"
  obtains "res = Inl JsonError" "st' = st"
    | bodyStr r where "httpsRequest (ce_net env) (client_request token meth path extra bodyStr) (meth = ''GET'')
         default_max_body st = (r, st')"
      "res = (case r of None \<Rightarrow> Inl network_error | Some r \<Rightarrow> reply_json (ce_lib env) ea r)"
      "\<forall>j. body = Some j \<longrightarrow> jl_dump (ce_lib env) j = Some bodyStr"
proof (cases "case body of None \<Rightarrow> Inr [] | Some j \<Rightarrow> dump_json (ce_lib env) j")
  case (Inl e)
  then have "e = JsonError" by (auto simp: dump_json_def split: option.splits)
  with Inl assms show thesis using that(1) by (simp add: request_def cbind_def pure_def)
next
  case (Inr bodyStr)
  then have d: "\<forall>j. body = Some j \<longrightarrow> jl_dump (ce_lib env) j = Some bodyStr"
    by (auto simp: dump_json_def split: option.splits)
  obtain r st1 where h: "httpsRequest (ce_net env) (client_request token meth path extra bodyStr) (meth = ''GET'')
         default_max_body st = (r, st1)" by (metis prod.collapse)
  then have "(res, st') = (case r of None \<Rightarrow> Inl network_error | Some r \<Rightarrow> reply_json (ce_lib env) ea r, st1)"
    using assms Inr
    by (cases r) (simp_all add: request_def cbind_def pure_def)
  with h d show thesis using that(2) by simp
qed

lemma request_once:
  assumes "request (logging env) token meth path body extra ea st = (res, st')" and "meth \<noteq> ''GET''"
  shows "\<exists>rqs. sent st' = sent st @ rqs \<and> length rqs \<le> 1 \<and>
    (rqs = [] \<longrightarrow> res = Inl JsonError \<or> res = Inl network_error) \<and>
    (\<forall>rq \<in> set rqs. \<exists>bodyStr. rq = client_request token meth path extra bodyStr \<and>
       (\<forall>j. body = Some j \<longrightarrow> jl_dump (ce_lib env) j = Some bodyStr))"
  using assms(1)
proof (cases rule: request_outcome)
  case 1
  then show ?thesis by simp
next
  case (2 bodyStr r)
  from httpsRequest_contract [of False "ce_net env" "client_request token meth path extra bodyStr" default_max_body st] 2(1)
  obtain k where k: "k \<le> 1" "sent st' = sent st @ replicate k (client_request token meth path extra bodyStr)"
    "r \<noteq> None \<longrightarrow> 0 < k"
    using assms(2) by (auto simp: sent_def logging_def)
  have "res = Inl JsonError \<or> res = Inl network_error" if "k = 0" using that k(3) 2(2) by (cases r) auto
  with k 2(3) show ?thesis
    by (intro exI [of _ "replicate k (client_request token meth path extra bodyStr)"]) (auto simp: logging_def)
qed

text \<open>The operations that change something on the server.\<close>

datatype client_write =
    ChangePassword string
  | SendMessage Message
  | MarkRead system_time int
  | ApproveLink int
  | RevokeLink int
  | SetPermission int string
  | SetLimit string string "int option" bool
  | DeleteLimit int
  | PushHeartbeat system_time string string rat rat rat
  | DeleteHeartbeat string

fun run_write :: "'w cloud_env \<Rightarrow> string \<Rightarrow> client_write \<Rightarrow> ('w, unit) cloud" where
  "run_write env token (ChangePassword p) = changePassword env token p"
| "run_write env token (SendMessage m) = sendMessage env token m"
| "run_write env token (MarkRead t i) = markRead env token t i"
| "run_write env token (ApproveLink i) = approveLink env token i"
| "run_write env token (RevokeLink i) = revokeLink env token i"
| "run_write env token (SetPermission i l) = setPermission env token i l"
| "run_write env token (SetLimit c p d b) = setLimit env token c p d b"
| "run_write env token (DeleteLimit i) = deleteLimit env token i"
| "run_write env token (PushHeartbeat t d l c r k) = pushHeartbeat env token t d l c r k"
| "run_write env token (DeleteHeartbeat d) = deleteHeartbeat env token d"

lemma send_only_request:
  assumes "send_only env token meth path body extra st = (res, st')"
  obtains r where "request env token meth path body extra False st = (r, st')"
    "res = (case r of Inl e \<Rightarrow> Inl e | Inr _ \<Rightarrow> Inr ())"
  using assms
  by (cases "request env token meth path body extra False st"; cases "fst (request env token meth path body extra False st)")
     (auto simp: send_only_def cbind_def pure_def)

lemmas client_writes = changePassword_def sendMessage_def markRead_def approveLink_def revokeLink_def set_status_def
  setPermission_def setLimit_def deleteLimit_def pushHeartbeat_def deleteHeartbeat_def

lemma run_write_send:
  "\<exists>meth path body extra. meth \<in> {''PUT'', ''POST'', ''PATCH'', ''DELETE''} \<and>
     (\<forall>env :: 'w cloud_env. run_write env token w = send_only env token meth path body extra)"
  by (cases w) (simp_all add: client_writes, blast+)

text \<open>C25: A write of the dashboard is sent to the server at most once, whatever the network does: there is no
  silent retry that could apply it twice. It is sent exactly once when it is reported as done or as refused
  by the server, and the request goes to the project's host with the user's token.\<close>

theorem client_writes_once:
  assumes "run_write (logging env) token w st = (res, st')"
  shows "\<exists>rqs. sent st' = sent st @ rqs \<and> length rqs \<le> 1 \<and>
    (rqs = [] \<longrightarrow> res = Inl JsonError \<or> res = Inl network_error) \<and>
    (\<forall>rq \<in> set rqs. rq_host rq = kHost \<and> rq_method rq \<noteq> ''GET'' \<and> sublist (bearer token) (rq_headers rq))"
proof -
  obtain meth path body extra where w: "meth \<in> {''PUT'', ''POST'', ''PATCH'', ''DELETE''}"
    "run_write (logging env) token w = send_only (logging env) token meth path body extra"
    using run_write_send by metis
  then have g: "meth \<noteq> ''GET''" by auto
  obtain r where r: "request (logging env) token meth path body extra False st = (r, st')"
    "res = (case r of Inl e \<Rightarrow> Inl e | Inr _ \<Rightarrow> Inr ())"
    by (rule send_only_request [of "logging env" token meth path body extra st res st'])
       (use assms w(2) in simp_all)
  obtain rqs where rqs: "sent st' = sent st @ rqs" "length rqs \<le> 1"
    "rqs = [] \<longrightarrow> r = Inl JsonError \<or> r = Inl network_error"
    "\<forall>rq \<in> set rqs. \<exists>b. rq = client_request token meth path extra b"
    using request_once [OF r(1) g] by blast
  have sub: "sublist (bearer token) (rq_headers (client_request token meth path extra b))" for b
    by (rule client_request_bearer)
  have "rq_host rq = kHost \<and> rq_method rq \<noteq> ''GET'' \<and> sublist (bearer token) (rq_headers rq)"
    if "rq \<in> set rqs" for rq
  proof -
    from bspec [OF rqs(4) that] obtain b where b: "rq = client_request token meth path extra b" ..
    have "meth \<noteq> ''GET''" by (rule g)
    with sub [of b] show ?thesis unfolding b client_request_fields by blast
  qed
  then show ?thesis using rqs(1-3) r(2) by auto
qed

definition demo_cloud :: "(HttpReq \<Rightarrow> (nat \<times> string) option) \<Rightarrow> json \<Rightarrow> unit cloud_env" where
  "demo_cloud answer j = \<lparr>ce_net = fixed_net answer,
     ce_lib = \<lparr>jl_parse = (\<lambda>t. if t = ''X'' then Some j else None), jl_what = (\<lambda>t. ''bad''),
               jl_dump = (\<lambda>i. Some ''B''), jl_dump2 = (\<lambda>i. Some ''B'')\<rparr>\<rparr>"

definition fresh_conn :: "'w \<Rightarrow> 'w http_state" where
  "fresh_conn w = \<lparr>hc_conn = None, hc_world = w\<rparr>"

lemma demo_sends:
  assumes "answer rq = Some (st, body)" and "st \<noteq> 0" and "length body \<le> 4000000" and "rq_host rq = kHost"
    and "c = fresh_conn () \<or> c = \<lparr>hc_conn = Some kHost, hc_world = ()\<rparr>"
  shows "httpsRequest (fixed_net answer) rq i default_max_body c =
    (Some \<lparr>hr_status = st, hr_body = body\<rparr>, \<lparr>hc_conn = Some kHost, hc_world = ()\<rparr>)"
proof -
  let ?c = "\<lparr>hc_conn = Some kHost, hc_world = ()\<rparr>"
  have "conn_ensure (fixed_net answer) (rq_host rq) c = (True, ?c)"
    using assms(4,5) by (auto simp: conn_ensure_def conn_reset_def fixed_net_def fresh_conn_def Let_def)
  then have "requestOnce (fixed_net answer) rq default_max_body c = (Some \<lparr>hr_status = st, hr_body = body\<rparr>, ?c)"
    using assms(1-3) by (simp add: requestOnce_def fixed_net_def Let_def default_max_body_def)
  then show ?thesis by (simp add: httpsRequest_def)
qed

lemma demo_request:
  assumes "answer (client_request token meth path extra ''B'') = Some (st, body)" and "st \<noteq> 0" and "length body \<le> 4000000"
    and "c = fresh_conn () \<or> c = \<lparr>hc_conn = Some kHost, hc_world = ()\<rparr>" and "c' = \<lparr>hc_conn = Some kHost, hc_world = ()\<rparr>"
    and "res = reply_json (ce_lib (demo_cloud answer j)) ea \<lparr>hr_status = st, hr_body = body\<rparr>"
  shows "request (demo_cloud answer j) token meth path (Some v) extra ea c = (res, c')"
  using demo_sends [of answer "client_request token meth path extra ''B''" st body c "meth = ''GET''"] assms
  by (simp add: request_def cbind_def pure_def demo_cloud_def dump_json_def)

lemma demo_get:
  assumes "answer (client_request token ''GET'' path extra []) = Some (st, body)" and "st \<noteq> 0" and "length body \<le> 4000000"
    and "c = fresh_conn ()" and "c' = \<lparr>hc_conn = Some kHost, hc_world = ()\<rparr>"
    and "res = reply_json (ce_lib (demo_cloud answer j)) ea \<lparr>hr_status = st, hr_body = body\<rparr>"
  shows "request (demo_cloud answer j) token ''GET'' path None extra ea c = (res, c')"
  using demo_sends [of answer "client_request token ''GET'' path extra []" st body c True] assms
  by (simp add: request_def cbind_def pure_def demo_cloud_def)

lemma client_writes_once_witness:
  "length (sent (snd (run_write (logging (demo_cloud (\<lambda>_. None) JsNull)) ''tok'' (DeleteLimit 7) (fresh_conn ((), []))))) \<le> 1"
  using client_writes_once [of "demo_cloud (\<lambda>_. None) JsNull" "''tok''" "DeleteLimit 7" "fresh_conn ((), [])"]
  by (metis (no_types, lifting) append_Nil fresh_conn_def http_state.select_convs(2) prod.collapse sent_def snd_conv)

section \<open>Invitations\<close>

definition lookup_request_path :: string where
  "lookup_request_path = ''/rest/v1/rpc/find_user_id_by_email''"

definition insert_path :: string where
  "insert_path = ''/rest/v1/parent_links''"

lemma inviteChild_cases:
  assumes "inviteChild env token email st = (res, st')"
  obtains e where "request env token ''POST'' lookup_request_path (Some (JsObj [(''target_email'', JsStr email)])) [] False st = (Inl e, st')"
      "res = Inl e"
    | j where "request env token ''POST'' lookup_request_path (Some (JsObj [(''target_email'', JsStr email)])) [] False st = (Inr j, st')"
      "j = JsStr [] \<or> \<not> is_string j" "\<exists>m. res = Inl (ApiError m)"
    | cid r st1 where "request env token ''POST'' lookup_request_path (Some (JsObj [(''target_email'', JsStr email)])) [] False st = (Inr (JsStr cid), st1)"
      "cid \<noteq> []" "request env token ''POST'' insert_path (Some (JsObj [(''child_user_id'', JsStr cid)])) minimal False st1 = (r, st')"
      "res = (case r of Inl e \<Rightarrow> Inl (invite_error e) | Inr _ \<Rightarrow> Inr ())"
proof -
  let ?lk = "request env token ''POST'' lookup_request_path (Some (JsObj [(''target_email'', JsStr email)])) [] False st"
  obtain x st1 where lk: "?lk = (x, st1)" by (metis prod.collapse)
  note run = assms [unfolded inviteChild_def cbind_def, folded lookup_request_path_def insert_path_def, unfolded lk]
  show thesis
  proof (cases x)
    case (Inl e)
    then show thesis using run lk that(1) by simp
  next
    case (Inr j)
    show thesis
    proof (cases "j = JsStr [] \<or> \<not> is_string j")
      case True
      then show thesis using run lk Inr that(2) by (cases j) (auto simp: pure_def Let_def)
    next
      case False
      then obtain cid where c: "j = JsStr cid" "cid \<noteq> []" by (cases j) auto
      obtain y st2 where so: "send_only env token ''POST'' insert_path (Some (JsObj [(''child_user_id'', JsStr cid)])) minimal st1 = (y, st2)"
        by (metis prod.collapse)
      from send_only_request [OF so] obtain r where r:
        "request env token ''POST'' insert_path (Some (JsObj [(''child_user_id'', JsStr cid)])) minimal False st1 = (r, st2)"
        "y = (case r of Inl e \<Rightarrow> Inl e | Inr _ \<Rightarrow> Inr ())" .
      have "(res, st') = (case y of Inl e \<Rightarrow> Inl (invite_error e) | Inr u \<Rightarrow> Inr u, st2)"
        using run Inr c so by (cases y) (auto simp: Let_def)
      then show thesis using that(3) [OF _ c(2)] lk Inr c(1) r by (cases r) auto
    qed
  qed
qed

lemma paths_differ [simp]: "lookup_request_path \<noteq> insert_path" "insert_path \<noteq> lookup_request_path"
  by (simp_all add: lookup_request_path_def insert_path_def)

lemma lookup_sent:
  assumes "request (logging env) token ''POST'' lookup_request_path body extra False st = (x, st1)"
  shows "\<exists>rqs. sent st1 = sent st @ rqs \<and> length rqs \<le> 1 \<and> (rqs = [] \<longrightarrow> (\<exists>e. x = Inl e)) \<and>
    (\<forall>rq \<in> set rqs. rq_path rq = lookup_request_path)"
  using request_once [OF assms] by fastforce

text \<open>An invitation from the dashboard makes at most two requests, in this order: the lookup of the
  e-mail address, then the insertion of the link, which is sent only with a non-empty user id that
  the lookup returned. It is reported as done exactly when both were sent and answered with success, and no
  request is ever repeated.\<close>

theorem invite_child_requests:
  assumes "inviteChild (logging env) token email st = (res, st')"
  shows "\<exists>rqs. sent st' = sent st @ rqs \<and> prefix (map rq_path rqs) [lookup_request_path, insert_path] \<and>
    (res = Inr () \<longrightarrow> map rq_path rqs = [lookup_request_path, insert_path]) \<and>
    (\<forall>rq \<in> set rqs. rq_path rq = insert_path \<longrightarrow>
       (\<exists>cid. cid \<noteq> [] \<and> jl_dump (ce_lib env) (JsObj [(''child_user_id'', JsStr cid)]) = Some (rq_body rq)))"
  using assms
proof (cases rule: inviteChild_cases)
  case (1 e)
  from lookup_sent [OF 1(1)] obtain rqs where "sent st' = sent st @ rqs" "length rqs \<le> 1"
    "\<forall>rq \<in> set rqs. rq_path rq = lookup_request_path" by blast
  then show ?thesis using 1(2) by (intro exI [of _ rqs]) (cases rqs; auto simp: paths_differ)
next
  case (2 j)
  from lookup_sent [OF 2(1)] obtain rqs where "sent st' = sent st @ rqs" "length rqs \<le> 1"
    "\<forall>rq \<in> set rqs. rq_path rq = lookup_request_path" by blast
  then show ?thesis using 2(3) by (intro exI [of _ rqs]) (cases rqs; auto simp: paths_differ)
next
  case (3 cid r st1)
  from lookup_sent [OF 3(1)] obtain rqs where l: "sent st1 = sent st @ rqs" "length rqs = 1"
    "\<forall>rq \<in> set rqs. rq_path rq = lookup_request_path" by (auto simp: le_Suc_eq)
  obtain rqs' where i: "sent st' = sent st1 @ rqs'" "length rqs' \<le> 1"
    "rqs' = [] \<longrightarrow> r = Inl JsonError \<or> r = Inl network_error"
    "\<forall>rq \<in> set rqs'. rq_path rq = insert_path \<and>
       jl_dump (ce_lib env) (JsObj [(''child_user_id'', JsStr cid)]) = Some (rq_body rq)"
    using request_once [OF 3(3)] by fastforce
  have lp: "map rq_path rqs = [lookup_request_path]" using l(2,3) by (cases rqs) auto
  have ip: "map rq_path rqs' = (if rqs' = [] then [] else [insert_path])"
    using i(2,4) by (cases rqs') auto
  have done': "res = Inr () \<longrightarrow> rqs' \<noteq> []" using i(3) 3(4) by auto
  show ?thesis using l(1,3) i(1,4) 3(2) lp ip done'
    by (intro exI [of _ "rqs @ rqs'"]) auto
qed

lemma invite_child_requests_witness:
  "prefix (map rq_path (sent (snd (inviteChild (logging (demo_cloud (\<lambda>_. Some (200, ''X'')) (JsStr ''u7''))) ''tok'' ''a@b''
     (fresh_conn ((), [])))))) [lookup_request_path, insert_path]"
proof -
  let ?run = "inviteChild (logging (demo_cloud (\<lambda>_. Some (200, ''X'')) (JsStr ''u7''))) ''tok'' ''a@b''
     (fresh_conn ((), []))"
  have "sent (fresh_conn ((), [])) = []" by (simp add: sent_def fresh_conn_def)
  moreover have "?run = (fst ?run, snd ?run)" by simp
  ultimately show ?thesis using invite_child_requests [of "demo_cloud (\<lambda>_. Some (200, ''X'')) (JsStr ''u7'')"
      "''tok''" "''a@b''" "fresh_conn ((), [])" "fst ?run" "snd ?run"] by force
qed

text \<open>Any failure of the insertion whose reply mentions \<open>409\<close> anywhere (an identifier, a timestamp, a
  request number) is reported as an existing invitation, whatever its status is; the real error is lost.\<close>

theorem other_errors_read_as_invited:
  assumes "request env token ''POST'' lookup_request_path (Some (JsObj [(''target_email'', JsStr email)])) [] False st =
      (Inr (JsStr cid), st1)" and "cid \<noteq> []"
    and "request env token ''POST'' insert_path (Some (JsObj [(''child_user_id'', JsStr cid)])) minimal False st1 =
      (reply_json lib False r, st')"
    and "hr_status r \<noteq> 401" and "\<not> (200 \<le> hr_status r \<and> hr_status r < 300)"
    and "hr_body r = pre @ ''409'' @ post"
  shows "inviteChild env token email st = (Inl (ApiError ''already invited or linked with this account''), st')"
proof -
  let ?msg = "''supabase returned '' @ show_int (int (hr_status r)) @ '': '' @ hr_body r"
  have "reply_json lib False r = Inl (ApiError ?msg)" using assms(4,5) by (auto simp: reply_json_def)
  moreover have "?msg = (''supabase returned '' @ show_int (int (hr_status r)) @ '': '' @ pre) @ ''409'' @ post"
    by (simp add: assms(6))
  then have "str_find ''409'' ?msg \<noteq> None" by (metis str_find_None_iff sublist_appendI)
  ultimately show ?thesis using assms(1-3)
    by (simp add: inviteChild_def send_only_def cbind_def pure_def lookup_request_path_def [symmetric]
        insert_path_def [symmetric] invite_error_def Let_def)
qed

lemma other_errors_read_as_invited_witness:
  "fst (inviteChild (demo_cloud (\<lambda>rq. if rq_path rq = insert_path then Some (500, ''request 1409 failed'') else Some (200, ''X''))
     (JsStr ''u7'')) ''tok'' ''a@b'' (fresh_conn ())) = Inl (ApiError ''already invited or linked with this account'')"
proof -
  let ?env = "demo_cloud (\<lambda>rq. if rq_path rq = insert_path then Some (500, ''request 1409 failed'') else Some (200, ''X''))
     (JsStr ''u7'')"
  let ?conn = "\<lparr>hc_conn = Some kHost, hc_world = ()\<rparr>"
  have lookup: "request ?env ''tok'' ''POST'' lookup_request_path (Some (JsObj [(''target_email'', JsStr ''a@b'')])) [] False
      (fresh_conn ()) = (Inr (JsStr ''u7''), ?conn)"
    by (rule demo_request [where st = 200 and body = "''X''"]) (simp_all add: reply_json_def demo_cloud_def)
  have insert: "request ?env ''tok'' ''POST'' insert_path (Some (JsObj [(''child_user_id'', JsStr ''u7'')])) minimal False
      ?conn = (reply_json (ce_lib ?env) False \<lparr>hr_status = 500, hr_body = ''request 1409 failed''\<rparr>, ?conn)"
    by (rule demo_request [where st = 500 and body = "''request 1409 failed''"]) simp_all
  show ?thesis
    using other_errors_read_as_invited [OF lookup _ insert, of "''request 1''" "'' failed''"] by simp
qed

end
