(* ===== verification/Cloud_Rows.thy ===== *)
theory Cloud_Rows
  imports Cloud_Client
begin

text \<open>
  What the dashboard reads: identifiers in a URL, rows in a reply, the devices in a list of totals, and
  the limits, which the agent reads from the same replies with a scanner of its own.
\<close>

section \<open>Identifiers in URLs\<close>

text \<open>Percent-decoding as a server does it.\<close>

definition hex_val :: "char \<Rightarrow> nat option" where
  "hex_val c =
     (if 48 \<le> code c \<and> code c \<le> 57 then Some (code c - 48)
      else if 65 \<le> code c \<and> code c \<le> 70 then Some (code c - 55)
      else None)"

fun pct_decode :: "string \<Rightarrow> string" where
  "pct_decode [] = []"
| "pct_decode (c # cs) =
     (if c = CHR ''%''
      then (case cs of
              a # b # ds \<Rightarrow>
                (case (hex_val a, hex_val b) of
                   (Some x, Some y) \<Rightarrow> char_of (16 * x + y) # pct_decode ds
                 | _ \<Rightarrow> c # pct_decode cs)
            | _ \<Rightarrow> c # pct_decode cs)
      else c # pct_decode cs)"

lemma hex_val_hexU: "n < 16 \<Longrightarrow> hex_val (hexU n) = Some n"
  by (auto simp: hex_val_def hexU_def code_def)

lemma url_plain_not_pct: "url_plain c \<Longrightarrow> c \<noteq> CHR ''%''"
  by (auto simp: url_plain_def is_digit_def code_def)

lemma urlEncode_simps [simp]:
  "urlEncode [] = []"
  "urlEncode (c # s) = (if url_plain c then [c] else CHR ''%'' # hex_upper (code c)) @ urlEncode s"
  by (simp_all add: urlEncode_def)

lemma pct_decode_byte:
  assumes "16 \<le> code c"
  shows "pct_decode ((CHR ''%'' # hex_upper (code c)) @ s) = c # pct_decode s"
proof -
  have "code c div 16 < 16" "code c mod 16 < 16" by (rule less_mult_imp_div_less) simp_all
  moreover have "char_of (16 * (code c div 16) + code c mod 16) = c" by (simp add: code_def)
  ultimately show ?thesis using assms by (simp add: hex_upper_def hex_val_hexU)
qed

lemma hexU_plain: "n < 16 \<Longrightarrow> url_plain (hexU n)"
  by (auto simp: hexU_def url_plain_def is_digit_def code_def)

lemma urlEncode_chars: "c \<in> set (urlEncode s) \<Longrightarrow> url_plain c \<or> c = CHR ''%''"
proof (induction s)
  case (Cons a s)
  have "code a div 16 < 16" by (rule less_mult_imp_div_less) simp
  then have "\<forall>c \<in> set (hex_upper (code a)). url_plain c"
    by (auto simp: hex_upper_def intro: hexU_plain)
  then show ?case using Cons by (auto split: if_splits)
qed simp

lemma pct_decode_urlEncode: "\<forall>c \<in> set s. 16 \<le> code c \<Longrightarrow> pct_decode (urlEncode s) = s"
proof (induction s)
  case (Cons a s)
  then show ?case using pct_decode_byte [of a "urlEncode s"] url_plain_not_pct [of a] by simp
qed simp

definition url_delimiters :: string where
  "url_delimiters = ''&=,()?#/+ '' @ [cr, nl]"

lemma delimiter_not_encoded: "c \<in> set url_delimiters \<Longrightarrow> \<not> url_plain c \<and> c \<noteq> CHR ''%''"
proof -
  have "list_all (\<lambda>c. \<not> url_plain c \<and> c \<noteq> CHR ''%'') url_delimiters"
    by (simp add: url_delimiters_def url_plain_def is_digit_def code_def)
  then show "c \<in> set url_delimiters \<Longrightarrow> \<not> url_plain c \<and> c \<noteq> CHR ''%''" unfolding list_all_iff by blast
qed

text \<open>An identifier put into a URL cannot change the query: no byte of its encoding is a separator such as
  an ampersand, a comma, a parenthesis or a line end; and the server decodes it to the identifier again,
  if it has no byte below 16.\<close>

theorem url_encode_safe:
  "set (urlEncode s) \<inter> set url_delimiters = {} \<and>
   ((\<forall>c \<in> set s. 16 \<le> code c) \<longrightarrow> pct_decode (urlEncode s) = s)"
  using urlEncode_chars [of _ s] delimiter_not_encoded pct_decode_urlEncode [of s] by blast

lemma url_encode_safe_witness: "pct_decode (urlEncode ''a b&c=1'') = ''a b&c=1''"
  using url_encode_safe [of "''a b&c=1''"] by (simp add: code_def)

text \<open>Below 16 the missing padding makes two identifiers look alike.\<close>

lemma url_encode_collision: "urlEncode [CHR 0x01, CHR ''2''] = urlEncode [CHR 0x12]"
  by code_simp

section \<open>Rows\<close>

definition daily_fits :: "DailyTotal \<Rightarrow> bool" where
  "daily_fits t \<longleftrightarrow> in_i64 (dt_totalSeconds t)"

definition log_fits :: "RecentLog \<Rightarrow> bool" where
  "log_fits l \<longleftrightarrow> in_i64 (rl_duration l) \<and> in_i64 (rl_startTime l) \<and> in_i64 (rl_endTime l)"

definition message_fits :: "Message \<Rightarrow> bool" where
  "message_fits m \<longleftrightarrow> in_i64 (ms_id m)"

definition client_limit_fits :: "ClientAppLimit \<Rightarrow> bool" where
  "client_limit_fits l \<longleftrightarrow> in_i64 (ca_id l) \<and> (case ca_dailyLimitSec l of None \<Rightarrow> True | Some n \<Rightarrow> in_i32 n)"

lemma daily_reads: "daily_fits t \<Longrightarrow> daily_of_json (json_of_daily t) = Inr t"
  by (simp add: daily_of_json_def json_of_daily_def daily_fits_def)

lemma log_reads: "log_fits l \<Longrightarrow> log_of_json (json_of_log l) = Inr l"
  by (simp add: log_of_json_def json_of_log_def log_fits_def)

lemma message_reads: "message_fits m \<Longrightarrow> message_of_json (json_of_message m) = Inr m"
  by (cases "ms_readAt m")
     (simp_all add: message_of_json_def json_of_message_def message_fits_def str_member_def json_of_option_def)

lemma client_limit_reads: "client_limit_fits l \<Longrightarrow> limit_of_json (json_of_limit l) = Inr l"
  by (cases "ca_dailyLimitSec l")
     (simp_all add: limit_of_json_def json_of_limit_def client_limit_fits_def limit_seconds_def json_of_option_def)

lemma heartbeat_reads: "heartbeat_of_json (json_of_heartbeat h) = Inr h"
  by (simp add: heartbeat_of_json_def json_of_heartbeat_def)

text \<open>The rows of the five tables are read back exactly, in order, field by field: what \<open>to_json\<close> writes
  for a total, a log entry, a message, a limit or a heartbeat, the client reads as the same value.\<close>

theorem cloud_rows_read_back:
  assumes "list_all daily_fits ts" and "list_all log_fits ls" and "list_all message_fits ms"
    and "list_all client_limit_fits as"
  shows "traverse daily_of_json (elements (JsArr (map json_of_daily ts))) = Inr ts
    \<and> traverse log_of_json (elements (JsArr (map json_of_log ls))) = Inr ls
    \<and> parseMessages (JsArr (map json_of_message ms)) = Inr ms
    \<and> traverse limit_of_json (elements (JsArr (map json_of_limit as))) = Inr as
    \<and> parseHeartbeats (JsArr (map json_of_heartbeat hs)) = Inr hs"
  using assms
  by (simp add: parseMessages_def parseHeartbeats_def traverse_map list_all_iff daily_reads log_reads message_reads
      client_limit_reads heartbeat_reads)

lemma cloud_rows_read_back_witness:
  "traverse limit_of_json (elements (JsArr (map json_of_limit
      [\<lparr>ca_id = 4, ca_processName = ''game.exe'', ca_dailyLimitSec = Some 3600, ca_blocked = False\<rparr>,
       \<lparr>ca_id = 5, ca_processName = ''chat.exe'', ca_dailyLimitSec = None, ca_blocked = True\<rparr>]))) =
   Inr [\<lparr>ca_id = 4, ca_processName = ''game.exe'', ca_dailyLimitSec = Some 3600, ca_blocked = False\<rparr>,
        \<lparr>ca_id = 5, ca_processName = ''chat.exe'', ca_dailyLimitSec = None, ca_blocked = True\<rparr>]"
proof -
  have fits: "list_all client_limit_fits
      [\<lparr>ca_id = 4, ca_processName = ''game.exe'', ca_dailyLimitSec = Some 3600, ca_blocked = False\<rparr>,
       \<lparr>ca_id = 5, ca_processName = ''chat.exe'', ca_dailyLimitSec = None, ca_blocked = True\<rparr>]"
    by (simp add: client_limit_fits_def in_i64_def in_i32_def)
  from cloud_rows_read_back [OF _ _ _ fits, of "[]" "[]" "[]" "[]"] show ?thesis by simp
qed

text \<open>One row whose host name is NULL, which the table allows, hides every machine: the whole list fails
  with an exception of the JSON library, which is none of the three that the header announces.\<close>

theorem null_row_hides_machines:
  assumes "get_rows env token ''/rest/v1/device_heartbeats?select=*&order=last_seen.desc'' st = (Inr (JsArr rows), st')"
    and "JsObj fs \<in> set rows" and "map_of fs ''hostname'' = Some JsNull"
  shows "listHeartbeats env token st = (Inl JsonError, st')"
proof -
  have err: "e = JsonError" if "heartbeat_of_json r = Inl e" for r e
    using that by (auto simp: heartbeat_of_json_def bind_res_eq_Inl dest: value_or_errors)
  have "\<nexists>h. heartbeat_of_json (JsObj fs) = Inr h"
    using assms(3) by (simp add: heartbeat_of_json_def bind_res_eq_Inr)
  then obtain e where e: "traverse heartbeat_of_json rows = Inl e"
    using assms(2) traverse_total [of rows heartbeat_of_json] by (cases "traverse heartbeat_of_json rows") blast+
  then have "e = JsonError" using traverse_error [OF e] err by blast
  with e have "parseHeartbeats (JsArr rows) = Inl JsonError" by (simp add: parseHeartbeats_def)
  then show ?thesis unfolding listHeartbeats_def cbind_def assms(1) by (simp add: pure_def)
qed

definition null_host :: json where
  "null_host = JsArr
     [JsObj [(''device_id'', JsStr ''PC-00000001''), (''hostname'', JsStr ''desk'')],
      JsObj [(''device_id'', JsStr ''PC-00000002''), (''hostname'', JsNull)]]"

lemma null_row_hides_machines_witness:
  "listHeartbeats (demo_cloud (\<lambda>_. Some (200, ''X'')) null_host) ''tok'' (fresh_conn ()) =
     (Inl JsonError, \<lparr>hc_conn = Some kHost, hc_world = ()\<rparr>)"
proof (rule null_row_hides_machines [where fs = "[(''device_id'', JsStr ''PC-00000002''), (''hostname'', JsNull)]"])
  show "get_rows (demo_cloud (\<lambda>_. Some (200, ''X'')) null_host) ''tok''
      ''/rest/v1/device_heartbeats?select=*&order=last_seen.desc'' (fresh_conn ()) =
    (Inr (JsArr [JsObj [(''device_id'', JsStr ''PC-00000001''), (''hostname'', JsStr ''desk'')],
                 JsObj [(''device_id'', JsStr ''PC-00000002''), (''hostname'', JsNull)]]),
     \<lparr>hc_conn = Some kHost, hc_world = ()\<rparr>)"
    unfolding get_rows_def
    by (rule demo_get [where st = 200 and body = "''X''"]) (simp_all add: reply_json_def demo_cloud_def null_host_def)
qed simp_all

section \<open>Devices\<close>

lemma distinct_fold:
  "set (foldl (\<lambda>out t. if f t \<in> set out then out else out @ [f t]) out ts) = set out \<union> f ` set ts \<and>
   (distinct out \<longrightarrow> distinct (foldl (\<lambda>out t. if f t \<in> set out then out else out @ [f t]) out ts))"
  by (induction ts arbitrary: out) auto

text \<open>The devices of a list of totals: sorted, each once.\<close>

lemma distinctDevices_set: "distinctDevices totals = sorted_list_of_set (dt_deviceId ` set totals)"
proof -
  define L where "L = foldl (\<lambda>out t. if dt_deviceId t \<in> set out then out else out @ [dt_deviceId t]) [] totals"
  have "set L = dt_deviceId ` set totals" "distinct L"
    using distinct_fold [of dt_deviceId "[]" totals] by (simp_all add: L_def)
  then have "sorted_list_of_set (dt_deviceId ` set totals) = sort L"
    using sorted_list_of_set_sort_remdups [of L] by (simp add: distinct_remdups_id)
  then show ?thesis by (simp add: distinctDevices_def L_def)
qed

section \<open>Limits\<close>

fun json_of_jval :: "jval \<Rightarrow> json" where
  "json_of_jval (JStr s) = JsStr s"
| "json_of_jval (JInt i) = JsInt i"
| "json_of_jval (JBool b) = JsBool b"
| "json_of_jval JNull = JsNull"

text \<open>What the JSON library promises for a reply of the server: an array of objects with these members.\<close>

definition parses_rows :: "json_lib \<Rightarrow> (string \<times> jval) list list \<Rightarrow> bool" where
  "parses_rows lib rows \<longleftrightarrow>
     jl_parse lib (render_array rows) = Some (JsArr (map (\<lambda>fs. JsObj (map (\<lambda>(k, v). (k, json_of_jval v)) fs)) rows))"

definition client_limit :: "AppLimit \<Rightarrow> ClientAppLimit" where
  "client_limit l =
     \<lparr>ca_id = al_id l, ca_processName = al_process_name l,
      ca_dailyLimitSec = (if al_daily_limit_sec l < 0 then None else Some (al_daily_limit_sec l)),
      ca_blocked = (al_blocked l \<noteq> 0)\<rparr>"

lemma limit_row_reads:
  assumes "limit_row_ok child l"
  shows "limit_of_json (JsObj (map (\<lambda>(k, v). (k, json_of_jval v)) (limit_row child l))) = Inr (client_limit l)"
proof -
  have "in_i64 (al_id l)" using assms by (simp add: limit_row_ok_def in_i32_def in_i64_def)
  then show ?thesis using assms
    by (simp add: limit_of_json_def limit_row_def limit_seconds_def client_limit_def limit_row_ok_def)
qed


lemma demo_limits_ok: "\<forall>l \<in> set (lm_cache limits_lm). limit_row_ok ''u'' l"
  by (simp add: limits_lm_def limit_row_ok_def row_text_def limit_keys_def MAX_LIMIT_PROCESS_def in_i32_def
      limit_row_def render_obj_def obj_text_def render_field_def esc_char_def show_int_def show_nat.simps
      plain_char_def code_def)

definition demo_limits_env :: "unit cloud_env" where
  "demo_limits_env =
     (let rows = map (limit_row ''u'') (lm_cache limits_lm)
      in \<lparr>ce_net = fixed_net (\<lambda>_. Some (200, render_array rows)),
          ce_lib = \<lparr>jl_parse = (\<lambda>t. if t = render_array rows
                       then Some (JsArr (map (\<lambda>fs. JsObj (map (\<lambda>(k, v). (k, json_of_jval v)) fs)) rows)) else None),
                    jl_what = (\<lambda>t. []), jl_dump = (\<lambda>j. None), jl_dump2 = (\<lambda>j. None)\<rparr>\<rparr>)"

lemma demo_limits_length: "length (render_array (map (limit_row ''u'') (lm_cache limits_lm))) \<le> 4000000"
  by (simp add: limits_lm_def limit_row_def render_array_def render_obj_def obj_text_def render_field_def esc_char_def
      show_int_def show_nat.simps code_def)


end
