(* ===== verification/Activity_Race.thy ===== *)
theory Activity_Race
  imports Activity_Track
begin

text \<open>
  \<open>src/agent/core/activity.cpp\<close> run by its two threads: the watch thread (\<open>monitor_activity\<close> and
  \<open>activity_check_limits\<close>) and the window thread (\<open>activity_suspend\<close>, \<open>activity_resume\<close>). Each step is
  one section between a lock and its release, or the unlocked save of \<open>finishCurrentRecord\<close>; between
  two steps the other thread may run. A program counter says where a thread stands.
\<close>

section \<open>Program counters\<close>

text \<open>What follows \<open>finishCurrentRecord\<close> in the caller: the new record of \<open>monitor_activity\<close>, or the
  reset of \<open>closeCurrentSession\<close>.\<close>

datatype cont = KRestart ActiveWindow | KClose

datatype pc = Idle | CheckOpen | FBegin cont | FSave ActivityRecord cont | FEnd cont | After cont

record race =
  rc_now :: int
  rc_watch :: pc
  rc_gui :: pc
  rc_track :: track_state
  rc_db :: adb

section \<open>Steps\<close>

text \<open>The steps the two threads share: the body of \<open>closeCurrentSession\<close> and \<open>finishCurrentRecord\<close>.\<close>

inductive thread_step :: "int \<Rightarrow> pc \<times> track_state \<times> adb \<Rightarrow> pc \<times> track_state \<times> adb \<Rightarrow> bool" for now where
  check_open: "has_open_record tr \<Longrightarrow> thread_step now (CheckOpen, tr, db) (FBegin KClose, tr, db)"
| check_none: "\<not> has_open_record tr \<Longrightarrow> thread_step now (CheckOpen, tr, db) (Idle, tr, db)"
| begin_skip: "finish_begin now tr = (None, tr') \<Longrightarrow> thread_step now (FBegin k, tr, db) (After k, tr', db)"
| begin_take: "finish_begin now tr = (Some r, tr') \<Longrightarrow> thread_step now (FBegin k, tr, db) (FSave r k, tr', db)"
| save: "thread_step now (FSave r k, tr, db) (FEnd k, tr, finish_save denv st r db)"
| release: "thread_step now (FEnd k, tr, db) (After k, finish_end tr, db)"
| restart: "thread_step now (After (KRestart cur), tr, db) (Idle, monitor_restart now cur tr, db)"
| reset: "thread_step now (After KClose, tr, db) (Idle, close_end tr, db)"

inductive_cases thread_stepE [elim!]: "thread_step now (pc, tr, db) (pc', tr', db')"

inductive race_step :: "race \<Rightarrow> race \<Rightarrow> bool" where
  tick: "rc_now s \<le> t \<Longrightarrow> race_step s (s\<lparr>rc_now := t\<rparr>)"
| watch: "thread_step (rc_now s) (rc_watch s, rc_track s, rc_db s) (pc', tr', db') \<Longrightarrow>
    race_step s (s\<lparr>rc_watch := pc', rc_track := tr', rc_db := db'\<rparr>)"
| gui: "thread_step (rc_now s) (rc_gui s, rc_track s, rc_db s) (pc', tr', db') \<Longrightarrow>
    race_step s (s\<lparr>rc_gui := pc', rc_track := tr', rc_db := db'\<rparr>)"
| decide: "rc_watch s = Idle \<Longrightarrow> getActiveWindowInfo fg = Some cur \<Longrightarrow>
    monitor_decide (rc_now s) cur (rc_track s) = (d, tr') \<Longrightarrow>
    race_step s (s\<lparr>rc_watch := (if d = Changed then FBegin (KRestart cur) else Idle), rc_track := tr'\<rparr>)"
| limit: "rc_watch s = Idle \<Longrightarrow> race_step s (s\<lparr>rc_watch := CheckOpen\<rparr>)"
| suspend: "rc_gui s = Idle \<Longrightarrow>
    race_step s (s\<lparr>rc_gui := CheckOpen, rc_track := (rc_track s)\<lparr>g_suspended := True\<rparr>\<rparr>)"
| resume: "rc_gui s = Idle \<Longrightarrow> race_step s (s\<lparr>rc_track := (rc_track s)\<lparr>g_suspended := False\<rparr>\<rparr>)"

abbreviation race_run :: "race \<Rightarrow> race \<Rightarrow> bool" where
  "race_run \<equiv> race_step\<^sup>*\<^sup>*"

definition race_init :: "int \<Rightarrow> adb \<Rightarrow> race" where
  "race_init t0 db = \<lparr>rc_now = t0, rc_watch = Idle, rc_gui = Idle, rc_track = track_init, rc_db = db\<rparr>"

section \<open>The invariant\<close>

definition finishing :: "pc \<Rightarrow> bool" where
  "finishing p \<longleftrightarrow> (case p of FSave _ _ \<Rightarrow> True | FEnd _ \<Rightarrow> True | _ \<Rightarrow> False)"

fun pc_ok :: "pc \<Rightarrow> bool" where
  "pc_ok (FBegin (KRestart cur)) = (aw_process_name cur \<noteq> [])"
| "pc_ok (FSave r (KRestart cur)) = (aw_process_name cur \<noteq> [])"
| "pc_ok (FEnd (KRestart cur)) = (aw_process_name cur \<noteq> [])"
| "pc_ok (After (KRestart cur)) = (aw_process_name cur \<noteq> [])"
| "pc_ok _ = True"

fun gui_pc :: "pc \<Rightarrow> bool" where
  "gui_pc (FBegin k) = (k = KClose)"
| "gui_pc (FSave r k) = (k = KClose)"
| "gui_pc (FEnd k) = (k = KClose)"
| "gui_pc (After k) = (k = KClose)"
| "gui_pc _ = True"

definition race_inv :: "race \<Rightarrow> bool" where
  "race_inv s \<longleftrightarrow>
     0 < rc_now s \<and> pc_ok (rc_watch s) \<and> gui_pc (rc_gui s) \<and>
     (has_open_record (rc_track s) \<longleftrightarrow> open_since (rc_track s) \<noteq> 0) \<and>
     \<not> (finishing (rc_watch s) \<and> finishing (rc_gui s)) \<and>
     (g_finish_in_progress (rc_track s) \<longleftrightarrow> finishing (rc_watch s) \<or> finishing (rc_gui s)) \<and>
     (g_suspended (rc_track s) \<and> rc_gui s = Idle \<longrightarrow> \<not> has_open_record (rc_track s)) \<and>
     (rc_gui s \<noteq> Idle \<longrightarrow> g_suspended (rc_track s))"

lemma finishing_simps [simp]:
  "\<not> finishing Idle" "\<not> finishing CheckOpen" "\<not> finishing (FBegin k)" "finishing (FSave r k)"
  "finishing (FEnd k)" "\<not> finishing (After k)"
  by (simp_all add: finishing_def)

lemma finish_begin_cases:
  "finish_begin now tr = (x, tr') \<Longrightarrow>
   (x = None \<and> tr' = tr \<and> (g_finish_in_progress tr \<or> open_since tr = 0)) \<or>
   (x \<noteq> None \<and> \<not> g_finish_in_progress tr \<and> open_since tr \<noteq> 0 \<and> g_finish_in_progress tr' \<and>
    g_last_window tr' = g_last_window tr \<and> open_since tr' = open_since tr \<and> g_suspended tr' = g_suspended tr)"
  by (auto simp: finish_begin_def open_since_def Let_def split: if_splits)

lemmas track_sections = has_open_record_def open_since_def finish_end_def close_end_def monitor_restart_def
  startNewRecordLocked_def no_window_def no_record_def

lemma race_inv_step: "race_step s s' \<Longrightarrow> race_inv s \<Longrightarrow> race_inv s'"
proof (induction rule: race_step.induct)
  case (watch s pc' tr' db')
  from watch(1) show ?case
  proof cases
    case (begin_skip k)
    then show ?thesis using watch(2) finish_begin_cases [OF begin_skip(4)]
      by (cases k) (auto simp: race_inv_def)
  next
    case (begin_take r k)
    then show ?thesis using watch(2) finish_begin_cases [OF begin_take(4)]
      by (cases k) (auto simp: race_inv_def has_open_record_def)
  next
    case (save r k)
    then show ?thesis using watch(2) by (cases k) (auto simp: race_inv_def)
  next
    case (release k)
    then show ?thesis using watch(2) by (cases k) (auto simp: race_inv_def track_sections)
  qed (use watch(2) in \<open>auto simp: race_inv_def track_sections\<close>)
next
  case (gui s pc' tr' db')
  from gui(1) show ?case
  proof cases
    case (begin_skip k)
    then show ?thesis using gui(2) finish_begin_cases [OF begin_skip(4)]
      by (cases k) (auto simp: race_inv_def)
  next
    case (begin_take r k)
    then show ?thesis using gui(2) finish_begin_cases [OF begin_take(4)]
      by (cases k) (auto simp: race_inv_def has_open_record_def)
  next
    case (release k)
    then show ?thesis using gui(2) by (cases k) (auto simp: race_inv_def track_sections)
  qed (use gui(2) in \<open>auto simp: race_inv_def track_sections\<close>)
next
  case (decide s fg cur d tr')
  then show ?case using base_name_nonempty [of fg cur]
    by (auto simp: race_inv_def monitor_decide_def track_sections split: if_splits)
qed (auto simp: race_inv_def has_open_record_def open_since_def)

lemma race_inv_init: "0 < t0 \<Longrightarrow> race_inv (race_init t0 db)"
  by (simp add: race_inv_def race_init_def track_init_def track_sections)

lemma race_inv_run: "race_run s s' \<Longrightarrow> race_inv s \<Longrightarrow> race_inv s'"
  by (induction rule: rtranclp_induct) (auto dest: race_inv_step)

section \<open>Properties\<close>

text \<open>C13: However the two threads interleave, at most one of them is between taking a record and
  releasing the latch, the latch is set exactly then, and once \<open>activity_suspend\<close> has returned no record
  is open, or gets opened, until \<open>activity_resume\<close>.\<close>

theorem race_latch_and_lock:
  assumes "race_run (race_init t0 db) s" and "0 < t0"
  shows "\<not> (finishing (rc_watch s) \<and> finishing (rc_gui s)) \<and>
         (g_finish_in_progress (rc_track s) \<longleftrightarrow> finishing (rc_watch s) \<or> finishing (rc_gui s)) \<and>
         (g_suspended (rc_track s) \<and> rc_gui s = Idle \<longrightarrow>
            \<not> has_open_record (rc_track s) \<and> open_since (rc_track s) = 0)"
  using race_inv_run [OF assms(1) race_inv_init [OF assms(2)]] by (auto simp: race_inv_def)

subsection \<open>A run that stores one session twice\<close>

text \<open>The tracked window \<open>a\<close> is replaced by \<open>b\<close> at 160; the machine is locked just after the watch thread
  has stored and released the record and before it opens the next one.\<close>

definition win_a :: ActiveWindow where
  "win_a = \<lparr>aw_process_name = [97], aw_window_title = [116]\<rparr>"

definition win_b :: ActiveWindow where
  "win_b = \<lparr>aw_process_name = [98], aw_window_title = [117]\<rparr>"

definition fg_b :: "foreground option" where
  "fg_b = Some \<lparr>fg_title = [117], fg_image = Some [98], fg_terminate = True\<rparr>"

definition rec_a :: "int \<Rightarrow> int \<Rightarrow> ActivityRecord" where
  "rec_a e d = \<lparr>ar_process_name = [97], ar_window_title = [116], ar_start_time = 100, ar_end_time = e,
     ar_duration_seconds = d, ar_synced = 0\<rparr>"

definition tr_a :: "ActivityRecord \<Rightarrow> bool \<Rightarrow> bool \<Rightarrow> track_state" where
  "tr_a r fip susp = \<lparr>g_last_window = win_a, g_current_record = r, g_finish_in_progress = fip, g_suspended = susp\<rparr>"

definition race_at :: "int \<Rightarrow> pc \<Rightarrow> pc \<Rightarrow> track_state \<Rightarrow> adb \<Rightarrow> race" where
  "race_at t p g tr db = \<lparr>rc_now = t, rc_watch = p, rc_gui = g, rc_track = tr, rc_db = db\<rparr>"

abbreviation saved :: "adb \<Rightarrow> adb" where
  "saved \<equiv> finish_save env0 example_state (rec_a 160 60)"

lemma race_watch:
  "thread_step t (p, tr, db) (p', tr', db') \<Longrightarrow> race_step (race_at t p g tr db) (race_at t p' g tr' db')"
  using watch [of "race_at t p g tr db" p' tr' db'] by (simp add: race_at_def)

lemma race_gui:
  "thread_step t (g, tr, db) (g', tr', db') \<Longrightarrow> race_step (race_at t p g tr db) (race_at t p g' tr' db')"
  using gui [of "race_at t p g tr db" g' tr' db'] by (simp add: race_at_def)

lemma race_steps:
  "race_step (race_init 100 db0) (race_at 100 Idle Idle (tr_a (rec_a 0 0) False False) db0)"
  "race_step (race_at 100 Idle Idle tr db) (race_at 160 Idle Idle tr db)"
  "race_step (race_at 160 Idle Idle (tr_a r False False) db)
     (race_at 160 (FBegin (KRestart win_b)) Idle (tr_a r False False) db)"
  "thread_step 160 (FBegin k, tr_a (rec_a e d) False su, db) (FSave (rec_a 160 60) k, tr_a (rec_a 160 60) True su, db)"
  "thread_step 160 (FEnd k, tr_a r True su, db) (After k, tr_a r False su, db)"
  "race_step (race_at t p Idle (tr_a r f False) db) (race_at t p CheckOpen (tr_a r f True) db)"
  "thread_step t (CheckOpen, tr_a r f su, db) (FBegin KClose, tr_a r f su, db)"
proof -
  have a: "getActiveWindowInfo fg_a = Some win_a" "getActiveWindowInfo fg_b = Some win_b"
    by (simp_all add: fg_a_def fg_b_def win_a_def win_b_def getActiveWindowInfo_def getProcessBaseName_def
        MAX_PATH_def Let_def)
  have da: "monitor_decide 100 win_a track_init = (Started, tr_a (rec_a 0 0) False False)"
    by (simp add: monitor_decide_def track_sections track_init_def tr_a_def win_a_def rec_a_def)
  show "race_step (race_init 100 db0) (race_at 100 Idle Idle (tr_a (rec_a 0 0) False False) db0)"
    using decide [of "race_init 100 db0" fg_a win_a Started] a da by (simp add: race_init_def race_at_def)
  show "race_step (race_at 100 Idle Idle tr db) (race_at 160 Idle Idle tr db)"
    using tick [of "race_at 100 Idle Idle tr db" 160] by (simp add: race_at_def)
  have db: "monitor_decide 160 win_b (tr_a r False False) = (Changed, tr_a r False False)"
    by (simp add: monitor_decide_def tr_a_def win_a_def win_b_def has_open_record_def)
  show "race_step (race_at 160 Idle Idle (tr_a r False False) db)
      (race_at 160 (FBegin (KRestart win_b)) Idle (tr_a r False False) db)"
    using decide [of "race_at 160 Idle Idle (tr_a r False False) db" fg_b win_b Changed] a db
    by (simp add: race_at_def)
  show "thread_step 160 (FBegin k, tr_a (rec_a e d) False su, db) (FSave (rec_a 160 60) k, tr_a (rec_a 160 60) True su, db)"
    by (rule begin_take) (simp add: finish_begin_def tr_a_def rec_a_def to_i32_def Let_def)
  show "thread_step 160 (FEnd k, tr_a r True su, db) (After k, tr_a r False su, db)"
    using release [of 160 k "tr_a r True su" db] by (simp add: finish_end_def tr_a_def)
  show "race_step (race_at t p Idle (tr_a r f False) db) (race_at t p CheckOpen (tr_a r f True) db)"
    using suspend [of "race_at t p Idle (tr_a r f False) db"] by (simp add: race_at_def tr_a_def)
  show "thread_step t (CheckOpen, tr_a r f su, db) (FBegin KClose, tr_a r f su, db)"
    by (rule check_open) (simp add: tr_a_def win_a_def has_open_record_def)
qed

lemma race_run_twice:
  "race_run (race_init 100 db0)
     (race_at 160 (After (KRestart win_b)) (FEnd KClose) (tr_a (rec_a 160 60) True True) (saved (saved db0)))"
proof -
  note t = rtranclp.rtrancl_into_rtrancl
  let ?w = "KRestart win_b" let ?r = "rec_a 160 60"
  have "race_run (race_init 100 db0) (race_at 100 Idle Idle (tr_a (rec_a 0 0) False False) db0)"
    by (rule r_into_rtranclp, rule race_steps(1))
  then have "race_run (race_init 100 db0) (race_at 160 Idle Idle (tr_a (rec_a 0 0) False False) db0)"
    by (rule t) (rule race_steps(2))
  then have "race_run (race_init 100 db0) (race_at 160 (FBegin ?w) Idle (tr_a (rec_a 0 0) False False) db0)"
    by (rule t) (rule race_steps(3))
  then have "race_run (race_init 100 db0) (race_at 160 (FSave ?r ?w) Idle (tr_a ?r True False) db0)"
    by (rule t) (rule race_watch, rule race_steps(4))
  then have "race_run (race_init 100 db0) (race_at 160 (FEnd ?w) Idle (tr_a ?r True False) (saved db0))"
    by (rule t) (rule race_watch, rule save)
  then have "race_run (race_init 100 db0) (race_at 160 (After ?w) Idle (tr_a ?r False False) (saved db0))"
    by (rule t) (rule race_watch, rule race_steps(5))
  then have "race_run (race_init 100 db0) (race_at 160 (After ?w) CheckOpen (tr_a ?r False True) (saved db0))"
    by (rule t) (rule race_steps(6))
  then have "race_run (race_init 100 db0) (race_at 160 (After ?w) (FBegin KClose) (tr_a ?r False True) (saved db0))"
    by (rule t) (rule race_gui, rule race_steps(7))
  then have "race_run (race_init 100 db0) (race_at 160 (After ?w) (FSave ?r KClose) (tr_a ?r True True) (saved db0))"
    by (rule t) (rule race_gui, rule race_steps(4))
  then show ?thesis by (rule t) (rule race_gui, rule save)
qed

lemma race_latch_and_lock_witness:
  "g_finish_in_progress (tr_a (rec_a 160 60) True True) \<and>
   \<not> (finishing (After (KRestart win_b)) \<and> finishing (FEnd KClose))"
  using race_latch_and_lock [OF race_run_twice] by (simp add: race_at_def)

text \<open>The latch does not prevent every double insert, contrary to its comment: it covers only the
  time of the save, and the finished record stays in \<open>g_current_record\<close> until the next one is opened. If
  the machine is locked in between, the same session is stored a second time, and counted twice.\<close>

theorem race_stores_session_twice:
  "\<exists>s. race_run (race_init 100 db0) s \<and> length (db_rows (rc_db s)) = 2 \<and>
     map (\<lambda>r. (r_process_name r, r_start r, r_end r, r_duration r)) (db_rows (rc_db s)) =
       replicate 2 (''a'', 100, 160, 60)"
proof -
  have ch: "wideToUtf8 ascii_codec [97] = ''a''" by code_simp
  have "map (\<lambda>r. (r_process_name r, r_start r, r_end r, r_duration r)) (db_rows (saved (saved db0))) =
      replicate 2 (''a'', 100, 160, 60)"
    by (simp add: finish_save_def settings_is_process_excluded_def excluded_by_def settings_get_def
        example_state_def setDefaults_def db_insert_activity_def db0_def env0_def new_row_def rec_a_def
        ch numeral_2_eq_2)
  then show ?thesis
    using race_run_twice by (intro exI conjI) (assumption, auto simp: race_at_def dest: arg_cong [where f = length])
qed

end
