(* ===== verification/Sys_Stats.thy ===== *)
theory Sys_Stats
  imports Json_Value Str_Util
begin

text \<open>
  \<open>src/dashboard/sysstats.cpp\<close>: the figures the dashboard shows of its machine. What Windows reports in
  one call is the argument of the function that uses it; the counters kept from call to call are the state.
  Counters are 64-bit words, as their differences wrap; a \<open>double\<close> is a rational number, its rounding
  is not modelled.
\<close>

section \<open>Numbers\<close>

type_synonym u64 = "64 word"

definition u64_rat :: "u64 \<Rightarrow> rat" where
  "u64_rat w = of_nat (unat w)"

definition kGB :: rat where
  "kGB = 1024 * 1024 * 1024"

definition round1 :: "rat \<Rightarrow> rat" where
  "round1 v = of_int \<lfloor>v * 10 + 1 / 2\<rfloor> / 10"

definition round2 :: "rat \<Rightarrow> rat" where
  "round2 v = of_int \<lfloor>v * 100 + 1 / 2\<rfloor> / 100"

definition clamp :: "rat \<Rightarrow> rat \<Rightarrow> rat \<Rightarrow> rat" where
  "clamp v lo hi = (if v < lo then lo else if hi < v then hi else v)"

section \<open>The machine\<close>

text \<open>A registry value: its type and text, or nothing when the key or the value cannot be read.\<close>

definition REG_SZ :: nat where "REG_SZ = 1"
definition REG_EXPAND_SZ :: nat where "REG_EXPAND_SZ = 2"
definition REG_DWORD :: nat where "REG_DWORD = 4"

definition regReadString :: "codec \<Rightarrow> (nat \<times> wstr) option \<Rightarrow> string" where
  "regReadString cv v =
     (case v of Some (ty, w) \<Rightarrow> if ty = REG_SZ \<or> ty = REG_EXPAND_SZ then wideToUtf8 cv w else [] | None \<Rightarrow> [])"

definition regReadDword :: "(nat \<times> nat) option \<Rightarrow> nat \<Rightarrow> nat" where
  "regReadDword v fallback = (case v of Some (ty, d) \<Rightarrow> if ty = REG_DWORD then d else fallback | None \<Rightarrow> fallback)"

record DiskInfo =
  di_device :: string
  di_mountpoint :: string
  di_fstype :: string
  di_totalGB :: rat

record MachineInfo =
  mi_hostname :: string
  mi_os :: string
  mi_osVersion :: string
  mi_architecture :: string
  mi_processor :: string
  mi_cpuCoresPhysical :: int
  mi_cpuCoresLogical :: int
  mi_cpuFreqMHz :: "int option"
  mi_ramTotalGB :: rat
  mi_disks :: "DiskInfo list"
  mi_bootTime :: u64

text \<open>A drive letter that \<open>GetLogicalDrives\<close> reports: its number, whether it is fixed, its size when that can be
  read, its file system.\<close>

record drive_in =
  dr_index :: nat
  dr_fixed :: bool
  dr_total :: "u64 option"
  dr_free :: u64
  dr_fs :: wstr

record machine_in =
  mx_hostname :: "wstr option"
  mx_productName :: "(nat \<times> wstr) option"
  mx_displayVersion :: "(nat \<times> wstr) option"
  mx_build :: "(nat \<times> wstr) option"
  mx_arch :: nat
  mx_processors :: nat
  mx_cores :: "bool list option"   \<comment> \<open>per entry: is it a core\<close>
  mx_processor :: "(nat \<times> wstr) option"
  mx_mhz :: "(nat \<times> nat) option"
  mx_totalPhys :: "u64 option"
  mx_drives :: "drive_in list"
  mx_uptimeMs :: u64
  mx_time :: u64

definition architecture_name :: "nat \<Rightarrow> string" where
  "architecture_name a =
     (if a = 9 then ''x86_64'' else if a = 12 then ''arm64'' else if a = 0 then ''x86'' else ''unknown'')"

definition trim_blanks :: "string \<Rightarrow> string" where
  "trim_blanks s = rev (dropWhile (\<lambda>c. c = spc) (rev (dropWhile (\<lambda>c. c = spc) s)))"

definition drive_root :: "nat \<Rightarrow> string" where
  "drive_root i = [char_of (65 + i), CHR '':'', bsl]"

definition disk_info :: "codec \<Rightarrow> drive_in \<Rightarrow> DiskInfo option" where
  "disk_info cv d =
     (if \<not> dr_fixed d then None
      else (case dr_total d of
              None \<Rightarrow> None
            | Some total_bytes \<Rightarrow>
                Some \<lparr>di_device = take 2 (drive_root (dr_index d)), di_mountpoint = drive_root (dr_index d),
                      di_fstype = wideToUtf8 cv (dr_fs d), di_totalGB = round1 (u64_rat total_bytes / kGB)\<rparr>))"

definition getMachineInfo :: "codec \<Rightarrow> machine_in \<Rightarrow> MachineInfo" where
  "getMachineInfo cv m =
     (let productName = regReadString cv (mx_productName m);
          displayVersion = regReadString cv (mx_displayVersion m);
          logical = int (mx_processors m);
          physical = (case mx_cores m of None \<Rightarrow> 0 | Some es \<Rightarrow> int (length (filter id es)));
          processor = regReadString cv (mx_processor m);
          mhz = regReadDword (mx_mhz m) 0
      in \<lparr>mi_hostname = (case mx_hostname m of None \<Rightarrow> [] | Some h \<Rightarrow> wideToUtf8 cv h),
          mi_os = (if productName = [] then ''Windows'' else productName) @
                  (if displayVersion = [] then [] else spc # displayVersion),
          mi_osVersion = regReadString cv (mx_build m),
          mi_architecture = architecture_name (mx_arch m),
          mi_processor = (if processor = [] then ''N/A'' else trim_blanks processor),
          mi_cpuCoresPhysical = (if physical = 0 then logical else physical),
          mi_cpuCoresLogical = logical,
          mi_cpuFreqMHz = (if 0 < mhz then Some (to_i32 (int mhz)) else None),
          mi_ramTotalGB = (case mx_totalPhys m of None \<Rightarrow> 0 | Some t \<Rightarrow> round1 (u64_rat t / kGB)),
          mi_disks = List.map_filter (disk_info cv) (mx_drives m),
          mi_bootTime = mx_time m - mx_uptimeMs m div 1000\<rparr>)"

record NetInterface =
  ni_name :: string
  ni_ipv4 :: string
  ni_isUp :: bool
  ni_speedMbps :: int

text \<open>An adapter: its two names, its unicast addresses as printed (\<open>None\<close> for another family), its state.\<close>

record adapter_in =
  ad_name :: "string option"
  ad_friendly :: "wstr option"
  ad_addresses :: "string option list"
  ad_up :: bool

definition interface_of :: "codec \<Rightarrow> adapter_in \<Rightarrow> NetInterface" where
  "interface_of cv a =
     \<lparr>ni_name = (case ad_friendly a of
                   Some f \<Rightarrow> wideToUtf8 cv f
                 | None \<Rightarrow> (case ad_name a of Some n \<Rightarrow> n | None \<Rightarrow> [])),
      ni_ipv4 = (case filter (\<lambda>x. x \<noteq> None) (ad_addresses a) of Some ip # _ \<Rightarrow> ip | _ \<Rightarrow> ''N/A''),
      ni_isUp = ad_up a, ni_speedMbps = 0\<rparr>"

definition getNetworkInterfaces :: "codec \<Rightarrow> adapter_in list option \<Rightarrow> NetInterface list" where
  "getNetworkInterfaces cv adapters = (case adapters of None \<Rightarrow> [] | Some as \<Rightarrow> map (interface_of cv) as)"

section \<open>Processes\<close>

record ProcessInfo =
  pi_pid :: int
  pi_name :: string
  pi_status :: string
  pi_cpuPercent :: rat
  pi_memPercent :: rat

text \<open>A process of the snapshot; the last two are \<open>None\<close> when it cannot be opened or asked.\<close>

record process_in =
  pr_pid :: nat
  pr_exe :: wstr
  pr_times :: "(u64 \<times> u64) option"
  pr_workingSet :: "u64 option"

record process_state =
  s_prev :: "nat \<rightharpoonup> u64 \<times> u64"
  s_prevWall :: u64

definition elapsed_sec :: "u64 \<Rightarrow> process_state \<Rightarrow> rat" where
  "elapsed_sec nowWall st = (if s_prevWall st \<noteq> 0 then u64_rat (nowWall - s_prevWall st) / 10000000 else 0)"

definition process_cpu :: "rat \<Rightarrow> process_state \<Rightarrow> process_in \<Rightarrow> rat" where
  "process_cpu elapsed st p =
     (case (pr_times p, s_prev st (pr_pid p)) of
        (Some (k, u), Some (k0, u0)) \<Rightarrow>
          if 0 < elapsed
          then round1 (max 0 (u64_rat ((k - k0) + (u - u0)) / 10000000 / elapsed * 100)) else 0
      | _ \<Rightarrow> 0)"

definition process_info :: "codec \<Rightarrow> u64 \<Rightarrow> rat \<Rightarrow> process_state \<Rightarrow> process_in \<Rightarrow> ProcessInfo" where
  "process_info cv totalPhys elapsed st p =
     \<lparr>pi_pid = to_i32 (int (pr_pid p)), pi_name = wideToUtf8 cv (pr_exe p), pi_status = ''running'',
      pi_cpuPercent = process_cpu elapsed st p,
      pi_memPercent =
        (case pr_workingSet p of
           Some w \<Rightarrow> if totalPhys \<noteq> 0 then round1 (u64_rat w / u64_rat totalPhys * 100) else 0
         | None \<Rightarrow> 0)\<rparr>"

text \<open>\<open>std::sort\<close> leaves the order of equal elements open; the model keeps it.\<close>

definition getProcesses ::
  "codec \<Rightarrow> nat \<Rightarrow> u64 \<Rightarrow> u64 \<Rightarrow> process_in list option \<Rightarrow> process_state \<Rightarrow> ProcessInfo list \<times> process_state" where
  "getProcesses cv limit totalPhys nowWall snap st =
     (case snap of
        None \<Rightarrow> ([], st)
      | Some all \<Rightarrow>
          (let ps = filter (\<lambda>p. pr_pid p \<noteq> 0) all;
               out = map (process_info cv totalPhys (elapsed_sec nowWall st) st) ps;
               times = map_of (rev (List.map_filter (\<lambda>p. map_option (Pair (pr_pid p)) (pr_times p)) ps))
           in (take limit (sort_key (\<lambda>p. - pi_cpuPercent p) out),
               \<lparr>s_prev = times, s_prevWall = nowWall\<rparr>)))"

section \<open>The collector\<close>

record DiskLive =
  dl_mountpoint :: string
  dl_percent :: rat
  dl_usedGB :: rat
  dl_totalGB :: rat

record LiveStats =
  lv_timestamp :: rat
  lv_cpuPercent :: rat
  lv_cpuPerCore :: "rat list"
  lv_ramPercent :: rat
  lv_ramUsedGB :: rat
  lv_ramAvailableGB :: rat
  lv_ramTotalGB :: rat
  lv_swapPercent :: rat
  lv_swapUsedGB :: rat
  lv_swapTotalGB :: rat
  lv_diskPercent :: rat
  lv_diskUsedGB :: rat
  lv_diskTotalGB :: rat
  lv_disks :: "DiskLive list"
  lv_diskReadBps :: rat
  lv_diskWriteBps :: rat
  lv_netUploadBps :: rat
  lv_netDownloadBps :: rat

definition no_stats :: LiveStats where
  "no_stats =
     \<lparr>lv_timestamp = 0, lv_cpuPercent = 0, lv_cpuPerCore = [], lv_ramPercent = 0, lv_ramUsedGB = 0,
      lv_ramAvailableGB = 0, lv_ramTotalGB = 0, lv_swapPercent = 0, lv_swapUsedGB = 0, lv_swapTotalGB = 0,
      lv_diskPercent = 0, lv_diskUsedGB = 0, lv_diskTotalGB = 0, lv_disks = [], lv_diskReadBps = 0,
      lv_diskWriteBps = 0, lv_netUploadBps = 0, lv_netDownloadBps = 0\<rparr>"

text \<open>The cumulated times of a processor; the kernel time contains the idle time.\<close>

record cpu_times =
  ct_idle :: int
  ct_kernel :: int
  ct_user :: int

record collector =
  co_prevCpu :: "cpu_times list"
  co_pdhQuery :: bool
  co_pdhFirstSampleDone :: bool
  co_lastNetSent :: u64
  co_lastNetRecv :: u64
  co_lastNetTimeMs :: u64

definition new_collector :: "bool \<Rightarrow> collector" where
  "new_collector opened =
     \<lparr>co_prevCpu = [], co_pdhQuery = opened, co_pdhFirstSampleDone = False, co_lastNetSent = 0,
      co_lastNetRecv = 0, co_lastNetTimeMs = 0\<rparr>"

record mem_status =
  mm_load :: nat
  mm_totalPhys :: u64
  mm_availPhys :: u64

record perf_info =
  pf_pageSize :: u64
  pf_commitTotal :: u64
  pf_commitLimit :: u64

record if_row =
  ir_up :: bool
  ir_loopback :: bool
  ir_out :: u64
  ir_in :: u64

record live_in =
  li_now100ns :: u64
  li_cpu :: "cpu_times list option"
  li_mem :: "mem_status option"
  li_perf :: "perf_info option"
  li_drives :: "drive_in list"
  li_pdhRead :: "rat option"
  li_pdhWrite :: "rat option"
  li_ifTable :: "if_row list option"
  li_nowMs :: u64

definition core_percent :: "cpu_times \<Rightarrow> cpu_times \<Rightarrow> rat" where
  "core_percent p q =
     (let idle = ct_idle p - ct_idle q; kernel = ct_kernel p - ct_kernel q; user = ct_user p - ct_user q;
          all = kernel + user; busy = all - idle
      in if 0 < all then round1 (clamp (of_int busy / of_int all * 100) 0 100) else 0)"

definition mean_percent :: "rat list \<Rightarrow> rat" where
  "mean_percent cores = (if cores = [] then 0 else round1 (sum_list cores / of_nat (length cores)))"

definition show_cores :: "rat list \<Rightarrow> LiveStats \<Rightarrow> LiveStats" where
  "show_cores cores s = s\<lparr>lv_cpuPerCore := cores, lv_cpuPercent := mean_percent cores\<rparr>"

definition live_cpu :: "live_in \<Rightarrow> collector \<times> LiveStats \<Rightarrow> collector \<times> LiveStats" where
  "live_cpu r cs =
     (case cs of (c, s) \<Rightarrow>
        (case li_cpu r of
           None \<Rightarrow> (c, s)
         | Some cur \<Rightarrow>
             (c\<lparr>co_prevCpu := cur\<rparr>,
              if length (co_prevCpu c) = length cur then show_cores (map2 core_percent cur (co_prevCpu c)) s else s)))"

definition live_ram :: "live_in \<Rightarrow> LiveStats \<Rightarrow> LiveStats" where
  "live_ram r s =
     (case li_mem r of
        None \<Rightarrow> s
      | Some m \<Rightarrow>
          s\<lparr>lv_ramPercent := round1 (of_nat (mm_load m)),
            lv_ramUsedGB := round2 (u64_rat (mm_totalPhys m - mm_availPhys m) / kGB),
            lv_ramAvailableGB := round2 (u64_rat (mm_availPhys m) / kGB),
            lv_ramTotalGB := round2 (u64_rat (mm_totalPhys m) / kGB)\<rparr>)"

definition ratio_percent :: "rat \<Rightarrow> rat \<Rightarrow> rat" where
  "ratio_percent a b = (if 0 < b then round1 (a / b * 100) else 0)"

definition live_swap :: "live_in \<Rightarrow> LiveStats \<Rightarrow> LiveStats" where
  "live_swap r s =
     (case (li_perf r, li_mem r) of
        (Some pf, Some m) \<Rightarrow>
          if mm_totalPhys m \<noteq> 0
          then
            (let commitTotal = u64_rat (pf_commitTotal pf) * u64_rat (pf_pageSize pf);
                 commitLimit = u64_rat (pf_commitLimit pf) * u64_rat (pf_pageSize pf);
                 physTotal = u64_rat (mm_totalPhys m);
                 swapTotal = max 0 (commitLimit - physTotal);
                 swapUsed = clamp (commitTotal - physTotal) 0 swapTotal
             in s\<lparr>lv_swapTotalGB := round2 (swapTotal / kGB), lv_swapUsedGB := round2 (swapUsed / kGB),
                  lv_swapPercent := ratio_percent swapUsed swapTotal\<rparr>)
          else s
      | _ \<Rightarrow> s)"

definition disk_live :: "drive_in \<Rightarrow> DiskLive option" where
  "disk_live d =
     (if \<not> dr_fixed d then None
      else (case dr_total d of
              None \<Rightarrow> None
            | Some total_bytes \<Rightarrow>
                (let used = u64_rat (total_bytes - dr_free d)
                 in Some \<lparr>dl_mountpoint = drive_root (dr_index d),
                          dl_percent = (if total_bytes \<noteq> 0 then round1 (used / u64_rat total_bytes * 100) else 0),
                          dl_usedGB = round1 (used / kGB), dl_totalGB = round1 (u64_rat total_bytes / kGB)\<rparr>)))"

definition live_disks :: "live_in \<Rightarrow> LiveStats \<Rightarrow> LiveStats" where
  "live_disks r s =
     (let ds = List.map_filter disk_live (li_drives r); s1 = s\<lparr>lv_disks := ds\<rparr>
      in case ds of
           [] \<Rightarrow> s1
         | d # _ \<Rightarrow> s1\<lparr>lv_diskPercent := dl_percent d, lv_diskUsedGB := dl_usedGB d, lv_diskTotalGB := dl_totalGB d\<rparr>)"

definition live_pdh :: "live_in \<Rightarrow> collector \<times> LiveStats \<Rightarrow> collector \<times> LiveStats" where
  "live_pdh r cs =
     (case cs of (c, s) \<Rightarrow>
        if \<not> co_pdhQuery c then (c, s)
        else
          (c\<lparr>co_pdhFirstSampleDone := True\<rparr>,
           if co_pdhFirstSampleDone c
           then s\<lparr>lv_diskReadBps := (case li_pdhRead r of Some v \<Rightarrow> round1 v | None \<Rightarrow> lv_diskReadBps s),
                  lv_diskWriteBps := (case li_pdhWrite r of Some v \<Rightarrow> round1 v | None \<Rightarrow> lv_diskWriteBps s)\<rparr>
           else s))"

definition net_total :: "(if_row \<Rightarrow> u64) \<Rightarrow> if_row list \<Rightarrow> u64" where
  "net_total f rows = sum_list (map f (filter (\<lambda>i. ir_up i \<and> \<not> ir_loopback i) rows))"

definition live_net :: "live_in \<Rightarrow> collector \<times> LiveStats \<Rightarrow> collector \<times> LiveStats" where
  "live_net r cs =
     (case cs of (c, s) \<Rightarrow>
        (case li_ifTable r of
           None \<Rightarrow> (c, s)
         | Some rows \<Rightarrow>
             (let sent = net_total ir_out rows; recv = net_total ir_in rows;
                  elapsed = u64_rat (li_nowMs r - co_lastNetTimeMs c) / 1000
              in (c\<lparr>co_lastNetSent := sent, co_lastNetRecv := recv, co_lastNetTimeMs := li_nowMs r\<rparr>,
                  if co_lastNetTimeMs c \<noteq> 0 \<and> 0 < elapsed
                  then s\<lparr>lv_netUploadBps := round1 (u64_rat (sent - co_lastNetSent c) / elapsed),
                         lv_netDownloadBps := round1 (u64_rat (recv - co_lastNetRecv c) / elapsed)\<rparr>
                  else s))))"

definition collector_live :: "live_in \<Rightarrow> collector \<Rightarrow> LiveStats \<times> collector" where
  "collector_live r c =
     (let s0 = no_stats\<lparr>lv_timestamp := u64_rat (li_now100ns r) / 10000000 - 11644473600\<rparr>;
          (c1, s1) = live_cpu r (c, s0);
          s2 = live_disks r (live_swap r (live_ram r s1));
          (c2, s3) = live_net r (live_pdh r (c1, s2))
      in (s3, c2))"

section \<open>As JSON\<close>

definition json_of_disk_info :: "DiskInfo \<Rightarrow> json" where
  "json_of_disk_info d =
     JsObj [(''device'', JsStr (di_device d)), (''mountpoint'', JsStr (di_mountpoint d)),
            (''fstype'', JsStr (di_fstype d)), (''total_gb'', JsReal (di_totalGB d))]"

definition json_of_machine :: "MachineInfo \<Rightarrow> json" where
  "json_of_machine m =
     JsObj [(''hostname'', JsStr (mi_hostname m)), (''os'', JsStr (mi_os m)), (''os_version'', JsStr (mi_osVersion m)),
            (''architecture'', JsStr (mi_architecture m)), (''processor'', JsStr (mi_processor m)),
            (''cpu_cores_physical'', JsInt (mi_cpuCoresPhysical m)), (''cpu_cores_logical'', JsInt (mi_cpuCoresLogical m)),
            (''cpu_freq_mhz'', case mi_cpuFreqMHz m of None \<Rightarrow> JsNull | Some f \<Rightarrow> JsInt f),
            (''cpu_freq_min_mhz'', JsNull), (''cpu_freq_max_mhz'', JsNull),
            (''ram_total_gb'', JsReal (mi_ramTotalGB m)), (''disks'', JsArr (map json_of_disk_info (mi_disks m))),
            (''boot_time'', JsInt (uint (mi_bootTime m)))]"

definition json_of_interface :: "NetInterface \<Rightarrow> json" where
  "json_of_interface n =
     JsObj [(''name'', JsStr (ni_name n)), (''ipv4'', JsStr (ni_ipv4 n)), (''is_up'', JsBool (ni_isUp n)),
            (''speed_mbps'', JsInt (ni_speedMbps n))]"

definition json_of_disk_live :: "DiskLive \<Rightarrow> json" where
  "json_of_disk_live d =
     JsObj [(''mountpoint'', JsStr (dl_mountpoint d)), (''percent'', JsReal (dl_percent d)),
            (''used_gb'', JsReal (dl_usedGB d)), (''total_gb'', JsReal (dl_totalGB d))]"

definition json_of_live :: "LiveStats \<Rightarrow> json" where
  "json_of_live s =
     JsObj [(''timestamp'', JsReal (lv_timestamp s)), (''cpu_percent'', JsReal (lv_cpuPercent s)),
            (''cpu_per_core'', JsArr (map JsReal (lv_cpuPerCore s))), (''ram_percent'', JsReal (lv_ramPercent s)),
            (''ram_used_gb'', JsReal (lv_ramUsedGB s)), (''ram_available_gb'', JsReal (lv_ramAvailableGB s)),
            (''ram_total_gb'', JsReal (lv_ramTotalGB s)), (''swap_percent'', JsReal (lv_swapPercent s)),
            (''swap_used_gb'', JsReal (lv_swapUsedGB s)), (''swap_total_gb'', JsReal (lv_swapTotalGB s)),
            (''disk_percent'', JsReal (lv_diskPercent s)), (''disk_used_gb'', JsReal (lv_diskUsedGB s)),
            (''disk_total_gb'', JsReal (lv_diskTotalGB s)), (''disks'', JsArr (map json_of_disk_live (lv_disks s))),
            (''disk_read_bps'', JsReal (lv_diskReadBps s)), (''disk_write_bps'', JsReal (lv_diskWriteBps s)),
            (''net_upload_bps'', JsReal (lv_netUploadBps s)), (''net_download_bps'', JsReal (lv_netDownloadBps s))]"

definition json_of_process :: "ProcessInfo \<Rightarrow> json" where
  "json_of_process p =
     JsObj [(''pid'', JsInt (pi_pid p)), (''name'', JsStr (pi_name p)), (''cpu_percent'', JsReal (pi_cpuPercent p)),
            (''mem_percent'', JsReal (pi_memPercent p)), (''status'', JsStr (pi_status p))]"

section \<open>Facts\<close>

lemma round1_mono: "a \<le> b \<Longrightarrow> round1 a \<le> round1 b"
  by (simp add: round1_def floor_mono divide_right_mono)

lemma round1_0 [simp]: "round1 0 = 0" and round1_100 [simp]: "round1 100 = 100"
proof -
  have "\<lfloor>1 / 2 :: rat\<rfloor> = 0" "\<lfloor>2001 / 2 :: rat\<rfloor> = 1000" by (simp_all add: floor_eq_iff)
  then show "round1 0 = 0" "round1 100 = 100" by (simp_all add: round1_def)
qed

definition percent :: "rat \<Rightarrow> bool" where
  "percent v \<longleftrightarrow> 0 \<le> v \<and> v \<le> 100"

lemma percent_round1: "percent v \<Longrightarrow> percent (round1 v)"
  using round1_mono [of 0 v] round1_mono [of v 100] by (simp add: percent_def)

lemma percent_0 [simp]: "percent 0"
  by (simp add: percent_def)

lemma percent_clamp: "percent (clamp v 0 100)"
  by (simp add: percent_def clamp_def)

lemma core_percent_percent: "percent (core_percent p q)"
  by (simp add: core_percent_def Let_def percent_round1 percent_clamp)

lemma percent_mean:
  assumes "list_all percent vs"
  shows "percent (mean_percent vs)"
proof (cases "vs = []")
  case False
  have "0 \<le> sum_list vs \<and> sum_list vs \<le> 100 * of_nat (length vs)" using assms(1)
    by (induction vs) (auto simp: percent_def algebra_simps)
  then have "percent (sum_list vs / of_nat (length vs))" using False
    by (simp add: percent_def divide_simps)
  then show ?thesis using False by (simp add: mean_percent_def percent_round1)
qed (simp add: mean_percent_def)

lemma percent_ratio:
  assumes "0 \<le> a" and "a \<le> b" and "0 < b"
  shows "percent (round1 (a / b * 100))"
proof -
  define q where "q = a / b"
  have "0 \<le> q" "q \<le> 1" using assms by (simp_all add: q_def)
  then show ?thesis unfolding q_def [symmetric] by (intro percent_round1) (simp add: percent_def)
qed

definition stats_percent :: "LiveStats \<Rightarrow> bool" where
  "stats_percent s \<longleftrightarrow>
     percent (lv_cpuPercent s) \<and> list_all percent (lv_cpuPerCore s) \<and> percent (lv_ramPercent s) \<and>
     percent (lv_swapPercent s) \<and> percent (lv_diskPercent s) \<and> list_all (percent \<circ> dl_percent) (lv_disks s)"

text \<open>What Windows promises of a reading.\<close>

definition reading_sane :: "live_in \<Rightarrow> bool" where
  "reading_sane r \<longleftrightarrow>
     (\<forall>m. li_mem r = Some m \<longrightarrow> mm_load m \<le> 100) \<and>
     (\<forall>d \<in> set (li_drives r). \<forall>t. dr_total d = Some t \<longrightarrow> dr_free d \<le> t)"

lemma live_cpu_percent:
  assumes "stats_percent s" and "live_cpu r (c, s) = (c', s')"
  shows "stats_percent s'"
proof -
  have "list_all percent (map2 core_percent cur prev)" for cur prev
    by (simp add: list_all_iff core_percent_percent split_def)
  then have "stats_percent (show_cores (map2 core_percent cur prev) s)" for cur prev
    using assms(1) percent_mean by (simp add: show_cores_def stats_percent_def)
  then show ?thesis using assms by (auto simp: live_cpu_def split: option.splits if_splits)
qed

lemma live_ram_percent:
  assumes "stats_percent s" and "reading_sane r"
  shows "stats_percent (live_ram r s)"
proof (cases "li_mem r")
  case (Some m)
  then have "percent (of_nat (mm_load m))" using assms(2) by (simp add: reading_sane_def percent_def)
  then show ?thesis using Some assms(1) by (simp add: live_ram_def stats_percent_def percent_round1)
qed (use assms in \<open>simp add: live_ram_def\<close>)

lemma live_swap_percent:
  assumes "stats_percent s"
  shows "stats_percent (live_swap r s)"
proof -
  have p: "percent (ratio_percent (clamp u 0 t) t)" for u t
  proof (cases "0 < t")
    case True
    then have "0 \<le> clamp u 0 t" "clamp u 0 t \<le> t" by (simp_all add: clamp_def)
    from percent_ratio [OF this True] True show ?thesis by (simp only: ratio_percent_def if_True)
  qed (simp add: ratio_percent_def)
  show ?thesis
  proof (cases "li_perf r = None \<or> li_mem r = None")
    case False
    then obtain pf m where "li_perf r = Some pf" "li_mem r = Some m" by auto
    then show ?thesis using assms p by (simp add: live_swap_def stats_percent_def Let_def)
  qed (use assms in \<open>auto simp: live_swap_def split: option.splits\<close>)
qed

lemma disk_live_percent:
  assumes "disk_live d = Some l" and "\<forall>t. dr_total d = Some t \<longrightarrow> dr_free d \<le> t"
  shows "percent (dl_percent l)"
proof -
  obtain t where t: "dr_total d = Some t" "l = \<lparr>dl_mountpoint = drive_root (dr_index d),
      dl_percent = (if t \<noteq> 0 then round1 (u64_rat (t - dr_free d) / u64_rat t * 100) else 0),
      dl_usedGB = round1 (u64_rat (t - dr_free d) / kGB), dl_totalGB = round1 (u64_rat t / kGB)\<rparr>"
    using assms(1) by (auto simp: disk_live_def Let_def split: if_splits option.splits)
  have "percent (round1 (u64_rat (t - dr_free d) / u64_rat t * 100))" if "t \<noteq> 0"
  proof (rule percent_ratio)
    have "unat (t - dr_free d) \<le> unat t" using assms(2) t(1) by (simp add: unat_sub)
    then show "u64_rat (t - dr_free d) \<le> u64_rat t" by (simp only: u64_rat_def of_nat_le_iff)
    show "0 < u64_rat t" using that unfolding u64_rat_def of_nat_0_less_iff by (simp add: unat_gt_0)
    show "0 \<le> u64_rat (t - dr_free d)" unfolding u64_rat_def by (rule of_nat_0_le_iff)
  qed
  then show ?thesis using t(2) by simp
qed

lemma live_disks_percent:
  assumes "stats_percent s" and "reading_sane r"
  shows "stats_percent (live_disks r s)"
proof -
  have "list_all (percent \<circ> dl_percent) (List.map_filter disk_live (li_drives r))"
    using assms(2) disk_live_percent by (fastforce simp: list_all_iff List.map_filter_def reading_sane_def)
  then show ?thesis using assms(1)
    by (auto simp: live_disks_def stats_percent_def Let_def split: list.splits)
qed

lemma live_pdh_percent: "stats_percent s \<Longrightarrow> stats_percent (snd (live_pdh r (c, s)))"
  by (simp add: live_pdh_def stats_percent_def)

lemma live_net_percent: "stats_percent s \<Longrightarrow> stats_percent (snd (live_net r (c, s)))"
  by (simp add: live_net_def stats_percent_def Let_def split: option.splits)

section \<open>Properties\<close>

text \<open>Every percentage the dashboard shows of its machine (processor and each core, memory, swap, each
  disk) is between 0 and 100, from whatever counters were kept before, for readings in which the memory load is at
  most 100 and no drive has more free space than space.\<close>

theorem live_percentages_bounded:
  assumes "reading_sane r" and "collector_live r c = (s, c')"
  shows "stats_percent s"
proof -
  let ?s0 = "no_stats\<lparr>lv_timestamp := u64_rat (li_now100ns r) / 10000000 - 11644473600\<rparr>"
  obtain c1 s1 where l1: "live_cpu r (c, ?s0) = (c1, s1)" by (metis prod.collapse)
  obtain c2 s2 where l2: "live_pdh r (c1, live_disks r (live_swap r (live_ram r s1))) = (c2, s2)" by (metis prod.collapse)
  have "stats_percent ?s0" by (simp add: stats_percent_def no_stats_def)
  then have "stats_percent s1" using l1 by (rule live_cpu_percent)
  then have "stats_percent (live_disks r (live_swap r (live_ram r s1)))"
    by (intro live_disks_percent live_swap_percent live_ram_percent assms(1))
  then have "stats_percent s2" using live_pdh_percent [of _ r c1] l2 by (metis snd_conv)
  then have "stats_percent (snd (live_net r (c2, s2)))" by (rule live_net_percent)
  then show ?thesis using assms(2) l1 l2 by (simp add: collector_live_def Let_def split: prod.splits)
qed

definition demo_reading :: live_in where
  "demo_reading =
     \<lparr>li_now100ns = 116444736000000000, li_cpu = Some [\<lparr>ct_idle = 30, ct_kernel = 60, ct_user = 40\<rparr>],
      li_mem = Some \<lparr>mm_load = 40, mm_totalPhys = 1000, mm_availPhys = 600\<rparr>, li_perf = None,
      li_drives = [\<lparr>dr_index = 2, dr_fixed = True, dr_total = Some 200, dr_free = 50, dr_fs = []\<rparr>],
      li_pdhRead = None, li_pdhWrite = None,
      li_ifTable = Some [\<lparr>ir_up = True, ir_loopback = False, ir_out = 5000, ir_in = 9000\<rparr>], li_nowMs = 7000\<rparr>"

lemma live_percentages_bounded_witness:
  "stats_percent (fst (collector_live demo_reading (new_collector True)))"
proof -
  have "reading_sane demo_reading" by (simp add: reading_sane_def demo_reading_def)
  moreover have "collector_live demo_reading (new_collector True) =
    (fst (collector_live demo_reading (new_collector True)), snd (collector_live demo_reading (new_collector True)))" by simp
  ultimately show ?thesis by (rule live_percentages_bounded)
qed

section \<open>Several readings\<close>

text \<open>\<open>MainWindow\<close>'s timer asks every page in turn, and each page asks the one collector they share.\<close>

fun live_calls :: "live_in list \<Rightarrow> collector \<Rightarrow> LiveStats list \<times> collector" where
  "live_calls [] c = ([], c)"
| "live_calls (r # rs) c =
     (let (s, c1) = collector_live r c; (ss, c2) = live_calls rs c1 in (s # ss, c2))"

lemma live_frame [simp]:
  "lv_cpuPercent (live_ram r s) = lv_cpuPercent s" "lv_cpuPerCore (live_ram r s) = lv_cpuPerCore s"
  "lv_cpuPercent (live_swap r s) = lv_cpuPercent s" "lv_cpuPerCore (live_swap r s) = lv_cpuPerCore s"
  "lv_cpuPercent (live_disks r s) = lv_cpuPercent s" "lv_cpuPerCore (live_disks r s) = lv_cpuPerCore s"
  "lv_netUploadBps (live_ram r s) = lv_netUploadBps s" "lv_netDownloadBps (live_ram r s) = lv_netDownloadBps s"
  "lv_netUploadBps (live_swap r s) = lv_netUploadBps s" "lv_netDownloadBps (live_swap r s) = lv_netDownloadBps s"
  "lv_netUploadBps (live_disks r s) = lv_netUploadBps s" "lv_netDownloadBps (live_disks r s) = lv_netDownloadBps s"
  by (auto simp: live_ram_def live_swap_def live_disks_def Let_def split: option.splits list.splits)

definition cpu_kept :: "live_in \<Rightarrow> collector \<Rightarrow> cpu_times list" where
  "cpu_kept r c = (case li_cpu r of None \<Rightarrow> co_prevCpu c | Some cur \<Rightarrow> cur)"

definition net_rate :: "(if_row \<Rightarrow> u64) \<Rightarrow> u64 \<Rightarrow> live_in \<Rightarrow> collector \<Rightarrow> rat" where
  "net_rate f old r c =
     (case li_ifTable r of
        None \<Rightarrow> 0
      | Some rows \<Rightarrow>
          if co_lastNetTimeMs c \<noteq> 0 \<and> 0 < u64_rat (li_nowMs r - co_lastNetTimeMs c) / 1000
          then round1 (u64_rat (net_total f rows - old) / (u64_rat (li_nowMs r - co_lastNetTimeMs c) / 1000)) else 0)"

definition cores_shown :: "live_in \<Rightarrow> collector \<Rightarrow> rat list \<Rightarrow> rat list" where
  "cores_shown r c old =
     (case li_cpu r of
        None \<Rightarrow> old
      | Some cur \<Rightarrow> if length (co_prevCpu c) = length cur then map2 core_percent cur (co_prevCpu c) else old)"

lemma show_cores_fields [simp]:
  "lv_cpuPerCore (show_cores vs s) = vs" "lv_cpuPercent (show_cores vs s) = mean_percent vs"
  "lv_netUploadBps (show_cores vs s) = lv_netUploadBps s" "lv_netDownloadBps (show_cores vs s) = lv_netDownloadBps s"
  by (simp_all add: show_cores_def)

lemma live_cpu_parts:
  assumes "live_cpu r (c, s) = (c1, s1)"
  shows "co_prevCpu c1 = cpu_kept r c" "co_lastNetSent c1 = co_lastNetSent c" "co_lastNetRecv c1 = co_lastNetRecv c"
    and "co_lastNetTimeMs c1 = co_lastNetTimeMs c" "lv_netUploadBps s1 = lv_netUploadBps s"
    and "lv_netDownloadBps s1 = lv_netDownloadBps s" "lv_cpuPerCore s1 = cores_shown r c (lv_cpuPerCore s)"
    and "lv_cpuPercent s = mean_percent (lv_cpuPerCore s) \<Longrightarrow> lv_cpuPercent s1 = mean_percent (lv_cpuPerCore s1)"
  using assms by (auto simp: live_cpu_def cpu_kept_def cores_shown_def split: option.splits if_splits)

lemma live_pdh_parts:
  assumes "live_pdh r (c, s) = (c1, s1)"
  shows "co_prevCpu c1 = co_prevCpu c" "co_lastNetSent c1 = co_lastNetSent c" "co_lastNetRecv c1 = co_lastNetRecv c"
    and "co_lastNetTimeMs c1 = co_lastNetTimeMs c" "lv_netUploadBps s1 = lv_netUploadBps s"
    and "lv_netDownloadBps s1 = lv_netDownloadBps s" "lv_cpuPerCore s1 = lv_cpuPerCore s" "lv_cpuPercent s1 = lv_cpuPercent s"
  using assms by (auto simp: live_pdh_def split: if_splits)

lemma live_net_parts:
  assumes "live_net r (c, s) = (c1, s1)" and "lv_netUploadBps s = 0" and "lv_netDownloadBps s = 0"
  shows "co_prevCpu c1 = co_prevCpu c" "lv_cpuPerCore s1 = lv_cpuPerCore s" "lv_cpuPercent s1 = lv_cpuPercent s"
    and "lv_netUploadBps s1 = net_rate ir_out (co_lastNetSent c) r c"
    and "lv_netDownloadBps s1 = net_rate ir_in (co_lastNetRecv c) r c"
    and "li_ifTable r \<noteq> None \<Longrightarrow> co_lastNetTimeMs c1 = li_nowMs r"
  using assms by (auto simp: live_net_def net_rate_def Let_def split: option.splits)

text \<open>What one call shows of the processor and the network, and what it keeps for the next.\<close>

lemma collector_live_parts:
  assumes "collector_live r c = (s, c')"
  shows "lv_cpuPerCore s = cores_shown r c []"
    and "lv_cpuPercent s = mean_percent (lv_cpuPerCore s)"
    and "lv_netUploadBps s = net_rate ir_out (co_lastNetSent c) r c"
    and "lv_netDownloadBps s = net_rate ir_in (co_lastNetRecv c) r c"
    and "co_prevCpu c' = cpu_kept r c"
    and "li_ifTable r \<noteq> None \<Longrightarrow> co_lastNetTimeMs c' = li_nowMs r"
proof -
  let ?s0 = "no_stats\<lparr>lv_timestamp := u64_rat (li_now100ns r) / 10000000 - 11644473600\<rparr>"
  obtain c1 s1 where l1: "live_cpu r (c, ?s0) = (c1, s1)" by (metis prod.collapse)
  obtain c2 s2 where l2: "live_pdh r (c1, live_disks r (live_swap r (live_ram r s1))) = (c2, s2)" by (metis prod.collapse)
  have l3: "live_net r (c2, s2) = (c', s)"
    using assms l1 l2 by (simp add: collector_live_def Let_def split: prod.splits)
  have z: "lv_cpuPerCore ?s0 = []" "lv_cpuPercent ?s0 = 0" "lv_netUploadBps ?s0 = 0" "lv_netDownloadBps ?s0 = 0"
    by (simp_all add: no_stats_def)
  note p1 = live_cpu_parts [OF l1] and p2 = live_pdh_parts [OF l2]
  have n: "lv_netUploadBps s2 = 0" "lv_netDownloadBps s2 = 0" using p1 p2 z by simp_all
  note p3 = live_net_parts [OF l3 n]
  have "co_lastNetTimeMs c2 = co_lastNetTimeMs c" using p1(4) p2(4) by simp
  then have same: "net_rate f old r c2 = net_rate f old r c" for f old by (simp only: net_rate_def)
  show "lv_cpuPerCore s = cores_shown r c []" using p1(7) p2(7) p3(2) z(1) by simp
  show "lv_cpuPercent s = mean_percent (lv_cpuPerCore s)"
    using p1(8) p2(7,8) p3(2,3) z(1,2) by (simp add: mean_percent_def)
  show "lv_netUploadBps s = net_rate ir_out (co_lastNetSent c) r c" using p3(4) same p1(2) p2(2) by simp
  show "lv_netDownloadBps s = net_rate ir_in (co_lastNetRecv c) r c" using p3(5) same p1(3) p2(3) by simp
  show "co_prevCpu c' = cpu_kept r c" using p1(1) p2(1) p3(1) by simp
  show "li_ifTable r \<noteq> None \<Longrightarrow> co_lastNetTimeMs c' = li_nowMs r" by (rule p3(6))
qed

lemma core_percent_same [simp]: "core_percent p p = 0"
  by (simp add: core_percent_def)

lemma map2_core_same: "map2 core_percent cur cur = replicate (length cur) 0"
  by (induction cur) simp_all

definition blank :: "LiveStats \<Rightarrow> bool" where
  "blank s \<longleftrightarrow>
     lv_cpuPercent s = 0 \<and> (\<forall>v \<in> set (lv_cpuPerCore s). v = 0) \<and> lv_netUploadBps s = 0 \<and> lv_netDownloadBps s = 0"

lemma repeated_reading_blank:
  assumes "collector_live r c = (s, c')" and "li_cpu r = Some (co_prevCpu c)" and "li_nowMs r = co_lastNetTimeMs c"
  shows "blank s"
proof -
  have "lv_cpuPerCore s = replicate (length (co_prevCpu c)) 0"
    using collector_live_parts(1) [OF assms(1)] assms(2) by (simp add: map2_core_same cores_shown_def)
  moreover from this have "lv_cpuPercent s = 0"
    using collector_live_parts(2) [OF assms(1)] by (simp add: mean_percent_def sum_list_replicate)
  moreover have "net_rate f old r c = 0" for f old
    using assms(3) by (simp add: net_rate_def u64_rat_def split: option.splits)
  ultimately show ?thesis using collector_live_parts(3,4) [OF assms(1)] by (simp add: blank_def)
qed

text \<open>Only the first page of a timer tick sees the machine's load. The six pages share one collector and read it
  one after the other; when the counters of Windows have not moved in between, every page after the first
  is told that no processor is busy and nothing is sent or received, the processor and network pages included.\<close>

theorem only_first_page_sees_load:
  assumes "\<forall>r' \<in> set rs. li_cpu r' = Some cur \<and> li_nowMs r' = t \<and> li_ifTable r' \<noteq> None"
    and "li_cpu r = Some cur" and "li_nowMs r = t" and "li_ifTable r \<noteq> None"
    and "live_calls (r # rs) c = (ss, c')"
  shows "\<forall>s \<in> set (tl ss). blank s"
proof -
  have tail: "\<forall>s \<in> set (fst (live_calls rs c1)). blank s"
    if "co_prevCpu c1 = cur" "co_lastNetTimeMs c1 = t" for c1
    using assms(1) that
  proof (induction rs arbitrary: c1)
    case (Cons r' rs)
    obtain s c2 where l: "collector_live r' c1 = (s, c2)" by (metis prod.collapse)
    have rows: "li_ifTable r' \<noteq> None" using Cons.prems(1) by auto
    have "blank s" by (rule repeated_reading_blank [OF l]) (use Cons.prems in auto)
    moreover have "co_prevCpu c2 = cur" "co_lastNetTimeMs c2 = t"
      using collector_live_parts(5) [OF l] collector_live_parts(6) [OF l rows] Cons.prems by (simp_all add: cpu_kept_def)
    ultimately show ?case using Cons.IH [of c2] Cons.prems(1) l by (simp add: Let_def split: prod.splits)
  qed simp
  obtain s c1 where l: "collector_live r c = (s, c1)" by (metis prod.collapse)
  have "co_prevCpu c1 = cur" "co_lastNetTimeMs c1 = t"
    using collector_live_parts(5) [OF l] collector_live_parts(6) [OF l assms(4)] assms(2,3) by (simp_all add: cpu_kept_def)
  from tail [OF this] show ?thesis using assms(5) l by (auto simp: Let_def split: prod.splits)
qed

lemma live_calls_length: "length (fst (live_calls rs c)) = length rs"
proof (induction rs arbitrary: c)
  case (Cons r rs)
  obtain s c1 where l: "collector_live r c = (s, c1)" by (metis prod.collapse)
  obtain ss c2 where "live_calls rs c1 = (ss, c2)" by (metis prod.collapse)
  then show ?case using Cons [of c1] l by simp
qed simp

lemma only_first_page_sees_load_witness:
  "blank (fst (live_calls (replicate 6 demo_reading) (new_collector True)) ! 4)"
proof -
  let ?run = "live_calls (demo_reading # replicate 5 demo_reading) (new_collector True)"
  have six: "replicate 6 demo_reading = demo_reading # replicate 5 demo_reading" by (simp add: numeral_eq_Suc)
  have blank: "\<forall>s \<in> set (tl (fst ?run)). blank s"
    by (rule only_first_page_sees_load [where rs = "replicate 5 demo_reading" and r = demo_reading and c' = "snd ?run"])
       (auto simp: demo_reading_def)
  define out where "out = fst ?run"
  have "length out = 6" unfolding out_def live_calls_length by simp
  then have "out ! 4 \<in> set (tl out)"
    using nth_mem [of 3 "tl out"] nth_tl [of 3 out] by simp
  then show ?thesis using blank unfolding six out_def [symmetric] by blast
qed

text \<open>The rate is that of the difference of the counters only while they do not fall. When one falls, as when an
  adapter goes down, the difference wraps.\<close>

lemma u64_rat_diff:
  "u64_rat (a - b) = (if b \<le> a then of_int (uint a - uint b) else of_int (uint a - uint b + 2 ^ 64))"
proof -
  have "u64_rat (a - b) = of_int (uint (a - b))" by (simp add: u64_rat_def)
  also have "uint (a - b) = (if b \<le> a then uint a - uint b else uint a - uint b + 2 ^ 64)"
    by (simp add: uint_sub_if' word_le_def)
  finally show ?thesis by (simp only: if_distrib [where f = of_int])
qed

text \<open>The processes shown are the busiest, in order.\<close>

lemma top_processes:
  assumes "getProcesses cv limit totalPhys nowWall (Some all) st = (out, st')"
  shows "length out \<le> limit \<and> sorted_wrt (\<lambda>a b. pi_cpuPercent b \<le> pi_cpuPercent a) out \<and>
    (\<forall>p \<in> set all. pr_pid p \<noteq> 0 \<longrightarrow>
       process_info cv totalPhys (elapsed_sec nowWall st) st p \<in> set out \<or>
       (\<forall>q \<in> set out. process_cpu (elapsed_sec nowWall st) st p \<le> pi_cpuPercent q))"
proof -
  let ?info = "process_info cv totalPhys (elapsed_sec nowWall st) st"
  define xs where "xs = sort_key (\<lambda>p. - pi_cpuPercent p) (map ?info (filter (\<lambda>p. pr_pid p \<noteq> 0) all))"
  have out: "out = take limit xs" using assms by (simp add: getProcesses_def xs_def Let_def)
  have "sorted (map (\<lambda>p. - pi_cpuPercent p) xs)" by (simp add: xs_def)
  then have srt: "sorted_wrt (\<lambda>a b. pi_cpuPercent b \<le> pi_cpuPercent a) xs" by (simp add: sorted_map)
  have "?info p \<in> set out \<or> (\<forall>q \<in> set out. process_cpu (elapsed_sec nowWall st) st p \<le> pi_cpuPercent q)"
    if "p \<in> set all" "pr_pid p \<noteq> 0" for p
  proof -
    have "?info p \<in> set (take limit xs @ drop limit xs)" using that by (auto simp: xs_def)
    moreover have "pi_cpuPercent b \<le> pi_cpuPercent a" if "a \<in> set (take limit xs)" "b \<in> set (drop limit xs)" for a b
      using srt that by (metis append_take_drop_id sorted_wrt_append)
    moreover have "pi_cpuPercent (?info p) = process_cpu (elapsed_sec nowWall st) st p" by (simp add: process_info_def)
    ultimately show ?thesis unfolding out set_append by (metis UnE)
  qed
  then show ?thesis using srt by (simp add: out sorted_wrt_take)
qed

end
