(* ===== verification/Dash_Devices.thy ===== *)
theory Dash_Devices
  imports Dash_Cloud Sys_Stats
begin

text \<open>
  \<open>src/dashboard/ui/pages/devicespage.cpp\<close>: the messages between the devices of an account, as a state
  machine. Requests run in threads of their own (\<open>asyncutil.h\<close>); their replies reach the page later, in any
  order, whatever the page shows by then. \<open>None\<close> is the use of an empty \<open>std::optional\<close>, which the code does
  not survive.
\<close>

section \<open>The page\<close>

record devices_page =
  dp_notice :: bool
  dp_devices :: "(string \<times> string) list"   \<comment> \<open>id and name\<close>
  dp_thread :: "string list"
  dp_input :: string
  dp_enabled :: bool
  dp_selected :: string
  dp_pending :: string

definition new_page :: devices_page where
  "new_page =
     \<lparr>dp_notice = False, dp_devices = [], dp_thread = [], dp_input = [], dp_enabled = False, dp_selected = [],
      dp_pending = []\<rparr>"

text \<open>A request a thread is to make, with the token taken when it was started.\<close>

datatype devices_job =
    ListDevices string
  | LoadThread string string string   \<comment> \<open>token, own id, other id\<close>
  | SendTo string Message

datatype devices_reply =
    Devices "DeviceHeartbeat list result"
  | Conversation "Message list result"
  | Sent "unit result"

definition run_job :: "'w cloud_env \<Rightarrow> devices_job \<Rightarrow> 'w http_state \<Rightarrow> devices_reply \<times> 'w http_state" where
  "run_job env j st =
     (case j of
        ListDevices tok \<Rightarrow> map_prod Devices id (listHeartbeats env tok st)
      | LoadThread tok self other \<Rightarrow> map_prod Conversation id (message_thread env tok self other 100 st)
      | SendTo tok m \<Rightarrow> map_prod Sent id (sendMessage env tok m st))"

type_synonym page_result = "(devices_page \<times> devices_job list) option"

text \<open>\<open>loadDashSession()->accessToken\<close>.\<close>

definition with_token :: "string option \<Rightarrow> (string \<Rightarrow> devices_page \<times> devices_job list) \<Rightarrow> page_result" where
  "with_token session f = (case session of None \<Rightarrow> None | Some tok \<Rightarrow> Some (f tok))"

definition loadDevices :: "string option \<Rightarrow> devices_page \<Rightarrow> page_result" where
  "loadDevices session p = with_token session (\<lambda>tok. (p, [ListDevices tok]))"

definition page_refresh :: "string option \<Rightarrow> devices_page \<Rightarrow> page_result" where
  "page_refresh session p =
     (if session = None then Some (p\<lparr>dp_notice := True, dp_devices := [], dp_thread := []\<rparr>, [])
      else loadDevices session (p\<lparr>dp_notice := False\<rparr>))"

definition loadThread :: "string \<Rightarrow> string option \<Rightarrow> devices_page \<Rightarrow> page_result" where
  "loadThread self session p =
     (if dp_selected p = [] then Some (p, [])
      else with_token session (\<lambda>tok. (p, [LoadThread tok self (dp_selected p)])))"

definition selectDevice :: "string \<Rightarrow> string option \<Rightarrow> string \<Rightarrow> devices_page \<Rightarrow> page_result" where
  "selectDevice self session d p = loadThread self session (p\<lparr>dp_selected := d, dp_enabled := True\<rparr>)"

definition device_item :: "DeviceHeartbeat \<Rightarrow> string \<times> string" where
  "device_item m = (dh_deviceId m, if dh_hostname m = [] then dh_deviceId m else dh_hostname m)"

definition devices_loaded ::
  "string \<Rightarrow> string option \<Rightarrow> DeviceHeartbeat list result \<Rightarrow> devices_page \<Rightarrow> page_result" where
  "devices_loaded self session r p =
     (case r of
        Inl e \<Rightarrow> Some (p\<lparr>dp_devices := []\<rparr>, [])
      | Inr hb \<Rightarrow>
          (let p1 = p\<lparr>dp_devices := map device_item (filter (\<lambda>m. dh_deviceId m \<noteq> self) hb)\<rparr>; want = dp_pending p
           in if want = [] then Some (p1, [])
              else if want \<in> fst ` set (dp_devices p1) then selectDevice self session want (p1\<lparr>dp_pending := []\<rparr>)
              else Some (p1\<lparr>dp_pending := []\<rparr>, [])))"

definition selectDeviceById :: "string option \<Rightarrow> string \<Rightarrow> devices_page \<Rightarrow> page_result" where
  "selectDeviceById session d p = page_refresh session (p\<lparr>dp_pending := d\<rparr>)"

definition thread_line :: "string \<Rightarrow> Message \<Rightarrow> string" where
  "thread_line self m =
     (if ms_senderDeviceId m = self then ''You'' else ''Them'') @ '': '' @
     (if ms_kind m = ''data'' then ''[shared stats]'' else ms_payload m)"

text \<open>The text of an exception; what is not a \<open>std::exception\<close> is an unknown error.\<close>

fun what_text :: "string \<Rightarrow> dash_error \<Rightarrow> string" where
  "what_text json_what Unauthorized = ''unknown error''"
| "what_text json_what (AuthError s) = s"
| "what_text json_what (ApiError s) = s"
| "what_text json_what JsonError = json_what"

definition thread_loaded :: "string \<Rightarrow> string \<Rightarrow> Message list result \<Rightarrow> devices_page \<Rightarrow> devices_page" where
  "thread_loaded json_what self r p =
     p\<lparr>dp_thread :=
         (case r of Inl e \<Rightarrow> [''Failed to load: '' @ what_text json_what e] | Inr ms \<Rightarrow> map (thread_line self) ms)\<rparr>"

definition page_message :: "string \<Rightarrow> string \<Rightarrow> string \<Rightarrow> string \<Rightarrow> Message" where
  "page_message self target kind payload =
     \<lparr>ms_id = 0, ms_senderDeviceId = self, ms_targetDeviceId = target, ms_kind = kind, ms_payload = payload,
      ms_createdAt = [], ms_readAt = None\<rparr>"

definition page_send :: "(string \<Rightarrow> string) \<Rightarrow> string \<Rightarrow> string option \<Rightarrow> devices_page \<Rightarrow> page_result" where
  "page_send trimmed self session p =
     (let t = trimmed (dp_input p)
      in if t = [] \<or> dp_selected p = [] then Some (p, [])
         else with_token session
                (\<lambda>tok. (p\<lparr>dp_input := []\<rparr>, [SendTo tok (page_message self (dp_selected p) ''message'' t)])))"

definition stats_payload :: "LiveStats \<Rightarrow> json" where
  "stats_payload live =
     JsObj [(''type'', JsStr ''stats_reply''), (''cpu_percent'', JsReal (lv_cpuPercent live)),
            (''ram_percent'', JsReal (lv_ramPercent live)), (''disk_percent'', JsReal (lv_diskPercent live))]"

definition shareStats :: "(json \<Rightarrow> string) \<Rightarrow> string \<Rightarrow> string option \<Rightarrow> LiveStats \<Rightarrow> devices_page \<Rightarrow> page_result" where
  "shareStats dump self session live p =
     (if dp_selected p = [] then Some (p, [])
      else with_token session
             (\<lambda>tok. (p, [SendTo tok (page_message self (dp_selected p) ''data'' (dump (stats_payload live)))])))"

section \<open>The page in the window\<close>

record devices_state =
  dv_page :: devices_page
  dv_jobs :: "devices_job list"
  dv_session :: "string option"   \<comment> \<open>the token \<open>loadDashSession\<close> finds\<close>

definition devices_start :: "string option \<Rightarrow> devices_state" where
  "devices_start session = \<lparr>dv_page = new_page, dv_jobs = [], dv_session = session\<rparr>"

definition page_does :: "devices_state \<Rightarrow> page_result \<Rightarrow> devices_state option" where
  "page_does s r = map_option (\<lambda>(p, js). s\<lparr>dv_page := p, dv_jobs := dv_jobs s @ js\<rparr>) r"

text \<open>What can happen to it: the user opens the section, chooses a machine of the sidebar or a device of
  the page, types, sends, shares; a reply arrives; the user logs in, out, or out in the settings dialog, which does
  not tell the page.\<close>

datatype devices_event =
    OpenPage
  | ChooseMachine string
  | ClickDevice nat
  | TypeText string
  | PressSend
  | PressShare LiveStats
  | ReplyArrives nat devices_reply
  | LogIn "string option"   \<comment> \<open>what is found after saving the session\<close>
  | LogOut
  | LogOutInSettings

definition drop_nth :: "nat \<Rightarrow> 'a list \<Rightarrow> 'a list" where
  "drop_nth k xs = take k xs @ drop (Suc k) xs"

record page_env =
  pe_self :: string
  pe_trimmed :: "string \<Rightarrow> string"
  pe_dump :: "json \<Rightarrow> string"
  pe_json_what :: string

definition reply_arrives :: "page_env \<Rightarrow> nat \<Rightarrow> devices_reply \<Rightarrow> devices_state \<Rightarrow> devices_state option" where
  "reply_arrives env k r s =
     (if length (dv_jobs s) \<le> k then Some s
      else
        (let s1 = s\<lparr>dv_jobs := drop_nth k (dv_jobs s)\<rparr>
         in case (dv_jobs s ! k, r) of
              (ListDevices tok, Devices hb) \<Rightarrow> page_does s1 (devices_loaded (pe_self env) (dv_session s) hb (dv_page s))
            | (LoadThread tok self other, Conversation ms) \<Rightarrow>
                Some (s1\<lparr>dv_page := thread_loaded (pe_json_what env) (pe_self env) ms (dv_page s)\<rparr>)
            | (SendTo tok m, Sent (Inr u)) \<Rightarrow> page_does s1 (loadThread (pe_self env) (dv_session s) (dv_page s))
            | (SendTo tok m, Sent (Inl e)) \<Rightarrow> Some s1
            | _ \<Rightarrow> Some s))"

definition refresh_window :: "devices_state \<Rightarrow> devices_state option" where
  "refresh_window s = page_does s (page_refresh (dv_session s) (dv_page s))"

fun devices_step :: "page_env \<Rightarrow> devices_event \<Rightarrow> devices_state \<Rightarrow> devices_state option" where
  "devices_step env OpenPage s = refresh_window s"
| "devices_step env (ChooseMachine d) s =
     Option.bind (refresh_window s) (\<lambda>s1. page_does s1 (selectDeviceById (dv_session s1) d (dv_page s1)))"
| "devices_step env (ClickDevice i) s =
     (if i < length (dp_devices (dv_page s))
      then page_does s (selectDevice (pe_self env) (dv_session s) (fst (dp_devices (dv_page s) ! i)) (dv_page s))
      else Some s)"
| "devices_step env (TypeText t) s =
     (if dp_enabled (dv_page s) then Some (s\<lparr>dv_page := (dv_page s)\<lparr>dp_input := t\<rparr>\<rparr>) else Some s)"
| "devices_step env PressSend s =
     (if dp_enabled (dv_page s) then page_does s (page_send (pe_trimmed env) (pe_self env) (dv_session s) (dv_page s))
      else Some s)"
| "devices_step env (PressShare live) s =
     (if dp_enabled (dv_page s)
      then page_does s (shareStats (pe_dump env) (pe_self env) (dv_session s) live (dv_page s)) else Some s)"
| "devices_step env (ReplyArrives k r) s = reply_arrives env k r s"
| "devices_step env (LogIn session) s =
     (if dv_session s = None then refresh_window (s\<lparr>dv_session := session\<rparr>) else Some s)"
| "devices_step env LogOut s =
     (if dv_session s = None then Some s else refresh_window (s\<lparr>dv_session := None\<rparr>))"
| "devices_step env LogOutInSettings s = Some (s\<lparr>dv_session := None\<rparr>)"

fun devices_run :: "page_env \<Rightarrow> devices_event list \<Rightarrow> devices_state \<Rightarrow> devices_state option" where
  "devices_run env [] s = Some s"
| "devices_run env (e # es) s = Option.bind (devices_step env e s) (devices_run env es)"

section \<open>Whom messages go to\<close>

definition listed :: "devices_event list \<Rightarrow> string set" where
  "listed es = {dh_deviceId m | k hb m. ReplyArrives k (Devices (Inr hb)) \<in> set es \<and> m \<in> set hb}"

text \<open>\<open>D\<close>: the devices that may be chosen.\<close>

definition page_ok :: "string set \<Rightarrow> devices_page \<Rightarrow> bool" where
  "page_ok D p \<longleftrightarrow>
     (dp_selected p = [] \<or> dp_selected p \<in> D) \<and> (\<forall>d \<in> set (dp_devices p). fst d \<in> D) \<and>
     (dp_selected p \<noteq> [] \<longrightarrow> dp_enabled p)"

fun job_ok :: "string \<Rightarrow> string set \<Rightarrow> devices_job \<Rightarrow> bool" where
  "job_ok self D (ListDevices tok) \<longleftrightarrow> True"
| "job_ok self D (LoadThread tok a b) \<longleftrightarrow> a = self \<and> b \<in> D"
| "job_ok self D (SendTo tok m) \<longleftrightarrow> ms_senderDeviceId m = self \<and> ms_targetDeviceId m \<in> D"

definition result_ok :: "string \<Rightarrow> string set \<Rightarrow> page_result \<Rightarrow> bool" where
  "result_ok self D r \<longleftrightarrow> (\<forall>p js. r = Some (p, js) \<longrightarrow> page_ok D p \<and> (\<forall>j \<in> set js. job_ok self D j))"

named_theorems page_ops

lemma result_ok_simps [page_ops]:
  "result_ok self D None" "result_ok self D (Some (p, js)) \<longleftrightarrow> page_ok D p \<and> (\<forall>j \<in> set js. job_ok self D j)"
  "result_ok self D (with_token t f) \<longleftrightarrow> (\<forall>tok. t = Some tok \<longrightarrow> result_ok self D (Some (f tok)))"
  by (auto simp: result_ok_def with_token_def split: option.splits)

lemma page_refresh_ok: "page_ok D p \<Longrightarrow> result_ok self D (page_refresh session p)"
  by (auto simp: page_refresh_def loadDevices_def page_ops page_ok_def)

lemma loadThread_ok: "page_ok D p \<Longrightarrow> result_ok self D (loadThread self session p)"
  by (auto simp: loadThread_def page_ops page_ok_def)

lemma selectDevice_ok: "page_ok D p \<Longrightarrow> d \<in> D \<Longrightarrow> result_ok self D (selectDevice self session d p)"
  unfolding selectDevice_def by (rule loadThread_ok) (simp add: page_ok_def)

lemma devices_loaded_ok:
  assumes "page_ok D p" and "\<And>hb. r = Inr hb \<Longrightarrow> dh_deviceId ` set hb - {self} \<subseteq> D"
  shows "result_ok self D (devices_loaded self session r p)"
proof (cases r)
  case (Inr hb)
  have D: "\<forall>d \<in> set (map device_item (filter (\<lambda>m. dh_deviceId m \<noteq> self) hb)). fst d \<in> D"
    using assms(2) [OF Inr] by (auto simp: device_item_def)
  then show ?thesis using assms(1) Inr
    by (auto simp: devices_loaded_def Let_def page_ops page_ok_def intro!: selectDevice_ok)
qed (use assms(1) in \<open>auto simp: devices_loaded_def page_ops page_ok_def\<close>)

lemma page_send_ok: "page_ok D p \<Longrightarrow> result_ok self D (page_send trimmed self session p)"
  by (auto simp: page_send_def Let_def page_ops page_ok_def page_message_def)

lemma shareStats_ok: "page_ok D p \<Longrightarrow> result_ok self D (shareStats dump self session live p)"
  by (auto simp: shareStats_def page_ops page_ok_def page_message_def)

definition devices_ok :: "string \<Rightarrow> string set \<Rightarrow> devices_state \<Rightarrow> bool" where
  "devices_ok self D s \<longleftrightarrow> page_ok D (dv_page s) \<and> (\<forall>j \<in> set (dv_jobs s). job_ok self D j)"

lemma page_does_ok:
  assumes "page_does s r = Some s'" and "result_ok self D r" and "devices_ok self D s"
  shows "devices_ok self D s'"
  using assms by (auto simp: page_does_def devices_ok_def result_ok_def)

lemma drop_nth_set: "set (drop_nth k xs) \<subseteq> set xs"
  by (auto simp: drop_nth_def dest: in_set_takeD in_set_dropD)

lemma reply_arrives_ok:
  assumes "devices_ok (pe_self env) D s" and "reply_arrives env k r s = Some s'"
    and "\<And>hb. r = Devices (Inr hb) \<Longrightarrow> dh_deviceId ` set hb - {pe_self env} \<subseteq> D"
  shows "devices_ok (pe_self env) D s'"
proof (cases "length (dv_jobs s) \<le> k")
  case False
  define s1 where "s1 = s\<lparr>dv_jobs := drop_nth k (dv_jobs s)\<rparr>"
  have s1: "devices_ok (pe_self env) D s1" using assms(1) drop_nth_set by (fastforce simp: devices_ok_def s1_def)
  have p: "page_ok D (dv_page s)" using assms(1) by (simp add: devices_ok_def)
  note step = page_does_ok [OF _ _ s1]
  have run: "(case (dv_jobs s ! k, r) of
        (ListDevices tok, Devices hb) \<Rightarrow> page_does s1 (devices_loaded (pe_self env) (dv_session s) hb (dv_page s))
      | (LoadThread tok self other, Conversation ms) \<Rightarrow>
          Some (s1\<lparr>dv_page := thread_loaded (pe_json_what env) (pe_self env) ms (dv_page s)\<rparr>)
      | (SendTo tok m, Sent (Inr u)) \<Rightarrow> page_does s1 (loadThread (pe_self env) (dv_session s) (dv_page s))
      | (SendTo tok m, Sent (Inl e)) \<Rightarrow> Some s1
      | _ \<Rightarrow> Some s) = Some s'"
    using assms(2) False unfolding reply_arrives_def s1_def Let_def by (simp only: if_False)
  show ?thesis
  proof (cases "dv_jobs s ! k")
    case (ListDevices tok)
    show ?thesis
    proof (cases r)
      case (Devices hb)
      then have "page_does s1 (devices_loaded (pe_self env) (dv_session s) hb (dv_page s)) = Some s'"
        using run ListDevices by simp
      then show ?thesis by (rule step) (rule devices_loaded_ok [OF p], use assms(3) Devices in blast)
    qed (use run ListDevices assms(1) in simp_all)
  next
    case (LoadThread tok a b)
    show ?thesis
    proof (cases r)
      case (Conversation ms)
      then show ?thesis using run LoadThread s1 by (auto simp: devices_ok_def s1_def thread_loaded_def page_ok_def)
    qed (use run LoadThread assms(1) in simp_all)
  next
    case (SendTo tok m)
    show ?thesis
    proof (cases r)
      case (Sent v)
      show ?thesis
      proof (cases v)
        case (Inl e)
        then show ?thesis using run SendTo Sent s1 by simp
      next
        case (Inr u)
        then have "page_does s1 (loadThread (pe_self env) (dv_session s) (dv_page s)) = Some s'"
          using run SendTo Sent by simp
        then show ?thesis by (rule step) (rule loadThread_ok [OF p])
      qed
    qed (use run SendTo assms(1) in simp_all)
  qed
qed (use assms in \<open>simp add: reply_arrives_def\<close>)

lemma refresh_window_ok: "refresh_window s = Some s' \<Longrightarrow> devices_ok self D s \<Longrightarrow> devices_ok self D s'"
  unfolding refresh_window_def
  by (erule page_does_ok [OF _ page_refresh_ok]) (simp_all add: devices_ok_def)

lemma devices_step_ok:
  assumes "devices_ok (pe_self env) D s" and "devices_step env e s = Some s'" and "listed [e] - {pe_self env} \<subseteq> D"
  shows "devices_ok (pe_self env) D s'"
proof -
  have p: "page_ok D (dv_page s)" using assms(1) by (simp add: devices_ok_def)
  have keep: "devices_ok (pe_self env) D (s\<lparr>dv_session := t\<rparr>)" for t using assms(1) by (simp add: devices_ok_def)
  note step = page_does_ok [OF _ _ assms(1)]
  show ?thesis
  proof (cases e)
    case OpenPage
    then show ?thesis using assms refresh_window_ok by simp
  next
    case (ChooseMachine d)
    then obtain s1 where s1: "refresh_window s = Some s1"
        "page_does s1 (selectDeviceById (dv_session s1) d (dv_page s1)) = Some s'"
      using assms(2) by (auto simp: Option.bind_eq_Some_conv)
    then have ok: "devices_ok (pe_self env) D s1" using refresh_window_ok assms(1) by blast
    then have "result_ok (pe_self env) D (selectDeviceById (dv_session s1) d (dv_page s1))"
      unfolding selectDeviceById_def by (intro page_refresh_ok) (simp add: devices_ok_def page_ok_def)
    then show ?thesis using page_does_ok s1(2) ok by blast
  next
    case (ClickDevice i)
    have "fst (dp_devices (dv_page s) ! i) \<in> D" if "i < length (dp_devices (dv_page s))"
      using p nth_mem [OF that] by (simp add: page_ok_def)
    then show ?thesis using ClickDevice assms(1,2) step selectDevice_ok [OF p] by (auto split: if_splits)
  next
    case (TypeText t)
    then show ?thesis using assms by (auto simp: devices_ok_def page_ok_def split: if_splits)
  next
    case PressSend
    then show ?thesis using assms(1,2) step page_send_ok [OF p] by (auto split: if_splits)
  next
    case (PressShare live)
    then show ?thesis using assms(1,2) step shareStats_ok [OF p] by (auto split: if_splits)
  next
    case (ReplyArrives k r)
    then show ?thesis using assms(2,3) by (intro reply_arrives_ok [OF assms(1)]) (auto simp: listed_def)
  next
    case (LogIn session)
    then show ?thesis using assms(1,2) refresh_window_ok keep by (auto split: if_splits)
  next
    case LogOut
    then show ?thesis using assms(1,2) refresh_window_ok keep by (auto split: if_splits)
  next
    case LogOutInSettings
    then show ?thesis using assms(2) keep by auto
  qed
qed

lemma listed_Cons: "listed (e # es) = listed [e] \<union> listed es"
  by (auto simp: listed_def)

lemma devices_run_ok:
  assumes "devices_run env es s = Some s'" and "devices_ok (pe_self env) D s" and "listed es - {pe_self env} \<subseteq> D"
  shows "devices_ok (pe_self env) D s'"
  using assms
proof (induction es arbitrary: s)
  case (Cons e es)
  then obtain s1 where s1: "devices_step env e s = Some s1" "devices_run env es s1 = Some s'"
    by (auto simp: Option.bind_eq_Some_conv)
  have "listed [e] - {pe_self env} \<subseteq> D" "listed es - {pe_self env} \<subseteq> D"
    using Cons.prems(3) listed_Cons [of e es] by auto
  then show ?case using Cons.IH s1 devices_step_ok [OF Cons.prems(2) s1(1)] by blast
qed simp

lemma devices_run_append: "devices_run env (es @ fs) s = Option.bind (devices_run env es s) (devices_run env fs)"
proof (induction es arbitrary: s)
  case (Cons e es)
  then show ?case by (cases "devices_step env e s") simp_all
qed simp

lemma devices_start_ok: "devices_ok self D (devices_start session)"
  by (simp add: devices_ok_def devices_start_def page_ok_def new_page_def)

text \<open>C28: Whatever the user does and in whatever order replies arrive, a message is only ever sent from this device to
  another one that the cloud has listed for the page, and a conversation is only loaded with such a one.\<close>

theorem messages_go_to_listed:
  assumes "devices_run env es (devices_start session) = Some s" and "j \<in> set (dv_jobs s)"
  shows "job_ok (pe_self env) (listed es - {pe_self env}) j"
  using devices_run_ok [OF assms(1) devices_start_ok subset_refl] assms(2) by (simp add: devices_ok_def)

definition demo_page :: page_env where
  "demo_page = \<lparr>pe_self = ''me'', pe_trimmed = id, pe_dump = (\<lambda>j. ''{}''), pe_json_what = ''json''\<rparr>"

definition demo_heartbeat :: "string \<Rightarrow> DeviceHeartbeat" where
  "demo_heartbeat d =
     \<lparr>dh_deviceId = d, dh_hostname = [], dh_lastSeen = [], dh_cpuPercent = 0, dh_ramPercent = 0, dh_diskPercent = 0\<rparr>"

text \<open>The page is opened, its list arrives, the first of two devices is chosen.\<close>

definition demo_choice :: "devices_event list" where
  "demo_choice =
     [OpenPage, ReplyArrives 0 (Devices (Inr [demo_heartbeat ''me'', demo_heartbeat ''a'', demo_heartbeat ''b''])),
      ClickDevice 0]"

lemmas demo_defs = demo_page_def demo_heartbeat_def demo_choice_def devices_start_def new_page_def refresh_window_def
  page_does_def page_refresh_def loadDevices_def with_token_def reply_arrives_def drop_nth_def devices_loaded_def
  device_item_def selectDevice_def loadThread_def

lemma demo_choice_run:
  "devices_run demo_page demo_choice (devices_start (Some ''t'')) =
     Some \<lparr>dv_page = new_page\<lparr>dp_devices := [(''a'', ''a''), (''b'', ''b'')], dp_selected := ''a'', dp_enabled := True\<rparr>,
           dv_jobs = [LoadThread ''t'' ''me'' ''a''], dv_session = Some ''t''\<rparr>"
  by (simp add: demo_defs Let_def)

lemma messages_go_to_listed_witness: "job_ok ''me'' (listed demo_choice - {''me''}) (LoadThread ''t'' ''me'' ''a'')"
  using messages_go_to_listed [OF demo_choice_run, of "LoadThread ''t'' ''me'' ''a''"] by (simp add: demo_page_def)

section \<open>When the session is gone\<close>

definition alive :: "devices_state \<Rightarrow> bool" where
  "alive s \<longleftrightarrow>
     (dv_session s = None \<longrightarrow> \<not> dp_enabled (dv_page s) \<and> dv_jobs s = [] \<and> dp_devices (dv_page s) = [])"

definition returns :: "page_result \<Rightarrow> bool" where
  "returns r \<longleftrightarrow> r \<noteq> None"

lemma returns_simps [page_ops]: "returns (Some x)" "returns (with_token (Some tok) f)"
  by (simp_all add: returns_def with_token_def)

lemma ops_return:
  "returns (page_refresh session p)"
  "returns (selectDeviceById session d p)"
  "session \<noteq> None \<Longrightarrow> returns (loadThread self session p)"
  "session \<noteq> None \<Longrightarrow> returns (selectDevice self session d p)"
  "session \<noteq> None \<Longrightarrow> returns (devices_loaded self session r p)"
  "session \<noteq> None \<Longrightarrow> returns (page_send trimmed self session p)"
  "session \<noteq> None \<Longrightarrow> returns (shareStats dump self session live p)"
  by (auto simp: page_refresh_def selectDeviceById_def loadDevices_def loadThread_def selectDevice_def devices_loaded_def
      page_send_def shareStats_def Let_def page_ops split: sum.splits)

text \<open>While there is a session, an operation returns and the session stays.\<close>

lemma page_does_alive:
  assumes "returns r" and "dv_session s \<noteq> None"
  shows "\<exists>s'. page_does s r = Some s' \<and> alive s'"
  using assms by (auto simp: returns_def page_does_def alive_def)

lemma refresh_window_alive:
  assumes "dv_session s = None \<Longrightarrow> \<not> dp_enabled (dv_page s) \<and> dv_jobs s = []"
  shows "\<exists>s'. refresh_window s = Some s' \<and> alive s' \<and> dv_session s' = dv_session s"
  using assms
  by (auto simp: refresh_window_def page_does_def page_refresh_def loadDevices_def with_token_def alive_def
      split: option.splits)

lemma reply_arrives_alive:
  assumes "alive s"
  shows "\<exists>s'. reply_arrives env k r s = Some s' \<and> alive s'"
proof (cases "length (dv_jobs s) \<le> k")
  case False
  then have ses: "dv_session s \<noteq> None" using assms by (auto simp: alive_def)
  define s1 where "s1 = s\<lparr>dv_jobs := drop_nth k (dv_jobs s)\<rparr>"
  have s1: "dv_session s1 \<noteq> None" using ses by (simp add: s1_def)
  note op = page_does_alive [OF _ s1]
  have keep: "alive s'" if "dv_session s' = dv_session s" for s' using ses that by (auto simp: alive_def)
  have "\<exists>s'. page_does s1 (devices_loaded (pe_self env) (dv_session s) hb (dv_page s)) = Some s' \<and> alive s'" for hb
    using op ops_return(5) [OF ses] by blast
  moreover have "\<exists>s'. page_does s1 (loadThread (pe_self env) (dv_session s) (dv_page s)) = Some s' \<and> alive s'"
    using op ops_return(3) [OF ses] by blast
  ultimately show ?thesis
    using False assms keep
    by (cases "dv_jobs s ! k"; cases r) (simp_all add: reply_arrives_def Let_def s1_def [symmetric] split: sum.splits,
        simp_all add: s1_def)
qed (use assms in \<open>simp add: reply_arrives_def\<close>)

lemma devices_step_alive:
  assumes "alive s" and "e \<noteq> LogOut" and "e \<noteq> LogOutInSettings"
  shows "\<exists>s'. devices_step env e s = Some s' \<and> alive s'"
proof -
  have quiet: "dv_session s = None \<Longrightarrow> \<not> dp_enabled (dv_page s) \<and> dv_jobs s = []" using assms(1) by (simp add: alive_def)
  have ses: "dp_enabled (dv_page s) \<or> dp_devices (dv_page s) \<noteq> [] \<Longrightarrow> dv_session s \<noteq> None"
    using assms(1) by (auto simp: alive_def)
  show ?thesis
  proof (cases e)
    case OpenPage
    then show ?thesis using refresh_window_alive [OF quiet] by auto
  next
    case (ChooseMachine d)
    obtain s1 where s1: "refresh_window s = Some s1" "alive s1" using refresh_window_alive [OF quiet] by blast
    let ?s = "s1\<lparr>dv_page := (dv_page s1)\<lparr>dp_pending := d\<rparr>\<rparr>"
    have "page_does s1 (selectDeviceById (dv_session s1) d (dv_page s1)) = refresh_window ?s"
      by (auto simp: refresh_window_def selectDeviceById_def page_does_def)
    moreover have "\<exists>s'. refresh_window ?s = Some s' \<and> alive s'"
      using refresh_window_alive [of ?s] s1(2) by (auto simp: alive_def)
    ultimately show ?thesis using ChooseMachine s1(1) by simp
  next
    case (ClickDevice i)
    then show ?thesis using assms(1) page_does_alive [OF ops_return(4)] ses by (cases "dp_devices (dv_page s) = []") auto
  next
    case (TypeText t)
    then show ?thesis using assms(1) by (auto simp: alive_def)
  next
    case PressSend
    then show ?thesis using assms(1) page_does_alive [OF ops_return(6)] ses by auto
  next
    case (PressShare live)
    then show ?thesis using assms(1) page_does_alive [OF ops_return(7)] ses by auto
  next
    case (ReplyArrives k r)
    then show ?thesis using reply_arrives_alive [OF assms(1)] by simp
  next
    case (LogIn session)
    then show ?thesis using assms(1) refresh_window_alive [of "s\<lparr>dv_session := session\<rparr>"] by (auto simp: alive_def)
  qed (use assms in simp_all)
qed

text \<open>As long as the user does not log out, the page never uses the token of a session that is not there,
  whatever is clicked before the first login and however late replies arrive.\<close>

theorem alive_until_logout:
  assumes "LogOut \<notin> set es" and "LogOutInSettings \<notin> set es"
  shows "devices_run env es (devices_start session) \<noteq> None"
proof -
  have "\<exists>s'. devices_run env es s = Some s'" if "alive s" for s
    using assms that
  proof (induction es arbitrary: s)
    case (Cons e es)
    then obtain s1 where "devices_step env e s = Some s1" "alive s1" using devices_step_alive [of s e env] by auto
    then show ?case using Cons by simp
  qed simp
  moreover have "alive (devices_start session)" by (simp add: alive_def devices_start_def new_page_def)
  ultimately show ?thesis by blast
qed

lemma alive_until_logout_witness: "devices_run demo_page demo_choice (devices_start None) \<noteq> None"
  by (rule alive_until_logout) (simp_all add: demo_choice_def)

text \<open>After a logout it does: neither way of logging out takes back the chosen device or disables the buttons, so
  with a device chosen one click on the button that shares the figures reads the token of no session.\<close>

theorem share_after_logout_crashes:
  assumes "devices_run env es (devices_start session) = Some s" and "dp_selected (dv_page s) \<noteq> []"
    and "dv_session s \<noteq> None" and "out = LogOut \<or> out = LogOutInSettings"
  shows "devices_run env (es @ [out, PressShare live]) (devices_start session) = None"
proof -
  have "devices_ok (pe_self env) UNIV s" using devices_run_ok [OF assms(1) devices_start_ok] by simp
  then have on: "dp_enabled (dv_page s)" using assms(2) by (simp add: devices_ok_def page_ok_def)
  have "devices_run env [out, PressShare live] s = None"
    using assms(2-4) on
    by (auto simp: refresh_window_def page_does_def page_refresh_def shareStats_def with_token_def)
  then show ?thesis by (simp add: devices_run_append assms(1))
qed

lemma share_after_logout_crashes_witness:
  "devices_run demo_page (demo_choice @ [LogOutInSettings, PressShare no_stats]) (devices_start (Some ''t'')) = None"
  by (rule share_after_logout_crashes [OF demo_choice_run]) (simp_all add: new_page_def)

text \<open>The page also keeps what belongs to the former account: after another login the next message still goes to the
  device chosen before, now with the token of the new account.\<close>

lemma choice_survives_account:
  "map_option dv_jobs (devices_run demo_page
     (demo_choice @ [ReplyArrives 0 (Conversation (Inr [])), LogOut, LogIn (Some ''u''), TypeText ''hi'', PressSend])
     (devices_start (Some ''t''))) =
   Some [ListDevices ''u'', SendTo ''u'' (page_message ''me'' ''a'' ''message'' ''hi'')]"
  by (simp add: devices_run_append demo_choice_run)
     (simp add: demo_defs thread_loaded_def page_send_def page_message_def)

section \<open>Which conversation is shown\<close>

text \<open>A reply is shown whoever is chosen by then.\<close>

lemma late_reply_shown:
  assumes "k < length (dv_jobs s)" and "dv_jobs s ! k = LoadThread tok self other"
    and "devices_step env (ReplyArrives k (Conversation (Inr ms))) s = Some s'"
  shows "dp_thread (dv_page s') = map (thread_line (pe_self env)) ms" "dp_selected (dv_page s') = dp_selected (dv_page s)"
  using assms by (auto simp: reply_arrives_def thread_loaded_def)

text \<open>Two devices are chosen one after the other and the first conversation arrives last: the page shows the
  conversation with the first while a message would go to the second.\<close>

lemma wrong_conversation_shown:
  "\<exists>s. devices_run demo_page (demo_choice @ [ClickDevice 1, ReplyArrives 1 (Conversation (Inr mb)),
        ReplyArrives 0 (Conversation (Inr ma))]) (devices_start (Some ''t'')) = Some s \<and>
     dp_selected (dv_page s) = ''b'' \<and> dp_thread (dv_page s) = map (thread_line ''me'') ma"
  by (simp add: devices_run_append demo_choice_run) (simp add: demo_defs thread_loaded_def)

end
