(* ===== verification/Dash_Export.thy ===== *)
theory Dash_Export
  imports Dash_Cloud Sys_Stats "HOL-Library.Multiset"
begin

text \<open>
  What the dashboard's window does with the figures and rows it has got: the CSV export of
  \<open>src/dashboard/ui/mainwindow.cpp\<close>, the alerts of \<open>rightpanel.cpp\<close>, the history of \<open>chartwidget.cpp\<close>, the sums by
  application of \<open>cloudpage.cpp\<close> and the states of the machines in \<open>machinessidebar.cpp\<close>. Widgets are only what
  they show.
\<close>

section \<open>CSV export\<close>

definition csvField :: "string \<Rightarrow> string" where
  "csvField s =
     (if CHR '','' \<notin> set s \<and> quo \<notin> set s \<and> nl \<notin> set s then s
      else quo # concat (map (\<lambda>c. if c = quo then [quo, quo] else [c]) s) @ [quo])"

definition csv_header :: string where
  "csv_header = ''device_id,process_name,window_title,duration_seconds,start_time,end_time'' @ [cr, nl]"

definition csv_line :: "RecentLog \<Rightarrow> string" where
  "csv_line l =
     csvField (rl_deviceId l) @ CHR '','' # csvField (rl_processName l) @ CHR '','' # csvField (rl_windowTitle l) @
     CHR '','' # show_int (rl_duration l) @ CHR '','' # show_int (rl_startTime l) @ CHR '','' # show_int (rl_endTime l) @
     [cr, nl]"

definition csv_text :: "RecentLog list \<Rightarrow> string" where
  "csv_text logs = csv_header @ concat (map csv_line logs)"

text \<open>A file opened with \<open>QIODevice::Text\<close> on Windows: every newline is written as CR LF.\<close>

definition text_mode :: "string \<Rightarrow> string" where
  "text_mode s = concat (map (\<lambda>c. if c = nl then [cr, nl] else [c]) s)"

text \<open>\<open>Inl\<close> is the warning that is shown.\<close>

definition exportCsv ::
  "'w cloud_env \<Rightarrow> string option \<Rightarrow> string option \<Rightarrow> bool \<Rightarrow> 'w http_state \<Rightarrow> (string + string) option \<times> 'w http_state" where
  "exportCsv env token path can_open st =
     (case token of
        None \<Rightarrow> (Some (Inl ''Log in first to export cloud-synced activity.''), st)
      | Some tok \<Rightarrow>
          (case path of
             None \<Rightarrow> (None, st)
           | Some p \<Rightarrow>
               (case recentLogs env tok 1000 st of
                  (Inl e, st') \<Rightarrow> (Some (Inl ''Export failed''), st')
                | (Inr logs, st') \<Rightarrow>
                    if can_open then (Some (Inr (text_mode (csv_text logs))), st')
                    else (Some (Inl ''Could not open file for writing.''), st'))))"

text \<open>A reader of CSV (RFC 4180): fields, quoted or not, lines ended by LF or CR LF.\<close>

fun csv_scan :: "bool \<Rightarrow> string \<Rightarrow> string list \<Rightarrow> string \<Rightarrow> string list list" where
  "csv_scan q f r [] = (if f = [] \<and> r = [] then [] else [r @ [f]])"
| "csv_scan True f r (c # cs) =
     (if c = quo
      then (case cs of
              [] \<Rightarrow> csv_scan False f r []
            | d # ds \<Rightarrow> if d = quo then csv_scan True (f @ [quo]) r ds else csv_scan False f r cs)
      else csv_scan True (f @ [c]) r cs)"
| "csv_scan False f r (c # cs) =
     (if c = CHR '','' then csv_scan False [] (r @ [f]) cs
      else if c = nl then (r @ [f]) # csv_scan False [] [] cs
      else if c = cr \<and> cs \<noteq> [] \<and> hd cs = nl then (r @ [f]) # csv_scan False [] [] (tl cs)
      else if c = quo \<and> f = [] then csv_scan True [] r cs
      else csv_scan False (f @ [c]) r cs)"

section \<open>Alerts\<close>

record alert_state =
  al_prev :: "bool list"
  al_list :: "nat list"   \<comment> \<open>newest first: 0 for CPU, 1 for RAM, 2 for disk\<close>

definition alert_init :: alert_state where
  "alert_init = \<lparr>al_prev = [False, False, False], al_list = []\<rparr>"

definition alerts_now :: "int \<times> int \<times> int \<Rightarrow> LiveStats \<Rightarrow> bool list" where
  "alerts_now t s =
     (case t of (cpu, ram, disk) \<Rightarrow>
        [of_int cpu \<le> lv_cpuPercent s, of_int ram \<le> lv_ramPercent s, of_int disk \<le> lv_diskPercent s])"

definition alert_step :: "bool list \<Rightarrow> alert_state \<Rightarrow> nat \<Rightarrow> alert_state" where
  "alert_step alerts a i =
     a\<lparr>al_list := (if alerts ! i \<and> \<not> al_prev a ! i then take 20 (i # al_list a) else al_list a),
       al_prev := (al_prev a)[i := alerts ! i]\<rparr>"

definition panel_tick :: "int \<times> int \<times> int \<Rightarrow> LiveStats \<Rightarrow> alert_state \<Rightarrow> alert_state" where
  "panel_tick t s a = foldl (alert_step (alerts_now t s)) a [0, 1, 2]"

section \<open>History\<close>

record chart_series =
  cs_values :: "rat list"

record chart =
  ch_series :: "chart_series list"
  ch_maxPoints :: int

definition setMaxPoints :: "int \<Rightarrow> chart \<Rightarrow> chart" where
  "setMaxPoints n c = c\<lparr>ch_maxPoints := max 2 n\<rparr>"

definition addSeries :: "chart \<Rightarrow> chart" where
  "addSeries c = c\<lparr>ch_series := ch_series c @ [\<lparr>cs_values = []\<rparr>]\<rparr>"

definition keep_last :: "int \<Rightarrow> 'a list \<Rightarrow> 'a list" where
  "keep_last n vs = drop (nat (int (length vs) - n)) vs"

definition pushValue :: "int \<Rightarrow> rat \<Rightarrow> chart \<Rightarrow> chart" where
  "pushValue i v c =
     (if i < 0 \<or> int (length (ch_series c)) \<le> i then c
      else
        (let s = ch_series c ! nat i
         in c\<lparr>ch_series := (ch_series c)[nat i := s\<lparr>cs_values := keep_last (ch_maxPoints c) (cs_values s @ [v])\<rparr>]\<rparr>))"

section \<open>Sums\<close>

text \<open>\<open>byApp\<close> is a \<open>std::map\<close>, so its entries come in the order of the names before they are sorted.\<close>

definition totals_by :: "('a \<Rightarrow> string) \<Rightarrow> ('a \<Rightarrow> int) \<Rightarrow> 'a list \<Rightarrow> (string \<times> int) list" where
  "totals_by name secs rows =
     map (\<lambda>k. (k, sum_list (map secs (filter (\<lambda>r. name r = k) rows)))) (sorted_list_of_set (name ` set rows))"

definition cloud_summary :: "DailyTotal list \<Rightarrow> (string \<times> int) list" where
  "cloud_summary totals = sort_key (\<lambda>kv. - snd kv) (totals_by dt_processName dt_totalSeconds totals)"

definition cloud_daily :: "DailyTotal list \<Rightarrow> (string \<times> int) list" where
  "cloud_daily totals = totals_by dt_day dt_totalSeconds totals"

definition child_summary :: "RecentLog list \<Rightarrow> (string \<times> int) list" where
  "child_summary logs = sort_key (\<lambda>kv. - snd kv) (totals_by rl_processName rl_duration logs)"

section \<open>Machines\<close>

datatype machine_status = Offline | Critical | Online

text \<open>\<open>age\<close>: seconds since the machine was last seen, \<open>None\<close> when the time cannot be read.\<close>

definition machine_status :: "int option \<Rightarrow> DeviceHeartbeat \<Rightarrow> machine_status" where
  "machine_status age m =
     (let offline = (case age of None \<Rightarrow> True | Some a \<Rightarrow> 300 < a);
          critical = (\<not> offline \<and> (85 \<le> dh_cpuPercent m \<or> 85 \<le> dh_ramPercent m \<or> 90 \<le> dh_diskPercent m))
      in if offline then Offline else if critical then Critical else Online)"

definition machine_label :: "string \<Rightarrow> DeviceHeartbeat \<Rightarrow> string" where
  "machine_label self m =
     (if dh_hostname m = [] then dh_deviceId m else dh_hostname m) @
     (if dh_deviceId m = self then '' (this PC)'' else [])"

section \<open>Facts\<close>

lemma csv_scan_plain:
  assumes "CHR '','' \<notin> set s" and "quo \<notin> set s" and "nl \<notin> set s" and "d = CHR '',''"
  shows "csv_scan False f r (s @ d # rest) = csv_scan False [] (r @ [f @ s]) rest"
  using assms
proof (induction s arbitrary: f)
  case (Cons c s)
  have "\<not> (s @ d # rest \<noteq> [] \<and> hd (s @ d # rest) = nl)" using Cons.prems by (cases s) auto
  then show ?case using Cons.IH [of "f @ [c]"] Cons.prems by auto
qed simp

lemma csv_scan_quoted:
  assumes "d \<noteq> quo"
  shows "csv_scan True f r (concat (map (\<lambda>c. if c = quo then [quo, quo] else [c]) s) @ quo # d # rest) =
    csv_scan False (f @ s) r (d # rest)"
  using assms by (induction s arbitrary: f) (simp_all del: csv_scan.simps(3))

lemma csv_scan_field: "csv_scan False [] r (csvField s @ CHR '','' # rest) = csv_scan False [] (r @ [s]) rest"
proof (cases "CHR '','' \<notin> set s \<and> quo \<notin> set s \<and> nl \<notin> set s")
  case True
  then show ?thesis using csv_scan_plain [of s "CHR '',''" "[]" r rest] by (simp add: csvField_def)
next
  case False
  then have "csvField s = quo # concat (map (\<lambda>c. if c = quo then [quo, quo] else [c]) s) @ [quo]"
    unfolding csvField_def by (simp only: if_False)
  then show ?thesis using csv_scan_quoted [of "CHR '',''" "[]" r s rest] by simp
qed

lemma csv_scan_end:
  assumes "CHR '','' \<notin> set s" and "quo \<notin> set s" and "nl \<notin> set s" and "cr \<notin> set s"
  shows "csv_scan False f r (s @ cr # nl # rest) = (r @ [f @ s]) # csv_scan False [] [] rest"
  using assms by (induction s arbitrary: f) auto

lemma show_int_csv: "CHR '','' \<notin> set (show_int i)" "quo \<notin> set (show_int i)" "nl \<notin> set (show_int i)" "cr \<notin> set (show_int i)"
  by (rule show_int_not_in; simp add: is_digit_def code_def)+

definition row_fields :: "RecentLog \<Rightarrow> string list" where
  "row_fields l = [rl_deviceId l, rl_processName l, rl_windowTitle l, show_int (rl_duration l), show_int (rl_startTime l), show_int (rl_endTime l)]"

lemma csv_scan_line: "csv_scan False [] [] (csv_line l @ rest) = row_fields l # csv_scan False [] [] rest"
  using csv_scan_plain [OF show_int_csv(1-3) refl, of "[]" _ "rl_duration l"]
    csv_scan_plain [OF show_int_csv(1-3) refl, of "[]" _ "rl_startTime l"]
    csv_scan_end [OF show_int_csv, of "[]" _ "rl_endTime l" rest]
  by (simp add: csv_line_def csv_scan_field row_fields_def del: csv_scan.simps)

definition header_fields :: "string list" where
  "header_fields = [''device_id'', ''process_name'', ''window_title'', ''duration_seconds'', ''start_time'', ''end_time'']"

lemma csv_scan_header: "csv_scan False [] [] (csv_header @ rest) = header_fields # csv_scan False [] [] rest"
  by (simp add: csv_header_def header_fields_def)

lemma csv_scan_rows: "csv_scan False [] [] (concat (map csv_line logs)) = map row_fields logs"
  by (induction logs) (simp_all add: csv_scan_line)


text \<open>A line end \<open>"\r\n"\<close> written through text mode becomes CR CR LF, so the last field of each line of the file, the
  time the record ended, carries a CR in a reader of CSV.\<close>

lemma text_mode_append: "text_mode (a @ b) = text_mode a @ text_mode b"
  by (simp add: text_mode_def)

lemma text_mode_plain: "nl \<notin> set s \<Longrightarrow> text_mode s = s"
  by (induction s) (auto simp: text_mode_def)

lemma export_doubles_cr:
  "hd (csv_scan False [] [] (text_mode (csv_text logs))) = butlast header_fields @ [last header_fields @ [cr]]"
proof -
  have "text_mode (csv_text logs) = text_mode csv_header @ text_mode (concat (map csv_line logs))"
    by (simp add: csv_text_def text_mode_append)
  also have "text_mode csv_header = butlast csv_header @ [cr, nl]"
    by (simp add: text_mode_def csv_header_def)
  finally show ?thesis by (simp add: csv_header_def header_fields_def)
qed

section \<open>Facts on alerts, charts and sums\<close>

text \<open>The same by its meaning: a figure crosses its threshold between one sample and the next.\<close>

definition crossings :: "bool list \<Rightarrow> bool list \<Rightarrow> nat list" where
  "crossings prev cur = filter (\<lambda>i. cur ! i \<and> \<not> prev ! i) [0, 1, 2]"

fun all_crossings :: "int \<times> int \<times> int \<Rightarrow> bool list \<Rightarrow> LiveStats list \<Rightarrow> nat list" where
  "all_crossings t prev [] = []"
| "all_crossings t prev (s # ss) = crossings prev (alerts_now t s) @ all_crossings t (alerts_now t s) ss"

lemma take_append_take: "take n (ys @ take n l) = take n (ys @ l)"
  by (simp add: take_append)

lemma panel_tick_prev:
  assumes "length (al_prev a) = 3"
  shows "al_prev (panel_tick t s a) = alerts_now t s"
proof -
  obtain p q r where p: "al_prev a = [p, q, r]" using assms by (auto simp: numeral_3_eq_3 length_Suc_conv)
  obtain x y z where x: "alerts_now t s = [x, y, z]" by (cases t) (simp add: alerts_now_def)
  show ?thesis by (simp add: panel_tick_def alert_step_def p x numeral_2_eq_2)
qed

lemma panel_tick_list:
  assumes "length (al_prev a) = 3" and "length (al_list a) \<le> 20"
  shows "al_list (panel_tick t s a) = take 20 (rev (crossings (al_prev a) (alerts_now t s)) @ al_list a)"
proof -
  obtain p q r where p: "al_prev a = [p, q, r]" using assms(1) by (auto simp: numeral_3_eq_3 length_Suc_conv)
  obtain x y z where x: "alerts_now t s = [x, y, z]" by (cases t) (simp add: alerts_now_def)
  show ?thesis
    using assms(2)
    by (cases x; cases y; cases z; cases p; cases q; cases r)
       (simp_all add: panel_tick_def alert_step_def crossings_def p x numeral_2_eq_2 take_Cons')
qed

lemma panel_ticks_list:
  assumes "length (al_prev a) = 3" and "length (al_list a) \<le> 20"
  shows "al_list (foldl (\<lambda>a s. panel_tick t s a) a samples) = take 20 (rev (all_crossings t (al_prev a) samples) @ al_list a)"
  using assms
proof (induction samples arbitrary: a)
  case (Cons s samples)
  have pr: "length (al_prev (panel_tick t s a)) = 3"
    by (simp add: panel_tick_prev Cons.prems(1)) (cases t; simp add: alerts_now_def)
  have le: "length (al_list (panel_tick t s a)) \<le> 20" by (simp add: panel_tick_list Cons.prems)
  have "al_list (foldl (\<lambda>a s. panel_tick t s a) a (s # samples)) =
      take 20 (rev (all_crossings t (alerts_now t s) samples) @
        take 20 (rev (crossings (al_prev a) (alerts_now t s)) @ al_list a))"
    using Cons.IH [OF pr le] by (simp only: foldl_Cons panel_tick_prev panel_tick_list Cons.prems)
  then show ?case by (simp only: take_append_take all_crossings.simps rev_append append_assoc)
qed simp

text \<open>Whatever samples the timer delivers, the alerts shown are the last twenty upward crossings of the thresholds,
  newest first: a figure that stays above its threshold is reported once, and again only after it
  has fallen below it.\<close>

theorem alerts_are_crossings:
  "al_list (foldl (\<lambda>a s. panel_tick t s a) alert_init samples) =
    take 20 (rev (all_crossings t [False, False, False] samples))"
  using panel_ticks_list [of alert_init t samples] by (simp add: alert_init_def)

text \<open>A chart keeps the latest values of each series, at most as many as its width asks for.\<close>

lemma keep_last_length: "0 \<le> n \<Longrightarrow> int (length (keep_last n vs)) \<le> n"
  by (simp add: keep_last_def)

lemma keep_last_append: "0 \<le> n \<Longrightarrow> keep_last n (keep_last n vs @ ws) = keep_last n (vs @ ws)"
  by (cases "int (length vs) \<le> n") (auto simp: keep_last_def nat_diff_distrib' nat_add_distrib add.commute)

lemma pushValues_keep_last:
  assumes "0 \<le> i" and "i < int (length (ch_series c))" and "0 \<le> ch_maxPoints c"
  shows "cs_values (ch_series (foldl (\<lambda>c v. pushValue i v c) c (v # vs)) ! nat i) =
    keep_last (ch_maxPoints c) (cs_values (ch_series c ! nat i) @ v # vs)"
  using assms
proof (induction vs arbitrary: c v)
  case Nil
  then show ?case by (simp add: pushValue_def Let_def)
next
  case (Cons w vs)
  let ?c = "pushValue i v c"
  have "i < int (length (ch_series ?c))" "0 \<le> ch_maxPoints ?c" "ch_maxPoints ?c = ch_maxPoints c"
    "cs_values (ch_series ?c ! nat i) = keep_last (ch_maxPoints c) (cs_values (ch_series c ! nat i) @ [v])"
    using Cons.prems by (simp_all add: pushValue_def Let_def)
  then show ?case using Cons.IH [of ?c w] Cons.prems by (simp add: keep_last_append)
qed

text \<open>Sums by name: each name once, and nothing is lost.\<close>

lemma totals_by_sum: "sum_list (map snd (totals_by name secs rows)) = sum_list (map secs rows)"
proof -
  have *: "sum_list (map secs rows) = (\<Sum>k\<leftarrow>ks. sum_list (map secs (filter (\<lambda>r. name r = k) rows)))"
    if "distinct ks" "name ` set rows \<subseteq> set ks" for ks
    using that(2)
  proof (induction rows)
    case (Cons r rows)
    have "(\<Sum>k\<leftarrow>ks. if name r = k then secs r else 0) = secs r"
      using that(1) Cons.prems by (simp add: sum_list_distinct_conv_sum_set)
    moreover have "(\<Sum>k\<leftarrow>ks. sum_list (map secs (filter (\<lambda>x. name x = k) (r # rows)))) =
      (\<Sum>k\<leftarrow>ks. (if name r = k then secs r else 0) + sum_list (map secs (filter (\<lambda>x. name x = k) rows)))"
      by (intro arg_cong [where f = sum_list] map_cong refl) simp
    ultimately show ?case using Cons by (simp add: sum_list_addf)
  qed simp
  show ?thesis by (simp add: totals_by_def comp_def * [of "sorted_list_of_set (name ` set rows)"])
qed

lemma cloud_summary_sum: "sum_list (map snd (cloud_summary totals)) = sum_list (map dt_totalSeconds totals)"
proof -
  have "mset (map snd (cloud_summary totals)) = mset (map snd (totals_by dt_processName dt_totalSeconds totals))"
    by (simp only: cloud_summary_def mset_map mset_sort)
  then have "sum_list (map snd (cloud_summary totals)) = sum_list (map snd (totals_by dt_processName dt_totalSeconds totals))"
    by (metis sum_mset_sum_list)
  then show ?thesis by (simp only: totals_by_sum)
qed

end
