(* ===== verification/Dash_Family.thy ===== *)
theory Dash_Family
  imports Dash_Devices Dash_Export "HOL-Library.Signed_Division"
begin

text \<open>
  \<open>src/dashboard/ui/pages/familypage.cpp\<close>: the page where a parent invites children, sees what they do and sets
  limits, as a state machine like the one of \<open>Dash_Devices\<close>: requests run in threads, replies arrive later and in
  any order, \<open>None\<close> is the use of an empty \<open>std::optional\<close>.
\<close>

section \<open>Pages whose requests are in flight\<close>

fun page_run :: "('e \<Rightarrow> 's \<Rightarrow> 's option) \<Rightarrow> 'e list \<Rightarrow> 's \<Rightarrow> 's option" where
  "page_run step [] s = Some s"
| "page_run step (e # es) s = Option.bind (step e s) (page_run step es)"

text \<open>What every event keeps of a state when all that it brings is known, a run keeps.\<close>

locale knowing_page =
  fixes step :: "'e \<Rightarrow> 's \<Rightarrow> 's option" and brings :: "'e \<Rightarrow> 'k set" and safe :: "'k set \<Rightarrow> 's \<Rightarrow> bool"
  assumes step_safe: "safe K s \<Longrightarrow> step e s = Some s' \<Longrightarrow> brings e \<subseteq> K \<Longrightarrow> safe K s'"
begin

lemma run_safe: "page_run step es s = Some s' \<Longrightarrow> safe K s \<Longrightarrow> (\<Union>e \<in> set es. brings e) \<subseteq> K \<Longrightarrow> safe K s'"
proof (induction es arbitrary: s)
  case (Cons e es)
  then obtain s1 where "step e s = Some s1" "page_run step es s1 = Some s'" by (auto simp: Option.bind_eq_Some_conv)
  then show ?case using Cons.IH [of s1] Cons.prems step_safe [of K s e s1] by auto
qed simp

end

section \<open>The page\<close>

definition fmtDuration :: "int \<Rightarrow> string" where
  "fmtDuration sec =
     (let h = sec sdiv 3600; m = sec smod 3600 sdiv 60
      in if 0 < h then show_int h @ ''h '' @ show_int m @ ''m'' else show_int m @ ''m'')"

record child_line =
  ch_email :: string
  ch_status :: string
  ch_id :: int
  ch_level :: string    \<comment> \<open>what the box of permissions shows\<close>
  ch_token :: string

record limit_shown =
  ll_process :: string
  ll_limit :: string
  ll_blocked :: string
  ll_id :: int
  ll_child :: string

record family_page =
  fm_notice :: bool
  fm_email :: string
  fm_children :: "child_line list"
  fm_parents :: "(string \<times> string \<times> string) list"
  fm_selector :: "(string \<times> string) list"    \<comment> \<open>email and user id\<close>
  fm_index :: int
  fm_summary :: "(string \<times> string) list"
  fm_limits :: "limit_shown list"
  fm_process :: string
  fm_minutes :: int
  fm_blocked :: bool
  fm_dialogs :: "string list"

definition new_family :: family_page where
  "new_family =
     \<lparr>fm_notice = False, fm_email = [], fm_children = [], fm_parents = [], fm_selector = [], fm_index = - 1,
      fm_summary = [], fm_limits = [], fm_process = [], fm_minutes = 0, fm_blocked = False, fm_dialogs = []\<rparr>"

datatype family_job =
    InviteJob string string
  | ChildrenJob string
  | ParentsJob string
  | PermissionJob string int string
  | ApproveJob string int
  | RevokeJob string int
  | SummaryJob string string int
  | LimitsJob string string
  | SetJob string string string "int option" bool
  | DeleteJob string int string          \<comment> \<open>token, limit, child\<close>

datatype family_reply =
    ChildLinks "ClientParentLink list result"
  | ParentLinks "ClientParentLink list result"
  | ChildLogs "RecentLog list result"
  | ChildLimits "ClientAppLimit list result"
  | Finished "unit result"

definition run_family_job :: "'w cloud_env \<Rightarrow> family_job \<Rightarrow> 'w http_state \<Rightarrow> family_reply \<times> 'w http_state" where
  "run_family_job env j st =
     (case j of
        InviteJob tok email \<Rightarrow> map_prod Finished id (inviteChild env tok email st)
      | ChildrenJob tok \<Rightarrow> map_prod ChildLinks id (listLinksAsParent env tok st)
      | ParentsJob tok \<Rightarrow> map_prod ParentLinks id (listLinksAsChild env tok st)
      | PermissionJob tok i level \<Rightarrow> map_prod Finished id (setPermission env tok i level st)
      | ApproveJob tok i \<Rightarrow> map_prod Finished id (approveLink env tok i st)
      | RevokeJob tok i \<Rightarrow> map_prod Finished id (revokeLink env tok i st)
      | SummaryJob tok c since \<Rightarrow> map_prod ChildLogs id (activityLogsForChild env tok c since 500 st)
      | LimitsJob tok c \<Rightarrow> map_prod ChildLimits id (listLimitsForChild env tok c st)
      | SetJob tok c proc secs blk \<Rightarrow> map_prod Finished id (setLimit env tok c proc secs blk st)
      | DeleteJob tok i c \<Rightarrow> map_prod Finished id (deleteLimit env tok i st))"

type_synonym family_result = "(family_page \<times> family_job list) option"

definition need_token :: "string option \<Rightarrow> (string \<Rightarrow> family_page \<times> family_job list) \<Rightarrow> family_result" where
  "need_token session f = (case session of None \<Rightarrow> None | Some tok \<Rightarrow> Some (f tok))"

definition loadChildren :: "string option \<Rightarrow> family_page \<Rightarrow> family_result" where
  "loadChildren session p = need_token session (\<lambda>tok. (p, [ChildrenJob tok]))"

definition family_page_refresh :: "string option \<Rightarrow> family_page \<Rightarrow> family_result" where
  "family_page_refresh session p =
     (case session of
        None \<Rightarrow> Some (p\<lparr>fm_notice := True, fm_children := [], fm_parents := [], fm_selector := [], fm_index := - 1\<rparr>, [])
      | Some tok \<Rightarrow> Some (p\<lparr>fm_notice := False\<rparr>, [ChildrenJob tok, ParentsJob tok]))"

definition loadChildSummaryAndLimits :: "int \<Rightarrow> string option \<Rightarrow> string \<Rightarrow> family_page \<Rightarrow> family_result" where
  "loadChildSummaryAndLimits now session childId p =
     need_token session (\<lambda>tok. (p, [SummaryJob tok childId (now - now mod 86400), LimitsJob tok childId]))"

definition onChildSelected :: "int \<Rightarrow> string option \<Rightarrow> family_page \<Rightarrow> family_result" where
  "onChildSelected now session p =
     (if fm_index p < 0 then Some (p, [])
      else loadChildSummaryAndLimits now session (snd (fm_selector p ! nat (fm_index p))) p)"

definition child_line_of :: "string option \<Rightarrow> ClientParentLink \<Rightarrow> child_line" where
  "child_line_of session l =
     \<lparr>ch_email = cl_otherEmail l, ch_status = cl_status l, ch_id = cl_id l, ch_level = ''full'',
      ch_token = (case session of Some tok \<Rightarrow> tok | None \<Rightarrow> [])\<rparr>"

definition is_approved :: "ClientParentLink \<Rightarrow> bool" where
  "is_approved l \<longleftrightarrow> cl_status l = ''approved''"

text \<open>An emptied selector selects its first item when it is added.\<close>

definition children_loaded :: "int \<Rightarrow> string option \<Rightarrow> ClientParentLink list result \<Rightarrow> family_page \<Rightarrow> family_result" where
  "children_loaded now session r p =
     (case r of
        Inl e \<Rightarrow> Some (p, [])
      | Inr links \<Rightarrow>
          (let items = map (\<lambda>l. (cl_otherEmail l, cl_otherUserId l)) (filter is_approved links)
           in onChildSelected now session
                (p\<lparr>fm_children := map (child_line_of session) links, fm_selector := items,
                   fm_index := (if items = [] then - 1 else 0)\<rparr>)))"

definition parents_loaded :: "ClientParentLink list result \<Rightarrow> family_page \<Rightarrow> family_page" where
  "parents_loaded r p =
     (case r of
        Inl e \<Rightarrow> p
      | Inr links \<Rightarrow> p\<lparr>fm_parents := map (\<lambda>l. (cl_otherEmail l, cl_status l, cl_createdAt l)) links\<rparr>)"

definition summary_loaded :: "RecentLog list result \<Rightarrow> family_page \<Rightarrow> family_page" where
  "summary_loaded r p =
     (case r of Inl e \<Rightarrow> p | Inr logs \<Rightarrow> p\<lparr>fm_summary := map (\<lambda>(proc, t). (proc, fmtDuration t)) (child_summary logs)\<rparr>)"

definition limit_line_of :: "string \<Rightarrow> ClientAppLimit \<Rightarrow> limit_shown" where
  "limit_line_of childId l =
     \<lparr>ll_process = ca_processName l,
      ll_limit = (case ca_dailyLimitSec l of Some s \<Rightarrow> fmtDuration s | None \<Rightarrow> ''No limit''),
      ll_blocked = (if ca_blocked l then ''Yes'' else ''No''), ll_id = ca_id l, ll_child = childId\<rparr>"

definition limits_loaded :: "string \<Rightarrow> ClientAppLimit list result \<Rightarrow> family_page \<Rightarrow> family_page" where
  "limits_loaded childId r p = (case r of Inl e \<Rightarrow> p | Inr ls \<Rightarrow> p\<lparr>fm_limits := map (limit_line_of childId) ls\<rparr>)"

definition family_invite :: "(string \<Rightarrow> string) \<Rightarrow> string option \<Rightarrow> family_page \<Rightarrow> family_result" where
  "family_invite trimmed session p =
     (let email = trimmed (fm_email p)
      in if email = [] then Some (p, []) else need_token session (\<lambda>tok. (p, [InviteJob tok email])))"

definition family_set :: "(string \<Rightarrow> string) \<Rightarrow> string option \<Rightarrow> family_page \<Rightarrow> family_result" where
  "family_set trimmed session p =
     (if fm_index p < 0 then Some (p\<lparr>fm_dialogs := fm_dialogs p @ [''Pick a child above first.'']\<rparr>, [])
      else
        (let childId = snd (fm_selector p ! nat (fm_index p)); proc = trimmed (fm_process p);
             minutes = (if 0 < fm_minutes p then Some (fm_minutes p * 60) else None)
         in if proc = [] then Some (p, [])
            else need_token session (\<lambda>tok. (p, [SetJob tok childId proc minutes (fm_blocked p)]))))"

text \<open>The button of a row.\<close>

definition family_action :: "string option \<Rightarrow> child_line \<Rightarrow> family_page \<Rightarrow> family_result" where
  "family_action session c p =
     need_token session (\<lambda>tok. (p, [if ch_status c = ''pending'' then ApproveJob tok (ch_id c) else RevokeJob tok (ch_id c)]))"

definition family_permission :: "nat \<Rightarrow> string \<Rightarrow> family_page \<Rightarrow> family_result" where
  "family_permission i level p =
     (let c = fm_children p ! i
      in if ch_level c = level then Some (p, [])
         else Some (p\<lparr>fm_children := (fm_children p)[i := c\<lparr>ch_level := level\<rparr>]\<rparr>, [PermissionJob (ch_token c) (ch_id c) level]))"

definition family_delete :: "string option \<Rightarrow> limit_shown \<Rightarrow> family_page \<Rightarrow> family_result" where
  "family_delete session l p = need_token session (\<lambda>tok. (p, [DeleteJob tok (ll_id l) (ll_child l)]))"

section \<open>The page in the window\<close>

record family_state =
  fs_page :: family_page
  fs_jobs :: "family_job list"
  fs_session :: "string option"

record family_env =
  fe_trimmed :: "string \<Rightarrow> string"
  fe_json_what :: string

datatype family_event =
    OpenFamily
  | TypeEmail string
  | PressInvite
  | PickPermission nat string
  | PressAction nat
  | PickChild nat
  | PressDelete nat
  | FillLimit string int bool
  | PressSetLimit
  | FamilyReply nat family_reply
  | FamilyLogIn "string option"
  | FamilyLogOut
  | FamilyLogOutInSettings

definition family_start :: "string option \<Rightarrow> family_state" where
  "family_start session = \<lparr>fs_page = new_family, fs_jobs = [], fs_session = session\<rparr>"

definition family_does :: "family_state \<Rightarrow> family_result \<Rightarrow> family_state option" where
  "family_does s r = map_option (\<lambda>(p, js). s\<lparr>fs_page := p, fs_jobs := fs_jobs s @ js\<rparr>) r"

definition failed_dialog :: "family_env \<Rightarrow> dash_error \<Rightarrow> family_page \<Rightarrow> family_page" where
  "failed_dialog env e p = p\<lparr>fm_dialogs := fm_dialogs p @ [what_text (fe_json_what env) e]\<rparr>"

fun job_done :: "family_env \<Rightarrow> int \<Rightarrow> string option \<Rightarrow> family_job \<Rightarrow> family_reply \<Rightarrow> family_page \<Rightarrow> family_result" where
  "job_done env now session (InviteJob tok email) (Finished r) p =
     (case r of Inl e \<Rightarrow> Some (failed_dialog env e p, []) | Inr u \<Rightarrow> loadChildren session (p\<lparr>fm_email := []\<rparr>))"
| "job_done env now session (ChildrenJob tok) (ChildLinks r) p = children_loaded now session r p"
| "job_done env now session (ParentsJob tok) (ParentLinks r) p = Some (parents_loaded r p, [])"
| "job_done env now session (ApproveJob tok i) (Finished r) p = loadChildren session p"
| "job_done env now session (RevokeJob tok i) (Finished r) p = loadChildren session p"
| "job_done env now session (SummaryJob tok c since) (ChildLogs r) p = Some (summary_loaded r p, [])"
| "job_done env now session (LimitsJob tok c) (ChildLimits r) p = Some (limits_loaded c r p, [])"
| "job_done env now session (SetJob tok c proc secs blk) (Finished r) p =
     (case r of
        Inl e \<Rightarrow> Some (failed_dialog env e p, [])
      | Inr u \<Rightarrow> loadChildSummaryAndLimits now session c (p\<lparr>fm_process := [], fm_minutes := 0, fm_blocked := False\<rparr>))"
| "job_done env now session (DeleteJob tok i c) (Finished r) p = loadChildSummaryAndLimits now session c p"
| "job_done env now session j r p = Some (p, [])"

definition family_step :: "family_env \<Rightarrow> int \<times> family_event \<Rightarrow> family_state \<Rightarrow> family_state option" where
  "family_step env te s =
     (let now = fst te; p = fs_page s; session = fs_session s
      in case snd te of
           OpenFamily \<Rightarrow> family_does s (family_page_refresh session p)
         | TypeEmail t \<Rightarrow> Some (s\<lparr>fs_page := p\<lparr>fm_email := t\<rparr>\<rparr>)
         | PressInvite \<Rightarrow> family_does s (family_invite (fe_trimmed env) session p)
         | PickPermission i level \<Rightarrow>
             if i < length (fm_children p) then family_does s (family_permission i level p) else Some s
         | PressAction i \<Rightarrow>
             if i < length (fm_children p) then family_does s (family_action session (fm_children p ! i) p) else Some s
         | PickChild i \<Rightarrow>
             if i < length (fm_selector p) \<and> int i \<noteq> fm_index p
             then family_does s (onChildSelected now session (p\<lparr>fm_index := int i\<rparr>)) else Some s
         | PressDelete i \<Rightarrow>
             if i < length (fm_limits p) then family_does s (family_delete session (fm_limits p ! i) p) else Some s
         | FillLimit proc minutes blk \<Rightarrow>
             Some (s\<lparr>fs_page := p\<lparr>fm_process := proc, fm_minutes := max 0 (min 1440 minutes), fm_blocked := blk\<rparr>\<rparr>)
         | PressSetLimit \<Rightarrow> family_does s (family_set (fe_trimmed env) session p)
         | FamilyReply k r \<Rightarrow>
             if k < length (fs_jobs s)
             then family_does (s\<lparr>fs_jobs := drop_nth k (fs_jobs s)\<rparr>) (job_done env now session (fs_jobs s ! k) r p)
             else Some s
         | FamilyLogIn found \<Rightarrow>
             if session = None then family_does (s\<lparr>fs_session := found\<rparr>) (family_page_refresh found p) else Some s
         | FamilyLogOut \<Rightarrow>
             if session = None then Some s
             else family_does (s\<lparr>fs_session := None\<rparr>) (family_page_refresh None p)
         | FamilyLogOutInSettings \<Rightarrow> Some (s\<lparr>fs_session := None\<rparr>))"


section \<open>Whom the requests concern\<close>

text \<open>What replies tell: children whose link is approved, links that are pending or not, limits.\<close>

datatype known = KnownChild string | KnownPending int | KnownLink int | KnownLimit int

fun reply_brings :: "family_reply \<Rightarrow> known set" where
  "reply_brings (ChildLinks (Inr ls)) =
     (KnownChild \<circ> cl_otherUserId) ` {l \<in> set ls. is_approved l} \<union>
     (\<lambda>l. if cl_status l = ''pending'' then KnownPending (cl_id l) else KnownLink (cl_id l)) ` set ls"
| "reply_brings (ChildLimits (Inr ls)) = (KnownLimit \<circ> ca_id) ` set ls"
| "reply_brings _ = {}"

definition family_brings :: "int \<times> family_event \<Rightarrow> known set" where
  "family_brings te = (case snd te of FamilyReply k r \<Rightarrow> reply_brings r | _ \<Rightarrow> {})"

fun job_known :: "known set \<Rightarrow> family_job \<Rightarrow> bool" where
  "job_known K (PermissionJob tok i level) \<longleftrightarrow> KnownPending i \<in> K \<or> KnownLink i \<in> K"
| "job_known K (ApproveJob tok i) \<longleftrightarrow> KnownPending i \<in> K"
| "job_known K (RevokeJob tok i) \<longleftrightarrow> KnownLink i \<in> K"
| "job_known K (SummaryJob tok c since) \<longleftrightarrow> KnownChild c \<in> K"
| "job_known K (LimitsJob tok c) \<longleftrightarrow> KnownChild c \<in> K"
| "job_known K (SetJob tok c proc secs blk) \<longleftrightarrow> KnownChild c \<in> K \<and> (\<forall>s. secs = Some s \<longrightarrow> 60 \<le> s \<and> s \<le> 86400)"
| "job_known K (DeleteJob tok i c) \<longleftrightarrow> KnownLimit i \<in> K \<and> KnownChild c \<in> K"
| "job_known K _ \<longleftrightarrow> True"

definition line_known :: "known set \<Rightarrow> child_line \<Rightarrow> bool" where
  "line_known K c \<longleftrightarrow> (if ch_status c = ''pending'' then KnownPending (ch_id c) \<in> K else KnownLink (ch_id c) \<in> K)"

definition family_known :: "known set \<Rightarrow> family_page \<Rightarrow> bool" where
  "family_known K p \<longleftrightarrow>
     (\<forall>c \<in> set (fm_children p). line_known K c) \<and> (\<forall>it \<in> set (fm_selector p). KnownChild (snd it) \<in> K) \<and>
     fm_index p < int (length (fm_selector p)) \<and>
     (\<forall>l \<in> set (fm_limits p). KnownLimit (ll_id l) \<in> K \<and> KnownChild (ll_child l) \<in> K) \<and>
     0 \<le> fm_minutes p \<and> fm_minutes p \<le> 1440"

definition result_known :: "known set \<Rightarrow> family_result \<Rightarrow> bool" where
  "result_known K r \<longleftrightarrow> (\<forall>p js. r = Some (p, js) \<longrightarrow> family_known K p \<and> list_all (job_known K) js)"

definition family_safe :: "known set \<Rightarrow> family_state \<Rightarrow> bool" where
  "family_safe K s \<longleftrightarrow> family_known K (fs_page s) \<and> list_all (job_known K) (fs_jobs s)"

lemma result_known_simps [simp]:
  "result_known K (Some (p, js)) \<longleftrightarrow> family_known K p \<and> list_all (job_known K) js"
  "result_known K (need_token session f) \<longleftrightarrow> (\<forall>tok. session = Some tok \<longrightarrow> result_known K (Some (f tok)))"
  by (auto simp: result_known_def need_token_def split: option.splits)

lemma selected_known:
  "family_known K p \<Longrightarrow> 0 \<le> fm_index p \<Longrightarrow> KnownChild (snd (fm_selector p ! nat (fm_index p))) \<in> K"
  by (simp add: family_known_def nat_less_iff)

lemma child_selected_known: "family_known K p \<Longrightarrow> result_known K (onChildSelected now session p)"
  using selected_known by (simp add: onChildSelected_def loadChildSummaryAndLimits_def)

lemma children_loaded_known:
  assumes "family_known K p" and "reply_brings (ChildLinks r) \<subseteq> K"
  shows "result_known K (children_loaded now session r p)"
proof (cases r)
  case (Inr links)
  let ?items = "map (\<lambda>l. (cl_otherEmail l, cl_otherUserId l)) (filter is_approved links)"
  let ?p = "p\<lparr>fm_children := map (child_line_of session) links, fm_selector := ?items, fm_index := (if ?items = [] then - 1 else 0)\<rparr>"
  have "line_known K (child_line_of session l)" if "l \<in> set links" for l
    using assms(2) Inr that by (auto simp: line_known_def child_line_of_def)
  moreover have "KnownChild (snd it) \<in> K" if "it \<in> set ?items" for it using assms(2) Inr that by auto
  ultimately have "family_known K ?p" using assms(1) by (auto simp: family_known_def)
  then have "result_known K (onChildSelected now session ?p)" by (rule child_selected_known)
  then show ?thesis using Inr by (simp add: children_loaded_def Let_def)
qed (use assms in \<open>simp add: children_loaded_def\<close>)

lemma page_known_frame [simp]:
  "family_known K (p\<lparr>fm_notice := n\<rparr>) = family_known K p" "family_known K (p\<lparr>fm_email := e\<rparr>) = family_known K p"
  "family_known K (failed_dialog env er p) = family_known K p" "family_known K (parents_loaded lr p) = family_known K p"
  "family_known K (summary_loaded sr p) = family_known K p"
  by (simp_all add: family_known_def failed_dialog_def parents_loaded_def summary_loaded_def split: sum.split)

lemma limits_loaded_known:
  "family_known K p \<Longrightarrow> KnownChild c \<in> K \<Longrightarrow> reply_brings (ChildLimits r) \<subseteq> K \<Longrightarrow> family_known K (limits_loaded c r p)"
  by (cases r) (auto simp: family_known_def limits_loaded_def limit_line_of_def)

lemma job_done_known:
  assumes "family_known K p" and "job_known K j" and "reply_brings r \<subseteq> K"
  shows "result_known K (job_done env now session j r p)"
proof -
  have cleared: "family_known K (p\<lparr>fm_process := [], fm_minutes := 0, fm_blocked := False\<rparr>)"
    using assms(1) by (simp add: family_known_def)
  note simps = loadChildren_def loadChildSummaryAndLimits_def
  show ?thesis
  proof (cases r)
    case (ChildLinks lr)
    then show ?thesis using assms children_loaded_known by (cases j) simp_all
  next
    case (ParentLinks lr)
    then show ?thesis using assms by (cases j) simp_all
  next
    case (ChildLogs sr)
    then show ?thesis using assms by (cases j) simp_all
  next
    case (ChildLimits sr)
    then show ?thesis using assms limits_loaded_known by (cases j) simp_all
  next
    case (Finished u)
    then show ?thesis using assms cleared by (cases j) (simp_all add: simps split: sum.split)
  qed
qed

lemma family_does_safe: "family_safe K s \<Longrightarrow> result_known K r \<Longrightarrow> family_does s r = Some s' \<Longrightarrow> family_safe K s'"
  by (auto simp: family_does_def family_safe_def result_known_def)

lemma refresh_known: "family_known K p \<Longrightarrow> result_known K (family_page_refresh session p)"
  by (auto simp: family_page_refresh_def family_known_def split: option.split)

lemma family_step_safe:
  assumes "family_safe K s" and "family_step env te s = Some s'" and "family_brings te \<subseteq> K"
  shows "family_safe K s'"
proof -
  obtain now e where te: "te = (now, e)" by (cases te)
  have p: "family_known K (fs_page s)" and js: "list_all (job_known K) (fs_jobs s)" using assms(1) by (simp_all add: family_safe_def)
  have ses: "family_safe K (s\<lparr>fs_session := x\<rparr>)" for x using assms(1) by (simp add: family_safe_def)
  note does = family_does_safe [OF assms(1)]
  note run = assms(2) [unfolded te family_step_def Let_def, simplified]
  show ?thesis
  proof (cases e)
    case OpenFamily
    then show ?thesis using run by (auto intro: does [OF refresh_known [OF p]])
  next
    case (TypeEmail t)
    then show ?thesis using run p js by (auto simp: family_safe_def)
  next
    case PressInvite
    moreover have "result_known K (family_invite (fe_trimmed env) (fs_session s) (fs_page s))"
      using p by (simp add: family_invite_def Let_def)
    ultimately show ?thesis using run does by auto
  next
    case (PickPermission i level)
    have "result_known K (family_permission i level (fs_page s))" if i: "i < length (fm_children (fs_page s))"
    proof -
      let ?c = "fm_children (fs_page s) ! i"
      have c: "line_known K ?c" using p i by (simp add: family_known_def)
      then have "line_known K (?c\<lparr>ch_level := level\<rparr>)" by (simp add: line_known_def)
      then have "\<forall>x \<in> set ((fm_children (fs_page s))[i := ?c\<lparr>ch_level := level\<rparr>]). line_known K x"
        using p set_update_subset_insert [of "fm_children (fs_page s)" i "?c\<lparr>ch_level := level\<rparr>"]
        by (auto simp: family_known_def)
      then have "family_known K ((fs_page s)\<lparr>fm_children := (fm_children (fs_page s))[i := ?c\<lparr>ch_level := level\<rparr>]\<rparr>)"
        using p by (simp add: family_known_def)
      moreover have "job_known K (PermissionJob (ch_token ?c) (ch_id ?c) level)"
        using c by (simp add: line_known_def split: if_splits)
      ultimately show ?thesis using p by (simp add: family_permission_def Let_def)
    qed
    then show ?thesis using PickPermission run does assms(1) by (auto split: if_splits)
  next
    case (PressAction i)
    have "result_known K (family_action (fs_session s) (fm_children (fs_page s) ! i) (fs_page s))"
      if "i < length (fm_children (fs_page s))"
      using p that by (auto simp: family_action_def family_known_def line_known_def split: if_splits)
    then show ?thesis using PressAction run does assms(1) by (auto split: if_splits)
  next
    case (PickChild i)
    have "result_known K (onChildSelected now (fs_session s) ((fs_page s)\<lparr>fm_index := int i\<rparr>))"
      if "i < length (fm_selector (fs_page s))"
      using p that by (intro child_selected_known) (simp add: family_known_def)
    then show ?thesis using PickChild run does assms(1) by (auto split: if_splits)
  next
    case (PressDelete i)
    have "result_known K (family_delete (fs_session s) (fm_limits (fs_page s) ! i) (fs_page s))"
      if "i < length (fm_limits (fs_page s))"
      using p that by (auto simp: family_delete_def family_known_def)
    then show ?thesis using PressDelete run does assms(1) by (auto split: if_splits)
  next
    case (FillLimit proc minutes blk)
    then show ?thesis using run p js by (auto simp: family_safe_def family_known_def)
  next
    case PressSetLimit
    have "result_known K (family_set (fe_trimmed env) (fs_session s) (fs_page s))"
      using p selected_known [OF p] by (auto simp: family_set_def Let_def family_known_def)
    then show ?thesis using PressSetLimit run does by auto
  next
    case (FamilyReply k r)
    show ?thesis
    proof (cases "k < length (fs_jobs s)")
      case True
      have "list_all (job_known K) (drop_nth k (fs_jobs s))" using js drop_nth_set by (fastforce simp: list_all_iff)
      then have "family_safe K (s\<lparr>fs_jobs := drop_nth k (fs_jobs s)\<rparr>)" using p by (simp add: family_safe_def)
      moreover have "job_known K (fs_jobs s ! k)" using js True by (simp add: list_all_length)
      moreover have "reply_brings r \<subseteq> K" using assms(3) te FamilyReply by (simp add: family_brings_def)
      ultimately show ?thesis using run True FamilyReply family_does_safe job_done_known [OF p] by simp blast
    qed (use run FamilyReply assms(1) in simp)
  next
    case (FamilyLogIn found)
    then show ?thesis using run assms(1) family_does_safe [OF ses refresh_known] p by (auto split: if_splits)
  next
    case FamilyLogOut
    then show ?thesis using run assms(1) family_does_safe [OF ses refresh_known] p by (auto split: if_splits)
  next
    case FamilyLogOutInSettings
    then show ?thesis using run ses [of None] by simp
  qed
qed


interpretation family: knowing_page "family_step env" family_brings family_safe for env
  by unfold_locales (rule family_step_safe)

lemma family_start_safe: "family_safe K (family_start session)"
  by (simp add: family_safe_def family_start_def family_known_def new_family_def)

text \<open>C34: Whatever the user does and in whatever order replies arrive: a limit is set, read or deleted and activity is read
  only for a child whose link a reply has listed as approved, limits are between a minute and a day, only limits a reply
  has listed are deleted, and only links a reply has listed are approved, when pending, or revoked, when not.\<close>

theorem family_requests_listed:
  assumes "page_run (family_step env) es (family_start session) = Some s" and "j \<in> set (fs_jobs s)"
  shows "job_known (\<Union>e \<in> set es. family_brings e) j"
  using family.run_safe [OF assms(1) family_start_safe subset_refl] assms(2) by (simp add: family_safe_def list_all_iff)

definition demo_family_env :: family_env where
  "demo_family_env = \<lparr>fe_trimmed = id, fe_json_what = ''json''\<rparr>"

definition demo_client_link :: "int \<Rightarrow> string \<Rightarrow> string \<Rightarrow> ClientParentLink" where
  "demo_client_link i u st =
     \<lparr>cl_id = i, cl_otherUserId = u, cl_otherEmail = u, cl_status = st, cl_createdAt = [], cl_approvedAt = None\<rparr>"

definition two_children :: "ClientParentLink list" where
  "two_children = [demo_client_link 1 ''ann'' ''approved'', demo_client_link 2 ''bob'' ''approved'']"

definition demo_family_run :: "(int \<times> family_event) list" where
  "demo_family_run =
     [(0, OpenFamily), (0, FamilyReply 0 (ChildLinks (Inr two_children))), (0, PickChild 1), (0, FillLimit ''game'' 30 False),
      (0, PressSetLimit)]"

lemmas family_eval = family_step_def family_does_def family_page_refresh_def need_token_def children_loaded_def
  onChildSelected_def loadChildSummaryAndLimits_def child_line_of_def is_approved_def family_set_def drop_nth_def
  two_children_def demo_client_link_def demo_family_env_def new_family_def family_start_def

lemma demo_family_runs:
  "\<exists>s. page_run (family_step demo_family_env) demo_family_run (family_start (Some ''tok'')) = Some s \<and>
     SetJob ''tok'' ''bob'' ''game'' (Some 1800) False \<in> set (fs_jobs s) \<and> fm_index (fs_page s) = 1"
  by (simp add: demo_family_run_def family_eval Let_def)

lemma family_requests_listed_witness:
  "job_known (\<Union>e \<in> set demo_family_run. family_brings e) (SetJob ''tok'' ''bob'' ''game'' (Some 1800) False)"
proof -
  obtain s where "page_run (family_step demo_family_env) demo_family_run (family_start (Some ''tok'')) = Some s"
    "SetJob ''tok'' ''bob'' ''game'' (Some 1800) False \<in> set (fs_jobs s)"
    using demo_family_runs by blast
  then show ?thesis by (rule family_requests_listed)
qed

section \<open>What goes wrong\<close>

text \<open>Every reload of the children, after an invitation, an approval or a revocation, moves the choice back to the first
  approved child and keeps the filled form: the limit that is set next goes to that child, whichever was chosen.\<close>

theorem reload_changes_child:
  assumes "filter is_approved links = l # rest" and "trimmed (fm_process p) \<noteq> []" and "session = Some tok"
  shows "\<exists>p' js. children_loaded now session (Inr links) p = Some (p', js) \<and> fm_process p' = fm_process p \<and>
    (\<exists>secs. family_set trimmed session p' = Some (p', [SetJob tok (cl_otherUserId l) (trimmed (fm_process p)) secs (fm_blocked p)]))"
  using assms by (simp add: children_loaded_def Let_def onChildSelected_def loadChildSummaryAndLimits_def need_token_def family_set_def)

lemma reload_changes_child_witness:
  "\<exists>p' js. children_loaded 0 (Some ''tok'') (Inr two_children) (new_family\<lparr>fm_process := ''game'', fm_index := 1\<rparr>) = Some (p', js) \<and>
    fm_process p' = ''game'' \<and>
    (\<exists>secs. family_set id (Some ''tok'') p' = Some (p', [SetJob ''tok'' ''ann'' ''game'' secs False]))"
proof -
  have a: "filter is_approved two_children = demo_client_link 1 ''ann'' ''approved'' # [demo_client_link 2 ''bob'' ''approved'']"
    by (simp add: two_children_def demo_client_link_def is_approved_def)
  show ?thesis
    using reload_changes_child [OF a, of id "new_family\<lparr>fm_process := ''game'', fm_index := 1\<rparr>" "Some ''tok''" "''tok''" 0]
    by (simp add: new_family_def demo_client_link_def)
qed

text \<open>After a logout what the child did today and its limits stay on the screen.\<close>

lemma logout_keeps_child_data:
  "family_page_refresh None p = Some (p', js) \<Longrightarrow> fm_summary p' = fm_summary p \<and> fm_limits p' = fm_limits p"
  by (auto simp: family_page_refresh_def)

text \<open>The button of the invitation uses the token of a session without looking whether there is one; so does the end of a
  request that was sent before the logout.\<close>

lemma invite_after_logout_crashes:
  "trimmed (fm_email p) \<noteq> [] \<Longrightarrow> family_invite trimmed None p = None"
  "job_done env now None (RevokeJob tok i) (Finished r) p = None"
  by (simp_all add: family_invite_def need_token_def loadChildren_def)

text \<open>The reply of one child's limits is shown under whichever child is selected when it arrives.\<close>

lemma late_limits_shown:
  "job_done env now session (LimitsJob tok c) (ChildLimits (Inr ls)) p = Some (p\<lparr>fm_limits := map (limit_line_of c) ls\<rparr>, [])"
  by (simp add: limits_loaded_def)

end
