(* ===== verification/Dash_Local.thy ===== *)
theory Dash_Local
  imports Activity_Db
begin

text \<open>
  \<open>src/dashboard/localdb.cpp\<close>: the dashboard reads the agent's table, and only reads it. A database
  handle is the list of rows it shows; the success of preparing a statement is a parameter, and so are
  the date of a day's start in local time and the order in which SQLite lists rows with equal times.
\<close>

section \<open>Data\<close>

record AppUsage =
  au_processName :: string
  au_totalSeconds :: int

record Activity =
  ac_processName :: string
  ac_windowTitle :: string
  ac_duration :: int
  ac_startTime :: int
  ac_endTime :: int
  ac_synced :: bool

record DayTotal =
  dt_date :: string
  dt_totalSeconds :: int

type_synonym local_db = "row list option"

section \<open>Queries\<close>

definition LocalDB_open :: "bool \<Rightarrow> row list \<Rightarrow> local_db" where
  "LocalDB_open ok rows = (if ok then Some rows else None)"

definition not_available :: string where
  "not_available = ''local database not available''"

definition in_range :: "int \<Rightarrow> int \<Rightarrow> row \<Rightarrow> bool" where
  "in_range a b r \<longleftrightarrow> a \<le> r_start r \<and> r_start r < b"

text \<open>\<open>GROUP BY process_name ORDER BY total DESC LIMIT n\<close>: groups come in the order of their names.\<close>

definition usage_query :: "int \<Rightarrow> int \<Rightarrow> nat \<Rightarrow> row list \<Rightarrow> (string \<times> int) list" where
  "usage_query a b n rows =
     (let hits = filter (in_range a b) rows
      in take n (sort_key (\<lambda>(p, t). - t)
           (map (\<lambda>p. (p, sum_list (map r_duration (filter (\<lambda>r. r_process_name r = p) hits))))
              (sort_key (map code) (remdups (map r_process_name hits))))))"

text \<open>Each query returns the rows and, where it fails, the message (\<open>sqlite3_errmsg\<close> as \<open>errmsg\<close>).\<close>

definition usageInRange :: "string option \<Rightarrow> int \<Rightarrow> int \<Rightarrow> local_db \<Rightarrow> AppUsage list \<times> string option" where
  "usageInRange errmsg a b db =
     (case db of
        None \<Rightarrow> ([], Some not_available)
      | Some rows \<Rightarrow>
          (case errmsg of
             Some e \<Rightarrow> ([], Some e)
           | None \<Rightarrow> (map (\<lambda>(p, t). \<lparr>au_processName = c_str p, au_totalSeconds = t\<rparr>) (usage_query a b 20 rows), None)))"

definition range_total :: "int \<Rightarrow> int \<Rightarrow> row list \<Rightarrow> int" where
  "range_total a b rows = sum_list (map r_duration (filter (in_range a b) rows))"

text \<open>The loop over the boundaries; \<open>errmsg i\<close> is the failure of the \<open>i\<close>-th statement.\<close>

fun day_loop :: "(nat \<Rightarrow> string option) \<Rightarrow> (int \<Rightarrow> string) \<Rightarrow> row list \<Rightarrow> nat \<Rightarrow> int list \<Rightarrow> DayTotal list \<times> string option" where
  "day_loop errmsg fmt rows i (a # b # bs) =
     (case errmsg i of
        Some e \<Rightarrow> ([], Some e)
      | None \<Rightarrow>
          (let (out, err) = day_loop errmsg fmt rows (Suc i) (b # bs)
           in (\<lparr>dt_date = fmt a, dt_totalSeconds = range_total a b rows\<rparr> # out, err)))"
| "day_loop errmsg fmt rows i bs = ([], None)"

definition dailyTotalsInRange ::
  "(nat \<Rightarrow> string option) \<Rightarrow> (int \<Rightarrow> string) \<Rightarrow> int list \<Rightarrow> local_db \<Rightarrow> DayTotal list \<times> string option" where
  "dailyTotalsInRange errmsg fmt bs db =
     (case db of
        None \<Rightarrow> ([], Some not_available)
      | Some rows \<Rightarrow> if length bs < 2 then ([], None) else day_loop errmsg fmt rows 0 bs)"

definition activity_of_row :: "row \<Rightarrow> Activity" where
  "activity_of_row r =
     \<lparr>ac_processName = c_str (r_process_name r), ac_windowTitle = c_str (r_window_title r),
      ac_duration = r_duration r, ac_startTime = r_start r, ac_endTime = r_end r, ac_synced = (to_i32 (r_synced r) \<noteq> 0)\<rparr>"

text \<open>A negative \<open>LIMIT\<close> is no limit in SQLite; \<open>tie\<close> orders rows that start at the same time.\<close>

definition recentActivities ::
  "string option \<Rightarrow> (row \<Rightarrow> int) \<Rightarrow> int \<Rightarrow> local_db \<Rightarrow> Activity list \<times> string option" where
  "recentActivities errmsg tie limit db =
     (case db of
        None \<Rightarrow> ([], Some not_available)
      | Some rows \<Rightarrow>
          (case errmsg of
             Some e \<Rightarrow> ([], Some e)
           | None \<Rightarrow>
               (let sorted_rows = sort_key (\<lambda>r. (- r_start r, tie r)) rows
                in (map activity_of_row (if limit < 0 then sorted_rows else take (nat limit) sorted_rows), None))))"

definition activitiesForDay ::
  "string option \<Rightarrow> (row \<Rightarrow> int) \<Rightarrow> int \<Rightarrow> int \<Rightarrow> local_db \<Rightarrow> Activity list \<times> string option" where
  "activitiesForDay errmsg tie dayStart dayEnd db =
     (case db of
        None \<Rightarrow> ([], Some not_available)
      | Some rows \<Rightarrow>
          (case errmsg of
             Some e \<Rightarrow> ([], Some e)
           | None \<Rightarrow>
               (map activity_of_row (sort_key (\<lambda>r. (r_start r, tie r)) (filter (in_range dayStart dayEnd) rows)), None)))"

section \<open>Properties\<close>

lemma range_total_split:
  assumes "a \<le> b" and "b \<le> c"
  shows "range_total a c rows = range_total a b rows + range_total b c rows"
  using assms by (induction rows) (auto simp: range_total_def in_range_def)

lemma sorted_hd_last: "sorted (a # bs) \<Longrightarrow> (a :: int) \<le> last (a # bs)"
  by (cases bs rule: rev_cases) (auto simp: sorted_append)

lemma day_loop_ok:
  "\<forall>i. errmsg i = None \<Longrightarrow> sorted bs \<Longrightarrow> bs \<noteq> [] \<Longrightarrow>
   snd (day_loop errmsg fmt rows i bs) = None \<and>
   length (fst (day_loop errmsg fmt rows i bs)) = length bs - 1 \<and>
   sum_list (map dt_totalSeconds (fst (day_loop errmsg fmt rows i bs))) = range_total (hd bs) (last bs) rows"
proof (induction errmsg fmt rows i bs rule: day_loop.induct)
  case (1 errmsg fmt rows i a b bs)
  obtain out err where o: "day_loop errmsg fmt rows (Suc i) (b # bs) = (out, err)"
    by (cases "day_loop errmsg fmt rows (Suc i) (b # bs)")
  have e: "errmsg i = None" and ab: "a \<le> b" using "1.prems" by simp_all
  have "sorted (b # bs)" using "1.prems"(2) by simp
  with "1.IH" [OF e "1.prems"(1)] o have ih: "err = None" "length out = length bs"
    "sum_list (map dt_totalSeconds out) = range_total b (last (b # bs)) rows" by simp_all
  have "range_total a (last (b # bs)) rows = range_total a b rows + range_total b (last (b # bs)) rows"
    using ab sorted_hd_last [OF \<open>sorted (b # bs)\<close>] by (rule range_total_split)
  then show ?case using e o ih by simp
qed (simp_all add: range_total_def in_range_def)

text \<open>The days of a week add up: over increasing day boundaries the dashboard shows one total per day,
  and their sum is the total of the whole range, so no second is counted twice or dropped at midnight.\<close>

theorem daily_totals_add_up:
  assumes "\<forall>i. errmsg i = None" and "sorted bs" and "2 \<le> length bs"
    and "dailyTotalsInRange errmsg fmt bs (Some rows) = (days, err)"
  shows "err = None \<and> length days = length bs - 1 \<and>
    sum_list (map dt_totalSeconds days) = range_total (hd bs) (last bs) rows"
proof -
  have "bs \<noteq> []" using assms(3) by auto
  from day_loop_ok [OF assms(1,2) this, of fmt rows 0] show ?thesis
    using assms(3,4) by (simp add: dailyTotalsInRange_def)
qed

lemma daily_totals_add_up_witness:
  "sum_list (map dt_totalSeconds (fst (dailyTotalsInRange (\<lambda>_. None) (\<lambda>_. []) [0, 600, 1200] (Some (db_rows db1))))) = 60"
proof -
  obtain days err where d: "dailyTotalsInRange (\<lambda>_. None) (\<lambda>_. []) [0, 600, 1200] (Some (db_rows db1)) = (days, err)"
    by (cases "dailyTotalsInRange (\<lambda>_. None) (\<lambda>_. []) [0, 600, 1200] (Some (db_rows db1))")
  have "range_total 0 1200 (db_rows db1) = 60"
    by (simp add: range_total_def in_range_def db1_rows new_row_def rec0_def)
  with daily_totals_add_up [OF _ _ _ d] d show ?thesis by simp
qed



end
