(* ===== verification/Dash_Overview.thy ===== *)
theory Dash_Overview
  imports Dash_Family Dash_Local
begin

text \<open>
  The pages of the dashboard that show this machine: \<open>ui/pages/overviewpage.cpp\<close>, \<open>localpage.cpp\<close>, \<open>metricpages.cpp\<close>
  and what \<open>timelinewidget.cpp\<close>, \<open>gaugewidget.cpp\<close> and \<open>chartwidget.cpp\<close> draw, under \<open>src/dashboard/\<close>. A page is what
  its widgets show, a drawing is the list of its rectangles or points. Percentages and coordinates are rational numbers, as in
  \<open>Sys_Stats\<close>; how Qt prints a number with a number of decimals, and an instant, are arguments.
\<close>

section \<open>Days\<close>

text \<open>\<open>time\<close> and \<open>localtime_s\<close>: the offset of the local time from UTC at an instant. Day 0 was a Thursday.\<close>

record clock =
  ck_now :: int
  ck_zone :: "int \<Rightarrow> int"

definition tm_wday :: "clock \<Rightarrow> int \<Rightarrow> int" where
  "tm_wday ck t = ((t + ck_zone ck t) div 86400 + 4) mod 7"

definition todayStart :: "clock \<Rightarrow> int" where
  "todayStart ck = ck_now ck - ck_now ck mod 86400"

definition mondayThis :: "clock \<Rightarrow> int" where
  "mondayThis ck =
     (let weekday = (if tm_wday ck (todayStart ck) = 0 then 7 else tm_wday ck (todayStart ck))
      in todayStart ck - (weekday - 1) * 86400)"

definition week_boundaries :: "clock \<Rightarrow> bool \<Rightarrow> int list" where
  "week_boundaries ck lastWeek =
     (let start = (if lastWeek then mondayThis ck - 7 * 86400 else mondayThis ck)
      in map (\<lambda>i. start + i * 86400) [0, 1, 2, 3, 4, 5, 6, 7])"

section \<open>The timeline\<close>

record TimelineSegment =
  sg_processName :: string
  sg_windowTitle :: string
  sg_startPct :: rat
  sg_widthPct :: rat
  sg_color :: string

record LegendEntry =
  lg_processName :: string
  lg_color :: string
  lg_totalSeconds :: int

record DailyBar =
  br_date :: string
  br_totalSeconds :: int

definition kColors :: "string list" where
  "kColors = [''#5aa9ff'', ''#22c55e'', ''#f5a524'', ''#a78bfa'', ''#f472b6'', ''#2dd4bf'', ''#fb923c'', ''#eab308'']"

text \<open>\<open>h = h * 31 + c\<close> on \<open>size_t\<close>, which wraps.\<close>

definition name_hash :: "string \<Rightarrow> u64" where
  "name_hash s = foldl (\<lambda>h c. h * 31 + of_nat (of_char c)) 0 s"

definition app_color :: "string \<Rightarrow> string" where
  "app_color s = kColors ! unat (name_hash s mod 8)"

definition segment_of :: "int \<Rightarrow> Activity \<Rightarrow> TimelineSegment" where
  "segment_of dayStart a =
     (let startPct = of_int (ac_startTime a - dayStart) / 86400 * 100; widthPct = of_int (ac_duration a) / 86400 * 100
      in \<lparr>sg_processName = ac_processName a, sg_windowTitle = ac_windowTitle a, sg_startPct = startPct,
          sg_widthPct = (if widthPct < 15 / 100 then 15 / 100 else widthPct), sg_color = app_color (ac_processName a)\<rparr>)"

definition timed :: "Activity list \<Rightarrow> Activity list" where
  "timed acts = filter (\<lambda>a. \<not> ac_duration a \<le> 0) acts"

definition day_segments :: "int \<Rightarrow> Activity list \<Rightarrow> TimelineSegment list" where
  "day_segments dayStart acts = map (segment_of dayStart) (timed acts)"

definition day_legend :: "Activity list \<Rightarrow> LegendEntry list" where
  "day_legend acts =
     map (\<lambda>(name, secs). \<lparr>lg_processName = name, lg_color = app_color name, lg_totalSeconds = secs\<rparr>)
       (sort_key (\<lambda>kv. - snd kv) (totals_by ac_processName ac_duration (timed acts)))"

section \<open>What the widgets draw\<close>

record strip =
  st_segs :: "TimelineSegment list"
  st_zoom :: rat

definition strip_setZoom :: "rat \<Rightarrow> strip \<Rightarrow> strip" where
  "strip_setZoom f s = s\<lparr>st_zoom := min 8 (max 1 f)\<rparr>"

definition strip_width :: "strip \<Rightarrow> int" where
  "strip_width s = \<lfloor>600 * st_zoom s\<rfloor>"

text \<open>Left edge and width of a segment on a track of the given width.\<close>

definition segment_rect :: "rat \<Rightarrow> TimelineSegment \<Rightarrow> rat \<times> rat" where
  "segment_rect w s = (w * sg_startPct s / 100, max 1 (w * sg_widthPct s / 100))"

definition strip_paint :: "rat \<Rightarrow> strip \<Rightarrow> (rat \<times> rat \<times> string) list" where
  "strip_paint w s = map (\<lambda>g. (fst (segment_rect w g), snd (segment_rect w g), sg_color g)) (st_segs s)"

definition legend_rows :: "LegendEntry list \<Rightarrow> nat" where
  "legend_rows es = max 1 ((length es + 2) div 3)"

text \<open>Column, row and text of each entry; \<open>w\<close> is the width in pixels.\<close>

definition legend_paint :: "int \<Rightarrow> LegendEntry list \<Rightarrow> (int \<times> int \<times> string) list" where
  "legend_paint w es =
     map (\<lambda>i. (int (i mod 3) * (w div 3), int (i div 3) * 22,
        lg_processName (es ! i) @ '' ('' @ fmtDuration (lg_totalSeconds (es ! i)) @ '')'')) [0..<length es]"

text \<open>Left edge, top, width, height of each bar.\<close>

definition bars_paint :: "int \<Rightarrow> int \<Rightarrow> DailyBar list \<Rightarrow> (rat \<times> rat \<times> rat \<times> rat) list" where
  "bars_paint width height bars =
     (if bars = [] then []
      else
        (let maxVal = foldl (\<lambda>m b. max m (br_totalSeconds b)) 1 bars; barAreaH = of_int height - 34;
             slot = of_int width / of_nat (length bars); barW = min 48 (slot * (6 / 10))
         in map (\<lambda>i. (let h = barAreaH * (of_int (br_totalSeconds (bars ! i)) / of_int maxVal)
                      in (slot * of_nat i + (slot - barW) / 2, barAreaH - h, barW, h)))
              [0..<length bars]))"

record gauge =
  gg_value :: rat
  gg_threshold :: rat

definition gauge_setValue :: "rat \<Rightarrow> gauge \<Rightarrow> gauge" where
  "gauge_setValue v g = g\<lparr>gg_value := min 100 (max 0 v)\<rparr>"

definition gauge_color :: "gauge \<Rightarrow> string" where
  "gauge_color g = (if gg_threshold g \<le> gg_value g then ''#ef4444'' else ''#5aa9ff'')"

definition gauge_span :: "gauge \<Rightarrow> rat" where
  "gauge_span g = - 270 * 16 * gg_value g / 100"

text \<open>The upper end of the axis of a chart, and the points of its lines in a plot area given by left, top, width, height.\<close>

definition chart_max :: "rat \<Rightarrow> chart \<Rightarrow> rat" where
  "chart_max fixedMax c =
     (if 0 < fixedMax then fixedMax else foldl max 1 (concat (map cs_values (ch_series c))))"

definition chart_points :: "rat \<times> rat \<times> rat \<times> rat \<Rightarrow> rat \<Rightarrow> chart \<Rightarrow> (rat \<times> rat) list list" where
  "chart_points plot fixedMax c =
     (case plot of (left, upper, w, h) \<Rightarrow>
        if w \<le> 0 \<or> h \<le> 0 then []
        else
          map (\<lambda>s. map (\<lambda>i. (left + w * of_nat i / of_int (ch_maxPoints c - 1),
                            upper + h - h * min 1 (max 0 (cs_values s ! i / chart_max fixedMax c))))
                   [0..<length (cs_values s)])
            (filter (\<lambda>s. \<not> length (cs_values s) < 2) (ch_series c)))"

section \<open>The overview\<close>

definition fmtBytesPerSec :: "(nat \<Rightarrow> rat \<Rightarrow> string) \<Rightarrow> rat \<Rightarrow> string" where
  "fmtBytesPerSec number bps =
     (if 1024 * 1024 \<le> bps then number 1 (bps / (1024 * 1024)) @ '' MB/s''
      else if 1024 \<le> bps then number 1 (bps / 1024) @ '' KB/s''
      else number 0 bps @ '' B/s'')"

record view_env =
  ve_clock :: clock
  ve_number :: "nat \<Rightarrow> rat \<Rightarrow> string"       \<comment> \<open>\<open>QString::number(x, 'f', n)\<close>\<close>
  ve_epoch :: "int \<Rightarrow> string"                \<comment> \<open>an instant as \<open>yyyy-MM-dd HH:mm\<close>\<close>
  ve_day :: "int \<Rightarrow> string"                  \<comment> \<open>the date of a boundary, in \<open>localdb.cpp\<close>\<close>
  ve_err :: "string option"                   \<comment> \<open>failure of the statement\<close>
  ve_day_err :: "nat \<Rightarrow> string option"
  ve_tie :: "row \<Rightarrow> int"                     \<comment> \<open>order of rows with equal keys\<close>

definition period_keys :: "string list" where
  "period_keys = [''today'', ''yesterday'', ''this_week'', ''last_week'', ''custom'']"

record overview_tab =
  ov_period :: string
  ov_checked :: "bool list"
  ov_single :: bool             \<comment> \<open>the single day is shown, not the bars\<close>
  ov_zoom :: rat
  ov_zoomLabel :: string
  ov_strip :: strip
  ov_legend :: "LegendEntry list"
  ov_bars :: "DailyBar list"
  ov_labels :: "string list"    \<comment> \<open>percentages and subtitles of CPU, RAM, disk, network\<close>
  ov_sparks :: "chart list"
  ov_history :: chart

definition new_chart :: "nat \<Rightarrow> chart" where
  "new_chart n = (addSeries ^^ n) \<lparr>ch_series = [], ch_maxPoints = 60\<rparr>"

definition new_overview :: overview_tab where
  "new_overview =
     \<lparr>ov_period = ''today'', ov_checked = [True, False, False, False, False], ov_single = True, ov_zoom = 1,
      ov_zoomLabel = ''Zoom: 100%'', ov_strip = \<lparr>st_segs = [], st_zoom = 1\<rparr>, ov_legend = [], ov_bars = [],
      ov_labels = replicate 4 ''--%'' @ replicate 4 ''--'', ov_sparks = replicate 4 (new_chart 1),
      ov_history = new_chart 3\<rparr>"

definition zoom_by :: "rat \<Rightarrow> overview_tab \<Rightarrow> overview_tab" where
  "zoom_by d p =
     (let z = (if d < 0 then max 1 (ov_zoom p + d) else min 8 (ov_zoom p + d))
      in p\<lparr>ov_zoom := z, ov_strip := strip_setZoom z (ov_strip p), ov_zoomLabel := ''Zoom: '' @ show_int \<lfloor>z * 100\<rfloor> @ ''%''\<rparr>)"

definition loadPeriodAndTimeline :: "view_env \<Rightarrow> local_db \<Rightarrow> overview_tab \<Rightarrow> overview_tab" where
  "loadPeriodAndTimeline env db p =
     (case db of
        None \<Rightarrow> p\<lparr>ov_single := True, ov_legend := [], ov_strip := (ov_strip p)\<lparr>st_segs := []\<rparr>\<rparr>
      | Some rows \<Rightarrow>
          if ov_period p \<in> {''today'', ''yesterday'', ''custom''}
          then
            (let today = todayStart (ve_clock env);
                 dayStart = (if ov_period p = ''yesterday'' then today - 86400 else today);
                 acts = fst (activitiesForDay (ve_err env) (ve_tie env) dayStart (dayStart + 86400) db)
             in p\<lparr>ov_single := True,
                  ov_strip := strip_setZoom (ov_zoom p) ((ov_strip p)\<lparr>st_segs := day_segments dayStart acts\<rparr>),
                  ov_legend := day_legend acts\<rparr>)
          else
            (let bs = week_boundaries (ve_clock env) (ov_period p = ''last_week'');
                 totals = fst (dailyTotalsInRange (ve_day_err env) (ve_day env) bs db)
             in p\<lparr>ov_single := False,
                  ov_bars := map (\<lambda>t. \<lparr>br_date = dt_date t, br_totalSeconds = DayTotal.dt_totalSeconds t\<rparr>) totals\<rparr>))"

definition setPeriod :: "view_env \<Rightarrow> local_db \<Rightarrow> string \<Rightarrow> overview_tab \<Rightarrow> overview_tab" where
  "setPeriod env db period p =
     loadPeriodAndTimeline env db (p\<lparr>ov_period := period, ov_checked := map (\<lambda>k. k = period) period_keys\<rparr>)"

definition applyLiveStats :: "view_env \<Rightarrow> LiveStats \<Rightarrow> overview_tab \<Rightarrow> overview_tab" where
  "applyLiveStats env live p =
     (let num = ve_number env; netTotal = lv_netUploadBps live + lv_netDownloadBps live;
          percent = (\<lambda>x. num 0 x @ ''%'')
      in p\<lparr>ov_sparks :=
             map2 (pushValue 0) [lv_cpuPercent live, lv_ramPercent live, lv_diskPercent live,
                                 min 100 (netTotal / (1024 * 1024) * 10)] (ov_sparks p),
           ov_labels :=
             [percent (lv_cpuPercent live), percent (lv_ramPercent live), percent (lv_diskPercent live), fmtBytesPerSec num netTotal,
              show_int (int (length (lv_cpuPerCore live))) @ '' cores'',
              num 1 (lv_ramUsedGB live) @ '' / '' @ num 1 (lv_ramTotalGB live) @ '' GB'',
              num 0 (lv_diskUsedGB live) @ '' / '' @ num 0 (lv_diskTotalGB live) @ '' GB'',
              [CHR 0xE2, CHR 0x86, CHR 0x93] @ fmtBytesPerSec num (lv_netDownloadBps live) @ '' '' @ [CHR 0xE2, CHR 0x86, CHR 0x91] @ fmtBytesPerSec num (lv_netUploadBps live)],
           ov_history :=
             pushValue 2 (lv_diskPercent live) (pushValue 1 (lv_ramPercent live) (pushValue 0 (lv_cpuPercent live) (ov_history p)))\<rparr>)"

section \<open>The local page\<close>

record local_page =
  lp_notice :: bool
  lp_usage :: "(string \<times> string) list"
  lp_recent :: "(string \<times> string \<times> string \<times> string) list"

definition local_refresh :: "view_env \<Rightarrow> local_db \<Rightarrow> local_page \<Rightarrow> local_page" where
  "local_refresh env db p =
     (case db of
        None \<Rightarrow> p\<lparr>lp_notice := True\<rparr>
      | Some rows \<Rightarrow>
          (let usage = fst (usageInRange (ve_err env) 0 (ck_now (ve_clock env) + 3600 * 24 * 3650) db);
               recent = fst (recentActivities (ve_err env) (ve_tie env) 50 db)
           in p\<lparr>lp_notice := False,
                lp_usage := map (\<lambda>u. (au_processName u, fmtDuration (au_totalSeconds u))) usage,
                lp_recent := map (\<lambda>a. (ac_processName a, ac_windowTitle a, fmtDuration (ac_duration a),
                                        ve_epoch env (ac_startTime a))) recent\<rparr>))"

section \<open>The pages of one device\<close>

record cpu_page =
  cg_loaded :: bool
  cg_gauge :: gauge
  cg_info :: string
  cg_bars :: "(string \<times> string) list"   \<comment> \<open>text and background of the label of each processor\<close>
  cg_alerts :: "bool list"
  cg_history :: chart

definition bar_style :: "bool \<Rightarrow> string" where
  "bar_style alert = (if alert then ''#5a1f1f'' else ''#0f1c2e'')"

definition new_cpu_page :: cpu_page where
  "new_cpu_page =
     \<lparr>cg_loaded = False, cg_gauge = \<lparr>gg_value = 0, gg_threshold = 85\<rparr>, cg_info = [], cg_bars = [], cg_alerts = [],
      cg_history = new_chart 1\<rparr>"

text \<open>\<open>refreshStaticInfo\<close>: whether the thread is started; then the answer of the thread.\<close>

definition refreshStaticInfo :: "cpu_page \<Rightarrow> bool \<times> cpu_page" where
  "refreshStaticInfo p = (if cg_loaded p then (False, p) else (True, p\<lparr>cg_loaded := True\<rparr>))"

definition machine_text :: "MachineInfo \<Rightarrow> string" where
  "machine_text m =
     ''<b>'' @ mi_processor m @ ''</b><br>'' @ show_int (mi_cpuCoresPhysical m) @ '' physical cores, '' @
     show_int (mi_cpuCoresLogical m) @ '' logical<br>Frequency: '' @
     (case mi_cpuFreqMHz m of Some f \<Rightarrow> show_int f @ '' MHz'' | None \<Rightarrow> ''N/A'')"

definition static_loaded :: "string + MachineInfo \<Rightarrow> cpu_page \<Rightarrow> cpu_page" where
  "static_loaded r p =
     (case r of
        Inl e \<Rightarrow> p\<lparr>cg_info := ''Failed to load: '' @ e\<rparr>
      | Inr m \<Rightarrow>
          p\<lparr>cg_info := machine_text m, cg_bars := replicate (nat (mi_cpuCoresLogical m)) (''0%'', bar_style False),
            cg_alerts := replicate (nat (mi_cpuCoresLogical m)) False\<rparr>)"

text \<open>The loop over the processors: the style is set only when the alert changes.\<close>

definition core_step :: "(nat \<Rightarrow> rat \<Rightarrow> string) \<Rightarrow> LiveStats \<Rightarrow> cpu_page \<Rightarrow> nat \<Rightarrow> cpu_page" where
  "core_step number s p i =
     (let v = lv_cpuPerCore s ! i; alert = (85 \<le> v); style = snd (cg_bars p ! i)
      in p\<lparr>cg_bars := (cg_bars p)[i := (number 0 v @ ''%'', if cg_alerts p ! i \<noteq> alert then bar_style alert else style)],
           cg_alerts := (cg_alerts p)[i := alert]\<rparr>)"

definition cpu_tick :: "(nat \<Rightarrow> rat \<Rightarrow> string) \<Rightarrow> LiveStats \<Rightarrow> cpu_page \<Rightarrow> cpu_page" where
  "cpu_tick number s p =
     foldl (core_step number s)
       (p\<lparr>cg_gauge := gauge_setValue (lv_cpuPercent s) (cg_gauge p), cg_history := pushValue 0 (lv_cpuPercent s) (cg_history p)\<rparr>)
       [0..<min (length (cg_bars p)) (length (lv_cpuPerCore s))]"

record ram_page =
  rg_gauge :: gauge
  rg_info :: string
  rg_history :: chart

definition ram_tick :: "(nat \<Rightarrow> rat \<Rightarrow> string) \<Rightarrow> LiveStats \<Rightarrow> ram_page \<Rightarrow> ram_page" where
  "ram_tick number s p =
     p\<lparr>rg_gauge := gauge_setValue (lv_ramPercent s) (rg_gauge p),
       rg_info :=
         ''Used: '' @ number 1 (lv_ramUsedGB s) @ '' GB<br>Available: '' @ number 1 (lv_ramAvailableGB s) @ '' GB<br>Total: '' @
         number 1 (lv_ramTotalGB s) @ '' GB<br>Swap: '' @ number 1 (lv_swapUsedGB s) @ '' / '' @ number 1 (lv_swapTotalGB s) @ '' GB'',
       rg_history := pushValue 1 (lv_swapPercent s) (pushValue 0 (lv_ramPercent s) (rg_history p))\<rparr>"

record disk_page =
  dk_info :: string
  dk_table :: "(string \<times> string \<times> string) list"
  dk_history :: chart

definition disk_tick :: "(nat \<Rightarrow> rat \<Rightarrow> string) \<Rightarrow> LiveStats \<Rightarrow> disk_page \<Rightarrow> disk_page" where
  "disk_tick number s p =
     p\<lparr>dk_info :=
         ''Primary drive: '' @ number 0 (lv_diskPercent s) @ ''% used ('' @ number 0 (lv_diskUsedGB s) @ '' / '' @
         number 0 (lv_diskTotalGB s) @ '' GB)'',
       dk_table :=
         map (\<lambda>d. (dl_mountpoint d, number 0 (dl_percent d), number 0 (dl_usedGB d) @ '' / '' @ number 0 (dl_totalGB d) @ '' GB''))
           (lv_disks s),
       dk_history := pushValue 1 (lv_diskWriteBps s / 1024 / 1024) (pushValue 0 (lv_diskReadBps s / 1024 / 1024) (dk_history p))\<rparr>"

record network_page =
  nt_loaded :: bool
  nt_speed :: string
  nt_table :: "(string \<times> string \<times> string) list"
  nt_history :: chart

definition refreshInterfacesOnce :: "network_page \<Rightarrow> bool \<times> network_page" where
  "refreshInterfacesOnce p = (if nt_loaded p then (False, p) else (True, p\<lparr>nt_loaded := True\<rparr>))"

definition interfaces_loaded :: "string + NetInterface list \<Rightarrow> network_page \<Rightarrow> network_page" where
  "interfaces_loaded r p =
     (case r of
        Inl e \<Rightarrow> p
      | Inr ns \<Rightarrow> p\<lparr>nt_table := map (\<lambda>n. (ni_name n, ni_ipv4 n, if ni_isUp n then ''Up'' else ''Down'')) ns\<rparr>)"

definition network_tick :: "(nat \<Rightarrow> rat \<Rightarrow> string) \<Rightarrow> LiveStats \<Rightarrow> network_page \<Rightarrow> network_page" where
  "network_tick number s p =
     p\<lparr>nt_speed :=
         ''Upload: '' @ fmtBytesPerSec number (lv_netUploadBps s) @ '' &nbsp;&nbsp; Download: '' @
         fmtBytesPerSec number (lv_netDownloadBps s),
       nt_history := pushValue 1 (lv_netDownloadBps s / 1024) (pushValue 0 (lv_netUploadBps s / 1024) (nt_history p))\<rparr>"

text \<open>\<open>RightPanel\<close>: the snapshot of the machine and the processes; its alerts are in \<open>Dash_Export\<close>.\<close>

definition panel_machine :: "string + MachineInfo \<Rightarrow> string" where
  "panel_machine r =
     (case r of
        Inl e \<Rightarrow> ''Failed to load machine info.''
      | Inr m \<Rightarrow>
          ''<b>'' @ mi_hostname m @ ''</b><br>'' @ mi_os m @ ''<br>'' @ mi_processor m @ ''<br>'' @
          show_int (mi_cpuCoresLogical m) @ '' cores'')"

definition panel_snapshot :: "(nat \<Rightarrow> rat \<Rightarrow> string) \<Rightarrow> string \<Rightarrow> LiveStats \<Rightarrow> string" where
  "panel_snapshot number machine s =
     (if machine = [] then ''...'' else machine) @ ''<br><br>CPU: <b>'' @ number 0 (lv_cpuPercent s) @ ''%</b><br>RAM: <b>'' @
     number 0 (lv_ramPercent s) @ ''%</b> ('' @ number 1 (lv_ramUsedGB s) @ '' GB)<br>Disk: <b>'' @ number 0 (lv_diskPercent s) @ ''%</b>''"

definition panel_processes :: "(nat \<Rightarrow> rat \<Rightarrow> string) \<Rightarrow> string + ProcessInfo list \<Rightarrow> (string \<times> string) list \<Rightarrow> (string \<times> string) list" where
  "panel_processes number r shown =
     (case r of Inl e \<Rightarrow> shown | Inr ps \<Rightarrow> map (\<lambda>p. (pi_name p, number 0 (pi_cpuPercent p) @ ''%'')) ps)"

section \<open>Weeks\<close>

lemma wday_range: "0 \<le> tm_wday ck t" "tm_wday ck t < 7"
  by (simp_all add: tm_wday_def)

lemma today_parts: "todayStart ck \<le> ck_now ck" "ck_now ck < todayStart ck + 86400" "todayStart ck mod 86400 = 0"
  by (simp_all add: todayStart_def)

lemma monday_range:
  "todayStart ck - 6 * 86400 \<le> mondayThis ck" "mondayThis ck \<le> todayStart ck"
  using wday_range [of ck "todayStart ck"] by (auto simp: mondayThis_def Let_def)

lemma div_day: "- n \<le> z \<Longrightarrow> z < n \<Longrightarrow> z div n = (if z < 0 then - 1 else (0 :: int))"
  by (auto intro: int_div_pos_eq [of _ _ _ "z + n"])

lemma mod_week: "(7 * k + x) mod 7 = x mod (7 :: int)"
  by simp

lemma weekday_back:
  fixes d e w :: int
  assumes "w = (d + e + 4) mod 7"
  shows "(d - ((if w = 0 then 7 else w) - 1) + 4) mod 7 = (1 - e) mod 7"
proof -
  have d: "d = 7 * ((d + e + 4) div 7) + w - e - 4" using assms mult_div_mod_eq [of 7 "d + e + 4"] by linarith
  have "d - ((if w = 0 then 7 else w) - 1) + 4 = 7 * ((d + e + 4) div 7 - (if w = 0 then 1 else 0)) + (1 - e)"
    using d by simp
  then show ?thesis by (simp only: mod_week)
qed

lemma monday_weekday:
  assumes "- 86400 \<le> ck_zone ck (todayStart ck)" and "ck_zone ck (todayStart ck) < 86400"
  shows "(mondayThis ck div 86400 + 4) mod 7 = (if ck_zone ck (todayStart ck) < 0 then 2 else 1)"
proof -
  obtain d where d: "todayStart ck = d * 86400" using today_parts(3) [of ck] by (metis add.right_neutral div_mult_mod_eq)
  let ?z = "ck_zone ck (todayStart ck)"
  have w: "tm_wday ck (todayStart ck) = (d + (if ?z < 0 then - 1 else 0) + 4) mod 7"
  proof -
    have "(d * 86400 + ?z) div 86400 = d + ?z div 86400" by simp
    moreover have "?z div 86400 = (if ?z < 0 then - 1 else 0)" by (rule div_day [OF assms])
    ultimately show ?thesis using d by (simp add: tm_wday_def)
  qed
  have "mondayThis ck div 86400 = d - ((if tm_wday ck (todayStart ck) = 0 then 7 else tm_wday ck (todayStart ck)) - 1)"
    by (simp add: mondayThis_def Let_def d)
  with weekday_back [OF w] show ?thesis by simp
qed


definition demo_clock :: clock where
  "demo_clock = \<lparr>ck_now = 1700000000, ck_zone = (\<lambda>_. 25200)\<rparr>"   \<comment> \<open>a Tuesday, seven hours ahead of UTC\<close>


section \<open>The timeline and its legend\<close>

lemma totals_names:
  "map fst (totals_by name secs rows) = sorted_list_of_set (name ` set rows)"
  by (simp add: totals_by_def comp_def)

lemma totals_entry:
  "(n, t) \<in> set (totals_by name secs rows) \<Longrightarrow> t = sum_list (map secs (filter (\<lambda>r. name r = n) rows))"
  by (auto simp: totals_by_def)

lemma legend_names:
  "distinct (map lg_processName (day_legend acts))" "lg_processName ` set (day_legend acts) = ac_processName ` set (timed acts)"
proof -
  have m: "map lg_processName (day_legend acts) = map fst (sort_key (\<lambda>kv. - snd kv) (totals_by ac_processName ac_duration (timed acts)))"
    by (simp add: day_legend_def comp_def case_prod_beta)
  have "distinct (map fst (totals_by ac_processName ac_duration (timed acts)))"
    by (simp add: totals_names)
  then show "distinct (map lg_processName (day_legend acts))"
    unfolding m by (simp add: distinct_map)
  have "lg_processName ` set (day_legend acts) = set (map fst (totals_by ac_processName ac_duration (timed acts)))"
    unfolding set_map [symmetric] m by simp
  then show "lg_processName ` set (day_legend acts) = ac_processName ` set (timed acts)"
    by (simp only: totals_names) simp
qed

lemma legend_entry:
  assumes "e \<in> set (day_legend acts)"
  shows "lg_totalSeconds e = sum_list (map ac_duration (filter (\<lambda>a. ac_processName a = lg_processName e) (timed acts)))"
    "lg_color e = app_color (lg_processName e)"
  using assms by (auto simp: day_legend_def dest: totals_entry)

lemma sum_list_same_mset: "mset xs = mset ys \<Longrightarrow> sum_list (map f xs) = sum_list (map (f :: 'a \<Rightarrow> int) ys)"
  by (metis mset_map sum_mset_sum_list)

lemma legend_sum: "sum_list (map lg_totalSeconds (day_legend acts)) = sum_list (map ac_duration (timed acts))"
proof -
  let ?ts = "totals_by ac_processName ac_duration (timed acts)"
  have "sum_list (map lg_totalSeconds (day_legend acts)) = sum_list (map snd (sort_key (\<lambda>kv. - snd kv) ?ts))"
    by (simp add: day_legend_def comp_def case_prod_beta)
  also have "\<dots> = sum_list (map snd ?ts)" by (rule sum_list_same_mset) simp
  finally show ?thesis by (simp add: totals_by_sum)
qed

lemma legend_sorted: "sorted (map (\<lambda>e. - lg_totalSeconds e) (day_legend acts))"
proof -
  have "map (\<lambda>e. - lg_totalSeconds e) (day_legend acts) =
      map (\<lambda>kv. - snd kv) (sort_key (\<lambda>kv. - snd kv) (totals_by ac_processName ac_duration (timed acts)))"
    by (simp add: day_legend_def comp_def case_prod_beta)
  then show ?thesis by simp
qed

text \<open>The rows that are shown: those that begin on the day and took time.\<close>

definition shown_rows :: "int \<Rightarrow> row list \<Rightarrow> row list" where
  "shown_rows day rows = filter (\<lambda>r. in_range day (day + 86400) r \<and> 0 < r_duration r) rows"

lemma timed_rows:
  assumes "a = fst (activitiesForDay None tie day (day + 86400) (Some rows))"
  shows "mset (timed a) = mset (map activity_of_row (shown_rows day rows))"
proof -
  have "timed a = map activity_of_row (filter (\<lambda>r. 0 < r_duration r)
      (sort_key (\<lambda>r. (r_start r, tie r)) (filter (in_range day (day + 86400)) rows)))"
    using assms by (simp add: activitiesForDay_def timed_def filter_map comp_def activity_of_row_def not_le)
  moreover have "shown_rows day rows = filter (\<lambda>r. 0 < r_duration r) (filter (in_range day (day + 86400)) rows)"
    by (simp add: shown_rows_def conj_commute)
  ultimately show ?thesis by (simp add: filter_filter_mset conj_commute)
qed

text \<open>C35: For a day the timeline has one segment for each record that begins on it and took time, at its place of the day
  and in the colour of its application; the legend names each application once, in the same colour, longest first, with the
  time of its segments; and the times of the legend add up to the time recorded.\<close>

theorem legend_matches_timeline:
  assumes "period \<in> {''today'', ''yesterday'', ''custom''}" and "ve_err env = None"
    and "day = (if period = ''yesterday'' then todayStart (ve_clock env) - 86400 else todayStart (ve_clock env))"
    and "p' = setPeriod env (Some rows) period p"
  shows "mset (st_segs (ov_strip p')) = mset (map (\<lambda>r. segment_of day (activity_of_row r)) (shown_rows day rows)) \<and>
    distinct (map lg_processName (ov_legend p')) \<and>
    lg_processName ` set (ov_legend p') = sg_processName ` set (st_segs (ov_strip p')) \<and>
    (\<forall>e \<in> set (ov_legend p'). \<forall>g \<in> set (st_segs (ov_strip p')). lg_processName e = sg_processName g \<longrightarrow> lg_color e = sg_color g) \<and>
    (\<forall>e \<in> set (ov_legend p').
       lg_totalSeconds e = sum_list (map r_duration (filter (\<lambda>r. c_str (r_process_name r) = lg_processName e) (shown_rows day rows)))) \<and>
    sorted (map (\<lambda>e. - lg_totalSeconds e) (ov_legend p')) \<and>
    sum_list (map lg_totalSeconds (ov_legend p')) = sum_list (map r_duration (shown_rows day rows)) \<and>
    (\<forall>g \<in> set (st_segs (ov_strip p')). 0 \<le> sg_startPct g \<and> sg_startPct g < 100)"
proof (intro conjI)
  define acts where "acts = fst (activitiesForDay None (ve_tie env) day (day + 86400) (Some rows))"
  have p: "st_segs (ov_strip p') = day_segments day acts" "ov_legend p' = day_legend acts"
    using assms by (auto simp: setPeriod_def loadPeriodAndTimeline_def Let_def acts_def strip_setZoom_def)
  note rows = timed_rows [OF acts_def]
  have segs: "mset (day_segments day acts) = mset (map (\<lambda>r. segment_of day (activity_of_row r)) (shown_rows day rows))"
    using arg_cong [OF rows, of "image_mset (segment_of day)"] by (simp add: day_segments_def multiset.map_comp comp_def)
  then show "mset (st_segs (ov_strip p')) = mset (map (\<lambda>r. segment_of day (activity_of_row r)) (shown_rows day rows))" by (simp add: p)
  show "distinct (map lg_processName (ov_legend p'))" "sorted (map (\<lambda>e. - lg_totalSeconds e) (ov_legend p'))"
    by (simp_all add: p legend_names legend_sorted)
  have names: "sg_processName ` set (day_segments day acts) = ac_processName ` set (timed acts)"
    by (auto simp: day_segments_def segment_of_def Let_def image_image)
  show "lg_processName ` set (ov_legend p') = sg_processName ` set (st_segs (ov_strip p'))"
    by (simp only: p legend_names names)
  have color: "sg_color g = app_color (sg_processName g)" if "g \<in> set (day_segments day acts)" for g
    using that by (auto simp: day_segments_def segment_of_def Let_def)
  show "\<forall>e \<in> set (ov_legend p'). \<forall>g \<in> set (st_segs (ov_strip p')). lg_processName e = sg_processName g \<longrightarrow> lg_color e = sg_color g"
    using color legend_entry(2) by (simp add: p)
  show "\<forall>e \<in> set (ov_legend p').
    lg_totalSeconds e = sum_list (map r_duration (filter (\<lambda>r. c_str (r_process_name r) = lg_processName e) (shown_rows day rows)))"
  proof
    fix e assume that: "e \<in> set (ov_legend p')"
    have "mset (filter (\<lambda>a. ac_processName a = lg_processName e) (timed acts)) =
        mset (map activity_of_row (filter (\<lambda>r. c_str (r_process_name r) = lg_processName e) (shown_rows day rows)))"
      using arg_cong [OF rows, of "filter_mset (\<lambda>a. ac_processName a = lg_processName e)"]
      by (simp add: filter_mset_image_mset activity_of_row_def)
    from sum_list_same_mset [OF this, of ac_duration] legend_entry(1) [OF that [unfolded p]] show "lg_totalSeconds e = sum_list (map r_duration (filter (\<lambda>r. c_str (r_process_name r) = lg_processName e) (shown_rows day rows)))"
     
      by (simp add: comp_def activity_of_row_def)
  qed
  show "sum_list (map lg_totalSeconds (ov_legend p')) = sum_list (map r_duration (shown_rows day rows))"
    using sum_list_same_mset [OF rows, of ac_duration] by (simp add: p legend_sum comp_def activity_of_row_def)
  show "\<forall>g \<in> set (st_segs (ov_strip p')). 0 \<le> sg_startPct g \<and> sg_startPct g < 100"
  proof
    fix g assume that: "g \<in> set (st_segs (ov_strip p'))"
    have "g \<in># mset (map (\<lambda>r. segment_of day (activity_of_row r)) (shown_rows day rows))"
      using that segs p(1) by (metis set_mset_mset)
    then obtain r where r: "in_range day (day + 86400) r" "g = segment_of day (activity_of_row r)"
      by (auto simp: shown_rows_def)
    then have "0 \<le> r_start r - day" "r_start r - day < 86400" by (simp_all add: in_range_def)
    then have "0 \<le> (of_int (r_start r - day) :: rat)" "(of_int (r_start r - day) :: rat) < 86400"
      by (simp_all only: of_int_0_le_iff)
    with r(2) show "0 \<le> sg_startPct g \<and> sg_startPct g < 100" by (simp add: segment_of_def Let_def activity_of_row_def)
  qed
qed

definition demo_row :: "string \<Rightarrow> int \<Rightarrow> int \<Rightarrow> row" where
  "demo_row name start secs =
     \<lparr>r_id = start, r_device_id = ''d'', r_process_name = name, r_window_title = ''t'', r_duration = secs, r_start = start, r_end = start + secs, r_synced = 0,
      r_created = 0, r_retry_count = 0, r_next_retry = 0\<rparr>"

definition demo_view :: view_env where
  "demo_view =
     \<lparr>ve_clock = demo_clock, ve_number = (\<lambda>n x. show_int \<lfloor>x\<rfloor>), ve_epoch = show_int, ve_day = show_int, ve_err = None,
      ve_day_err = (\<lambda>_. None), ve_tie = r_id\<rparr>"

definition demo_day :: "row list" where
  "demo_day = [demo_row ''a.exe'' 1699920100 60, demo_row ''b.exe'' 1699920200 90, demo_row ''a.exe'' 1699920400 100]"

lemma legend_matches_timeline_witness:
  "sum_list (map lg_totalSeconds (ov_legend (setPeriod demo_view (Some demo_day) ''today'' new_overview))) = 250"
proof -
  have d: "1699920000 = (if ''today'' = ''yesterday'' then todayStart (ve_clock demo_view) - 86400 else todayStart (ve_clock demo_view))"
    by (simp add: demo_view_def demo_clock_def todayStart_def)
  have "shown_rows 1699920000 demo_day = demo_day"
    by (simp add: shown_rows_def demo_day_def demo_row_def in_range_def)
  moreover have "sum_list (map lg_totalSeconds (ov_legend (setPeriod demo_view (Some demo_day) ''today'' new_overview))) =
      sum_list (map r_duration (shown_rows 1699920000 demo_day))"
    using legend_matches_timeline [OF _ _ d refl, of demo_day new_overview] by (simp add: demo_view_def)
  ultimately show ?thesis by (simp add: demo_day_def demo_row_def)
qed

section \<open>The labels of the processors\<close>

definition styles_follow :: "cpu_page \<Rightarrow> bool" where
  "styles_follow p \<longleftrightarrow> map snd (cg_bars p) = map bar_style (cg_alerts p)"

lemma styles_follow_length: "styles_follow p \<Longrightarrow> length (cg_bars p) = length (cg_alerts p)"
  unfolding styles_follow_def by (metis length_map)

lemma core_step_styles:
  assumes "styles_follow p" and "i < length (cg_bars p)"
  shows "styles_follow (core_step number s p i)"
proof -
  have "snd (cg_bars p ! i) = bar_style (cg_alerts p ! i)"
    using assms by (metis length_map nth_map styles_follow_def)
  then show ?thesis
    using assms by (auto simp: styles_follow_def core_step_def Let_def map_update)
qed

lemma core_step_frame:
  "length (cg_bars (core_step number s p i)) = length (cg_bars p)" "length (cg_alerts (core_step number s p i)) = length (cg_alerts p)"
  "cg_alerts (core_step number s p i) = (cg_alerts p)[i := 85 \<le> lv_cpuPerCore s ! i]"
  by (simp_all add: core_step_def Let_def)

lemma core_steps:
  assumes "styles_follow p" and "n \<le> length (cg_bars p)"
  shows "styles_follow (foldl (core_step number s) p [0..<n])"
    "length (cg_bars (foldl (core_step number s) p [0..<n])) = length (cg_bars p)"
    "i < n \<Longrightarrow> cg_alerts (foldl (core_step number s) p [0..<n]) ! i \<longleftrightarrow> 85 \<le> lv_cpuPerCore s ! i"
  using assms
proof (induction n)
  case (Suc n)
  { case 1 with Suc show ?case by (simp add: core_step_styles) }
  { case 2 with Suc show ?case by (simp add: core_step_frame) }
  { case 3
    then have l: "length (cg_alerts (foldl (core_step number s) p [0..<n])) = length (cg_bars p)"
      using Suc.IH(1,2) styles_follow_length by fastforce
    from 3 have "i = n \<or> i < n" "styles_follow p" "Suc n \<le> length (cg_bars p)" by auto
    with l Suc.IH(3) show ?case by (auto simp: core_step_frame(3)) }
qed simp_all

text \<open>After every tick the label of a processor is marked exactly when the processor is at 85 percent or more, although
  its style is only set when that changes.\<close>

theorem core_marks_follow_load:
  assumes "styles_follow p" and "length (lv_cpuPerCore s) = length (cg_bars p)"
  shows "map snd (cg_bars (cpu_tick number s p)) = map (\<lambda>v. bar_style (85 \<le> v)) (lv_cpuPerCore s)"
    "styles_follow (cpu_tick number s p)"
    "gauge_color (cg_gauge (cpu_tick number s p)) = ''#ef4444'' \<longleftrightarrow> gg_threshold (cg_gauge p) \<le> min 100 (max 0 (lv_cpuPercent s))"
proof -
  define p0 where "p0 = p\<lparr>cg_gauge := gauge_setValue (lv_cpuPercent s) (cg_gauge p), cg_history := pushValue 0 (lv_cpuPercent s) (cg_history p)\<rparr>"
  let ?n = "length (cg_bars p)" and ?p = "cpu_tick number s p"
  have p0: "styles_follow p0" "?n \<le> length (cg_bars p0)" "length (cg_bars p0) = ?n"
    using assms by (simp_all add: p0_def styles_follow_def)
  have t: "?p = foldl (core_step number s) p0 [0..<?n]"
    using assms by (simp add: cpu_tick_def p0_def)
  show f: "styles_follow ?p" unfolding t by (rule core_steps(1) [OF p0(1,2)])
  have l: "length (cg_bars ?p) = ?n" "length (cg_alerts ?p) = ?n"
    using core_steps(2) [OF p0(1,2)] p0(3) styles_follow_length [OF f] by (simp_all add: t)
  have "map snd (cg_bars ?p) = map bar_style (cg_alerts ?p)" using f by (simp add: styles_follow_def)
  also have "\<dots> = map (\<lambda>v. bar_style (85 \<le> v)) (lv_cpuPerCore s)"
    using l assms(2) core_steps(3) [OF p0(1,2)] by (intro nth_equalityI) (simp_all add: t)
  finally show "map snd (cg_bars ?p) = map (\<lambda>v. bar_style (85 \<le> v)) (lv_cpuPerCore s)" .
  have "cg_gauge (foldl (core_step number s) q is) = cg_gauge q" for q "is"
    by (induction "is" arbitrary: q) (simp_all add: core_step_def Let_def)
  then show "gauge_color (cg_gauge ?p) = ''#ef4444'' \<longleftrightarrow> gg_threshold (cg_gauge p) \<le> min 100 (max 0 (lv_cpuPercent s))"
    by (simp add: t p0_def gauge_color_def gauge_setValue_def)
qed

definition demo_machine :: MachineInfo where
  "demo_machine =
     \<lparr>mi_hostname = ''pc'', mi_os = ''Windows'', mi_osVersion = ''10'', mi_architecture = ''x64'', mi_processor = ''cpu'',
      mi_cpuCoresPhysical = 1, mi_cpuCoresLogical = 2, mi_cpuFreqMHz = None, mi_ramTotalGB = 8, mi_disks = [], mi_bootTime = 0\<rparr>"

definition demo_cpu :: cpu_page where
  "demo_cpu = static_loaded (Inr demo_machine) new_cpu_page"

lemma core_marks_follow_load_witness:
  "map snd (cg_bars (cpu_tick (\<lambda>n x. []) (no_stats\<lparr>lv_cpuPerCore := [10, 90]\<rparr>) demo_cpu)) = [''#0f1c2e'', ''#5a1f1f'']"
proof -
  have 1: "styles_follow demo_cpu" "length (lv_cpuPerCore (no_stats\<lparr>lv_cpuPerCore := [10, 90]\<rparr>)) = length (cg_bars demo_cpu)"
    by (simp_all add: styles_follow_def demo_cpu_def static_loaded_def new_cpu_page_def demo_machine_def)
  show ?thesis unfolding core_marks_follow_load(1) [OF 1] by (simp add: bar_style_def)
qed

section \<open>Drawings stay inside\<close>

definition chart_ok :: "chart \<Rightarrow> bool" where
  "chart_ok c \<longleftrightarrow> 2 \<le> ch_maxPoints c \<and> (\<forall>s \<in> set (ch_series c). int (length (cs_values s)) \<le> ch_maxPoints c)"

lemma chart_ok_push: "chart_ok c \<Longrightarrow> chart_ok (pushValue i v c)"
  unfolding chart_ok_def pushValue_def Let_def
  by (auto dest!: set_update_subset_insert [THEN subsetD] simp: keep_last_length)

lemma chart_ok_add: "chart_ok c \<Longrightarrow> chart_ok (addSeries c)"
  by (auto simp: chart_ok_def addSeries_def)

lemma chart_ok_new: "chart_ok (new_chart n)"
proof -
  have "chart_ok ((addSeries ^^ n) \<lparr>ch_series = [], ch_maxPoints = 60\<rparr>)"
    by (induction n) (simp_all add: chart_ok_add, simp add: chart_ok_def)
  then show ?thesis by (simp add: new_chart_def)
qed

definition push_all :: "(int \<times> rat) list \<Rightarrow> chart \<Rightarrow> chart" where
  "push_all vs c = foldl (\<lambda>c (i, v). pushValue i v c) c vs"

lemma chart_ok_push_all: "chart_ok c \<Longrightarrow> chart_ok (push_all vs c)"
  by (induction vs arbitrary: c) (auto simp: push_all_def chart_ok_push)

lemma frac_range: "0 \<le> a \<Longrightarrow> a \<le> b \<Longrightarrow> 0 < b \<Longrightarrow> 0 \<le> w \<Longrightarrow> 0 \<le> w * a / b \<and> w * a / b \<le> (w :: rat)"
  by (simp add: divide_le_eq mult_left_mono)

lemma foldl_max_ge: "m \<le> foldl (\<lambda>m b. max m (f b)) m bs \<and> (\<forall>b \<in> set bs. (f b :: int) \<le> foldl (\<lambda>m b. max m (f b)) m bs)"
  by (induction bs arbitrary: m) (auto, (meson max.bounded_iff order_trans)+)

text \<open>Whatever values arrive, in whatever number, the line of a chart stays in its plot area; the bars of the days stay in
  theirs and end at its lower edge; the needle of the gauge turns by at most its arc.\<close>

theorem drawings_stay_inside:
  assumes "0 < w" and "0 < h"
    and "points \<in> set (chart_points (left, upper, w, h) fixedMax (push_all vs (new_chart n)))" and "(x, y) \<in> set points"
    and "list_all (\<lambda>b. 0 \<le> br_totalSeconds b) bars" and "34 \<le> height" and "(bx, by, bw, bh) \<in> set (bars_paint width height bars)"
  shows "left \<le> x \<and> x \<le> left + w" "upper \<le> y \<and> y \<le> upper + h"
    "0 \<le> by \<and> 0 \<le> bh \<and> by + bh = of_int height - 34"
    "- 270 * 16 \<le> gauge_span (gauge_setValue v g) \<and> gauge_span (gauge_setValue v g) \<le> 0"
proof -
  let ?c = "push_all vs (new_chart n)"
  have ok: "chart_ok ?c" by (rule chart_ok_push_all [OF chart_ok_new])
  from assms obtain s i where s: "s \<in> set (ch_series ?c)" "i < length (cs_values s)"
    and x: "x = left + w * of_nat i / of_int (ch_maxPoints ?c - 1)"
    and y: "y = upper + h - h * min 1 (max 0 (cs_values s ! i / chart_max fixedMax ?c))"
    by (auto simp: chart_points_def split: if_splits)
  from ok s have i: "int i \<le> ch_maxPoints ?c - 1" "0 < ch_maxPoints ?c - 1" by (auto simp: chart_ok_def)
  then have "(of_nat i :: rat) \<le> of_int (ch_maxPoints ?c - 1)" "(0 :: rat) < of_int (ch_maxPoints ?c - 1)"
    by (metis of_int_le_iff of_int_of_nat_eq, metis of_int_0_less_iff)
  from frac_range [OF _ this, of w] assms(1) show "left \<le> x \<and> x \<le> left + w" by (simp add: x)
  have "0 \<le> h * min 1 (max 0 q)" "h * min 1 (max 0 q) \<le> h" for q :: rat
    using assms(2) mult_left_mono [of "min 1 (max 0 q)" 1 h] by simp_all
  then show "upper \<le> y \<and> y \<le> upper + h" unfolding y by (simp add: algebra_simps)
  define m where "m = foldl (\<lambda>m b. max m (br_totalSeconds b)) 1 bars"
  have m: "1 \<le> m" "b \<in> set bars \<Longrightarrow> br_totalSeconds b \<le> m" for b
    using foldl_max_ge [of 1 br_totalSeconds bars] by (simp_all add: m_def)
  from assms(7) obtain k where k: "k < length bars"
      "bh = (of_int height - 34) * (of_int (br_totalSeconds (bars ! k)) / of_int m)" "by = of_int height - 34 - bh"
    by (auto simp: bars_paint_def Let_def m_def split: if_splits)
  define b where "b = bars ! k"
  with k have b: "b \<in> set bars" "bh = (of_int height - 34) * of_int (br_totalSeconds b) / of_int m" "by = of_int height - 34 - bh"
    by simp_all
  have "0 \<le> (of_int (br_totalSeconds b) :: rat)" "(of_int (br_totalSeconds b) :: rat) \<le> of_int m" "(0 :: rat) < of_int m"
    "(0 :: rat) \<le> of_int height - 34"
    using b(1) m assms(5,6) by (auto simp: list_all_iff)
  from frac_range [OF this] show "0 \<le> by \<and> 0 \<le> bh \<and> by + bh = of_int height - 34"
    by (simp add: b)
  show "- 270 * 16 \<le> gauge_span (gauge_setValue v g) \<and> gauge_span (gauge_setValue v g) \<le> 0"
    by (auto simp: gauge_span_def gauge_setValue_def)
qed

lemma drawings_stay_inside_witness:
  "(10 :: rat) / 59 \<le> 10 \<and> (4 :: rat) \<le> 10 \<and> (0 :: rat) \<le> 0"
proof -
  let ?c = "push_all [(0, 50), (0, 60)] (new_chart 1)"
  have c: "?c = \<lparr>ch_series = [\<lparr>cs_values = [50, 60]\<rparr>], ch_maxPoints = 60\<rparr>"
    by (simp add: push_all_def new_chart_def addSeries_def pushValue_def keep_last_def)
  have 1: "[(0, 5), (10 / 59, 4)] \<in> set (chart_points (0, 0, 10, 10) 100 ?c)"
    unfolding c by (simp add: chart_points_def chart_max_def upt_rec)
  have 2: "(26, 0, 48, 100) \<in> set (bars_paint 100 134 [\<lparr>br_date = ''01-01'', br_totalSeconds = 10\<rparr>])"
    by (simp add: bars_paint_def)
  from drawings_stay_inside [OF _ _ 1 _ _ _ 2, of "10 / 59" 4] show ?thesis by simp
qed

end
