(* ===== verification/Dash_Lists.thy ===== *)
theory Dash_Lists
  imports Dash_Overview
begin

text \<open>
  The page of the cloud data and the list of machines of the dashboard: \<open>ui/pages/cloudpage.cpp\<close> and
  \<open>ui/machinessidebar.cpp\<close> under \<open>src/dashboard/\<close>. As in \<open>Dash_Family\<close> requests run in threads of their own and their
  replies arrive in any order, whatever the page shows by then.
\<close>

section \<open>The page of the cloud data\<close>

record cloud_page =
  cw_notice :: bool
  cw_range :: string
  cw_week :: bool
  cw_month :: bool
  cw_summary :: "(string \<times> string) list"
  cw_daily :: "DailyBar list"
  cw_recent :: "(string \<times> string \<times> string \<times> string) list"

definition new_cloud_page :: cloud_page where
  "new_cloud_page =
     \<lparr>cw_notice = False, cw_range = ''week'', cw_week = True, cw_month = False, cw_summary = [], cw_daily = [], cw_recent = []\<rparr>"

text \<open>Requests with the token taken when they were started.\<close>

datatype cloud_job =
    CloudSummary string string string   \<comment> \<open>token, first and last day\<close>
  | CloudDaily string string string
  | CloudRecent string

datatype cloud_reply =
    Totals "DailyTotal list result"
  | Logs "RecentLog list result"

definition run_cloud_job :: "'w cloud_env \<Rightarrow> cloud_job \<Rightarrow> 'w http_state \<Rightarrow> cloud_reply \<times> 'w http_state" where
  "run_cloud_job env j st =
     (case j of
        CloudSummary tok a b \<Rightarrow> map_prod Totals id (dailyTotals env tok a b st)
      | CloudDaily tok a b \<Rightarrow> map_prod Totals id (dailyTotals env tok a b st)
      | CloudRecent tok \<Rightarrow> map_prod Logs id (recentLogs env tok 100 st))"

text \<open>\<open>date\<close> prints the local day of an instant.\<close>

definition dayRangeFor :: "(int \<Rightarrow> string) \<Rightarrow> int \<Rightarrow> string \<Rightarrow> string \<times> string" where
  "dayRangeFor date now rng = (let days = (if rng = ''month'' then 29 else 6) in (date (now - days * 86400), date now))"

definition loadSummary :: "(int \<Rightarrow> string) \<Rightarrow> int \<Rightarrow> string option \<Rightarrow> cloud_page \<Rightarrow> cloud_job list" where
  "loadSummary date now session p =
     (case session of
        None \<Rightarrow> []
      | Some tok \<Rightarrow> (case dayRangeFor date now (cw_range p) of (a, b) \<Rightarrow> [CloudSummary tok a b]))"

definition loadDaily :: "(int \<Rightarrow> string) \<Rightarrow> int \<Rightarrow> string option \<Rightarrow> cloud_page \<Rightarrow> cloud_job list" where
  "loadDaily date now session p =
     (case session of
        None \<Rightarrow> []
      | Some tok \<Rightarrow> (case dayRangeFor date now (cw_range p) of (a, b) \<Rightarrow> [CloudDaily tok a b]))"

definition loadRecent :: "string option \<Rightarrow> cloud_job list" where
  "loadRecent session = (case session of None \<Rightarrow> [] | Some tok \<Rightarrow> [CloudRecent tok])"

definition setRange :: "(int \<Rightarrow> string) \<Rightarrow> int \<Rightarrow> string option \<Rightarrow> string \<Rightarrow> cloud_page \<Rightarrow> cloud_page \<times> cloud_job list" where
  "setRange date now session r p =
     (let p1 = p\<lparr>cw_range := r, cw_week := (r = ''week''), cw_month := (r = ''month'')\<rparr>
      in (p1, loadSummary date now session p1 @ loadDaily date now session p1))"

definition cloud_refresh :: "(int \<Rightarrow> string) \<Rightarrow> int \<Rightarrow> string option \<Rightarrow> cloud_page \<Rightarrow> cloud_page \<times> cloud_job list" where
  "cloud_refresh date now session p =
     (if session = None then (p\<lparr>cw_notice := True, cw_summary := [], cw_recent := [], cw_daily := []\<rparr>, [])
      else (p\<lparr>cw_notice := False\<rparr>, loadSummary date now session p @ loadDaily date now session p @ loadRecent session))"

text \<open>What the page shows of a reply.\<close>

definition summary_lines :: "DailyTotal list \<Rightarrow> (string \<times> string) list" where
  "summary_lines ts = map (\<lambda>(app, secs). (app, fmtDuration secs)) (cloud_summary ts)"

definition daily_bars :: "DailyTotal list \<Rightarrow> DailyBar list" where
  "daily_bars ts = map (\<lambda>(day, secs). \<lparr>br_date = day, br_totalSeconds = secs\<rparr>) (cloud_daily ts)"

definition recent_lines :: "RecentLog list \<Rightarrow> (string \<times> string \<times> string \<times> string) list" where
  "recent_lines ls = map (\<lambda>l. (rl_deviceId l, rl_processName l, rl_windowTitle l, fmtDuration (rl_duration l))) ls"

fun cloud_done :: "cloud_job \<Rightarrow> cloud_reply \<Rightarrow> cloud_page \<Rightarrow> cloud_page" where
  "cloud_done (CloudSummary tok a b) (Totals (Inr ts)) p = p\<lparr>cw_summary := summary_lines ts\<rparr>"
| "cloud_done (CloudDaily tok a b) (Totals (Inr ts)) p = p\<lparr>cw_daily := daily_bars ts\<rparr>"
| "cloud_done (CloudRecent tok) (Logs (Inr ls)) p = p\<lparr>cw_recent := recent_lines ls\<rparr>"
| "cloud_done j r p = p"

record cloud_state =
  cs_page :: cloud_page
  cs_jobs :: "cloud_job list"
  cs_session :: "string option"

datatype cloud_event =
    OpenCloud
  | PressWeek
  | PressMonth
  | CloudReply nat cloud_reply
  | CloudLogIn "string option"    \<comment> \<open>the token that the next \<open>loadDashSession\<close> finds\<close>
  | CloudLogOut
  | CloudLogOutInSettings

definition cloud_page_start :: "string option \<Rightarrow> cloud_state" where
  "cloud_page_start session = \<lparr>cs_page = new_cloud_page, cs_jobs = [], cs_session = session\<rparr>"

definition cloud_does :: "cloud_state \<Rightarrow> cloud_page \<times> cloud_job list \<Rightarrow> cloud_state option" where
  "cloud_does s r = Some (s\<lparr>cs_page := fst r, cs_jobs := cs_jobs s @ snd r\<rparr>)"

definition cloud_step :: "(int \<Rightarrow> string) \<Rightarrow> int \<times> cloud_event \<Rightarrow> cloud_state \<Rightarrow> cloud_state option" where
  "cloud_step date te s =
     (let now = fst te; p = cs_page s; session = cs_session s
      in case snd te of
           OpenCloud \<Rightarrow> cloud_does s (cloud_refresh date now session p)
         | PressWeek \<Rightarrow> cloud_does s (setRange date now session ''week'' p)
         | PressMonth \<Rightarrow> cloud_does s (setRange date now session ''month'' p)
         | CloudReply k r \<Rightarrow>
             if k < length (cs_jobs s)
             then Some (s\<lparr>cs_page := cloud_done (cs_jobs s ! k) r p, cs_jobs := drop_nth k (cs_jobs s)\<rparr>)
             else Some s
         | CloudLogIn found \<Rightarrow>
             if session = None then cloud_does (s\<lparr>cs_session := found\<rparr>) (cloud_refresh date now found p) else Some s
         | CloudLogOut \<Rightarrow>
             if session = None then Some s
             else cloud_does (s\<lparr>cs_session := None\<rparr>) (cloud_refresh date now None p)
         | CloudLogOutInSettings \<Rightarrow> Some (s\<lparr>cs_session := None\<rparr>))"

section \<open>The list of machines\<close>

record sidebar =
  sb_rows :: "(string \<times> string \<times> machine_status) list"   \<comment> \<open>id, label, status\<close>
  sb_filter :: string
  sb_items :: "(string \<times> string) list"                      \<comment> \<open>label and id; an item without id has none\<close>

definition status_color :: "machine_status \<Rightarrow> string" where
  "status_color st = (case st of Online \<Rightarrow> ''#38b26c'' | Critical \<Rightarrow> ''#df5260'' | Offline \<Rightarrow> ''#87919c'')"

text \<open>\<open>needle_of\<close> is \<open>trimmed().toLower()\<close> of the filter, \<open>lowered\<close> is \<open>toLower()\<close>.\<close>

definition applyFilter :: "(string \<Rightarrow> string) \<Rightarrow> (string \<Rightarrow> string) \<Rightarrow> sidebar \<Rightarrow> sidebar" where
  "applyFilter needle_of lowered b =
     (let needle = needle_of (sb_filter b);
          items = map (\<lambda>(d, label, st). (label, d)) (filter (\<lambda>(d, label, st). needle = [] \<or> sublist needle (lowered label)) (sb_rows b))
      in b\<lparr>sb_items := (if items = [] \<and> sb_rows b \<noteq> [] then [(''No machines match.'', [])] else items)\<rparr>)"

definition type_filter :: "(string \<Rightarrow> string) \<Rightarrow> (string \<Rightarrow> string) \<Rightarrow> string \<Rightarrow> sidebar \<Rightarrow> sidebar" where
  "type_filter needle_of lowered t b = (if t = sb_filter b then b else applyFilter needle_of lowered (b\<lparr>sb_filter := t\<rparr>))"

definition sidebar_refresh :: "string option \<Rightarrow> sidebar \<Rightarrow> sidebar \<times> string list" where
  "sidebar_refresh session b =
     (case session of
        None \<Rightarrow> (b\<lparr>sb_rows := [], sb_items := [(''Log in to see machines.'', [])]\<rparr>, [])
      | Some tok \<Rightarrow> (b, [tok]))"

text \<open>\<open>age\<close> of a heartbeat as in \<open>machine_status\<close>.\<close>

definition machines_loaded ::
  "(string \<Rightarrow> string) \<Rightarrow> (string \<Rightarrow> string) \<Rightarrow> string \<Rightarrow> (DeviceHeartbeat \<Rightarrow> int option) \<Rightarrow> DeviceHeartbeat list result \<Rightarrow> sidebar \<Rightarrow> sidebar" where
  "machines_loaded needle_of lowered self age r b =
     (case r of
        Inl e \<Rightarrow> b\<lparr>sb_rows := [], sb_items := [(''Failed to load machines.'', [])]\<rparr>
      | Inr hb \<Rightarrow>
          applyFilter needle_of lowered
            (b\<lparr>sb_rows := map (\<lambda>m. (dh_deviceId m, machine_label self m, machine_status (age m) m)) hb\<rparr>))"

section \<open>What the cloud page shows\<close>

datatype cloud_known = KnownToken string | KnownTotals "DailyTotal list" | KnownLogs "RecentLog list"

fun cloud_reply_brings :: "cloud_reply \<Rightarrow> cloud_known set" where
  "cloud_reply_brings (Totals (Inr ts)) = {KnownTotals ts}"
| "cloud_reply_brings (Logs (Inr ls)) = {KnownLogs ls}"
| "cloud_reply_brings _ = {}"

definition cloud_brings :: "int \<times> cloud_event \<Rightarrow> cloud_known set" where
  "cloud_brings te = (case snd te of CloudReply k r \<Rightarrow> cloud_reply_brings r | CloudLogIn (Some tok) \<Rightarrow> {KnownToken tok} | _ \<Rightarrow> {})"

fun cloud_job_token :: "cloud_job \<Rightarrow> string" where
  "cloud_job_token (CloudSummary tok a b) = tok"
| "cloud_job_token (CloudDaily tok a b) = tok"
| "cloud_job_token (CloudRecent tok) = tok"

definition shows_known :: "cloud_known set \<Rightarrow> cloud_page \<Rightarrow> bool" where
  "shows_known K p \<longleftrightarrow>
     (cw_summary p = [] \<or> (\<exists>ts. KnownTotals ts \<in> K \<and> cw_summary p = summary_lines ts)) \<and>
     (cw_daily p = [] \<or> (\<exists>ts. KnownTotals ts \<in> K \<and> cw_daily p = daily_bars ts)) \<and>
     (cw_recent p = [] \<or> (\<exists>ls. KnownLogs ls \<in> K \<and> cw_recent p = recent_lines ls))"

definition cloud_safe :: "cloud_known set \<Rightarrow> cloud_state \<Rightarrow> bool" where
  "cloud_safe K s \<longleftrightarrow>
     shows_known K (cs_page s) \<and> (\<forall>j \<in> set (cs_jobs s). KnownToken (cloud_job_token j) \<in> K) \<and>
     (\<forall>tok. cs_session s = Some tok \<longrightarrow> KnownToken tok \<in> K) \<and>
     (cw_week (cs_page s) \<longleftrightarrow> cw_range (cs_page s) = ''week'') \<and> (cw_month (cs_page s) \<longleftrightarrow> cw_range (cs_page s) = ''month'')"

lemma cloud_done_shows: "cloud_reply_brings r \<subseteq> K \<Longrightarrow> shows_known K p \<Longrightarrow> shows_known K (cloud_done j r p)"
  by (cases "(j, r, p)" rule: cloud_done.cases) (auto simp: shows_known_def)

lemma cloud_done_range [simp]:
  "cw_range (cloud_done j r p) = cw_range p" "cw_week (cloud_done j r p) = cw_week p" "cw_month (cloud_done j r p) = cw_month p"
  by (cases "(j, r, p)" rule: cloud_done.cases; simp)+

lemma load_tokens:
  "j \<in> set (loadSummary date now session p) \<union> set (loadDaily date now session p) \<union> set (loadRecent session) \<Longrightarrow>
   session = Some (cloud_job_token j)"
  by (auto simp: loadSummary_def loadDaily_def loadRecent_def split: option.splits prod.splits)

definition page_known :: "cloud_known set \<Rightarrow> cloud_page \<Rightarrow> bool" where
  "page_known K p \<longleftrightarrow> shows_known K p \<and> (cw_week p \<longleftrightarrow> cw_range p = ''week'') \<and> (cw_month p \<longleftrightarrow> cw_range p = ''month'')"

lemma cloud_does_safe:
  "cloud_safe K s \<Longrightarrow> page_known K (fst r) \<Longrightarrow> (\<And>j. j \<in> set (snd r) \<Longrightarrow> cs_session s = Some (cloud_job_token j)) \<Longrightarrow>
   cloud_does s r = Some s' \<Longrightarrow> cloud_safe K s'"
  by (auto simp: cloud_does_def cloud_safe_def page_known_def)

lemma cloud_safe_page: "cloud_safe K s \<Longrightarrow> page_known K (cs_page s)"
  by (simp add: cloud_safe_def page_known_def)

lemma cloud_refresh_page:
  "page_known K p \<Longrightarrow> page_known K (fst (cloud_refresh date now session p))"
  "j \<in> set (snd (cloud_refresh date now session p)) \<Longrightarrow> session = Some (cloud_job_token j)"
  using load_tokens [of j date now session p]
  by (auto simp: cloud_refresh_def page_known_def shows_known_def split: if_split_asm)

lemma setRange_page:
  "page_known K p \<Longrightarrow> page_known K (fst (setRange date now session r p))"
  "j \<in> set (snd (setRange date now session r p)) \<Longrightarrow> session = Some (cloud_job_token j)"
proof -
  show "page_known K p \<Longrightarrow> page_known K (fst (setRange date now session r p))"
    by (simp add: setRange_def Let_def page_known_def shows_known_def)
  show "j \<in> set (snd (setRange date now session r p)) \<Longrightarrow> session = Some (cloud_job_token j)"
    by (simp add: setRange_def Let_def) (blast intro: load_tokens)
qed

lemma cloud_refresh_safe:
  assumes "cloud_safe K s" and "cloud_does s (cloud_refresh date now (cs_session s) (cs_page s)) = Some s'"
  shows "cloud_safe K s'"
  by (rule cloud_does_safe [OF assms(1) cloud_refresh_page(1) [OF cloud_safe_page [OF assms(1)]] cloud_refresh_page(2) assms(2)])

lemma setRange_safe:
  assumes "cloud_safe K s" and "cloud_does s (setRange date now (cs_session s) r (cs_page s)) = Some s'"
  shows "cloud_safe K s'"
  by (rule cloud_does_safe [OF assms(1) setRange_page(1) [OF cloud_safe_page [OF assms(1)]] setRange_page(2) assms(2)])

lemma cloud_session_safe:
  "cloud_safe K s \<Longrightarrow> (\<And>tok. session = Some tok \<Longrightarrow> KnownToken tok \<in> K) \<Longrightarrow> cloud_safe K (s\<lparr>cs_session := session\<rparr>)"
  by (simp add: cloud_safe_def)

lemma cloud_step_safe:
  assumes safe: "cloud_safe K s" and step: "cloud_step date te s = Some s'" and known: "cloud_brings te \<subseteq> K"
  shows "cloud_safe K s'"
proof (cases "snd te")
  case OpenCloud
  with step show ?thesis by (intro cloud_refresh_safe [OF safe]) (simp add: cloud_step_def Let_def)
next
  case PressWeek
  with step show ?thesis by (intro setRange_safe [OF safe]) (simp add: cloud_step_def Let_def)
next
  case PressMonth
  with step show ?thesis by (intro setRange_safe [OF safe]) (simp add: cloud_step_def Let_def)
next
  case (CloudReply k r)
  with known have "cloud_reply_brings r \<subseteq> K" by (simp add: cloud_brings_def)
  moreover have "\<forall>j \<in> set (drop_nth k (cs_jobs s)). KnownToken (cloud_job_token j) \<in> K"
    using safe subsetD [OF drop_nth_set] by (fastforce simp: cloud_safe_def)
  ultimately show ?thesis
    using CloudReply step safe by (auto simp: cloud_step_def Let_def cloud_safe_def cloud_done_shows split: if_split_asm)
next
  case (CloudLogIn found)
  with known have "\<And>tok. found = Some tok \<Longrightarrow> KnownToken tok \<in> K" by (auto simp: cloud_brings_def)
  from cloud_refresh_safe [OF cloud_session_safe [OF safe this], of found date "fst te"] CloudLogIn step safe show ?thesis
    by (auto simp: cloud_step_def Let_def split: if_splits)
next
  case CloudLogOut
  from cloud_refresh_safe [OF cloud_session_safe [OF safe], of None date "fst te"] CloudLogOut step safe show ?thesis
    by (auto simp: cloud_step_def Let_def split: if_splits)
next
  case CloudLogOutInSettings
  with step safe show ?thesis by (auto simp: cloud_step_def Let_def intro: cloud_session_safe)
qed

interpretation cloud_view: knowing_page "cloud_step date" cloud_brings cloud_safe for date
  by unfold_locales (rule cloud_step_safe)

lemma cloud_step_returns: "cloud_step date te s \<noteq> None"
  by (simp add: cloud_step_def cloud_does_def Let_def split: cloud_event.split)

lemma cloud_run_returns: "\<exists>s'. page_run (cloud_step date) es s = Some s'"
proof (induction es arbitrary: s)
  case (Cons e es)
  obtain s1 where "cloud_step date e s = Some s1" using cloud_step_returns by fastforce
  with Cons show ?case by simp
qed simp

lemma cloud_page_start_safe: "cloud_safe (set_option (map_option KnownToken session)) (cloud_page_start session)"
  by (simp add: cloud_safe_def cloud_page_start_def shows_known_def new_cloud_page_def)


text \<open>The table and the bars of one reply add up to the same time.\<close>

lemma table_and_bars_agree: "sum_list (map snd (cloud_summary ts)) = sum_list (map br_totalSeconds (daily_bars ts))"
  by (simp add: cloud_summary_sum daily_bars_def comp_def case_prod_beta cloud_daily_def totals_by_sum [unfolded comp_def])

section \<open>Late replies\<close>

text \<open>A reply that arrives after a logout is shown all the same; so is the reply for the range that was chosen before.\<close>

lemma late_cloud_reply_shown:
  "cloud_done (CloudSummary tok a b) (Totals (Inr ts)) p = p\<lparr>cw_summary := summary_lines ts\<rparr>"
  "page_run (cloud_step date)
     [(0, OpenCloud), (1, CloudLogOut), (2, CloudReply 2 (Logs (Inr [l])))] (cloud_page_start (Some tok)) = Some s \<Longrightarrow>
   cw_recent (cs_page s) = recent_lines [l] \<and> cw_notice (cs_page s) \<and> cs_session s = None"
  by (auto simp: cloud_step_def cloud_does_def cloud_refresh_def loadSummary_def loadDaily_def loadRecent_def cloud_page_start_def
      new_cloud_page_def Let_def dayRangeFor_def drop_nth_def)

section \<open>The filter of the machines\<close>

lemma filter_items:
  "sb_items (applyFilter needle_of lowered b) =
     (if \<exists>(d, label, st) \<in> set (sb_rows b). needle_of (sb_filter b) = [] \<or> sublist (needle_of (sb_filter b)) (lowered label)
      then map (\<lambda>(d, label, st). (label, d))
             (filter (\<lambda>(d, label, st). needle_of (sb_filter b) = [] \<or> sublist (needle_of (sb_filter b)) (lowered label)) (sb_rows b))
      else if sb_rows b = [] then [] else [(''No machines match.'', [])])"
  by (auto simp: applyFilter_def Let_def filter_empty_conv)

text \<open>Typing in the filter before a login wipes the notice: the list is then empty.\<close>

lemma filter_wipes_notice:
  "t \<noteq> sb_filter b \<Longrightarrow> sb_items (type_filter needle_of lowered t (fst (sidebar_refresh None b))) = []"
  by (simp add: type_filter_def sidebar_refresh_def applyFilter_def Let_def)

end
