(* ===== verification/Dash_Settings.thy ===== *)
theory Dash_Settings
  imports File_Store Json_Value
begin

text \<open>
  \<open>src/dashboard/dashsettings.cpp\<close>: the dashboard's settings file, with the Gemini key encrypted. DPAPI,
  the base64 functions of Windows and the JSON parser and printer are parameters.
\<close>

section \<open>Settings and file\<close>

record DashSettings =
  dst_font :: string
  dst_language :: string
  dst_cpuThreshold :: int
  dst_ramThreshold :: int
  dst_diskThreshold :: int
  dst_timeFormat :: string
  dst_defaultPeriod :: string
  dst_geminiApiKey :: string

definition default_dash :: DashSettings where
  "default_dash = \<lparr>dst_font = ''sans'', dst_language = ''en'', dst_cpuThreshold = 85, dst_ramThreshold = 85,
     dst_diskThreshold = 90, dst_timeFormat = ''24h'', dst_defaultPeriod = ''today'', dst_geminiApiKey = []\<rparr>"

definition hasGeminiApiKey :: "DashSettings \<Rightarrow> bool" where
  "hasGeminiApiKey s \<longleftrightarrow> dst_geminiApiKey s \<noteq> []"

record set_env =
  sx_dir :: "string option"
  sx_io :: io_env
  sx_protect :: "string \<Rightarrow> string"     \<comment> \<open>\<open>[]\<close> when DPAPI fails\<close>
  sx_unprotect :: "string \<Rightarrow> string"
  sx_to64 :: "string \<Rightarrow> string"
  sx_from64 :: "string \<Rightarrow> string"      \<comment> \<open>\<open>[]\<close> when the text is no base64\<close>
  sx_lib :: json_lib

definition settingsPath :: "set_env \<Rightarrow> string option" where
  "settingsPath env = configFile (sx_dir env) ''dashboard_settings.json''"

definition set_dpapiProtect :: "set_env \<Rightarrow> string \<Rightarrow> string" where
  "set_dpapiProtect env plain = (if plain = [] then [] else sx_protect env plain)"

definition set_dpapiUnprotect :: "set_env \<Rightarrow> string \<Rightarrow> string" where
  "set_dpapiUnprotect env enc = (if enc = [] then [] else sx_unprotect env enc)"

definition fromBase64 :: "set_env \<Rightarrow> string \<Rightarrow> string" where
  "fromBase64 env b64 = (if b64 = [] then [] else sx_from64 env b64)"

definition fontStack :: "string \<Rightarrow> string" where
  "fontStack name =
     (let q = CHR 0x27
      in if name = ''mono''
         then q # ''Cascadia Code'' @ q # '', '' @ q # ''Cascadia Mono'' @ q # '', '' @ q # ''Consolas'' @ q # '', '' @
              q # ''SFMono-Regular'' @ q # '', monospace''
         else if name = ''serif''
         then q # ''Georgia'' @ q # '', '' @ q # ''Times New Roman'' @ q # '', serif''
         else q # ''Segoe UI'' @ q # '', '' @ q # ''Inter'' @ q # '', system-ui, -apple-system, sans-serif'')"

definition setting_str :: "string \<Rightarrow> string \<Rightarrow> json \<Rightarrow> string" where
  "setting_str key def data = (case str_member key data of Some s \<Rightarrow> s | None \<Rightarrow> def)"

definition setting_int :: "string \<Rightarrow> int \<Rightarrow> json \<Rightarrow> int" where
  "setting_int key def data =
     (case member key data of
        None \<Rightarrow> def
      | Some v \<Rightarrow> if is_number v then (case get_int v of Inr i \<Rightarrow> i | Inl e \<Rightarrow> def) else def)"

text \<open>The encrypted key; or, from an older version, the plain one.\<close>

definition gemini_of :: "set_env \<Rightarrow> json \<Rightarrow> string" where
  "gemini_of env data =
     (case str_member ''gemini_api_key_enc'' data of
        Some b64 \<Rightarrow> (let enc = fromBase64 env b64 in if enc \<noteq> [] then set_dpapiUnprotect env enc else [])
      | None \<Rightarrow> (case str_member ''gemini_api_key'' data of Some key \<Rightarrow> key | None \<Rightarrow> []))"

definition dash_of_json :: "set_env \<Rightarrow> json \<Rightarrow> DashSettings" where
  "dash_of_json env data =
     \<lparr>dst_font = setting_str ''font'' (dst_font default_dash) data,
      dst_language = setting_str ''language'' (dst_language default_dash) data,
      dst_cpuThreshold = setting_int ''cpu_threshold'' (dst_cpuThreshold default_dash) data,
      dst_ramThreshold = setting_int ''ram_threshold'' (dst_ramThreshold default_dash) data,
      dst_diskThreshold = setting_int ''disk_threshold'' (dst_diskThreshold default_dash) data,
      dst_timeFormat = setting_str ''time_format'' (dst_timeFormat default_dash) data,
      dst_defaultPeriod = setting_str ''default_period'' (dst_defaultPeriod default_dash) data,
      dst_geminiApiKey = gemini_of env data\<rparr>"

definition loadDashSettings :: "set_env \<Rightarrow> fs \<Rightarrow> DashSettings" where
  "loadDashSettings env fs =
     (case Option.bind (settingsPath env) fs of
        None \<Rightarrow> default_dash
      | Some text \<Rightarrow>
          (case jl_parse (sx_lib env) text of
             None \<Rightarrow> default_dash
           | Some data \<Rightarrow> if \<not> is_object data then default_dash else dash_of_json env data))"

definition dash_fields :: "DashSettings \<Rightarrow> (string \<times> json) list" where
  "dash_fields s =
     [(''font'', JsStr (dst_font s)), (''language'', JsStr (dst_language s)),
      (''cpu_threshold'', JsInt (dst_cpuThreshold s)), (''ram_threshold'', JsInt (dst_ramThreshold s)),
      (''disk_threshold'', JsInt (dst_diskThreshold s)),
      (''time_format'', JsStr (dst_timeFormat s)), (''default_period'', JsStr (dst_defaultPeriod s))]"

text \<open>The key is added to the object only when there is one; without its ciphertext nothing is saved.\<close>

definition disk_json :: "set_env \<Rightarrow> DashSettings \<Rightarrow> json option" where
  "disk_json env s =
     (if dst_geminiApiKey s = [] then Some (JsObj (dash_fields s))
      else
        (let enc = set_dpapiProtect env (dst_geminiApiKey s)
         in if enc = [] then None
            else Some (JsObj (dash_fields s @ [(''gemini_api_key_enc'', JsStr (sx_to64 env enc))]))))"

definition saveDashSettings :: "set_env \<Rightarrow> DashSettings \<Rightarrow> fs \<Rightarrow> bool result \<times> fs" where
  "saveDashSettings env s fs =
     (case disk_json env s of
        None \<Rightarrow> (Inr False, fs)
      | Some disk \<Rightarrow>
          (case jl_dump2 (sx_lib env) disk of
             None \<Rightarrow> (Inl JsonError, fs)
           | Some text \<Rightarrow>
               (let (ok, fs') = writeFileAtomic (sx_io env) (settingsPath env) text fs in (Inr ok, fs'))))"

section \<open>Facts\<close>

definition dash_settings_fit :: "DashSettings \<Rightarrow> bool" where
  "dash_settings_fit s \<longleftrightarrow>
     in_i32 (dst_cpuThreshold s) \<and> in_i32 (dst_ramThreshold s) \<and> in_i32 (dst_diskThreshold s)"

text \<open>What Windows promises: ciphertexts open again, base64 texts decode again, neither is empty.\<close>

definition crypto_works :: "set_env \<Rightarrow> bool" where
  "crypto_works env \<longleftrightarrow>
     (\<forall>x. x \<noteq> [] \<longrightarrow> sx_protect env x \<noteq> [] \<longrightarrow> sx_unprotect env (sx_protect env x) = x) \<and>
     (\<forall>x. x \<noteq> [] \<longrightarrow> sx_to64 env x \<noteq> [] \<and> sx_from64 env (sx_to64 env x) = x)"

lemma dash_of_json_cong:
  "map_of gs = map_of xs \<Longrightarrow> dash_of_json env (JsObj gs) = dash_of_json env (JsObj xs)"
proof -
  assume "map_of gs = map_of xs"
  then have "member k (JsObj gs) = member k (JsObj xs)" for k by simp
  then have "str_member k (JsObj gs) = str_member k (JsObj xs)" "setting_int k d (JsObj gs) = setting_int k d (JsObj xs)"
    for k d by (simp_all add: str_member_def setting_int_def)
  then show ?thesis by (simp add: dash_of_json_def setting_str_def gemini_of_def cong: option.case_cong)
qed

lemmas dash_object = dash_fields_def dash_of_json_def setting_str_def setting_int_def gemini_of_def str_member_def

text \<open>The three facts about the object that is written: its members are flat, it reads back as the settings,
  and the key is in it only as ciphertext.\<close>

definition enc_member :: "set_env \<Rightarrow> DashSettings \<Rightarrow> string \<times> json" where
  "enc_member env s = (''gemini_api_key_enc'', JsStr (sx_to64 env (sx_protect env (dst_geminiApiKey s))))"

lemma disk_json_members:
  assumes "disk_json env s = Some disk"
  obtains xs where "disk = JsObj xs" "set xs \<subseteq> insert (enc_member env s) (set (dash_fields s))"
    "distinct (map fst xs)"
  using assms
  by (fastforce simp: disk_json_def enc_member_def dash_fields_def set_dpapiProtect_def Let_def split: if_splits)

lemma disk_json_flat:
  assumes "set xs \<subseteq> insert (enc_member env s) (set (dash_fields s))" and "dash_settings_fit s"
  shows "\<forall>(k, v) \<in> set xs. flat_json v"
proof -
  have "in_i64 i" if "in_i32 i" for i using that by (simp add: in_i32_def in_i64_def)
  then have "flat_json v" if "(k, v) \<in> insert (enc_member env s) (set (dash_fields s))" for k v
    using that assms(2) by (auto simp: enc_member_def dash_fields_def dash_settings_fit_def flat_json_def)
  then show ?thesis using assms(1) by blast
qed

lemma disk_json_reads:
  assumes "disk_json env s = Some (JsObj xs)" and "crypto_works env" and "dash_settings_fit s"
  shows "dash_of_json env (JsObj xs) = s"
proof (cases "dst_geminiApiKey s = []")
  case True
  then have "xs = dash_fields s" using assms(1) by (simp add: disk_json_def)
  then show ?thesis using True assms(3)
    by (intro DashSettings.equality) (simp_all add: dash_object dash_settings_fit_def)
next
  case False
  let ?enc = "sx_protect env (dst_geminiApiKey s)"
  have e: "?enc \<noteq> []" "xs = dash_fields s @ [enc_member env s]"
    using assms(1) False by (auto simp: disk_json_def set_dpapiProtect_def enc_member_def Let_def split: if_splits)
  then have "gemini_of env (JsObj xs) = dst_geminiApiKey s"
    using assms(2) False
    by (simp add: dash_fields_def enc_member_def gemini_of_def str_member_def fromBase64_def set_dpapiUnprotect_def
        crypto_works_def Let_def)
  then show ?thesis using e assms(3)
    by (intro DashSettings.equality)
       (simp_all add: dash_fields_def dash_of_json_def setting_str_def setting_int_def str_member_def enc_member_def
          dash_settings_fit_def)
qed

lemma saved_text:
  assumes "saveDashSettings env s fs = (res, fs')" and "settingsPath env = Some path"
  shows "(res \<noteq> Inr True \<and> fs' = fs) \<or>
    (\<exists>xs text ok. res = Inr ok \<and> disk_json env s = Some (JsObj xs) \<and> jl_dump2 (sx_lib env) (JsObj xs) = Some text \<and>
       writeFileAtomic (sx_io env) (Some path) text fs = (ok, fs') \<and>
       set xs \<subseteq> insert (enc_member env s) (set (dash_fields s)) \<and> distinct (map fst xs))"
proof (cases "disk_json env s")
  case None
  then show ?thesis using assms by (auto simp: saveDashSettings_def)
next
  case (Some disk)
  from disk_json_members [OF this] obtain xs where "disk = JsObj xs"
    "set xs \<subseteq> insert (enc_member env s) (set (dash_fields s))" "distinct (map fst xs)" .
  then show ?thesis using assms Some
    by (cases "jl_dump2 (sx_lib env) disk") (auto simp: saveDashSettings_def split: prod.splits)
qed

section \<open>Property\<close>

text \<open>The dashboard's settings file. Settings that were saved are the settings that are loaded, the
  Gemini key included; when saving fails or throws, the file reads as before. What a save adds to the disk is (a prefix
  of) the text of an object whose members are the plain settings and, for the key, only the base64 text
  of its ciphertext: no member carries the key itself, also after a file of an older version with the
  key in the clear was loaded.\<close>

theorem dash_settings_roundtrip:
  assumes "json_lib_ok (sx_lib env)" and "crypto_works env" and "dash_settings_fit s" and "sx_dir env = Some dir"
    and "saveDashSettings env s fs = (res, fs')"
  shows "loadDashSettings env fs' = (if res = Inr True then s else loadDashSettings env fs)
    \<and> (\<forall>q \<in> ran fs' - ran fs. \<exists>xs text k. q = take k text \<and> jl_dump2 (sx_lib env) (JsObj xs) = Some text \<and>
         set xs \<subseteq> insert (enc_member env s) (set (dash_fields s)))"
proof -
  obtain path where path: "settingsPath env = Some path"
    using assms(4) by (simp add: settingsPath_def configFile_def)
  show ?thesis
  proof (cases "res \<noteq> Inr True \<and> fs' = fs")
    case True
    then show ?thesis by simp
  next
    case False
    then obtain xs out ok where w: "res = Inr ok" "disk_json env s = Some (JsObj xs)"
      "jl_dump2 (sx_lib env) (JsObj xs) = Some out" "writeFileAtomic (sx_io env) (Some path) out fs = (ok, fs')"
      "set xs \<subseteq> insert (enc_member env s) (set (dash_fields s))" "distinct (map fst xs)"
      using saved_text [OF assms(5) path] by blast
    obtain gs where gs: "jl_parse (sx_lib env) out = Some (JsObj gs)" "map_of gs = map_of xs"
      by (rule json_lib_parse [OF assms(1) w(3) disk_json_flat [OF w(5) assms(3)] w(6)])
    have "dash_of_json env (JsObj gs) = s"
      using dash_of_json_cong [OF gs(2)] disk_json_reads [OF w(2) assms(2,3)] by simp
    then have "loadDashSettings env fs' = (if res = Inr True then s else loadDashSettings env fs)"
      using writeFileAtomic_result(1) [OF w(4)] gs(1) w(1) by (simp add: loadDashSettings_def path)
    moreover have "\<exists>k. q = take k out" if "q \<in> ran fs' - ran fs" for q
      by (rule writeFileAtomic_adds [OF w(4)]) (use that in auto)
    ultimately show ?thesis using w(3,5) by blast
  qed
qed

definition demo_settings :: DashSettings where
  "demo_settings = default_dash\<lparr>dst_geminiApiKey := ''k1'', dst_cpuThreshold := 70\<rparr>"

definition demo_disk :: json where
  "demo_disk = JsObj (dash_fields demo_settings @ [(''gemini_api_key_enc'', JsStr ''b#1k'')])"

definition one_json :: "json \<Rightarrow> json_lib" where
  "one_json j = \<lparr>jl_parse = (\<lambda>t. if t = ''X'' then Some j else None), jl_what = (\<lambda>t. ''bad''),
     jl_dump = (\<lambda>i. if i = j then Some ''X'' else None), jl_dump2 = (\<lambda>i. if i = j then Some ''X'' else None)\<rparr>"

definition demo_set_env :: set_env where
  "demo_set_env = \<lparr>sx_dir = Some ''cfg'', sx_io = io_good, sx_protect = (\<lambda>x. CHR ''#'' # rev x),
     sx_unprotect = (\<lambda>y. rev (tl y)), sx_to64 = (\<lambda>x. CHR ''b'' # x), sx_from64 = tl, sx_lib = one_json demo_disk\<rparr>"

lemma one_json_ok: "json_lib_ok (one_json j)"
  by (auto simp: json_lib_ok_def one_json_def)

lemma demo_set_saves:
  "saveDashSettings demo_set_env demo_settings Map.empty =
     (Inr True, (Map.empty(''cfg'' @ bsl # ''dashboard_settings.json'' \<mapsto> ''X''))
        (tmp_path (''cfg'' @ bsl # ''dashboard_settings.json'') := None))"
proof -
  have "disk_json demo_set_env demo_settings = Some demo_disk"
    by (simp add: disk_json_def demo_set_env_def demo_settings_def demo_disk_def set_dpapiProtect_def)
  moreover have "jl_dump2 (sx_lib demo_set_env) demo_disk = Some ''X''" by (simp add: demo_set_env_def one_json_def)
  ultimately show ?thesis
    by (simp add: saveDashSettings_def) (simp add: demo_set_env_def settingsPath_def configFile_def)
qed

lemma dash_settings_roundtrip_witness:
  "loadDashSettings demo_set_env (snd (saveDashSettings demo_set_env demo_settings Map.empty)) = demo_settings"
proof -
  have "json_lib_ok (sx_lib demo_set_env)" "crypto_works demo_set_env" "sx_dir demo_set_env = Some ''cfg''"
    by (simp_all add: demo_set_env_def one_json_ok crypto_works_def)
  moreover have "dash_settings_fit demo_settings"
    by (simp add: dash_settings_fit_def demo_settings_def default_dash_def in_i32_def)
  ultimately show ?thesis
    using dash_settings_roundtrip [of demo_set_env demo_settings "''cfg''" Map.empty "Inr True"] demo_set_saves by simp
qed

text \<open>The migration of a key in the clear: it is loaded, and the next save that succeeds writes a file whose
  object has no member of that name.\<close>

lemma plain_key_migrates:
  assumes "str_member ''gemini_api_key_enc'' data = None" and "str_member ''gemini_api_key'' data = Some key"
    and "disk_json env (dash_of_json env data) = Some disk"
  shows "dst_geminiApiKey (dash_of_json env data) = key \<and> member ''gemini_api_key'' disk = None"
  using assms by (auto simp: dash_of_json_def gemini_of_def disk_json_def dash_fields_def Let_def split: if_splits)

end
