(* ===== verification/Dash_Session.thy ===== *)
theory Dash_Session
  imports File_Store
begin

text \<open>
  \<open>src/dashboard/dashsession.cpp\<close> and \<open>src/dashboard/autostart.cpp\<close>: the dashboard's own session file and
  its entry under the Run key. DPAPI is a parameter; like the code's two wrappers its functions return
  the empty string where Windows fails.
\<close>

section \<open>The session file\<close>

record DashSession =
  ds_accessToken :: string
  ds_refreshToken :: string
  ds_userId :: string
  ds_email :: string

record dash_env =
  dx_dir :: "string option"
  dx_io :: io_env
  dx_protect :: "string \<Rightarrow> string"
  dx_unprotect :: "string \<Rightarrow> string"

definition sessionPath :: "dash_env \<Rightarrow> string option" where
  "sessionPath env = configFile (dx_dir env) ''dashboard_session.dat''"

definition dash_session_text :: "DashSession \<Rightarrow> string" where
  "dash_session_text s = ds_userId s @ nl # ds_email s @ nl # ds_accessToken s @ nl # ds_refreshToken s @ [nl]"

definition saveDashSession :: "dash_env \<Rightarrow> DashSession \<Rightarrow> fs \<Rightarrow> bool \<times> fs" where
  "saveDashSession env s fs =
     (let enc = dx_protect env (dash_session_text s)
      in if enc = [] then (False, fs) else writeFileAtomic (dx_io env) (sessionPath env) enc fs)"

text \<open>The loop over the bytes: a line ends at each newline and at the end.\<close>

fun line_loop :: "string \<Rightarrow> nat \<Rightarrow> nat \<Rightarrow> nat \<Rightarrow> string list" where
  "line_loop plain start i 0 = []"
| "line_loop plain start i (Suc n) =
     (if i = length plain \<or> (i < length plain \<and> plain ! i = nl)
      then take (i - start) (drop start plain) # line_loop plain (i + 1) (i + 1) n
      else line_loop plain start (i + 1) n)"

definition session_lines :: "string \<Rightarrow> string list" where
  "session_lines plain = line_loop plain 0 0 (length plain + 1)"

definition loadDashSession :: "dash_env \<Rightarrow> fs \<Rightarrow> DashSession option" where
  "loadDashSession env fs =
     (case sessionPath env of
        None \<Rightarrow> None
      | Some path \<Rightarrow>
          (case fs path of
             None \<Rightarrow> None
           | Some enc \<Rightarrow>
               if enc = [] then None
               else
                 (let plain = dx_unprotect env enc
                  in if plain = [] then None
                     else
                       (let ls = session_lines plain
                        in if length ls < 4 then None
                           else Some \<lparr>ds_accessToken = ls ! 2, ds_refreshToken = ls ! 3, ds_userId = ls ! 0,
                                      ds_email = ls ! 1\<rparr>))))"

definition clearDashSession :: "dash_env \<Rightarrow> fs \<Rightarrow> fs" where
  "clearDashSession env fs =
     (case sessionPath env of None \<Rightarrow> fs | Some path \<Rightarrow> if io_delete (dx_io env) then fs(path := None) else fs)"

section \<open>Autostart\<close>

text \<open>The value \<open>JustInTimeDashboard\<close> under the Run key, and whether each registry call succeeds.\<close>

record reg_env =
  rg_open :: bool
  rg_delete :: bool
  rg_set :: bool
  rg_exe :: string

definition setAutostart :: "reg_env \<Rightarrow> bool \<Rightarrow> string option \<Rightarrow> bool \<times> string option" where
  "setAutostart env enabled value =
     (if \<not> rg_open env then (False, value)
      else if \<not> enabled
      then (if value = None then (True, None) else if rg_delete env then (True, None) else (False, value))
      else if rg_set env then (True, Some (quo # take 259 (rg_exe env) @ quo # '' --tray'')) else (False, value))"

definition isAutostartEnabled :: "reg_env \<Rightarrow> string option \<Rightarrow> bool" where
  "isAutostartEnabled env value \<longleftrightarrow> rg_open env \<and> value \<noteq> None"

section \<open>Properties\<close>

lemma line_loop_split:
  "start \<le> i \<Longrightarrow> i + n = length plain + 1 \<Longrightarrow> 0 < n \<Longrightarrow> nl \<notin> set (take (i - start) (drop start plain)) \<Longrightarrow>
   line_loop plain start i n = split_on nl (drop start plain)"
proof (induction plain start i n rule: line_loop.induct)
  case (2 plain start i n)
  show ?case
  proof (cases "i = length plain")
    case True
    then have "split_on nl (drop start plain) = [drop start plain]" "n = 0"
      using 2(4,6) by (simp_all add: split_on_no_sep)
    with True show ?thesis by simp
  next
    case False
    with 2(4) have lt: "i < length plain" "0 < n" by auto
    have d: "drop start plain = take (i - start) (drop start plain) @ plain ! i # drop (i + 1) plain"
      using 2(3) lt by (metis Cons_nth_drop_Suc Suc_eq_plus1 append_take_drop_id drop_drop le_add_diff_inverse2)
    show ?thesis
    proof (cases "plain ! i = nl")
      case True
      have "split_on nl (drop start plain) = take (i - start) (drop start plain) # split_on nl (drop (i + 1) plain)"
        by (subst d, unfold True, rule split_on_append [OF 2(6)])
      moreover have "line_loop plain (i + 1) (i + 1) n = split_on nl (drop (i + 1) plain)"
        using 2(1) [of] True lt 2(4) by simp
      ultimately show ?thesis using True lt by simp
    next
      case no: False
      have "take (i + 1 - start) (drop start plain) = take (i - start) (drop start plain) @ [plain ! i]"
        using 2(3) lt by (simp add: Suc_diff_le take_Suc_conv_app_nth)
      then have "nl \<notin> set (take (i + 1 - start) (drop start plain))" using 2(6) no by auto
      then have "line_loop plain start (i + 1) n = split_on nl (drop start plain)"
        using 2(2) no lt 2(3,4) False by simp
      then show ?thesis using no lt by simp
    qed
  qed
qed simp

lemma session_lines_eq: "session_lines plain = split_on nl plain"
  using line_loop_split [of 0 0 "length plain + 1" plain] by (simp add: session_lines_def)

text \<open>What DPAPI promises: a blob it made opens again, and is not empty.\<close>

definition dpapi_works :: "dash_env \<Rightarrow> bool" where
  "dpapi_works env \<longleftrightarrow> (\<forall>x. x \<noteq> [] \<longrightarrow> dx_protect env x \<noteq> [] \<and> dx_unprotect env (dx_protect env x) = x)"

definition session_clean :: "DashSession \<Rightarrow> bool" where
  "session_clean s \<longleftrightarrow>
     (\<forall>f \<in> {ds_userId s, ds_email s, ds_accessToken s, ds_refreshToken s}. nl \<notin> set f)"

lemma session_lines_text:
  assumes "session_clean s"
  shows "session_lines (dash_session_text s) = [ds_userId s, ds_email s, ds_accessToken s, ds_refreshToken s, []]"
  using assms by (simp add: session_lines_eq dash_session_text_def session_clean_def split_on_append)

lemma load_written:
  assumes "dpapi_works env" and "session_clean s" and "sessionPath env = Some path"
    and "fs path = Some (dx_protect env (dash_session_text s))"
  shows "loadDashSession env fs = Some s"
proof -
  have "dash_session_text s \<noteq> []" by (simp add: dash_session_text_def)
  with assms(1) have "dx_protect env (dash_session_text s) \<noteq> []"
    and "dx_unprotect env (dx_protect env (dash_session_text s)) = dash_session_text s"
    by (simp_all add: dpapi_works_def)
  then show ?thesis
    using assms(3,4) session_lines_text [OF assms(2)] \<open>dash_session_text s \<noteq> []\<close>
    by (simp add: loadDashSession_def Let_def)
qed

lemma saveDashSession_result:
  assumes "dpapi_works env" and "sessionPath env = Some path" and "saveDashSession env s fs = (ok, fs')"
  shows "fs' path = (if ok then Some (dx_protect env (dash_session_text s)) else fs path)"
    and "q \<in> ran fs' \<Longrightarrow> q \<notin> ran fs \<Longrightarrow> \<exists>k. q = take k (dx_protect env (dash_session_text s))"
proof -
  have "dash_session_text s \<noteq> []" by (simp add: dash_session_text_def)
  with assms have w: "writeFileAtomic (dx_io env) (Some path) (dx_protect env (dash_session_text s)) fs = (ok, fs')"
    by (simp add: saveDashSession_def dpapi_works_def Let_def)
  show "fs' path = (if ok then Some (dx_protect env (dash_session_text s)) else fs path)"
    by (rule writeFileAtomic_result(1) [OF w])
  show "\<exists>k. q = take k (dx_protect env (dash_session_text s))" if "q \<in> ran fs'" "q \<notin> ran fs"
    by (rule writeFileAtomic_adds [OF w that])
qed

text \<open>The dashboard's session file. A session that was saved is the session that is loaded, whatever
  the four fields are (empty ones too) as long as none holds a newline; a save that fails leaves the
  session that was there; after a log-out nothing is loaded. Every file content a save adds to the disk
  is (a prefix of) what DPAPI returned, so the tokens are never written in the clear.\<close>
theorem dash_session_roundtrip:
  assumes "dpapi_works env" and "session_clean s" and "dx_dir env = Some dir"
    and "saveDashSession env s fs = (ok, fs')"
  shows "loadDashSession env fs' = (if ok then Some s else loadDashSession env fs)
    \<and> (io_delete (dx_io env) \<longrightarrow> loadDashSession env (clearDashSession env fs') = None)
    \<and> (\<forall>q \<in> ran fs' - ran fs. \<exists>k. q = take k (dx_protect env (dash_session_text s)))"
proof -
  obtain path where path: "sessionPath env = Some path"
    using assms(3) by (simp add: sessionPath_def configFile_def)
  note res = saveDashSession_result [OF assms(1) path assms(4)]
  have "loadDashSession env fs' = (if ok then Some s else loadDashSession env fs)"
    using load_written [OF assms(1,2) path] res(1) path by (simp add: loadDashSession_def)
  moreover have "io_delete (dx_io env) \<longrightarrow> loadDashSession env (clearDashSession env fs') = None"
    using path by (simp add: loadDashSession_def clearDashSession_def)
  ultimately show ?thesis using res(2) by blast
qed

definition demo_dash :: dash_env where
  "demo_dash = \<lparr>dx_dir = Some ''cfg'', dx_io = io_good, dx_protect = (\<lambda>x. CHR ''#'' # rev x),
     dx_unprotect = (\<lambda>y. rev (tl y))\<rparr>"

definition demo_session :: DashSession where
  "demo_session = \<lparr>ds_accessToken = ''acc'', ds_refreshToken = ''ref'', ds_userId = ''u1'', ds_email = []\<rparr>"

lemma demo_dash_works: "dpapi_works demo_dash" by (simp add: dpapi_works_def demo_dash_def)
lemma demo_session_clean: "session_clean demo_session" by (simp add: session_clean_def demo_session_def)

lemma demo_session_saved: "fst (saveDashSession demo_dash demo_session Map.empty)"
  by (simp add: saveDashSession_def demo_dash_def sessionPath_def configFile_def Let_def)

lemma dash_session_roundtrip_witness:
  "loadDashSession demo_dash (snd (saveDashSession demo_dash demo_session Map.empty)) = Some demo_session"
  using dash_session_roundtrip [OF demo_dash_works demo_session_clean, where dir = "''cfg''" and fs = Map.empty
      and ok = True and fs' = "snd (saveDashSession demo_dash demo_session Map.empty)"]
    demo_session_saved
  by (simp add: demo_dash_def prod_eq_iff)

text \<open>The Run key entry: turning it on or off has the reported effect, or changes nothing.\<close>

lemma setAutostart_effect:
  assumes "setAutostart env enabled v = (ok, v')"
  shows "if ok then isAutostartEnabled env v' = enabled else v' = v"
  using assms by (auto simp: setAutostart_def isAutostartEnabled_def split: if_splits)

end
