(* ===== verification/Dash_Window.thy ===== *)
theory Dash_Window
  imports Dash_Lists Dash_Settings Dash_Session
begin

text \<open>
  The window of the dashboard with its rail and its two dialogs: \<open>ui/mainwindow.cpp\<close>, \<open>ui/leftrail.cpp\<close>,
  \<open>ui/settingsdialog.cpp\<close>, \<open>ui/logindialog.cpp\<close> and \<open>main.cpp\<close> under \<open>src/dashboard/\<close>. The state has the files of the
  session and of the settings; a dialog lives from \<open>exec\<close> to its end and has a number, so that a reply to a dialog that is
  closed is told from a reply to the next one. Calls of the pages are a log; what the pages do is in their theories, and the
  readings of the live timers in \<open>Sys_Stats\<close> and \<open>Dash_Export\<close>. A question is answered at once.
\<close>

section \<open>The rail\<close>

record left_rail =
  lr_count :: int
  lr_current :: int

definition addSection :: "left_rail \<Rightarrow> left_rail" where
  "addSection r = r\<lparr>lr_count := lr_count r + 1, lr_current := (if lr_count r = 0 then 0 else lr_current r)\<rparr>"

definition rail_setCurrentIndex :: "int \<Rightarrow> left_rail \<Rightarrow> left_rail" where
  "rail_setCurrentIndex i r = (if i < 0 \<or> lr_count r \<le> i then r else r\<lparr>lr_current := i\<rparr>)"

section \<open>The dialog of the settings\<close>

definition fonts :: "string list" where "fonts = [''sans'', ''mono'', ''serif'']"
definition languages :: "string list" where "languages = [''en'', ''vi'']"
definition time_formats :: "string list" where "time_formats = [''24h'', ''12h'']"
definition periods :: "string list" where "periods = [''today'', ''yesterday'', ''this_week'', ''last_week'']"

text \<open>\<open>setCurrentText\<close> of a box that cannot be edited ignores what is no item; a number box keeps to its range.\<close>

definition combo :: "string list \<Rightarrow> string \<Rightarrow> string \<Rightarrow> string" where
  "combo items t current = (if t \<in> set items then t else current)"

definition spin_percent :: "int \<Rightarrow> int" where
  "spin_percent v = max 1 (min 100 v)"

record settings_dialog =
  sd_loggedIn :: bool
  sd_font :: string
  sd_language :: string
  sd_timeFormat :: string
  sd_period :: string
  sd_cpu :: int
  sd_ram :: int
  sd_disk :: int
  sd_appearanceMsg :: "(string \<times> bool) option"    \<comment> \<open>text and whether it is an error\<close>
  sd_newPassword :: string
  sd_confirmPassword :: string
  sd_passwordMsg :: "(string \<times> bool) option"
  sd_accountMsg :: "(string \<times> bool) option"

definition fill_appearance :: "string \<Rightarrow> string \<Rightarrow> string \<Rightarrow> string \<Rightarrow> int \<Rightarrow> int \<Rightarrow> int \<Rightarrow> settings_dialog \<Rightarrow> settings_dialog" where
  "fill_appearance font lang time period cpu ram disk d =
     d\<lparr>sd_font := combo fonts font (sd_font d), sd_language := combo languages lang (sd_language d),
       sd_timeFormat := combo time_formats time (sd_timeFormat d), sd_period := combo periods period (sd_period d),
       sd_cpu := spin_percent cpu, sd_ram := spin_percent ram, sd_disk := spin_percent disk\<rparr>"

definition loadInto :: "DashSettings \<Rightarrow> settings_dialog \<Rightarrow> settings_dialog" where
  "loadInto s =
     fill_appearance (dst_font s) (dst_language s) (dst_timeFormat s) (dst_defaultPeriod s)
       (dst_cpuThreshold s) (dst_ramThreshold s) (dst_diskThreshold s)"

definition new_settings_dialog :: "bool \<Rightarrow> DashSettings \<Rightarrow> settings_dialog" where
  "new_settings_dialog loggedIn s =
     loadInto s
       \<lparr>sd_loggedIn = loggedIn, sd_font = hd fonts, sd_language = hd languages, sd_timeFormat = hd time_formats,
        sd_period = hd periods, sd_cpu = 1, sd_ram = 1, sd_disk = 1, sd_appearanceMsg = None, sd_newPassword = [],
        sd_confirmPassword = [], sd_passwordMsg = None, sd_accountMsg = None\<rparr>"

text \<open>The settings the fields say, and whether they were saved; \<open>None\<close> is an exception of the JSON library, which nothing
  catches.\<close>

definition form_dash :: "settings_dialog \<Rightarrow> DashSettings \<Rightarrow> DashSettings" where
  "form_dash d s =
     s\<lparr>dst_font := sd_font d, dst_language := sd_language d, dst_timeFormat := sd_timeFormat d,
       dst_defaultPeriod := sd_period d, dst_cpuThreshold := sd_cpu d, dst_ramThreshold := sd_ram d,
       dst_diskThreshold := sd_disk d\<rparr>"

definition saveAppearance :: "set_env \<Rightarrow> fs \<Rightarrow> settings_dialog \<Rightarrow> (bool \<times> settings_dialog \<times> fs) option" where
  "saveAppearance env fs d =
     (case saveDashSettings env (form_dash d (loadDashSettings env fs)) fs of
        (Inl e, fs') \<Rightarrow> None
      | (Inr ok, fs') \<Rightarrow>
          Some (ok, d\<lparr>sd_appearanceMsg :=
                        Some (if ok then (''Saved. Some changes take effect after reopening this window.'', False)
                              else (''Failed to save settings.'', True))\<rparr>, fs'))"

datatype dialog_job =
    PasswordJob string string          \<comment> \<open>token, new password\<close>
  | LogoutJob string string            \<comment> \<open>token, scope\<close>
  | LoginJob string string

datatype dialog_reply =
    Answered "unit result"
  | LoggedIn "Session result"

definition run_dialog_job :: "'w cloud_env \<Rightarrow> dialog_job \<Rightarrow> 'w http_state \<Rightarrow> dialog_reply \<times> 'w http_state" where
  "run_dialog_job env j st =
     (case j of
        PasswordJob tok pass \<Rightarrow> map_prod Answered id (changePassword env tok pass st)
      | LogoutJob tok scope \<Rightarrow> map_prod Answered id (logout env tok scope st)
      | LoginJob email pass \<Rightarrow> map_prod LoggedIn id (login env email pass st))"

text \<open>\<open>units\<close> is the length of a text in UTF-16.\<close>

definition dialog_changePassword ::
  "(string \<Rightarrow> nat) \<Rightarrow> DashSession option \<Rightarrow> settings_dialog \<Rightarrow> settings_dialog \<times> dialog_job list" where
  "dialog_changePassword units sess d =
     (let pass = sd_newPassword d; msg = (\<lambda>t. d\<lparr>sd_passwordMsg := Some (t, True)\<rparr>)
      in if pass \<noteq> sd_confirmPassword d then (msg ''Passwords do not match.'', [])
         else if units pass < 6 then (msg ''Password must be at least 6 characters.'', [])
         else (case sess of None \<Rightarrow> (msg ''Not logged in.'', []) | Some s \<Rightarrow> (d, [PasswordJob (ds_accessToken s) pass])))"

definition password_changed :: "string \<Rightarrow> unit result \<Rightarrow> settings_dialog \<Rightarrow> settings_dialog" where
  "password_changed json_what r d =
     (case r of
        Inl e \<Rightarrow> d\<lparr>sd_passwordMsg := Some (what_text json_what e, True)\<rparr>
      | Inr u \<Rightarrow> d\<lparr>sd_passwordMsg := Some (''Password changed.'', False), sd_newPassword := [], sd_confirmPassword := []\<rparr>)"

definition dialog_logout :: "bool \<Rightarrow> DashSession option \<Rightarrow> dialog_job list" where
  "dialog_logout everywhere sess =
     (case sess of None \<Rightarrow> [] | Some s \<Rightarrow> [LogoutJob (ds_accessToken s) (if everywhere then ''global'' else [])])"

section \<open>The dialog of the login\<close>

record login_dialog =
  ld_email :: string
  ld_password :: string
  ld_error :: "string option"
  ld_enabled :: bool
  ld_button :: string

definition new_login :: login_dialog where
  "new_login = \<lparr>ld_email = [], ld_password = [], ld_error = None, ld_enabled = True, ld_button = ''Log In''\<rparr>"

definition doLogin :: "(string \<Rightarrow> string) \<Rightarrow> login_dialog \<Rightarrow> login_dialog \<times> dialog_job list" where
  "doLogin trimmed d =
     (let email = trimmed (ld_email d); password = ld_password d
      in if email = [] \<or> password = [] then (d\<lparr>ld_error := Some ''Please enter both email and password.''\<rparr>, [])
         else (d\<lparr>ld_error := None, ld_enabled := False, ld_button := ''Logging in...''\<rparr>, [LoginJob email password]))"

text \<open>\<open>Inl\<close>: the dialog stays; \<open>Inr\<close>: it ends with the session.\<close>

definition login_done :: "string \<Rightarrow> Session result \<Rightarrow> login_dialog \<Rightarrow> login_dialog + Session" where
  "login_done json_what r d =
     (let d1 = d\<lparr>ld_enabled := True, ld_button := ''Log In''\<rparr>
      in case r of Inl e \<Rightarrow> Inl (d1\<lparr>ld_error := Some (what_text json_what e)\<rparr>) | Inr s \<Rightarrow> Inr s)"

section \<open>The window\<close>

datatype tab_page = OverviewTab | CpuTab | RamTab | DiskTab | NetworkTab | LocalTab | CloudTab | DevicesTab | FamilyTab

definition page_label :: "tab_page \<Rightarrow> string" where
  "page_label p =
     (case p of
        OverviewTab \<Rightarrow> ''Overview'' | CpuTab \<Rightarrow> ''CPU'' | RamTab \<Rightarrow> ''RAM'' | DiskTab \<Rightarrow> ''Disk'' | NetworkTab \<Rightarrow> ''Network''
      | LocalTab \<Rightarrow> ''Local Activity'' | CloudTab \<Rightarrow> ''Cloud Data'' | DevicesTab \<Rightarrow> ''Devices'' | FamilyTab \<Rightarrow> ''Family'')"

definition buildSections :: "tab_page list list" where
  "buildSections =
     [[OverviewTab, CpuTab, RamTab, DiskTab, NetworkTab], [LocalTab, CloudTab], [DevicesTab], [FamilyTab]]"

text \<open>What the window asks of its parts.\<close>

datatype window_call =
    Refresh tab_page
  | RefreshSidebar
  | RefreshPanel                       \<comment> \<open>machine and processes of the panel on the right\<close>
  | CallSelectDevice string
  | Heartbeat string string string     \<comment> \<open>token, device, name\<close>

datatype dialog = NoDialog | InSettings nat settings_dialog | InLogin nat login_dialog

record window =
  wn_fs :: fs
  wn_rail :: left_rail
  wn_tabs :: "tab_page list"
  wn_tab :: nat
  wn_glyph :: "string \<times> string"     \<comment> \<open>text and hint of the button of the account\<close>
  wn_thresholds :: "int \<times> int \<times> int"
  wn_dialog :: dialog
  wn_next :: nat
  wn_jobs :: "(nat \<times> dialog_job) list"
  wn_timers :: "nat list"
  wn_calls :: "window_call list"
  wn_boxes :: "string list"

record window_env =
  we_dash :: dash_env
  we_set :: set_env
  we_trimmed :: "string \<Rightarrow> string"
  we_initial :: "string \<Rightarrow> string"     \<comment> \<open>\<open>left(1).toUpper()\<close>\<close>
  we_units :: "string \<Rightarrow> nat"
  we_json_what :: string
  we_device :: string
  we_label :: string

definition window_session :: "window_env \<Rightarrow> window \<Rightarrow> DashSession option" where
  "window_session env w = loadDashSession (we_dash env) (wn_fs w)"

definition calls :: "window_call list \<Rightarrow> window \<Rightarrow> window" where
  "calls cs w = w\<lparr>wn_calls := wn_calls w @ cs\<rparr>"

definition showSection :: "int \<Rightarrow> window \<Rightarrow> window" where
  "showSection i w =
     (if i < 0 \<or> int (length buildSections) \<le> i then w
      else
        calls (if i = 1 then [Refresh LocalTab, Refresh CloudTab] else if i = 2 then [Refresh DevicesTab]
               else if i = 3 then [Refresh FamilyTab] else [])
          (w\<lparr>wn_tabs := buildSections ! nat i, wn_tab := 0\<rparr>))"

definition selectSection :: "int \<Rightarrow> window \<Rightarrow> window" where
  "selectSection i w = showSection i (w\<lparr>wn_rail := rail_setCurrentIndex i (wn_rail w)\<rparr>)"

definition account_glyph :: "window_env \<Rightarrow> DashSession option \<Rightarrow> string \<times> string" where
  "account_glyph env sess =
     (case sess of
        Some s \<Rightarrow>
          if ds_email s \<noteq> [] then (we_initial env (ds_email s), ds_email s @ '' (click to log out)'')
          else ([], ''Not logged in (click to log in)'')
      | None \<Rightarrow> ([], ''Not logged in (click to log in)''))"

definition updateAccountGlyph :: "window_env \<Rightarrow> window \<Rightarrow> window" where
  "updateAccountGlyph env w = w\<lparr>wn_glyph := account_glyph env (window_session env w)\<rparr>"

definition reloadThresholds :: "window_env \<Rightarrow> window \<Rightarrow> window" where
  "reloadThresholds env w =
     (let s = loadDashSettings (we_set env) (wn_fs w)
      in w\<lparr>wn_thresholds := (dst_cpuThreshold s, dst_ramThreshold s, dst_diskThreshold s)\<rparr>)"

definition window_pushHeartbeat :: "window_env \<Rightarrow> window \<Rightarrow> window" where
  "window_pushHeartbeat env w =
     (case window_session env w of None \<Rightarrow> w | Some s \<Rightarrow> calls [Heartbeat (ds_accessToken s) (we_device env) (we_label env)] w)"

definition open_dialog :: "(nat \<Rightarrow> dialog) \<Rightarrow> window \<Rightarrow> window" where
  "open_dialog d w = w\<lparr>wn_dialog := d (wn_next w), wn_next := wn_next w + 1\<rparr>"

definition account_refresh :: "window_call list" where
  "account_refresh = [Refresh CloudTab, Refresh DevicesTab, Refresh FamilyTab, RefreshSidebar]"

definition onAccountClicked :: "window_env \<Rightarrow> bool \<Rightarrow> window \<Rightarrow> window" where
  "onAccountClicked env yes w =
     (if window_session env w \<noteq> None
      then
        if \<not> yes then w
        else calls account_refresh (updateAccountGlyph env (w\<lparr>wn_fs := clearDashSession (we_dash env) (wn_fs w)\<rparr>))
      else open_dialog (\<lambda>n. InLogin n new_login) w)"

definition store_session :: "Session \<Rightarrow> DashSession" where
  "store_session s =
     \<lparr>ds_accessToken = cs_accessToken s, ds_refreshToken = cs_refreshToken s, ds_userId = cs_userId s, ds_email = cs_email s\<rparr>"

text \<open>After the login dialog was accepted.\<close>

definition after_login :: "window_env \<Rightarrow> Session \<Rightarrow> window \<Rightarrow> window" where
  "after_login env s w =
     window_pushHeartbeat env
       (calls (Refresh OverviewTab # account_refresh)
          (updateAccountGlyph env
             (w\<lparr>wn_dialog := NoDialog, wn_fs := snd (saveDashSession (we_dash env) (store_session s) (wn_fs w))\<rparr>)))"

definition openSettings :: "window_env \<Rightarrow> window \<Rightarrow> window" where
  "openSettings env w =
     open_dialog (\<lambda>n. InSettings n (new_settings_dialog (window_session env w \<noteq> None) (loadDashSettings (we_set env) (wn_fs w)))) w"

definition close_settings :: "window_env \<Rightarrow> window \<Rightarrow> window" where
  "close_settings env w = updateAccountGlyph env (w\<lparr>wn_dialog := NoDialog\<rparr>)"

text \<open>The end of the logout: whatever the server said, the stored session is removed.\<close>

definition logged_out :: "window_env \<Rightarrow> nat \<Rightarrow> settings_dialog \<Rightarrow> window \<Rightarrow> window" where
  "logged_out env n d w =
     (updateAccountGlyph env (w\<lparr>wn_dialog := InSettings n (d\<lparr>sd_accountMsg := Some (''Logged out.'', False)\<rparr>),
        wn_fs := clearDashSession (we_dash env) (wn_fs w)\<rparr>))
     \<lparr>wn_timers := wn_timers w @ [n]\<rparr>"

definition print_hint :: string where
  "print_hint =
     ''Use your browser-free print: right-click the Cloud Data tables, or export CSV and open it in Excel/Sheets to print.'' @
     [nl, nl] @ ''(A dedicated print-preview dialog was not carried over from report_print.html in this pass.)''"

definition printReport :: "window \<Rightarrow> window" where
  "printReport w =
     (let w1 = selectSection 1 w
      in w1\<lparr>wn_tab := (if 1 < length (wn_tabs w1) then 1 else wn_tab w1),
            wn_boxes := wn_boxes w1 @ [print_hint]\<rparr>)"

text \<open>The window is built, then its timer at zero loads the pages.\<close>

definition buildUi :: "fs \<Rightarrow> window" where
  "buildUi fs =
     showSection 0
       \<lparr>wn_fs = fs, wn_rail = (addSection ^^ 4) \<lparr>lr_count = 0, lr_current = - 1\<rparr>, wn_tabs = [], wn_tab = 0, wn_glyph = ([], []),
        wn_thresholds = (85, 85, 90), wn_dialog = NoDialog, wn_next = 0, wn_jobs = [], wn_timers = [], wn_calls = [], wn_boxes = []\<rparr>"

definition window_start :: "window_env \<Rightarrow> fs \<Rightarrow> window" where
  "window_start env fs =
     window_pushHeartbeat env
       (updateAccountGlyph env
          (calls [Refresh OverviewTab, Refresh CpuTab, Refresh NetworkTab, Refresh LocalTab, RefreshPanel, RefreshSidebar]
             (reloadThresholds env (buildUi fs))))"

text \<open>\<open>main\<close>: a second process brings the window of the first to the front and ends.\<close>

definition dashboard_main :: "window_env \<Rightarrow> bool \<Rightarrow> fs \<Rightarrow> window option" where
  "dashboard_main env alreadyRunning fs = (if alreadyRunning then None else Some (window_start env fs))"

section \<open>Events\<close>

datatype window_event =
    ClickSection int
  | ClickMachine string
  | PressAccount bool                  \<comment> \<open>the answer to the question of the logout\<close>
  | PressSettings
  | PressPrint
  | HeartbeatTimer
  | FillAppearance string string string string int int int
  | PressSave
  | FillPasswords string string
  | PressChangePassword
  | PressLogout bool bool              \<comment> \<open>everywhere, and the answer to the question\<close>
  | PressClose
  | AcceptTimer nat
  | FillLogin string string
  | PressLogin                         \<comment> \<open>the button, or return in the field of the password\<close>
  | DialogReply nat dialog_reply

definition ask :: "nat \<Rightarrow> dialog_job list \<Rightarrow> window \<Rightarrow> window" where
  "ask n js w = w\<lparr>wn_jobs := wn_jobs w @ map (Pair n) js\<rparr>"

text \<open>A dialog is modal: the parts of the window get no clicks while one is open.\<close>

definition window_click :: "window_env \<Rightarrow> window_event \<Rightarrow> window \<Rightarrow> window" where
  "window_click env e w =
     (case e of
        ClickSection i \<Rightarrow>
          if 0 \<le> i \<and> i < lr_count (wn_rail w) then showSection i (w\<lparr>wn_rail := (wn_rail w)\<lparr>lr_current := i\<rparr>\<rparr>) else w
      | ClickMachine d \<Rightarrow> calls [CallSelectDevice d] (selectSection 2 w)
      | PressAccount yes \<Rightarrow> onAccountClicked env yes w
      | PressSettings \<Rightarrow> openSettings env w
      | PressPrint \<Rightarrow> printReport w
      | _ \<Rightarrow> w)"

definition settings_event :: "window_env \<Rightarrow> nat \<Rightarrow> settings_dialog \<Rightarrow> window_event \<Rightarrow> window \<Rightarrow> window option" where
  "settings_event env n d e w =
     (case e of
        FillAppearance font lang time period cpu ram disk \<Rightarrow>
          Some (w\<lparr>wn_dialog := InSettings n (fill_appearance font lang time period cpu ram disk d)\<rparr>)
      | PressSave \<Rightarrow>
          (case saveAppearance (we_set env) (wn_fs w) d of
             None \<Rightarrow> None
           | Some (ok, d', fs') \<Rightarrow>
               (let w1 = w\<lparr>wn_fs := fs', wn_dialog := InSettings n d'\<rparr> in Some (if ok then reloadThresholds env w1 else w1)))
      | FillPasswords p c \<Rightarrow>
          Some (if sd_loggedIn d then w\<lparr>wn_dialog := InSettings n (d\<lparr>sd_newPassword := p, sd_confirmPassword := c\<rparr>)\<rparr> else w)
      | PressChangePassword \<Rightarrow>
          Some (if sd_loggedIn d
                then (case dialog_changePassword (we_units env) (window_session env w) d of
                        (d', js) \<Rightarrow> ask n js (w\<lparr>wn_dialog := InSettings n d'\<rparr>))
                else w)
      | PressLogout everywhere yes \<Rightarrow>
          Some (if sd_loggedIn d \<and> (everywhere \<longrightarrow> yes) then ask n (dialog_logout everywhere (window_session env w)) w else w)
      | PressClose \<Rightarrow> Some (close_settings env w)
      | _ \<Rightarrow> Some w)"

definition login_event :: "window_env \<Rightarrow> nat \<Rightarrow> login_dialog \<Rightarrow> window_event \<Rightarrow> window \<Rightarrow> window" where
  "login_event env n d e w =
     (case e of
        FillLogin email password \<Rightarrow> w\<lparr>wn_dialog := InLogin n (d\<lparr>ld_email := email, ld_password := password\<rparr>)\<rparr>
      | PressLogin \<Rightarrow> (case doLogin (we_trimmed env) d of (d', js) \<Rightarrow> ask n js (w\<lparr>wn_dialog := InLogin n d'\<rparr>))
      | PressClose \<Rightarrow> w\<lparr>wn_dialog := NoDialog\<rparr>
      | _ \<Rightarrow> w)"

text \<open>\<open>runAsync\<close>: the callback runs only while the dialog that asked is there.\<close>

definition dialog_done :: "window_env \<Rightarrow> nat \<Rightarrow> dialog_job \<Rightarrow> dialog_reply \<Rightarrow> window \<Rightarrow> window" where
  "dialog_done env n j r w =
     (case wn_dialog w of
        NoDialog \<Rightarrow> w
      | InSettings m d \<Rightarrow>
          if m \<noteq> n then w
          else (case (j, r) of
                  (PasswordJob tok pass, Answered q) \<Rightarrow> w\<lparr>wn_dialog := InSettings n (password_changed (we_json_what env) q d)\<rparr>
                | (LogoutJob tok scope, Answered q) \<Rightarrow> logged_out env n d w
                | _ \<Rightarrow> w)
      | InLogin m d \<Rightarrow>
          if m \<noteq> n then w
          else (case (j, r) of
                  (LoginJob email pass, LoggedIn q) \<Rightarrow>
                    (case login_done (we_json_what env) q d of
                       Inl d' \<Rightarrow> w\<lparr>wn_dialog := InLogin n d'\<rparr>
                     | Inr s \<Rightarrow> after_login env s w)
                | _ \<Rightarrow> w))"

definition window_step :: "window_env \<Rightarrow> window_event \<Rightarrow> window \<Rightarrow> window option" where
  "window_step env e w =
     (case e of
        HeartbeatTimer \<Rightarrow> Some (window_pushHeartbeat env w)
      | DialogReply k r \<Rightarrow>
          Some (if k < length (wn_jobs w)
                then (case wn_jobs w ! k of (n, j) \<Rightarrow> dialog_done env n j r (w\<lparr>wn_jobs := drop_nth k (wn_jobs w)\<rparr>))
                else w)
      | AcceptTimer k \<Rightarrow>
          Some (if k < length (wn_timers w)
                then (let n = wn_timers w ! k; w1 = w\<lparr>wn_timers := drop_nth k (wn_timers w)\<rparr>
                      in case wn_dialog w of InSettings m d \<Rightarrow> if m = n then close_settings env w1 else w1 | _ \<Rightarrow> w1)
                else w)
      | _ \<Rightarrow>
          (case wn_dialog w of
             NoDialog \<Rightarrow> Some (window_click env e w)
           | InSettings n d \<Rightarrow> settings_event env n d e w
           | InLogin n d \<Rightarrow> Some (login_event env n d e w)))"

section \<open>The files do not get in each other's way\<close>

definition same_dir :: "window_env \<Rightarrow> bool" where
  "same_dir env \<longleftrightarrow> dx_dir (we_dash env) = sx_dir (we_set env)"

lemma paths_apart:
  assumes "same_dir env" and "settingsPath (we_set env) = Some t" and "sessionPath (we_dash env) = Some q"
  shows "q \<noteq> t" "q \<noteq> tmp_path t" "t \<noteq> q" "t \<noteq> tmp_path q"
  using assms by (auto simp: same_dir_def settingsPath_def sessionPath_def configFile_def tmp_path_def)

lemma writeFileAtomic_frame:
  "writeFileAtomic io path bytes fs = (ok, fs') \<Longrightarrow> (\<And>t. path = Some t \<Longrightarrow> p \<noteq> t \<and> p \<noteq> tmp_path t) \<Longrightarrow> fs' p = fs p"
  by (cases path) (auto simp: writeFileAtomic_def dest: writeFileAtomic_result(2) [rotated 2])

lemma loadDashSession_cong:
  "(\<And>q. sessionPath env = Some q \<Longrightarrow> fs' q = fs q) \<Longrightarrow> loadDashSession env fs' = loadDashSession env fs"
  by (simp add: loadDashSession_def split: option.split)

lemma loadDashSettings_cong:
  "(\<And>q. settingsPath env = Some q \<Longrightarrow> fs' q = fs q) \<Longrightarrow> loadDashSettings env fs' = loadDashSettings env fs"
  by (cases "settingsPath env") (simp_all add: loadDashSettings_def)

lemma settings_save_keeps_session:
  assumes "same_dir env" and "saveDashSettings (we_set env) s fs = (r, fs')"
  shows "loadDashSession (we_dash env) fs' = loadDashSession (we_dash env) fs"
proof (rule loadDashSession_cong)
  fix q assume q: "sessionPath (we_dash env) = Some q"
  show "fs' q = fs q"
    using assms(2) by (auto simp: saveDashSettings_def split: option.splits prod.splits
        dest!: writeFileAtomic_frame [where p = q] dest: paths_apart [OF assms(1) _ q])
qed

lemma session_save_keeps_settings:
  assumes "same_dir env" and "saveDashSession (we_dash env) s fs = (r, fs')"
  shows "loadDashSettings (we_set env) fs' = loadDashSettings (we_set env) fs"
proof (rule loadDashSettings_cong)
  fix q assume q: "settingsPath (we_set env) = Some q"
  show "fs' q = fs q"
    using assms(2) by (auto simp: saveDashSession_def Let_def split: if_splits
        dest!: writeFileAtomic_frame [where p = q] dest: paths_apart [OF assms(1) q])
qed

lemma clear_keeps_settings:
  assumes "same_dir env"
  shows "loadDashSettings (we_set env) (clearDashSession (we_dash env) fs) = loadDashSettings (we_set env) fs"
proof (rule loadDashSettings_cong)
  fix q assume q: "settingsPath (we_set env) = Some q"
  show "clearDashSession (we_dash env) fs q = fs q"
    by (auto simp: clearDashSession_def split: option.split dest: paths_apart [OF assms q])
qed

lemma failed_save_keeps_settings:
  assumes "saveDashSettings env s fs = (Inr False, fs')"
  shows "loadDashSettings env fs' = loadDashSettings env fs"
proof (rule loadDashSettings_cong)
  fix q assume q: "settingsPath env = Some q"
  then show "fs' q = fs q"
    using assms by (auto simp: saveDashSettings_def split: option.splits prod.splits dest!: writeFileAtomic_result(1))
qed

section \<open>What every event keeps\<close>

definition choices_ok :: "settings_dialog \<Rightarrow> bool" where
  "choices_ok d \<longleftrightarrow>
     sd_font d \<in> set fonts \<and> sd_language d \<in> set languages \<and> sd_timeFormat d \<in> set time_formats \<and> sd_period d \<in> set periods \<and>
     sd_cpu d \<in> {1..100} \<and> sd_ram d \<in> {1..100} \<and> sd_disk d \<in> {1..100}"

definition rail_ok :: "window \<Rightarrow> bool" where
  "rail_ok w \<longleftrightarrow>
     lr_count (wn_rail w) = 4 \<and> 0 \<le> lr_current (wn_rail w) \<and> lr_current (wn_rail w) < 4 \<and>
     wn_tabs w = buildSections ! nat (lr_current (wn_rail w)) \<and> wn_tab w < length (wn_tabs w)"

definition files_ok :: "window_env \<Rightarrow> window \<Rightarrow> bool" where
  "files_ok env w \<longleftrightarrow>
     wn_glyph w = account_glyph env (window_session env w) \<and>
     wn_thresholds w = (let s = loadDashSettings (we_set env) (wn_fs w)
                        in (dst_cpuThreshold s, dst_ramThreshold s, dst_diskThreshold s))"

fun in_order :: "nat \<Rightarrow> dialog \<Rightarrow> bool" where
  "in_order k NoDialog \<longleftrightarrow> True"
| "in_order k (InSettings n d) \<longleftrightarrow> n < k \<and> choices_ok d"
| "in_order k (InLogin n d) \<longleftrightarrow> n < k"

definition dialog_ok :: "window \<Rightarrow> bool" where
  "dialog_ok w \<longleftrightarrow>
     in_order (wn_next w) (wn_dialog w) \<and>
     (\<forall>nj \<in> set (wn_jobs w). fst nj < wn_next w)"

definition window_ok :: "window_env \<Rightarrow> window \<Rightarrow> bool" where
  "window_ok env w \<longleftrightarrow> same_dir env \<and> rail_ok w \<and> files_ok env w \<and> dialog_ok w"

lemma sections_length [simp]: "length buildSections = 4" "0 < length (buildSections ! nat i) \<longleftrightarrow> buildSections ! nat i \<noteq> []"
  by (simp_all add: buildSections_def)

lemma section_tabs: "0 \<le> i \<Longrightarrow> i < 4 \<Longrightarrow> 0 < length (buildSections ! nat i)"
proof -
  assume "0 \<le> i" "i < 4"
  then have "i = 0 \<or> i = 1 \<or> i = 2 \<or> i = 3" by arith
  then show ?thesis by (auto simp: buildSections_def)
qed

named_theorems window_frame

lemma update_frame [window_frame]:
  "rail_ok (w\<lparr>wn_fs := f\<rparr>) = rail_ok w" "rail_ok (w\<lparr>wn_dialog := d\<rparr>) = rail_ok w" "rail_ok (w\<lparr>wn_next := k\<rparr>) = rail_ok w"
  "rail_ok (w\<lparr>wn_jobs := js\<rparr>) = rail_ok w" "rail_ok (w\<lparr>wn_timers := ts\<rparr>) = rail_ok w" "rail_ok (w\<lparr>wn_thresholds := th\<rparr>) = rail_ok w"
  "rail_ok (w\<lparr>wn_boxes := bs\<rparr>) = rail_ok w"
  "dialog_ok (w\<lparr>wn_fs := f\<rparr>) = dialog_ok w" "dialog_ok (w\<lparr>wn_timers := ts\<rparr>) = dialog_ok w"
  "dialog_ok (w\<lparr>wn_thresholds := th\<rparr>) = dialog_ok w" "dialog_ok (w\<lparr>wn_tab := i\<rparr>) = dialog_ok w" "dialog_ok (w\<lparr>wn_boxes := bs\<rparr>) = dialog_ok w"
  "files_ok env (w\<lparr>wn_dialog := d\<rparr>) = files_ok env w" "files_ok env (w\<lparr>wn_next := k\<rparr>) = files_ok env w"
  "files_ok env (w\<lparr>wn_jobs := js\<rparr>) = files_ok env w" "files_ok env (w\<lparr>wn_timers := ts\<rparr>) = files_ok env w"
  "files_ok env (w\<lparr>wn_tab := i\<rparr>) = files_ok env w" "files_ok env (w\<lparr>wn_boxes := bs\<rparr>) = files_ok env w"
  by (simp_all add: rail_ok_def dialog_ok_def files_ok_def window_session_def)

lemma calls_frame [window_frame]:
  "rail_ok (calls cs w) = rail_ok w" "files_ok env (calls cs w) = files_ok env w" "dialog_ok (calls cs w) = dialog_ok w"
  "window_session env (calls cs w) = window_session env w" "wn_fs (calls cs w) = wn_fs w"
  by (simp_all add: calls_def rail_ok_def files_ok_def dialog_ok_def window_session_def)

lemma heartbeat_frame [window_frame]:
  "rail_ok (window_pushHeartbeat env w) = rail_ok w" "files_ok env (window_pushHeartbeat env w) = files_ok env w"
  "dialog_ok (window_pushHeartbeat env w) = dialog_ok w"
  by (simp_all add: window_pushHeartbeat_def window_frame split: option.split)

lemma glyph_frame [window_frame]:
  "rail_ok (updateAccountGlyph env w) = rail_ok w" "dialog_ok (updateAccountGlyph env w) = dialog_ok w"
  by (simp_all add: updateAccountGlyph_def rail_ok_def dialog_ok_def)

lemma showSection_ok:
  assumes "0 \<le> i" and "i < 4"
  shows "rail_ok (showSection i (w\<lparr>wn_rail := (wn_rail w)\<lparr>lr_current := i\<rparr>\<rparr>)) = (lr_count (wn_rail w) = 4)"
    "files_ok env (showSection i (w\<lparr>wn_rail := r\<rparr>)) = files_ok env w" "dialog_ok (showSection i (w\<lparr>wn_rail := r\<rparr>)) = dialog_ok w"
  using assms section_tabs [OF assms]
  by (simp_all add: showSection_def window_frame del: sections_length(2))
    (simp_all add: rail_ok_def files_ok_def dialog_ok_def window_session_def)

lemma selectSection_ok:
  assumes "window_ok env w" and "0 \<le> i" and "i < 4"
  shows "window_ok env (selectSection i w)"
proof -
  have r: "rail_setCurrentIndex i (wn_rail w) = (wn_rail w)\<lparr>lr_current := i\<rparr>" "lr_count (wn_rail w) = 4"
    using assms by (simp_all add: rail_setCurrentIndex_def window_ok_def rail_ok_def)
  show ?thesis using assms(1) showSection_ok [OF assms(2,3)] r by (simp add: selectSection_def window_ok_def)
qed

lemma printReport_ok: "window_ok env w \<Longrightarrow> window_ok env (printReport w)"
proof -
  assume "window_ok env w"
  then have "window_ok env (selectSection 1 w)" by (rule selectSection_ok) simp_all
  then show ?thesis
    by (auto simp: printReport_def Let_def window_ok_def rail_ok_def files_ok_def dialog_ok_def window_session_def)
qed

lemma glyph_ok:
  assumes "same_dir env" and "loadDashSettings (we_set env) (wn_fs w) = loadDashSettings (we_set env) fs"
    and "wn_thresholds w = (let s = loadDashSettings (we_set env) fs in (dst_cpuThreshold s, dst_ramThreshold s, dst_diskThreshold s))"
  shows "files_ok env (updateAccountGlyph env w)"
  using assms by (simp add: files_ok_def updateAccountGlyph_def window_session_def Let_def)

lemma combo_in: "t0 \<in> set its \<Longrightarrow> combo its t t0 \<in> set its"
  by (simp add: combo_def)

lemma fill_ok: "choices_ok d \<Longrightarrow> choices_ok (fill_appearance f l t p c r k d)"
  by (auto simp: choices_ok_def fill_appearance_def spin_percent_def intro: combo_in)

lemma new_dialog_ok: "choices_ok (new_settings_dialog b s)"
  unfolding new_settings_dialog_def loadInto_def
  by (rule fill_ok) (simp add: choices_ok_def fonts_def languages_def time_formats_def periods_def)

lemma cleared_ok:
  assumes "window_ok env w"
  shows "files_ok env (updateAccountGlyph env (w\<lparr>wn_fs := clearDashSession (we_dash env) (wn_fs w)\<rparr>))"
  using assms clear_keeps_settings by (intro glyph_ok [where fs = "wn_fs w"]) (simp_all add: window_ok_def files_ok_def)

lemma open_dialog_ok:
  assumes "window_ok env w" and "\<And>n. in_order (n + 1) (d n)"
  shows "window_ok env (open_dialog d w)"
proof -
  have "dialog_ok (open_dialog d w)"
    using assms(1) assms(2) [of "wn_next w"] by (auto simp: open_dialog_def dialog_ok_def window_ok_def less_Suc_eq)
  then show ?thesis using assms(1) by (simp add: open_dialog_def window_ok_def window_frame)
qed

lemma account_click_ok: "window_ok env w \<Longrightarrow> window_ok env (onAccountClicked env yes w)"
  using cleared_ok [of env w]
  by (auto simp: onAccountClicked_def intro!: open_dialog_ok) (simp add: window_ok_def window_frame)

lemma after_login_ok:
  assumes "window_ok env w"
  shows "window_ok env (after_login env s w)"
proof -
  obtain r fs' where save: "saveDashSession (we_dash env) (store_session s) (wn_fs w) = (r, fs')" by fastforce
  have d: "same_dir env" using assms by (simp add: window_ok_def)
  have "files_ok env (updateAccountGlyph env (w\<lparr>wn_dialog := NoDialog, wn_fs := fs'\<rparr>))"
    using assms session_save_keeps_settings [OF d save] by (intro glyph_ok [OF d, where fs = "wn_fs w"]) (simp_all add: window_ok_def files_ok_def)
  moreover have "dialog_ok (w\<lparr>wn_dialog := NoDialog\<rparr>)" using assms by (simp add: dialog_ok_def window_ok_def)
  ultimately show ?thesis using assms save by (simp add: after_login_def window_ok_def window_frame)
qed

lemma close_settings_ok:
  assumes "window_ok env w"
  shows "window_ok env (close_settings env w)"
proof -
  have "files_ok env (updateAccountGlyph env (w\<lparr>wn_dialog := NoDialog\<rparr>))"
    using assms by (intro glyph_ok [where fs = "wn_fs w"]) (simp_all add: window_ok_def files_ok_def)
  moreover have "dialog_ok (w\<lparr>wn_dialog := NoDialog\<rparr>)" using assms by (simp add: dialog_ok_def window_ok_def)
  ultimately show ?thesis using assms by (simp add: close_settings_def window_ok_def window_frame)
qed

lemma set_dialog_ok: "window_ok env w \<Longrightarrow> in_order (wn_next w) d \<Longrightarrow> window_ok env (w\<lparr>wn_dialog := d\<rparr>)"
  by (simp add: window_ok_def window_frame) (simp add: dialog_ok_def)

lemma logged_out_ok:
  assumes "window_ok env w" and "wn_dialog w = InSettings n d"
  shows "window_ok env (logged_out env n d w)"
proof -
  have o: "in_order (wn_next w) (InSettings n (d\<lparr>sd_accountMsg := Some (''Logged out.'', False)\<rparr>))"
    using assms by (simp add: window_ok_def dialog_ok_def choices_ok_def)
  note w = set_dialog_ok [OF assms(1) o]
  from cleared_ok [OF w] w show ?thesis
    by (simp add: logged_out_def window_ok_def window_frame)
qed

lemma ask_ok: "window_ok env w \<Longrightarrow> n < wn_next w \<Longrightarrow> window_ok env (ask n js w)"
  by (simp add: ask_def window_ok_def window_frame) (auto simp: dialog_ok_def)

lemma drop_job_ok: "window_ok env w \<Longrightarrow> window_ok env (w\<lparr>wn_jobs := drop_nth k (wn_jobs w)\<rparr>)"
  using subsetD [OF drop_nth_set] by (fastforce simp: window_ok_def window_frame dialog_ok_def)

lemma drop_timer_ok: "window_ok env w \<Longrightarrow> window_ok env (w\<lparr>wn_timers := ts\<rparr>)"
  by (simp add: window_ok_def window_frame)

lemma dialog_save_ok:
  assumes "window_ok env w" and "wn_dialog w = InSettings n d"
    and "settings_event env n d PressSave w = Some w'"
  shows "window_ok env w'"
proof -
  have d: "same_dir env" and o: "in_order (wn_next w) (InSettings n d)" using assms(1,2) by (auto simp: window_ok_def dialog_ok_def)
  obtain ok d' fs' where a: "saveAppearance (we_set env) (wn_fs w) d = Some (ok, d', fs')"
    and w': "w' = (if ok then reloadThresholds env (w\<lparr>wn_fs := fs', wn_dialog := InSettings n d'\<rparr>)
                    else w\<lparr>wn_fs := fs', wn_dialog := InSettings n d'\<rparr>)"
    using assms(3) by (auto simp: settings_event_def Let_def split: option.splits)
  from a have s: "saveDashSettings (we_set env) (form_dash d (loadDashSettings (we_set env) (wn_fs w))) (wn_fs w) = (Inr ok, fs')"
    and d': "choices_ok d' = choices_ok d"
    by (auto simp: saveAppearance_def choices_ok_def split: prod.splits sum.splits)
  note sess = settings_save_keeps_session [OF d s]
  have t: "files_ok env w'"
  proof (cases ok)
    case True
    with assms(1) w' sess show ?thesis
      by (simp add: reloadThresholds_def Let_def files_ok_def window_ok_def window_session_def)
  next
    case False
    with s failed_save_keeps_settings [of "we_set env" _ "wn_fs w" fs'] have "loadDashSettings (we_set env) fs' = loadDashSettings (we_set env) (wn_fs w)"
      by simp
    with False assms(1) w' sess show ?thesis by (simp add: files_ok_def window_ok_def window_session_def)
  qed
  have "dialog_ok (w\<lparr>wn_dialog := InSettings n d'\<rparr>)" using assms(1) o d' by (simp add: window_ok_def dialog_ok_def)
  then have "dialog_ok (w\<lparr>wn_fs := fs', wn_dialog := InSettings n d'\<rparr>)" by (simp add: dialog_ok_def)
  then show ?thesis
    using assms(1) t by (auto simp: w' window_ok_def window_frame reloadThresholds_def Let_def)
qed

lemma settings_event_ok:
  assumes "window_ok env w" and "wn_dialog w = InSettings n d" and "settings_event env n d e w = Some w'"
  shows "window_ok env w'"
proof -
  have n: "n < wn_next w" and f: "choices_ok d" using assms(1,2) by (auto simp: window_ok_def dialog_ok_def)
  have set_d: "window_ok env (w\<lparr>wn_dialog := InSettings n d'\<rparr>)" if "choices_ok d'" for d'
    using set_dialog_ok [OF assms(1), of "InSettings n d'"] that n by simp
  show ?thesis
  proof (cases e)
    case PressSave
    with assms dialog_save_ok show ?thesis by blast
  next
    case PressChangePassword
    obtain d' js where d': "dialog_changePassword (we_units env) (window_session env w) d = (d', js)" by fastforce
    then have "choices_ok d'" using f by (auto simp: dialog_changePassword_def Let_def choices_ok_def split: if_splits option.splits)
    from ask_ok [OF set_d [OF this], of n js] PressChangePassword assms d' n show ?thesis
      by (auto simp: settings_event_def split: if_splits)
  next
    case PressClose
    with assms close_settings_ok show ?thesis by (auto simp: settings_event_def)
  next
    case (PressLogout everywhere yes)
    with assms ask_ok [OF assms(1) n] show ?thesis by (auto simp: settings_event_def split: if_splits)
  next
    case (FillAppearance font lang time period cpu ram disk)
    with assms set_d [OF fill_ok [OF f]] show ?thesis by (auto simp: settings_event_def)
  next
    case (FillPasswords p c)
    have "choices_ok (d\<lparr>sd_newPassword := p, sd_confirmPassword := c\<rparr>)" using f by (simp add: choices_ok_def)
    from set_d [OF this] FillPasswords assms show ?thesis by (auto simp: settings_event_def split: if_splits)
  qed (use assms in \<open>auto simp: settings_event_def\<close>)
qed

lemma login_event_ok:
  assumes "window_ok env w" and "wn_dialog w = InLogin n d"
  shows "window_ok env (login_event env n d e w)"
proof -
  have n: "n < wn_next w" using assms by (auto simp: window_ok_def dialog_ok_def)
  have set_d: "window_ok env (w\<lparr>wn_dialog := InLogin n d'\<rparr>)" for d'
    using set_dialog_ok [OF assms(1), of "InLogin n d'"] n by simp
  have close: "window_ok env (w\<lparr>wn_dialog := NoDialog\<rparr>)" using set_dialog_ok [OF assms(1), of NoDialog] by simp
  show ?thesis
    using assms set_d close n by (cases e) (auto simp: login_event_def intro!: ask_ok split: prod.split)
qed

lemma dialog_done_ok:
  assumes "window_ok env w"
  shows "window_ok env (dialog_done env n j r w)"
proof (cases "wn_dialog w")
  case (InSettings m d)
  have "choices_ok (password_changed q r' d) = choices_ok d" for q r'
    by (simp add: password_changed_def choices_ok_def split: sum.split)
  moreover have "m < wn_next w" "choices_ok d" using assms InSettings by (auto simp: window_ok_def dialog_ok_def)
  ultimately show ?thesis
    using assms InSettings
    by (cases j; cases r) (auto simp: dialog_done_def intro!: set_dialog_ok logged_out_ok)
next
  case (InLogin m d)
  have "m < wn_next w" using assms InLogin by (auto simp: window_ok_def dialog_ok_def)
  then show ?thesis
    using assms InLogin
    by (cases j; cases r) (auto simp: dialog_done_def intro!: set_dialog_ok after_login_ok split: sum.split)
qed (use assms in \<open>simp add: dialog_done_def\<close>)

lemma window_click_ok:
  assumes "window_ok env w"
  shows "window_ok env (window_click env e w)"
proof (cases e)
  case (ClickSection i)
  show ?thesis
  proof (cases "0 \<le> i \<and> i < 4")
    case True
    then have i: "0 \<le> i" "i < 4" by simp_all
    have "lr_count (wn_rail w) = 4" using assms by (simp add: window_ok_def rail_ok_def)
    with showSection_ok [OF i] i ClickSection assms show ?thesis
      by (simp add: window_click_def window_ok_def)
  next
    case False
    with ClickSection assms show ?thesis by (auto simp: window_click_def window_ok_def rail_ok_def)
  qed
next
  case (ClickMachine d)
  from selectSection_ok [OF assms, of 2] ClickMachine show ?thesis by (simp add: window_click_def window_ok_def window_frame)
next
  case PressSettings
  with assms show ?thesis by (auto simp: window_click_def openSettings_def intro!: open_dialog_ok new_dialog_ok)
qed (use assms in \<open>simp_all add: window_click_def account_click_ok printReport_ok\<close>)

lemma window_step_ok:
  assumes "window_ok env w" and "window_step env e w = Some w'"
  shows "window_ok env w'"
proof -
  have other: "window_ok env w''"
    if "(case wn_dialog w of NoDialog \<Rightarrow> Some (window_click env e w) | InSettings n d \<Rightarrow> settings_event env n d e w
          | InLogin n d \<Rightarrow> Some (login_event env n d e w)) = Some w''" for w''
    using that assms(1)
    by (cases "wn_dialog w") (auto simp: window_click_ok login_event_ok intro: settings_event_ok)
  show ?thesis
  proof (cases e)
    case HeartbeatTimer
    with assms show ?thesis by (auto simp: window_step_def window_ok_def window_frame)
  next
    case (DialogReply k r)
    from dialog_done_ok [OF drop_job_ok [OF assms(1), of k]] assms DialogReply show ?thesis
      by (auto simp: window_step_def split: if_splits prod.splits)
  next
    case (AcceptTimer k)
    note ok = drop_timer_ok [OF assms(1), of "drop_nth k (wn_timers w)"]
    from close_settings_ok [OF ok] ok assms AcceptTimer show ?thesis
      by (auto simp: window_step_def Let_def split: if_splits dialog.splits)
  qed (use assms(2) in \<open>auto simp: window_step_def intro: other\<close>)
qed

interpretation main_window: knowing_page "window_step env" "\<lambda>_. {}" "\<lambda>K. window_ok env" for env
  by unfold_locales (rule window_step_ok)

lemma window_start_ok: "same_dir env \<Longrightarrow> window_ok env (window_start env fs)"
  by (simp add: window_start_def window_ok_def window_frame)
    (simp add: buildUi_def showSection_def calls_def reloadThresholds_def updateAccountGlyph_def Let_def rail_ok_def files_ok_def
      dialog_ok_def window_session_def addSection_def buildSections_def eval_nat_numeral)

text \<open>C38: After every sequence of clicks, dialogs, timers and replies: the marked button of the rail is the section whose pages
  are the tabs, the button of the account names the session that is stored, the thresholds of the alerts are those of the stored
  settings, and the settings dialog holds only settings it offers.\<close>

theorem window_stays_consistent:
  assumes "same_dir env" and "page_run (window_step env) es (window_start env fs) = Some w"
  shows "wn_tabs w = buildSections ! nat (lr_current (wn_rail w)) \<and> wn_tab w < length (wn_tabs w) \<and>
    wn_glyph w = account_glyph env (loadDashSession (we_dash env) (wn_fs w)) \<and>
    wn_thresholds w =
      (let s = loadDashSettings (we_set env) (wn_fs w) in (dst_cpuThreshold s, dst_ramThreshold s, dst_diskThreshold s)) \<and>
    (case wn_dialog w of InSettings n d \<Rightarrow> choices_ok d | _ \<Rightarrow> True)"
proof -
  have "window_ok env w" using main_window.run_safe [OF assms(2) window_start_ok [OF assms(1)], of UNIV] by simp
  then show ?thesis
    by (auto simp: window_ok_def rail_ok_def files_ok_def dialog_ok_def window_session_def split: dialog.split)
qed

definition demo_window_env :: window_env where
  "demo_window_env =
     \<lparr>we_dash = demo_dash, we_set = demo_set_env, we_trimmed = id, we_initial = take 1, we_units = length, we_json_what = ''json'',
      we_device = ''d'', we_label = ''pc''\<rparr>"

definition demo_window_run :: "window_event list" where
  "demo_window_run = [ClickSection 3, PressAccount True, FillLogin ''e'' ''pw'', PressLogin, PressClose, PressPrint, PressSettings]"

lemmas window_eval = window_step_def window_click_def onAccountClicked_def open_dialog_def login_event_def doLogin_def ask_def
  printReport_def openSettings_def selectSection_def showSection_def calls_def rail_setCurrentIndex_def window_session_def

lemma empty_files [simp]: "loadDashSession env Map.empty = None" "loadDashSettings senv Map.empty = default_dash"
  by (simp_all add: loadDashSession_def loadDashSettings_def split: option.split)

lemma demo_window_runs:
  "\<exists>w d. page_run (window_step demo_window_env) demo_window_run (window_start demo_window_env Map.empty) = Some w \<and>
     wn_dialog w = InSettings 1 d \<and> lr_current (wn_rail w) = 1"
  by (simp add: demo_window_run_def window_start_def buildUi_def window_pushHeartbeat_def updateAccountGlyph_def reloadThresholds_def
      window_eval addSection_def buildSections_def new_login_def demo_window_env_def Let_def eval_nat_numeral)

lemma window_stays_consistent_witness:
  "\<exists>w d. page_run (window_step demo_window_env) demo_window_run (window_start demo_window_env Map.empty) = Some w \<and>
     wn_tabs w = [LocalTab, CloudTab] \<and> wn_dialog w = InSettings 1 d \<and> choices_ok d"
proof -
  obtain w d where w: "page_run (window_step demo_window_env) demo_window_run (window_start demo_window_env Map.empty) = Some w"
    "wn_dialog w = InSettings 1 d" "lr_current (wn_rail w) = 1" using demo_window_runs by blast
  have dir: "same_dir demo_window_env" by (simp add: same_dir_def demo_window_env_def demo_dash_def demo_set_env_def)
  from window_stays_consistent [OF dir w(1)] w(2,3) have "wn_tabs w = [LocalTab, CloudTab]" "choices_ok d"
    by (simp_all add: buildSections_def)
  with w show ?thesis by blast
qed

section \<open>Saved settings\<close>

lemma reopened_form:
  assumes "choices_ok d"
  shows "new_settings_dialog b (form_dash d s) =
    \<lparr>sd_loggedIn = b, sd_font = sd_font d, sd_language = sd_language d, sd_timeFormat = sd_timeFormat d, sd_period = sd_period d,
     sd_cpu = sd_cpu d, sd_ram = sd_ram d, sd_disk = sd_disk d, sd_appearanceMsg = None, sd_newPassword = [],
     sd_confirmPassword = [], sd_passwordMsg = None, sd_accountMsg = None\<rparr>"
  using assms
  by (simp add: new_settings_dialog_def loadInto_def fill_appearance_def form_dash_def combo_def spin_percent_def choices_ok_def)

text \<open>C39: A save that succeeds stores what the dialog shows and leaves the key alone; the next dialog opens with the same
  choices and the alerts use the thresholds at once. A save that fails changes nothing that is stored.\<close>

theorem saved_settings_apply:
  assumes "json_lib_ok (sx_lib (we_set env))" and "crypto_works (we_set env)" and "sx_dir (we_set env) = Some dir" and "choices_ok d"
    and "saveAppearance (we_set env) (wn_fs w) d = Some (ok, d', fs')"
    and "settings_event env n d PressSave w = Some w'"
  shows "loadDashSettings (we_set env) (wn_fs w') =
      (if ok then form_dash d (loadDashSettings (we_set env) (wn_fs w)) else loadDashSettings (we_set env) (wn_fs w)) \<and>
    dst_geminiApiKey (loadDashSettings (we_set env) (wn_fs w')) = dst_geminiApiKey (loadDashSettings (we_set env) (wn_fs w)) \<and>
    (ok \<longrightarrow> wn_thresholds w' = (sd_cpu d, sd_ram d, sd_disk d) \<and> loadInto (loadDashSettings (we_set env) (wn_fs w')) d = d)"
proof (intro conjI impI)
  let ?s = "form_dash d (loadDashSettings (we_set env) (wn_fs w))"
  have save: "saveDashSettings (we_set env) ?s (wn_fs w) = (Inr ok, fs')"
    using assms(5) by (auto simp: saveAppearance_def split: prod.splits sum.splits)
  have fs: "wn_fs w' = fs'"
    using assms(5,6) by (auto simp: settings_event_def Let_def reloadThresholds_def)
  have "dash_settings_fit ?s"
    using assms(4) by (simp add: dash_settings_fit_def form_dash_def choices_ok_def in_i32_def)
  from conjunct1 [OF dash_settings_roundtrip [OF assms(1,2) this assms(3) save]]
  show stored: "loadDashSettings (we_set env) (wn_fs w') = (if ok then ?s else loadDashSettings (we_set env) (wn_fs w))"
    by (simp add: fs)
  then show "dst_geminiApiKey (loadDashSettings (we_set env) (wn_fs w')) = dst_geminiApiKey (loadDashSettings (we_set env) (wn_fs w))"
    by (simp add: form_dash_def)
  show "wn_thresholds w' = (sd_cpu d, sd_ram d, sd_disk d)" if ok
    using assms(5,6) stored fs that by (auto simp: settings_event_def Let_def reloadThresholds_def form_dash_def)
  show "loadInto (loadDashSettings (we_set env) (wn_fs w')) d = d" if ok
    using assms(4) stored that
    by (simp add: loadInto_def fill_appearance_def form_dash_def combo_def spin_percent_def choices_ok_def)
qed

definition demo_form :: settings_dialog where
  "demo_form = fill_appearance ''mono'' ''vi'' ''12h'' ''this_week'' 70 85 90 (new_settings_dialog False default_dash)"

definition demo_save_env :: window_env where
  "demo_save_env =
     demo_window_env\<lparr>we_set := demo_set_env\<lparr>sx_lib := one_json (JsObj (dash_fields (form_dash demo_form default_dash)))\<rparr>\<rparr>"

lemma window_start_fields:
  "wn_fs (window_start env fs) = fs" "wn_dialog (window_start env fs) = NoDialog" "wn_jobs (window_start env fs) = []"
  by (simp_all add: window_start_def buildUi_def window_pushHeartbeat_def updateAccountGlyph_def reloadThresholds_def calls_def
      showSection_def Let_def split: option.split)

definition demo_save_window :: window where
  "demo_save_window = (window_start demo_save_env Map.empty)\<lparr>wn_dialog := InSettings 0 demo_form\<rparr>"

lemma saved_settings_apply_witness:
  "\<exists>w'. settings_event demo_save_env 0 demo_form PressSave demo_save_window = Some w' \<and>
     loadDashSettings (we_set demo_save_env) (wn_fs w') = form_dash demo_form default_dash \<and> wn_thresholds w' = (70, 85, 90)"
proof -
  let ?s = "form_dash demo_form default_dash" and ?env = "we_set demo_save_env"
  have e: "json_lib_ok (sx_lib ?env)" "crypto_works ?env" "sx_dir ?env = Some ''cfg''"
    by (simp_all add: demo_save_env_def demo_set_env_def one_json_ok crypto_works_def)
  have f: "choices_ok demo_form" unfolding demo_form_def by (rule fill_ok [OF new_dialog_ok])
  have fs: "wn_fs demo_save_window = Map.empty" by (simp add: demo_save_window_def window_start_fields)
  have "disk_json ?env ?s = Some (JsObj (dash_fields ?s))"
    by (simp add: disk_json_def form_dash_def default_dash_def)
  moreover have "jl_dump2 (sx_lib ?env) (JsObj (dash_fields ?s)) = Some ''X''"
    by (simp add: demo_save_env_def one_json_def)
  ultimately have "fst (saveDashSettings ?env ?s Map.empty) = Inr True"
    by (simp add: saveDashSettings_def) (simp add: demo_save_env_def demo_set_env_def settingsPath_def configFile_def)
  then obtain fs1 where "saveDashSettings ?env ?s Map.empty = (Inr True, fs1)"
    by (cases "saveDashSettings ?env ?s Map.empty") simp
  then obtain d' fs' where a: "saveAppearance ?env (wn_fs demo_save_window) demo_form = Some (True, d', fs')"
    by (simp add: saveAppearance_def fs)
  then obtain w' where w': "settings_event demo_save_env 0 demo_form PressSave demo_save_window = Some w'"
    by (simp add: settings_event_def Let_def)
  note p = saved_settings_apply [OF e f a w']
  have "sd_cpu demo_form = 70" "sd_ram demo_form = 85" "sd_disk demo_form = 90"
    by (simp_all add: demo_form_def fill_appearance_def spin_percent_def)
  with p w' show ?thesis by (simp add: fs)
qed

section \<open>Logging out\<close>

text \<open>C40: A logout in the settings removes the session only when the answer of the server finds the dialog open. When the dialog
  was closed before, the session stays stored although the server has ended it; when it is open no page is asked to refresh, so
  what the account showed stays on the screen. The button of the account refreshes them.\<close>

theorem settings_logout_gaps:
  assumes "window_session env w = Some s" and "wn_dialog w = NoDialog" and "wn_jobs w = []"
  shows "(\<exists>w'. page_run (window_step env) [PressSettings, PressLogout ev True, PressClose, DialogReply 0 (Answered r)] w = Some w' \<and>
      window_session env w' = Some s \<and> wn_dialog w' = NoDialog \<and> wn_jobs w' = []) \<and>
    (\<exists>w'. page_run (window_step env) [PressSettings, PressLogout ev True, DialogReply 0 (Answered r)] w = Some w' \<and>
      wn_fs w' = clearDashSession (we_dash env) (wn_fs w) \<and> wn_calls w' = wn_calls w) \<and>
    (\<exists>w'. page_run (window_step env) [PressAccount True] w = Some w' \<and>
      wn_fs w' = clearDashSession (we_dash env) (wn_fs w) \<and> wn_calls w' = wn_calls w @ account_refresh)"
  using assms
  by (simp add: window_step_def window_click_def openSettings_def open_dialog_def settings_event_def dialog_logout_def ask_def
      window_session_def new_settings_dialog_def loadInto_def fill_appearance_def close_settings_def updateAccountGlyph_def
      dialog_done_def drop_nth_def logged_out_def onAccountClicked_def calls_def)

definition demo_stored :: fs where
  "demo_stored = snd (saveDashSession demo_dash Dash_Session.demo_session Map.empty)"

lemma settings_logout_gaps_witness:
  "\<exists>w'. page_run (window_step demo_window_env) [PressSettings, PressLogout True True, PressClose, DialogReply 0 (Answered (Inr ()))]
      (window_start demo_window_env demo_stored) = Some w' \<and> window_session demo_window_env w' = Some Dash_Session.demo_session"
proof -
  obtain ok fs' where save: "saveDashSession demo_dash Dash_Session.demo_session Map.empty = (ok, fs')" by fastforce
  with demo_session_saved have ok: "ok" by simp
  have "dx_dir demo_dash = Some ''cfg''" by (simp add: demo_dash_def)
  from dash_session_roundtrip [OF demo_dash_works demo_session_clean this save] ok
  have "loadDashSession demo_dash demo_stored = Some Dash_Session.demo_session" by (simp add: demo_stored_def save)
  then have "window_session demo_window_env (window_start demo_window_env demo_stored) = Some Dash_Session.demo_session"
    by (simp add: window_session_def window_start_fields) (simp add: demo_window_env_def)
  from settings_logout_gaps [OF this window_start_fields(2,3)] show ?thesis by blast
qed

end
