(* ===== verification/Config_Dir.thy ===== *)
theory Config_Dir
  imports JIT_Prelude Json_Value
begin

text \<open>
  \<open>src/common/configdir.cpp\<close>, the directory of all files of agent and dashboard, and \<open>src/dashboard/dashi18n.cpp\<close>, the
  table of translations of the dashboard, which nothing there asks yet.
\<close>

section \<open>The directory\<close>

definition MAX_PATH :: nat where "MAX_PATH = 260"

definition dir_suffix :: wstr where "dir_suffix = map (\<lambda>c. of_nat (code c)) (bsl # ''JustInTime'')"

text \<open>\<open>appdata\<close>: the variable \<open>APPDATA\<close>. \<open>GetEnvironmentVariableW\<close> returns 0 for a variable that is missing or empty, and for
  one that does not fit the size that is needed; \<open>swprintf\<close> fails when the text and its NUL do not fit. The directory is made
  if it can be; the result does not depend on that.\<close>

definition GetEnvironmentVariableW :: "wstr option \<Rightarrow> nat \<Rightarrow> nat" where
  "GetEnvironmentVariableW v n =
     (case v of None \<Rightarrow> 0 | Some t \<Rightarrow> if length t < n then length t else length t + 1)"

definition configDirW :: "wstr option \<Rightarrow> nat \<Rightarrow> wstr option" where
  "configDirW appdata outChars =
     (let n = GetEnvironmentVariableW appdata MAX_PATH
      in if n = 0 \<or> MAX_PATH \<le> n then None
         else (let dir = the appdata @ dir_suffix in if outChars \<le> length dir then None else Some dir))"

text \<open>The buffer is never overrun, and with the buffer of \<open>configFile\<close> the directory is found exactly when the variable has
  between 1 and 248 units.\<close>

lemma configDirW_fits: "configDirW appdata outChars = Some dir \<Longrightarrow> length dir < outChars"
  by (auto simp: configDirW_def Let_def split: if_splits)

lemma configDirW_found:
  "configDirW appdata MAX_PATH \<noteq> None \<longleftrightarrow> (\<exists>t. appdata = Some t \<and> 1 \<le> length t \<and> length t \<le> 248)"
  by (cases appdata)
    (auto simp: configDirW_def GetEnvironmentVariableW_def MAX_PATH_def dir_suffix_def Let_def Suc_le_eq)

section \<open>Translations of the dashboard\<close>

text \<open>\<open>file\<close>: the bytes of \<open>i18n.json\<close>, \<open>None\<close> when it cannot be opened. \<open>Inl\<close> is the text of the exception.\<close>

definition loadI18n :: "json_lib \<Rightarrow> string \<Rightarrow> string option \<Rightarrow> string + json" where
  "loadI18n lib webRoot file =
     (let path = webRoot @ ''/i18n.json''
      in case file of
           None \<Rightarrow> Inl (''i18n: cannot open '' @ path)
         | Some text \<Rightarrow> (case jl_parse lib text of None \<Rightarrow> Inl (jl_what lib text) | Some j \<Rightarrow> Inr j))"

text \<open>The operator of the library makes a missing member null, in an object and in null; it throws for other values.\<close>

definition subscript :: "string \<Rightarrow> json \<Rightarrow> json result" where
  "subscript key j =
     (case j of
        JsObj fs \<Rightarrow> Inr (case map_of fs key of Some v \<Rightarrow> v | None \<Rightarrow> JsNull)
      | JsNull \<Rightarrow> Inr JsNull
      | _ \<Rightarrow> Inl JsonError)"

definition i18nDict :: "string \<Rightarrow> json \<Rightarrow> json result" where
  "i18nDict language translations =
     (if member language translations \<noteq> None then subscript language translations else subscript ''en'' translations)"

lemma i18nDict_language:
  "member lang t = Some d \<Longrightarrow> i18nDict lang t = Inr d"
  "member lang t = None \<Longrightarrow> member ''en'' t = Some d \<Longrightarrow> i18nDict lang t = Inr d"
  by (cases t; simp add: i18nDict_def subscript_def)+

end
