(* ===== verification/Spec2Isabelle.thy ===== *)
theory Spec2Isabelle
  imports Delivery Device_Id Agent_Outage Agent_Control Remote_View Limit_Chain Agent_Pages Agent_Start Update_Check
    Cloud_Rows Activity_Race Dash_Window Config_Dir
begin

text \<open>
  JustInTime: an agent for Windows that records which application is in the foreground, keeps the
  records in a local database, delivers them to a cloud service, and enforces limits that a parent
  has set; and a dashboard that shows the records of the machine and of the cloud. Paths below are
  relative to \<open>src/\<close> of the repository, whose C++ sources are under \<open>src/\<close> and \<open>includes/\<close> there.

  \<^bold>\<open>Parts and theories.\<close>

  \<^item> \<open>JIT_Prelude\<close>: byte and UTF-16 strings, C buffers, decimal numbers, casts of machine integers, lists.
    Named collections \<open>jit_defs\<close>, \<open>jit_bounds\<close>, \<open>jit_frame\<close>.
  \<^item> \<open>Str_Util\<close> (\<open>common/strutil.h\<close>) and \<open>Json_Util\<close> (\<open>agent/shared/jsonutil.cpp\<close>): escaping, and the agent's own
    JSON scanner. \<open>Json_Rows\<close>: reading the flat objects a server renders.
  \<^item> \<open>Batch_Send\<close> (\<open>batchsend.h\<close>): sending a batch by bisection, with a request budget.
  \<^item> \<open>File_Store\<close> (\<open>paths.h\<close>): replacing a file atomically; the same operation one system call at a time.
  \<^item> \<open>Settings_Store\<close> (\<open>settings.cpp\<close>) and \<open>Device_Id\<close> (\<open>device.cpp\<close>, \<open>dashconfig.cpp\<close>): the two files that agent and
    dashboard keep.
  \<^item> \<open>Http_Client\<close>, \<open>Auth_Session\<close>, \<open>Rest_Client\<close> (\<open>httpclient.cpp\<close>, \<open>auth.cpp\<close>, \<open>restclient.cpp\<close>): connection and retry,
    the session and its file, token refresh around one call.
  \<^item> \<open>Activity_Db\<close> (\<open>database.cpp\<close>): the table of records, one HOL function per SQL statement. \<open>Sync_Queue\<close>: the
    interface the sync engine needs of it.
  \<^item> \<open>Network_Send\<close>, \<open>Sync_Engine\<close>, \<open>Delivery\<close> (\<open>network.cpp\<close>, \<open>sync.cpp\<close>): the request body and its outcome, the
    sync cycle, and the cycle interleaved with the other threads.
  \<^item> \<open>App_Limits\<close>, \<open>Parent_Link\<close>, \<open>Machines_Hb\<close>, \<open>Backup_Snap\<close> (\<open>applimits.cpp\<close>, \<open>parentlink.cpp\<close>, \<open>machines.cpp\<close>,
    \<open>backup.cpp\<close>).
  \<^item> \<open>Activity_Track\<close>, \<open>Activity_Race\<close> (\<open>activity.cpp\<close>): tracking and limits in one thread, and the critical
    sections of two threads interleaved.
  \<^item> \<open>Agent_Loop\<close>, \<open>Agent_Outage\<close>, \<open>Agent_Control\<close> (\<open>agent/agent/main.cpp\<close>): the watch loop, the cloud loop, the lock and
    power messages and the exit, on the state of the whole agent.
  \<^item> \<open>Remote_View\<close> (\<open>remoteview.cpp\<close>) and \<open>Update_Check\<close> (\<open>updatechecker.cpp\<close>).
  \<^item> \<open>Dash_Local\<close> (\<open>localdb.cpp\<close>), \<open>Dash_Session\<close> (\<open>dashsession.cpp\<close>, \<open>autostart.cpp\<close>), \<open>Json_Value\<close> and \<open>Dash_Settings\<close>
    (\<open>dashsettings.cpp\<close>), \<open>Dash_Cloud\<close>, \<open>Cloud_Client\<close>, \<open>Cloud_Rows\<close> (\<open>cloud.cpp\<close>): the dashboard.
  \<^item> \<open>Sys_Stats\<close> (\<open>sysstats.cpp\<close>), \<open>Dash_Export\<close> (CSV export, alerts, histories and sums of the window).
  \<^item> Pages of the dashboard (\<open>dashboard/ui/\<close>): \<open>Dash_Devices\<close>, \<open>Dash_Family\<close>, \<open>Dash_Lists\<close> (\<open>devicespage.cpp\<close>,
    \<open>familypage.cpp\<close>, \<open>cloudpage.cpp\<close> and \<open>machinessidebar.cpp\<close> as state machines with requests in flight), \<open>Dash_Overview\<close>
    (\<open>overviewpage.cpp\<close>, \<open>localpage.cpp\<close>, \<open>metricpages.cpp\<close> and what the widgets draw), \<open>Dash_Window\<close> (\<open>mainwindow.cpp\<close>,
    \<open>leftrail.cpp\<close>, the dialogs, \<open>main.cpp\<close>).
  \<^item> Windows of the agent: \<open>I18n_Table\<close> (\<open>i18n.cpp\<close>), \<open>Parent_Page\<close> (\<open>parentpage.cpp\<close>, \<open>parentlinkpage.cpp\<close>), \<open>Agent_Pages\<close>
    (the pages of settings, remote view, Supabase and login), \<open>Control_Panel\<close> (\<open>controlpanelwindow.cpp\<close>), \<open>Tray_Icon\<close>
    (\<open>trayicon.cpp\<close>), \<open>Agent_Start\<close> (the start of \<open>main.cpp\<close>, \<open>log.cpp\<close>).
  \<^item> \<open>Cloud_Policy\<close> (\<open>migrations/004\<close>, \<open>006\<close>): tables, constraints and row policies of the family. \<open>Limit_Chain\<close>: a limit from
    the form of the parent to the agent of the child. \<open>Config_Dir\<close> (\<open>configdir.cpp\<close>, \<open>dashi18n.cpp\<close>).

  \<^bold>\<open>How state and operations correspond.\<close> A struct is a record with its fields, the globals of a file are a
  record of their own (\<open>settings_state\<close>, \<open>limits_state\<close>, \<open>track_state\<close>, \<open>rv_state\<close>), the disk is a map from paths to
  contents. An operation takes the state and returns it updated; early returns are branches. What
  Windows, the network, DPAPI, the clock or the code pages answer is an argument or a field of an
  environment record; \<open>net\<close> in \<open>Http_Client\<close> is the network as a function on an abstract world. Errors are
  values: \<open>option\<close>, a pair with a flag, or the sum \<open>result\<close> of \<open>Json_Value\<close> for the exceptions of the dashboard.
  Integers are \<open>int\<close> with the narrowing casts written out (\<open>to_i32\<close>, \<open>to_i64\<close>), UTF-16 units are 16-bit words.

  A page is what its widgets show; a request keeps the token and the arguments it was started with, replies arrive in any
  order, and \<open>None\<close> is the use of an empty \<open>std::optional\<close> or an exception that nothing catches.

  \<^bold>\<open>Interfaces.\<close> \<open>File_Store\<close> and \<open>Sync_Queue\<close> hold locales (a text that reads back, a pending queue), interpreted on
  the settings, sessions and database of the program. The locale of \<open>Dash_Family\<close> (what every event keeps of a state when all
  that it brings is known, a run keeps) is interpreted on the family page, the cloud page and the window.

  \<^bold>\<open>What is shown.\<close> Delivery: no record is lost before the server accepted it, whatever other threads do
  between the sections of a cycle; a refused record is isolated and holds up no other; a backlog
  drains; in an outage the attempts back off and recover. Tracking: sessions are disjoint and exact, locked
  time is not recorded, in every interleaving the latch excludes concurrent saves. Limits: an application is
  terminated exactly when a limit of the account applies, a parent's block is enforced end to end, and
  agent and dashboard read the same limits and the same usage. Files: a crash leaves the old or the
  new contents, every file that is written is read back, and a restart finds settings, session and records. Requests: no request is repeated that may not be,
  tokens are refreshed within the call, the remote view tells nothing to an unauthorised request. Family: without the consent of a child nobody reads its activity or
  limits it, whatever requests are sent; a limit that is saved reaches the agent of the child; the pages only ask for what
  the cloud has listed. Windows: icon, window and stored settings agree through every sequence of events, and what a page
  shows of a day is what was recorded. Several theorems state what the code does where it seems not to be meant: they are
  named in the findings.

  \<^bold>\<open>Bounds and fuel.\<close> No recursion uses fuel that the code does not have: the bisection is bounded by its
  request budget (20 a round, enough for one bad record in a batch of 100 as 15 requests suffice; a server that answers
  at all ends it after \<open>2n - 1\<close> requests), a cycle by 20 rounds of 100 records, the read loops by the
  length of what they read. Buffer sizes are those of the code.

  \<^bold>\<open>Parameters.\<close> WinHTTP, DPAPI, the registry, base64, UTF-8 conversion, random bytes, directory listing,
  calendar functions and \<open>nlohmann::json\<close>'s parser and printer are parameters, with what the code relies
  on as hypotheses of the theorems; every such theorem has a witness with concrete functions.

  \<^bold>\<open>Not modelled.\<close> Layout, style sheets, animation and painting beyond the rectangles and points of the charts; the
  message pump of Windows; the vendored SQLite and JSON sources; the installer. SQL statements are modelled by what they mean
  on the rows. Doubles are rational numbers without rounding. Memory, locks as such and thread scheduling appear only as the
  atomic sections of \<open>Delivery\<close> and \<open>Activity_Race\<close>, and as the order of replies.
\<close>

end
